(* ===== verification/AK_Prelude.thy ===== *)
theory AK_Prelude
  imports Main "HOL-Library.Word"
begin

text \<open>
  Shared vocabulary of the development: machine integers at the width the C sources use,
  the C idiom \<open>flags & BIT\<close> as a predicate, fixed-size byte buffers, NUL-terminated strings
  and little-endian byte encodings, with the lemmas the component theories rewrite by.
\<close>

unbundle bit_operations_syntax

named_theorems ak_const \<open>values of the constants of the BPF sources\<close>
named_theorems ak_flag \<open>rewriting of flag tests\<close>
named_theorems ak_bytes \<open>lengths and projections of byte encodings\<close>

section \<open>Machine integers\<close>

type_synonym u8 = "8 word"
type_synonym u16 = "16 word"
type_synonym u32 = "32 word"
type_synonym u64 = "64 word"
type_synonym s8 = "8 word"
type_synonym s32 = "32 word"
type_synonym s64 = "64 word"

text \<open>A byte string as the C code sees it: the bytes of a buffer, one word each.\<close>

type_synonym bytes = "u8 list"

text \<open>A string literal of the C sources as bytes.\<close>

definition chars :: "string \<Rightarrow> bytes" where
  "chars s = map (\<lambda>c. of_char c) s"

section \<open>Flag tests\<close>

text \<open>The truth value of the C expression \<open>f & b\<close>.\<close>

definition has :: "u32 \<Rightarrow> u32 \<Rightarrow> bool" where
  "has f b \<longleftrightarrow> f AND b \<noteq> 0"

lemma or_eq_zero: "(x :: 'a::len word) OR y = 0 \<longleftrightarrow> x = 0 \<and> y = 0"
  by (metis bit.disj_zero_right or.left_idem or_eq_0_iff)

lemma has_or [ak_flag]: "has (f OR g) b \<longleftrightarrow> has f b \<or> has g b"
proof -
  have "(f OR g) AND b = (f AND b) OR (g AND b)"
    by (simp add: bit.conj_disj_distrib2)
  then show ?thesis by (auto simp: has_def or_eq_zero)
qed

lemma has_self: "has b b \<longleftrightarrow> b \<noteq> 0"
  by (simp add: has_def)

lemma has_zero [simp, ak_flag]: "\<not> has 0 b"
  by (simp add: has_def)

section \<open>Signed and unsigned readings\<close>

lemma uint_of_sint_pos:
  fixes w :: "'a::len word"
  assumes "0 \<le> sint w"
  shows "uint w = sint w"
proof -
  have "sint w < 2 ^ (LENGTH('a) - 1)" by (rule sint_lt)
  also have "\<dots> \<le> 2 ^ LENGTH('a)" by (rule power_increasing) auto
  finally show ?thesis using assms by (simp add: uint_sint take_bit_int_eq_self)
qed

lemma unat_of_sint_pos: "0 \<le> sint w \<Longrightarrow> unat w = nat (sint w)"
  by (simp add: uint_of_sint_pos flip: nat_uint_eq)

text \<open>The mask of a power-of-two buffer size.\<close>

lemma unat_and_255: "unat ((w :: u32) AND 255) = unat w mod 256"
proof -
  have "(255 :: u32) = mask 8" by (simp add: mask_eq_exp_minus_1)
  then have "w AND 255 = take_bit 8 w" by (simp add: take_bit_eq_mask)
  then show ?thesis by (simp add: unsigned_take_bit_eq take_bit_eq_mod unat_mod_distrib)
qed

lemma and_32_bits: "(w :: u64) AND 0xffffffff = take_bit 32 w"
proof -
  have "(0xffffffff :: u64) = mask 32" by (simp add: mask_eq_exp_minus_1)
  then show ?thesis by (simp only: take_bit_eq_mask)
qed

lemma ucast_eq_zero: "(ucast (x :: u8) :: u32) = 0 \<longleftrightarrow> x = 0"
proof -
  have "uint (ucast x :: u32) = uint x" by (simp add: uint_up_ucast is_up)
  then show ?thesis by (metis uint_0_iff)
qed

lemma xor_eq_zero: "(a :: 'a::len word) XOR b = 0 \<longleftrightarrow> a = b"
  by (auto simp: bit_eq_iff bit_xor_iff)

section \<open>Fixed-size buffers and NUL-terminated strings\<close>

text \<open>
  \<open>fit n bs\<close> is the content of an \<open>n\<close>-byte buffer that held zeros and into which \<open>bs\<close> was
  copied: cut at \<open>n\<close> bytes, padded with zeros.
\<close>

definition fit :: "nat \<Rightarrow> bytes \<Rightarrow> bytes" where
  "fit n bs = take n bs @ replicate (n - length bs) 0"

lemma length_fit [simp, ak_bytes]: "length (fit n bs) = n"
  by (simp add: fit_def)

lemma take_fit: "m \<le> n \<Longrightarrow> m \<le> length bs \<Longrightarrow> take m (fit n bs) = take m bs"
  by (simp add: fit_def)

text \<open>The characters in front of the first NUL: what a C string in a buffer denotes.\<close>

definition cstr :: "bytes \<Rightarrow> bytes" where
  "cstr bs = takeWhile (\<lambda>c. c \<noteq> 0) bs"

lemma cstr_Nil [simp]: "cstr [] = []"
  and cstr_Cons [simp]: "cstr (c # bs) = (if c = 0 then [] else c # cstr bs)"
  by (simp_all add: cstr_def)

lemma cstr_nonzero: "0 \<notin> set (cstr bs)"
  by (auto simp: cstr_def dest: set_takeWhileD)

lemma cstr_id: "0 \<notin> set bs \<Longrightarrow> cstr bs = bs"
  by (auto simp: cstr_def takeWhile_eq_all_conv)

lemma cstr_append_zero: "0 \<notin> set bs \<Longrightarrow> cstr (bs @ 0 # cs) = bs"
  by (induction bs) auto

lemma cstr_append_zeros: "0 \<notin> set bs \<Longrightarrow> cstr (bs @ replicate n 0) = bs"
  by (cases n) (auto simp: cstr_append_zero cstr_id)

lemma cstr_fit: "0 \<notin> set bs \<Longrightarrow> cstr (fit n bs) = take n bs"
  by (auto simp: fit_def intro: cstr_append_zeros dest: in_set_takeD)

lemma length_cstr_le: "length (cstr bs) \<le> length bs"
  by (simp add: cstr_def length_takeWhile_le)

lemma cstr_take: "cstr (take n bs) = take n (cstr bs)"
proof (induction bs arbitrary: n)
  case Nil
  then show ?case by simp
next
  case (Cons c bs)
  then show ?case by (cases n) auto
qed

section \<open>Little-endian encodings\<close>

text \<open>
  The \<open>n\<close> bytes of an integer in memory order on the (little-endian) x86-64 target, and the
  integer read back from its bytes.
\<close>

primrec le_bytes :: "nat \<Rightarrow> 'a::len word \<Rightarrow> bytes" where
  "le_bytes 0 w = []"
| "le_bytes (Suc n) w = ucast w # le_bytes n (drop_bit 8 w)"

primrec from_le :: "bytes \<Rightarrow> 'a::len word" where
  "from_le [] = 0"
| "from_le (b # bs) = ucast b OR push_bit 8 (from_le bs)"

lemma length_le_bytes [simp, ak_bytes]: "length (le_bytes n w) = n"
  by (induction n arbitrary: w) auto

lemma from_le_zeros [simp]: "from_le (replicate n 0) = 0"
  by (induction n) auto

lemma from_le_step:
  fixes w :: "'a::len word"
  shows "ucast (ucast w :: u8) OR push_bit 8 (take_bit m (drop_bit 8 w)) = take_bit (m + 8) w"
  by (rule bit_word_eqI) (auto simp: bit_simps)

lemma from_le_le_bytes_take: "from_le (le_bytes n w) = take_bit (8 * n) w"
proof (induction n arbitrary: w)
  case 0
  then show ?case by simp
next
  case (Suc n)
  then show ?case by (simp add: from_le_step add.commute)
qed

lemma from_le_le_bytes [simp, ak_bytes]:
  fixes w :: "'a::len word"
  assumes "LENGTH('a) \<le> 8 * n"
  shows "from_le (le_bytes n w) = w"
proof -
  have "take_bit (8 * n) w = w"
    using assms by (simp add: take_bit_word_eq_self)
  then show ?thesis by (simp add: from_le_le_bytes_take)
qed

end
