(* ===== verification/AK_Wire.thy ===== *)
theory AK_Wire
  imports AK_Prelude
begin

text \<open>
  The on-ring wire format of \<open>bpf/wire.bpf.h\<close>: the size bounds, the pseudo syscall ids, the
  forbidden-operation bits, the packed record header \<open>struct event_t\<close> with its byte image,
  and the two ring records built on it (\<open>struct ak_rec\<close> of \<open>bpf/helpers.bpf.h\<close>,
  \<open>struct ak_tls_rec\<close> of \<open>bpf/semantic.bpf.c\<close>).
\<close>

section \<open>Bounds\<close>

definition AK_TASK_COMM_LEN :: nat where [ak_const]: "AK_TASK_COMM_LEN = 16"
definition AK_MAX_STR :: nat where [ak_const]: "AK_MAX_STR = 256"
definition AK_PATH_MAX :: nat where [ak_const]: "AK_PATH_MAX = 1024"
definition AK_TLS_MAX :: nat where [ak_const]: "AK_TLS_MAX = 16384"

section \<open>Event types, pseudo syscall ids, categories\<close>

definition AK_UNARY :: s8 where [ak_const]: "AK_UNARY = 0"
definition AK_ENTER :: s8 where [ak_const]: "AK_ENTER = 1"
definition AK_EXIT :: s8 where [ak_const]: "AK_EXIT = 2"

definition AK_PSEUDO_SCHED_EXIT :: s32 where [ak_const]: "AK_PSEUDO_SCHED_EXIT = 1001"
definition AK_PSEUDO_DNS_ANSWER :: s32 where [ak_const]: "AK_PSEUDO_DNS_ANSWER = 1002"
definition AK_PSEUDO_TLS_READ :: s32 where [ak_const]: "AK_PSEUDO_TLS_READ = 1003"
definition AK_PSEUDO_TLS_WRITE :: s32 where [ak_const]: "AK_PSEUDO_TLS_WRITE = 1004"
definition AK_PSEUDO_LSM_FILE :: s32 where [ak_const]: "AK_PSEUDO_LSM_FILE = 1005"
definition AK_PSEUDO_DNS_QUERY :: s32 where [ak_const]: "AK_PSEUDO_DNS_QUERY = 1007"
definition AK_PSEUDO_LSM_EXEC :: s32 where [ak_const]: "AK_PSEUDO_LSM_EXEC = 1008"
definition AK_PSEUDO_PERSIST_EXEC :: s32 where [ak_const]: "AK_PSEUDO_PERSIST_EXEC = 1009"
definition AK_PSEUDO_IO_URING :: s32 where [ak_const]: "AK_PSEUDO_IO_URING = 1010"

definition AK_CAT_PROCESS :: s8 where [ak_const]: "AK_CAT_PROCESS = 0"
definition AK_CAT_FILE :: s8 where [ak_const]: "AK_CAT_FILE = 1"
definition AK_CAT_NETWORK :: s8 where [ak_const]: "AK_CAT_NETWORK = 2"
definition AK_CAT_CAP :: s8 where [ak_const]: "AK_CAT_CAP = 3"
definition AK_CAT_DNS :: s8 where [ak_const]: "AK_CAT_DNS = 4"

section \<open>Forbidden-operation bits\<close>

definition AK_OP_OPEN :: u32 where [ak_const]: "AK_OP_OPEN = 0x1"
definition AK_OP_EXEC :: u32 where [ak_const]: "AK_OP_EXEC = 0x2"
definition AK_OP_DELETE :: u32 where [ak_const]: "AK_OP_DELETE = 0x4"
definition AK_OP_RENAME :: u32 where [ak_const]: "AK_OP_RENAME = 0x8"
definition AK_OP_CHMOD :: u32 where [ak_const]: "AK_OP_CHMOD = 0x10"
definition AK_OP_CHOWN :: u32 where [ak_const]: "AK_OP_CHOWN = 0x20"
definition AK_OP_WRITE :: u32 where [ak_const]: "AK_OP_WRITE = 0x40"

section \<open>The record header\<close>

record event_t =
  h_event_type :: s8
  h_category :: s8
  h_cpu_id :: u16
  h_data_len :: u32
  h_timestamp :: u64
  h_cgroup_id :: u64
  h_host_ppid :: s32
  h_host_pid :: s32
  h_host_tid :: s32
  h_pid :: s32
  h_tid :: s32
  h_uid :: u32
  h_gid :: u32
  h_pid_ns :: u32
  h_mnt_ns :: u32
  h_syscall_id :: s32
  h_retval :: s64
  h_comm :: bytes

text \<open>
  The memory image of the packed structure: the fields in declaration order with no padding,
  integers little-endian, \<open>comm\<close> as its 16 bytes.
\<close>

definition event_bytes :: "event_t \<Rightarrow> bytes" where
  "event_bytes e =
     le_bytes 1 (h_event_type e) @ le_bytes 1 (h_category e) @ le_bytes 2 (h_cpu_id e) @
     le_bytes 4 (h_data_len e) @
     le_bytes 8 (h_timestamp e) @ le_bytes 8 (h_cgroup_id e) @
     le_bytes 4 (h_host_ppid e) @ le_bytes 4 (h_host_pid e) @ le_bytes 4 (h_host_tid e) @
     le_bytes 4 (h_pid e) @ le_bytes 4 (h_tid e) @
     le_bytes 4 (h_uid e) @ le_bytes 4 (h_gid e) @ le_bytes 4 (h_pid_ns e) @
     le_bytes 4 (h_mnt_ns e) @
     le_bytes 4 (h_syscall_id e) @ le_bytes 8 (h_retval e) @
     fit AK_TASK_COMM_LEN (h_comm e)"

section \<open>Ring records\<close>

record ak_rec =
  hdr :: event_t
  data :: bytes

record ak_tls_rec =
  tls_hdr :: event_t
  tls_data :: bytes

text \<open>
  A record as userspace receives it: the whole reserved size, header first, whatever part of
  the data area the program filled.
\<close>

definition rec_bytes :: "ak_rec \<Rightarrow> bytes" where
  "rec_bytes r = event_bytes (hdr r) @ fit AK_MAX_STR (data r)"

definition tls_rec_bytes :: "ak_tls_rec \<Rightarrow> bytes" where
  "tls_rec_bytes r = event_bytes (tls_hdr r) @ fit AK_TLS_MAX (tls_data r)"

lemma length_event_bytes [simp, ak_bytes]: "length (event_bytes e) = 88"
  by (simp add: event_bytes_def AK_TASK_COMM_LEN_def)

lemma length_rec_bytes [ak_bytes]: "length (rec_bytes r) = 344"
  by (simp add: rec_bytes_def AK_MAX_STR_def)

lemma length_tls_rec_bytes [ak_bytes]: "length (tls_rec_bytes r) = 16472"
  by (simp add: tls_rec_bytes_def AK_TLS_MAX_def)

end
