(* ===== verification/AK_Kernel.thy ===== *)
theory AK_Kernel
  imports AK_Wire
begin

text \<open>
  The interface between the BPF programs and the kernel. The kernel's own code is not part of
  the repository, so it is a parameter: a value of type \<open>kenv\<close>, an argument of every program,
  says what each BPF helper returns during one run of that program (who the current task is,
  what a path resolves to, what a probe of user or kernel memory yields, whether a map update
  or a ring reservation succeeds). Nothing is assumed of these results here; a theorem that
  needs documented behaviour of a helper states it as a hypothesis.

  The kernel structures the programs read (declared in \<open>bpf/vmlinux.h\<close>) are records of the
  fields that are read.
\<close>

section \<open>Kernel structures\<close>

text \<open>Addresses are 64-bit; 0 is \<open>NULL\<close>.\<close>

type_synonym kptr = u64

record struct_path =
  path_mnt :: kptr
  path_dentry :: kptr

record struct_inode =
  i_mode :: u16

record struct_file =
  f_path :: struct_path
  f_inode :: kptr
  f_mode :: u32

record struct_qstr =
  q_name :: kptr

record struct_dentry =
  d_name :: struct_qstr

record struct_linux_binprm =
  bprm_file :: struct_file
  bprm_filename :: kptr

record struct_task =
  t_tgid :: u32

text \<open>Tracepoint contexts: \<open>args\<close> are the six syscall argument registers.\<close>

record sys_enter_ctx =
  se_id :: s64
  se_args :: "nat \<Rightarrow> u64"

record sys_exit_ctx =
  sx_id :: s64
  sx_ret :: s64

record sched_fork_ctx =
  child_pid :: s32

record io_uring_ctx =
  ur_opcode :: u8

text \<open>The registers the Go and AEAD uprobes read directly.\<close>

record pt_regs =
  r_ax :: u64
  r_bx :: u64
  r_cx :: u64
  r_sp :: u64

section \<open>The helpers\<close>

text \<open>The maps a program updates, to name the call in the kernel's answer.\<close>

datatype ak_map =
    M_session_pids | M_posture | M_taint_files | M_flags
  | M_pipe_read_args | M_dns_fds | M_dns_read_args | M_db_fds | M_db_deny_pending
  | M_ssl_read_args | M_go_read_args | M_aead_open_args | M_asm_out_args

text \<open>
  A probe or a string helper returns its C return value and the bytes the destination buffer
  holds afterwards; the destination's size is applied with \<^const>\<open>fit\<close> at the call.
\<close>

record kenv =
  k_pid_tgid :: u64                                     \<comment> \<open>\<open>bpf_get_current_pid_tgid\<close>\<close>
  k_cgroup_id :: u64                                    \<comment> \<open>\<open>bpf_get_current_cgroup_id\<close>\<close>
  k_uid_gid :: u64                                      \<comment> \<open>\<open>bpf_get_current_uid_gid\<close>\<close>
  k_cpu :: u32                                          \<comment> \<open>\<open>bpf_get_smp_processor_id\<close>\<close>
  k_ktime :: u64                                        \<comment> \<open>\<open>bpf_ktime_get_ns\<close>\<close>
  k_comm :: bytes                                       \<comment> \<open>\<open>bpf_get_current_comm\<close>\<close>
  k_parent :: struct_task                               \<comment> \<open>\<open>bpf_get_current_task()->real_parent\<close>\<close>
  k_d_path :: "struct_path \<Rightarrow> s64 \<times> bytes"              \<comment> \<open>\<open>bpf_d_path\<close>\<close>
  k_inode :: "kptr \<Rightarrow> struct_inode"                      \<comment> \<open>\<open>BPF_CORE_READ(ino, ...)\<close>\<close>
  k_read_kernel :: "kptr \<Rightarrow> nat \<Rightarrow> s64 \<times> bytes"          \<comment> \<open>\<open>bpf_probe_read_kernel\<close>\<close>
  k_read_kernel_str :: "kptr \<Rightarrow> nat \<Rightarrow> s64 \<times> bytes"      \<comment> \<open>\<open>bpf_probe_read_kernel_str\<close>\<close>
  k_copy_kernel_str :: "bytes \<Rightarrow> nat \<Rightarrow> s64 \<times> bytes"     \<comment> \<open>the same, from a buffer of the program\<close>
  k_read_user :: "kptr \<Rightarrow> nat \<Rightarrow> s64 \<times> bytes"            \<comment> \<open>\<open>bpf_probe_read_user\<close>\<close>
  k_read_user_str :: "kptr \<Rightarrow> nat \<Rightarrow> s64 \<times> bytes"        \<comment> \<open>\<open>bpf_probe_read_user_str\<close>\<close>
  k_update :: "ak_map \<Rightarrow> u64 \<Rightarrow> s64"                     \<comment> \<open>return of \<open>bpf_map_update_elem\<close>\<close>
  k_evicted :: "ak_map \<Rightarrow> u64 \<Rightarrow> bool"                   \<comment> \<open>keys an LRU update drops\<close>
  k_inode_create :: "kptr \<Rightarrow> bool"                      \<comment> \<open>\<open>bpf_inode_storage_get(F_CREATE)\<close> succeeds\<close>
  k_reserve_events :: "nat \<Rightarrow> ak_rec option"            \<comment> \<open>\<open>bpf_ringbuf_reserve(&ak_events)\<close>\<close>
  k_reserve_semantic :: "nat \<Rightarrow> ak_tls_rec option"      \<comment> \<open>\<open>bpf_ringbuf_reserve(&ak_semantic)\<close>\<close>
  k_lpm_lookup :: "(u32 \<times> bytes \<rightharpoonup> u32) \<Rightarrow> u32 \<times> bytes \<Rightarrow> u32 option"
                                                        \<comment> \<open>lookup in an LPM trie\<close>

text \<open>
  A ring reservation returns memory that still holds an earlier record; the argument is the
  number of records already submitted to the ring.
\<close>

section \<open>Map updates\<close>

text \<open>
  \<open>bpf_map_update_elem\<close> on a hash or array map: on a non-zero return the map is unchanged.
\<close>

definition map_update ::
  "kenv \<Rightarrow> ak_map \<Rightarrow> 'k::len word \<Rightarrow> 'v \<Rightarrow> ('k word \<rightharpoonup> 'v) \<Rightarrow> 'k word \<rightharpoonup> 'v" where
  "map_update k M key v m = (if k_update k M (ucast key) = 0 then m(key \<mapsto> v) else m)"

text \<open>On an LRU hash a successful update may also drop other entries.\<close>

definition lru_update ::
  "kenv \<Rightarrow> ak_map \<Rightarrow> 'k::len word \<Rightarrow> 'v \<Rightarrow> ('k word \<rightharpoonup> 'v) \<Rightarrow> 'k word \<rightharpoonup> 'v" where
  "lru_update k M key v m =
     (if k_update k M (ucast key) = 0
      then (\<lambda>x. if x = key then Some v else if k_evicted k M (ucast x) then None else m x)
      else m)"

lemma map_update_other: "x \<noteq> key \<Longrightarrow> map_update k M key v m x = m x"
  by (simp add: map_update_def)

lemma map_update_same:
  "map_update k M key v m key = (if k_update k M (ucast key) = 0 then Some v else m key)"
  by (simp add: map_update_def)

lemma lru_update_same:
  "lru_update k M key v m key = (if k_update k M (ucast key) = 0 then Some v else m key)"
  by (simp add: lru_update_def)

lemma lru_update_sub: "x \<noteq> key \<Longrightarrow> lru_update k M key v m x \<in> {None, m x}"
  by (auto simp: lru_update_def)

section \<open>A concrete kernel\<close>

text \<open>
  One kernel on which every helper succeeds: thread 100 of process 100, whose paths all
  resolve to \<open>/a/b\<close> and whose kernel strings are \<open>b\<close> (\<open>c\<close> at address 4). It is the environment of the concrete instances of the theorems; other
  instances override single fields.
\<close>

definition blank_event :: event_t where
  "blank_event = \<lparr>h_event_type = 0, h_category = 0, h_cpu_id = 0, h_data_len = 0, h_timestamp = 0,
     h_cgroup_id = 0, h_host_ppid = 0, h_host_pid = 0, h_host_tid = 0, h_pid = 0, h_tid = 0,
     h_uid = 0, h_gid = 0, h_pid_ns = 0, h_mnt_ns = 0, h_syscall_id = 0, h_retval = 0,
     h_comm = replicate AK_TASK_COMM_LEN 0\<rparr>"

definition sample_env :: kenv where
  "sample_env = \<lparr>
     k_pid_tgid = 0x6400000064, k_cgroup_id = 7, k_uid_gid = 0, k_cpu = 0, k_ktime = 0,
     k_comm = [], k_parent = \<lparr>t_tgid = 1\<rparr>,
     k_d_path = (\<lambda>_. (5, chars ''/a/b'')),
     k_inode = (\<lambda>_. \<lparr>i_mode = 0\<rparr>),
     k_read_kernel = (\<lambda>_ n. (0, replicate n 0)),
     k_read_kernel_str = (\<lambda>p _. (2, if p = 4 then chars ''c'' else chars ''b'')),
     k_copy_kernel_str = (\<lambda>b n. (of_nat (length b), b)),
     k_read_user = (\<lambda>_ n. (0, replicate n 1)),
     k_read_user_str = (\<lambda>_ _. (2, chars ''b'')),
     k_update = (\<lambda>_ _. 0), k_evicted = (\<lambda>_ _. False), k_inode_create = (\<lambda>_. True),
     k_reserve_events = (\<lambda>_. Some \<lparr>hdr = blank_event, data = replicate AK_MAX_STR 0\<rparr>),
     k_reserve_semantic = (\<lambda>_. Some \<lparr>tls_hdr = blank_event, tls_data = replicate AK_TLS_MAX 0\<rparr>),
     k_lpm_lookup = (\<lambda>m key. m key) \<rparr>"

end
