(* ===== verification/AK_Maps.thy ===== *)
theory AK_Maps
  imports AK_Kernel
begin

text \<open>
  The BPF maps of \<open>bpf/maps.bpf.h\<close> and \<open>bpf/semantic.bpf.c\<close>: the flag bits stored in them,
  the value structures, and the record \<open>kstate\<close> with one field per map (built up by
  record extension, one record per group of maps). The per-CPU arrays
  carry the CPU number as a first argument; the two ring buffers are the lists of the records
  submitted so far, oldest first.
\<close>

section \<open>Session flags, posture, taint and control bits\<close>

definition AK_SESS_MONITOR :: u32 where [ak_const]: "AK_SESS_MONITOR = 0x1"
definition AK_SESS_ENFORCE :: u32 where [ak_const]: "AK_SESS_ENFORCE = 0x2"
definition AK_SESS_DENY_CODE :: u32 where [ak_const]: "AK_SESS_DENY_CODE = 0x4"
definition AK_SESS_DENY_EGRESS :: u32 where [ak_const]: "AK_SESS_DENY_EGRESS = 0x8"

definition AK_POSTURE_DENY_EGRESS :: u32 where [ak_const]: "AK_POSTURE_DENY_EGRESS = 0x1"
definition AK_POSTURE_DENY_TAINTED_CODE :: u32 where
  [ak_const]: "AK_POSTURE_DENY_TAINTED_CODE = 0x2"

definition AK_TAINT_WRITTEN :: u32 where [ak_const]: "AK_TAINT_WRITTEN = 0x1"
definition AK_TAINT_CODE :: u32 where [ak_const]: "AK_TAINT_CODE = 0x2"
definition AK_TAINT_PERSIST :: u32 where [ak_const]: "AK_TAINT_PERSIST = 0x4"

definition AK_FLAG_PERSIST_ARMED :: u32 where [ak_const]: "AK_FLAG_PERSIST_ARMED = 0x1"
definition AK_FLAG_MCP_ARMED :: u32 where [ak_const]: "AK_FLAG_MCP_ARMED = 0x2"
definition AK_FLAG_DB_ARMED :: u32 where [ak_const]: "AK_FLAG_DB_ARMED = 0x4"
definition AK_FLAG_DB_BLOCK_ARMED :: u32 where [ak_const]: "AK_FLAG_DB_BLOCK_ARMED = 0x8"

definition AK_ERR_PATH_UNRESOLVED :: u32 where [ak_const]: "AK_ERR_PATH_UNRESOLVED = 0"
definition AK_ERR_ARM_EGRESS :: u32 where [ak_const]: "AK_ERR_ARM_EGRESS = 1"
definition AK_ERR_ARM_SESSION :: u32 where [ak_const]: "AK_ERR_ARM_SESSION = 2"
definition AK_ERR_TAINT_STORE :: u32 where [ak_const]: "AK_ERR_TAINT_STORE = 3"
definition AK_ERR_DB_READ :: u32 where [ak_const]: "AK_ERR_DB_READ = 4"
definition AK_ERR_SLOTS :: u32 where [ak_const]: "AK_ERR_SLOTS = 5"

section \<open>Value structures\<close>

record ak_db_pat =
  pat_len :: u32
  pat :: bytes

record rw_stash =
  st_buf :: u64
  st_conn :: u64

record aead_open_args =
  ao_out :: u64
  ao_out_len_ptr :: u64

record asm_out_args =
  as_out :: u64
  as_len :: u64
  as_conn :: u64

text \<open>The keys of the two LPM tries: prefix length and address bytes.\<close>

type_synonym ak_lpm_key = "u32 \<times> bytes"
type_synonym ak_lpm_key6 = "u32 \<times> bytes"

section \<open>The maps\<close>

text \<open>The two rings.\<close>

record ring_maps =
  ak_events :: "ak_rec list"
  ak_semantic :: "ak_tls_rec list"

text \<open>Sessions, membership, signatures and posture.\<close>

record session_maps = ring_maps +
  ak_sessions :: "u64 \<rightharpoonup> u32"
  ak_self :: "u32 \<rightharpoonup> u8"
  ak_session_pids :: "u32 \<rightharpoonup> u32"
  ak_agent_sigs :: "u64 \<rightharpoonup> u32"
  ak_posture :: "u64 \<rightharpoonup> u32"

text \<open>Provenance, sensitive sources and the control word.\<close>

record taint_maps = session_maps +
  ak_taint_files :: "u64 \<rightharpoonup> u32"
  ak_taint_inode :: "kptr \<rightharpoonup> u32"
  ak_sensitive_files :: "u64 \<rightharpoonup> u32"
  ak_flags :: "u32 \<rightharpoonup> u32"

text \<open>Rules.\<close>

record rule_maps = taint_maps +
  ak_enforce_net :: "ak_lpm_key \<rightharpoonup> u32"
  ak_enforce_net6 :: "ak_lpm_key6 \<rightharpoonup> u32"
  ak_enforce_file :: "u64 \<rightharpoonup> u32"
  ak_enforce_dir :: "u64 \<rightharpoonup> u32"

text \<open>Registered descriptors, stashed buffers and the database block.\<close>

record fd_maps = rule_maps +
  ak_mcp_fds :: "u64 \<rightharpoonup> u8"
  ak_pipe_read_args :: "u64 \<rightharpoonup> u64"
  ak_dns_fds :: "u64 \<rightharpoonup> u8"
  ak_dns_read_args :: "u64 \<rightharpoonup> u64"
  ak_db_fds :: "u64 \<rightharpoonup> u8"
  ak_db_deny_tables :: "u32 \<rightharpoonup> ak_db_pat"
  ak_db_deny_pending :: "u32 \<rightharpoonup> u8"

text \<open>Per-CPU scratch buffers and counters.\<close>

record scratch_maps = fd_maps +
  ak_path_scratch :: "u32 \<Rightarrow> u32 \<rightharpoonup> bytes"
  ak_errors :: "u32 \<Rightarrow> u32 \<rightharpoonup> u64"
  ak_db_scratch :: "u32 \<Rightarrow> u32 \<rightharpoonup> bytes"

text \<open>All maps: the above and the stashes of \<open>bpf/semantic.bpf.c\<close>.\<close>

record kstate = scratch_maps +
  ak_ssl_read_args :: "u64 \<rightharpoonup> rw_stash"
  ak_go_read_args :: "u64 \<rightharpoonup> rw_stash"
  ak_aead_open_args :: "u64 \<rightharpoonup> aead_open_args"
  ak_asm_out_args :: "u64 \<rightharpoonup> asm_out_args"

text \<open>
  The maps as the kernel creates them when the object is loaded: hash maps empty, array maps
  with every slot present and zero.
\<close>

definition init_kstate :: kstate where
  "init_kstate = \<lparr>
     ak_events = [], ak_semantic = [],
     ak_sessions = Map.empty, ak_self = Map.empty, ak_session_pids = Map.empty,
     ak_agent_sigs = Map.empty, ak_posture = Map.empty, ak_taint_files = Map.empty,
     ak_taint_inode = Map.empty, ak_sensitive_files = Map.empty,
     ak_flags = [0 \<mapsto> 0],
     ak_enforce_net = Map.empty, ak_enforce_net6 = Map.empty,
     ak_enforce_file = Map.empty, ak_enforce_dir = Map.empty,
     ak_mcp_fds = Map.empty, ak_pipe_read_args = Map.empty,
     ak_dns_fds = Map.empty, ak_dns_read_args = Map.empty, ak_db_fds = Map.empty,
     ak_db_deny_tables =
       (\<lambda>i. if i < 4 then Some \<lparr>pat_len = 0, pat = replicate 32 0\<rparr> else None),
     ak_db_deny_pending = Map.empty,
     ak_path_scratch = (\<lambda>_. [0 \<mapsto> replicate AK_PATH_MAX 0]),
     ak_errors = (\<lambda>_ i. if i < AK_ERR_SLOTS then Some 0 else None),
     ak_db_scratch = (\<lambda>_. [0 \<mapsto> replicate 64 0]),
     ak_ssl_read_args = Map.empty, ak_go_read_args = Map.empty,
     ak_aead_open_args = Map.empty, ak_asm_out_args = Map.empty \<rparr>"

section \<open>Lookups of optional words\<close>

text \<open>The C idiom \<open>p && (*p & b)\<close> on the result of a map lookup.\<close>

definition opt_has :: "u32 option \<Rightarrow> u32 \<Rightarrow> bool" where
  "opt_has p b = (case p of None \<Rightarrow> False | Some v \<Rightarrow> has v b)"

lemma opt_has_simps [simp, ak_flag]:
  "opt_has None b = False"
  "opt_has (Some v) b = has v b"
  by (simp_all add: opt_has_def)

lemma opt_hasE:
  assumes "opt_has p b"
  obtains v where "p = Some v" "has v b"
  using assms by (cases p) auto

lemma has_const [ak_flag]:
  "has AK_SESS_DENY_EGRESS AK_SESS_DENY_EGRESS"
  "\<not> has AK_SESS_DENY_EGRESS AK_SESS_MONITOR"
  "\<not> has AK_SESS_DENY_EGRESS AK_SESS_ENFORCE"
  "\<not> has AK_SESS_DENY_EGRESS AK_SESS_DENY_CODE"
  "has AK_POSTURE_DENY_EGRESS AK_POSTURE_DENY_EGRESS"
  "\<not> has AK_POSTURE_DENY_EGRESS AK_POSTURE_DENY_TAINTED_CODE"
  "has AK_TAINT_WRITTEN AK_TAINT_WRITTEN"
  "\<not> has AK_TAINT_WRITTEN AK_TAINT_CODE"
  "has AK_TAINT_CODE AK_TAINT_CODE"
  by (simp_all add: has_def ak_const)

end
