(* ===== verification/AK_Helpers.thy ===== *)
theory AK_Helpers
  imports AK_Maps
begin

text \<open>
  \<open>bpf/helpers.bpf.h\<close>: the FNV-1a hashes over paths, the single-pass rule matcher and its
  two-buffer variant, path resolution, session attribution, and the record emitters every
  program shares. A C loop bounded by a constant is a recursion over the bounded part of the
  buffer; \<open>break\<close> at a NUL is the base case at 0.
\<close>

section \<open>FNV-1a\<close>

abbreviation slash :: u8 where "slash \<equiv> 0x2f"

definition FNV_BASIS :: u64 where [ak_const]: "FNV_BASIS = 0xcbf29ce484222325"

definition fnv_step :: "u64 \<Rightarrow> u8 \<Rightarrow> u64" where
  "fnv_step h c = (h XOR ucast c) * 0x100000001b3"

fun fnv1a_loop :: "u64 \<Rightarrow> bytes \<Rightarrow> u64" where
  "fnv1a_loop h [] = h"
| "fnv1a_loop h (c # cs) = (if c = 0 then h else fnv1a_loop (fnv_step h c) cs)"

definition ak_fnv1a :: "bytes \<Rightarrow> s32 \<Rightarrow> u64" where
  "ak_fnv1a buf len = fnv1a_loop FNV_BASIS (take (min AK_PATH_MAX (nat (sint len))) buf)"

definition AK_BASENAME_MAX :: nat where [ak_const]: "AK_BASENAME_MAX = AK_MAX_STR"

text \<open>\<open>c += 'a' - 'A'\<close> on an upper-case letter.\<close>

definition lc :: "u8 \<Rightarrow> u8" where
  "lc c = (if 0x41 \<le> c \<and> c \<le> 0x5a then c + 0x20 else c)"

fun fnv1a_basename_loop :: "u64 \<Rightarrow> bytes \<Rightarrow> u64" where
  "fnv1a_basename_loop h [] = h"
| "fnv1a_basename_loop h (c # cs) =
     (if c = 0 then h
      else if c = slash then fnv1a_basename_loop FNV_BASIS cs
      else fnv1a_basename_loop (fnv_step h (lc c)) cs)"

definition ak_fnv1a_basename :: "bytes \<Rightarrow> u64" where
  "ak_fnv1a_basename buf = fnv1a_basename_loop FNV_BASIS (take AK_BASENAME_MAX buf)"

section \<open>Task identity, error counters, path resolution\<close>

definition ak_tgid :: "kenv \<Rightarrow> u32" where
  "ak_tgid k = ucast (drop_bit 32 (k_pid_tgid k))"

definition ak_bump_err :: "kenv \<Rightarrow> u32 \<Rightarrow> kstate \<Rightarrow> kstate" where
  "ak_bump_err k slot s =
     (case ak_errors s (k_cpu k) slot of
        None \<Rightarrow> s
      | Some c \<Rightarrow> s\<lparr>ak_errors :=
          (ak_errors s)(k_cpu k := (ak_errors s (k_cpu k))(slot \<mapsto> c + 1))\<rparr>)"

text \<open>The result is the content of the per-CPU buffer, or \<open>None\<close> for \<open>NULL\<close>.\<close>

definition ak_path_resolve :: "kenv \<Rightarrow> struct_path \<Rightarrow> kstate \<Rightarrow> bytes option \<times> kstate" where
  "ak_path_resolve k p s =
     (case ak_path_scratch s (k_cpu k) 0 of
        None \<Rightarrow> (None, s)
      | Some _ \<Rightarrow>
          (let (n, b) = k_d_path k p;
               buf = fit AK_PATH_MAX b;
               s' = s\<lparr>ak_path_scratch := (ak_path_scratch s)
                       (k_cpu k := (ak_path_scratch s (k_cpu k))(0 \<mapsto> buf))\<rparr>
           in if sint n \<le> 0 then (None, ak_bump_err k AK_ERR_PATH_UNRESOLVED s')
              else (Some buf, s')))"

section \<open>Rule matching\<close>

text \<open>
  The scan of \<open>ak_forbidden\<close>: \<open>None\<close> is the early \<open>return 1\<close> on a matching ancestor, \<open>Some h\<close>
  leaves the loop with the running hash.
\<close>

fun forbidden_loop :: "(u64 \<rightharpoonup> u32) \<Rightarrow> u32 \<Rightarrow> nat \<Rightarrow> u64 \<Rightarrow> bytes \<Rightarrow> u64 option" where
  "forbidden_loop dirs opn i h [] = Some h"
| "forbidden_loop dirs opn i h (c # cs) =
     (if c = 0 then Some h
      else if c = slash \<and> 0 < i \<and> opt_has (dirs h) opn then None
      else forbidden_loop dirs opn (Suc i) (fnv_step h c) cs)"

definition ak_forbidden :: "kstate \<Rightarrow> bytes \<Rightarrow> u32 \<Rightarrow> bool" where
  "ak_forbidden s buf opn =
     (case forbidden_loop (ak_enforce_dir s) opn 0 FNV_BASIS (take AK_PATH_MAX buf) of
        None \<Rightarrow> True
      | Some h \<Rightarrow> opt_has (ak_enforce_file s h) opn)"

definition AK_NAME_MAX :: nat where [ak_const]: "AK_NAME_MAX = 128"

text \<open>The first loop of \<open>ak_fnv1a_split\<close> carries the last character out with the hash.\<close>

fun fnv1a_last_loop :: "u64 \<Rightarrow> u8 \<Rightarrow> bytes \<Rightarrow> u64 \<times> u8" where
  "fnv1a_last_loop h l [] = (h, l)"
| "fnv1a_last_loop h l (c # cs) =
     (if c = 0 then (h, l) else fnv1a_last_loop (fnv_step h c) c cs)"

definition ak_fnv1a_split :: "bytes \<Rightarrow> bytes \<Rightarrow> u64" where
  "ak_fnv1a_split dir name =
     (let (h, l) = fnv1a_last_loop FNV_BASIS 0 (take AK_PATH_MAX dir);
          h' = (if l \<noteq> slash then fnv_step h slash else h)
      in fnv1a_loop h' (take AK_NAME_MAX name))"

fun forbidden_last_loop ::
  "(u64 \<rightharpoonup> u32) \<Rightarrow> u32 \<Rightarrow> nat \<Rightarrow> u64 \<Rightarrow> u8 \<Rightarrow> bytes \<Rightarrow> (u64 \<times> u8) option" where
  "forbidden_last_loop dirs opn i h l [] = Some (h, l)"
| "forbidden_last_loop dirs opn i h l (c # cs) =
     (if c = 0 then Some (h, l)
      else if c = slash \<and> 0 < i \<and> opt_has (dirs h) opn then None
      else forbidden_last_loop dirs opn (Suc i) (fnv_step h c) c cs)"

definition ak_forbidden_split :: "kstate \<Rightarrow> bytes \<Rightarrow> bytes \<Rightarrow> u32 \<Rightarrow> bool" where
  "ak_forbidden_split s dir name opn =
     (case forbidden_last_loop (ak_enforce_dir s) opn 0 FNV_BASIS 0 (take AK_PATH_MAX dir) of
        None \<Rightarrow> True
      | Some (h, l) \<Rightarrow>
          if opt_has (ak_enforce_dir s h) opn then True
          else
            (let h' = (if l \<noteq> slash then fnv_step h slash else h);
                 hf = fnv1a_loop h' (take AK_NAME_MAX name)
             in opt_has (ak_enforce_file s hf) opn))"

section \<open>Global flags and session attribution\<close>

definition ak_flags_get :: "kstate \<Rightarrow> u32" where
  "ak_flags_get s = (case ak_flags s 0 of None \<Rightarrow> 0 | Some f \<Rightarrow> f)"

definition ak_flags_or_bit :: "kenv \<Rightarrow> u32 \<Rightarrow> kstate \<Rightarrow> kstate" where
  "ak_flags_or_bit k b s =
     (case ak_flags s 0 of
        Some f \<Rightarrow>
          if \<not> has f b then s\<lparr>ak_flags := map_update k M_flags 0 (f OR b) (ak_flags s)\<rparr> else s
      | None \<Rightarrow> s\<lparr>ak_flags := map_update k M_flags 0 b (ak_flags s)\<rparr>)"

definition ak_is_self :: "kenv \<Rightarrow> kstate \<Rightarrow> bool" where
  "ak_is_self k s = (ak_self s (ak_tgid k) \<noteq> None)"

text \<open>The out-parameter \<open>*out_cgid\<close> is always \<open>k_cgroup_id k\<close>.\<close>

definition ak_session_flags :: "kenv \<Rightarrow> kstate \<Rightarrow> u32" where
  "ak_session_flags k s =
     (if ak_self s (ak_tgid k) \<noteq> None then 0
      else case ak_session_pids s (ak_tgid k) of
             Some f \<Rightarrow> f
           | None \<Rightarrow> (case ak_sessions s (k_cgroup_id k) of None \<Rightarrow> 0 | Some f \<Rightarrow> f))"

section \<open>Emitting records\<close>

definition ak_fill_header :: "kenv \<Rightarrow> u64 \<Rightarrow> s32 \<Rightarrow> s8 \<Rightarrow> event_t \<Rightarrow> event_t" where
  "ak_fill_header k cgid sid category e =
     (let pt = k_pid_tgid k; ug = k_uid_gid k in
      e\<lparr>h_event_type := AK_UNARY,
        h_category := category,
        h_cpu_id := ucast (k_cpu k),
        h_data_len := 0,
        h_timestamp := k_ktime k,
        h_cgroup_id := cgid,
        h_host_pid := ucast (drop_bit 32 pt),
        h_host_tid := ucast pt,
        h_host_ppid := 0,
        h_pid := ucast (drop_bit 32 pt),
        h_tid := ucast pt,
        h_uid := ucast ug,
        h_gid := ucast (drop_bit 32 ug),
        h_pid_ns := 0,
        h_mnt_ns := 0,
        h_syscall_id := sid,
        h_retval := 0,
        h_comm := fit AK_TASK_COMM_LEN (k_comm k)\<rparr>)"

text \<open>
  Both emitters copy a string into the data area and record its length when the copy
  succeeded; they differ in where the string lives.
\<close>

definition emit_rec ::
  "kenv \<Rightarrow> u64 \<Rightarrow> s32 \<Rightarrow> s8 \<Rightarrow> s64 \<Rightarrow> (s64 \<times> bytes) option \<Rightarrow> kstate \<Rightarrow> kstate" where
  "emit_rec k cgid sid cat ret str s =
     (case k_reserve_events k (length (ak_events s)) of
        None \<Rightarrow> s
      | Some r \<Rightarrow>
          (let h = (ak_fill_header k cgid sid cat (hdr r))\<lparr>h_retval := ret, h_data_len := 0\<rparr>;
               r' = (case str of
                       None \<Rightarrow> r\<lparr>hdr := h\<rparr>
                     | Some (n, b) \<Rightarrow>
                         r\<lparr>hdr := (if 0 < sint n then h\<lparr>h_data_len := ucast n\<rparr> else h),
                           data := fit AK_MAX_STR b\<rparr>)
           in s\<lparr>ak_events := ak_events s @ [r']\<rparr>))"

definition ak_emit ::
  "kenv \<Rightarrow> u64 \<Rightarrow> s32 \<Rightarrow> s8 \<Rightarrow> s64 \<Rightarrow> kptr \<Rightarrow> kstate \<Rightarrow> kstate" where
  "ak_emit k cgid sid cat ret res s =
     emit_rec k cgid sid cat ret
       (if res \<noteq> 0 then Some (k_read_user_str k res AK_MAX_STR) else None) s"

definition ak_emit_kstr ::
  "kenv \<Rightarrow> u64 \<Rightarrow> s32 \<Rightarrow> s8 \<Rightarrow> s64 \<Rightarrow> bytes option \<Rightarrow> kstate \<Rightarrow> kstate" where
  "ak_emit_kstr k cgid sid cat ret res s =
     emit_rec k cgid sid cat ret
       (map_option (\<lambda>b. k_copy_kernel_str k b AK_MAX_STR) res) s"

definition ak_emit_unresolved :: "kenv \<Rightarrow> u64 \<Rightarrow> s32 \<Rightarrow> s8 \<Rightarrow> kstate \<Rightarrow> kstate" where
  "ak_emit_unresolved k cgid sid cat s =
     ak_emit_kstr k cgid sid cat 0 (Some (fit 16 (chars ''<unresolved>''))) s"

definition ak_emit_arm_fault :: "kenv \<Rightarrow> u64 \<Rightarrow> kstate \<Rightarrow> kstate" where
  "ak_emit_arm_fault k cgid s =
     ak_emit_kstr k cgid AK_PSEUDO_LSM_EXEC AK_CAT_PROCESS 0
       (Some (fit 16 (chars ''<arm-failed>''))) s"

end
