(* ===== verification/AK_Frames.thy ===== *)
theory AK_Frames
  imports AK_Helpers
begin

text \<open>
  Frame facts of the shared helpers: which maps an emitted record, an error count or a path
  resolution leaves alone. They are rewrite rules, so that a program's effect on a map is read
  off its definition by simplification.
\<close>

named_theorems ak_frame \<open>maps a helper leaves unchanged\<close>

lemma emit_rec_eq:
  "emit_rec k cgid sid cat ret str s = s\<lparr>ak_events := ak_events (emit_rec k cgid sid cat ret str s)\<rparr>"
  by (simp add: emit_rec_def Let_def split: option.split)

lemma emit_rec_frame [simp, ak_frame]:
  "ak_semantic (emit_rec k cgid sid cat ret str s) = ak_semantic s"
  "ak_sessions (emit_rec k cgid sid cat ret str s) = ak_sessions s"
  "ak_self (emit_rec k cgid sid cat ret str s) = ak_self s"
  "ak_session_pids (emit_rec k cgid sid cat ret str s) = ak_session_pids s"
  "ak_agent_sigs (emit_rec k cgid sid cat ret str s) = ak_agent_sigs s"
  "ak_posture (emit_rec k cgid sid cat ret str s) = ak_posture s"
  "ak_taint_files (emit_rec k cgid sid cat ret str s) = ak_taint_files s"
  "ak_taint_inode (emit_rec k cgid sid cat ret str s) = ak_taint_inode s"
  "ak_sensitive_files (emit_rec k cgid sid cat ret str s) = ak_sensitive_files s"
  "ak_flags (emit_rec k cgid sid cat ret str s) = ak_flags s"
  "ak_enforce_net (emit_rec k cgid sid cat ret str s) = ak_enforce_net s"
  "ak_enforce_net6 (emit_rec k cgid sid cat ret str s) = ak_enforce_net6 s"
  "ak_enforce_file (emit_rec k cgid sid cat ret str s) = ak_enforce_file s"
  "ak_enforce_dir (emit_rec k cgid sid cat ret str s) = ak_enforce_dir s"
  "ak_mcp_fds (emit_rec k cgid sid cat ret str s) = ak_mcp_fds s"
  "ak_pipe_read_args (emit_rec k cgid sid cat ret str s) = ak_pipe_read_args s"
  "ak_dns_fds (emit_rec k cgid sid cat ret str s) = ak_dns_fds s"
  "ak_dns_read_args (emit_rec k cgid sid cat ret str s) = ak_dns_read_args s"
  "ak_db_fds (emit_rec k cgid sid cat ret str s) = ak_db_fds s"
  "ak_db_deny_tables (emit_rec k cgid sid cat ret str s) = ak_db_deny_tables s"
  "ak_db_deny_pending (emit_rec k cgid sid cat ret str s) = ak_db_deny_pending s"
  "ak_path_scratch (emit_rec k cgid sid cat ret str s) = ak_path_scratch s"
  "ak_errors (emit_rec k cgid sid cat ret str s) = ak_errors s"
  "ak_db_scratch (emit_rec k cgid sid cat ret str s) = ak_db_scratch s"
  "ak_ssl_read_args (emit_rec k cgid sid cat ret str s) = ak_ssl_read_args s"
  "ak_go_read_args (emit_rec k cgid sid cat ret str s) = ak_go_read_args s"
  "ak_aead_open_args (emit_rec k cgid sid cat ret str s) = ak_aead_open_args s"
  "ak_asm_out_args (emit_rec k cgid sid cat ret str s) = ak_asm_out_args s"
  by (subst emit_rec_eq, simp)+

lemma emit_rec_events:
  "\<exists>rs. ak_events (emit_rec k cgid sid cat ret str s) = ak_events s @ rs \<and> length rs \<le> 1"
  by (auto simp: emit_rec_def Let_def split: option.split)

lemma ak_emit_frame [simp, ak_frame]:
  "ak_semantic (ak_emit k cgid sid cat ret res s) = ak_semantic s"
  "ak_sessions (ak_emit k cgid sid cat ret res s) = ak_sessions s"
  "ak_self (ak_emit k cgid sid cat ret res s) = ak_self s"
  "ak_session_pids (ak_emit k cgid sid cat ret res s) = ak_session_pids s"
  "ak_agent_sigs (ak_emit k cgid sid cat ret res s) = ak_agent_sigs s"
  "ak_posture (ak_emit k cgid sid cat ret res s) = ak_posture s"
  "ak_taint_files (ak_emit k cgid sid cat ret res s) = ak_taint_files s"
  "ak_taint_inode (ak_emit k cgid sid cat ret res s) = ak_taint_inode s"
  "ak_sensitive_files (ak_emit k cgid sid cat ret res s) = ak_sensitive_files s"
  "ak_flags (ak_emit k cgid sid cat ret res s) = ak_flags s"
  "ak_enforce_net (ak_emit k cgid sid cat ret res s) = ak_enforce_net s"
  "ak_enforce_net6 (ak_emit k cgid sid cat ret res s) = ak_enforce_net6 s"
  "ak_enforce_file (ak_emit k cgid sid cat ret res s) = ak_enforce_file s"
  "ak_enforce_dir (ak_emit k cgid sid cat ret res s) = ak_enforce_dir s"
  "ak_mcp_fds (ak_emit k cgid sid cat ret res s) = ak_mcp_fds s"
  "ak_pipe_read_args (ak_emit k cgid sid cat ret res s) = ak_pipe_read_args s"
  "ak_dns_fds (ak_emit k cgid sid cat ret res s) = ak_dns_fds s"
  "ak_dns_read_args (ak_emit k cgid sid cat ret res s) = ak_dns_read_args s"
  "ak_db_fds (ak_emit k cgid sid cat ret res s) = ak_db_fds s"
  "ak_db_deny_tables (ak_emit k cgid sid cat ret res s) = ak_db_deny_tables s"
  "ak_db_deny_pending (ak_emit k cgid sid cat ret res s) = ak_db_deny_pending s"
  "ak_path_scratch (ak_emit k cgid sid cat ret res s) = ak_path_scratch s"
  "ak_errors (ak_emit k cgid sid cat ret res s) = ak_errors s"
  "ak_db_scratch (ak_emit k cgid sid cat ret res s) = ak_db_scratch s"
  "ak_ssl_read_args (ak_emit k cgid sid cat ret res s) = ak_ssl_read_args s"
  "ak_go_read_args (ak_emit k cgid sid cat ret res s) = ak_go_read_args s"
  "ak_aead_open_args (ak_emit k cgid sid cat ret res s) = ak_aead_open_args s"
  "ak_asm_out_args (ak_emit k cgid sid cat ret res s) = ak_asm_out_args s"
  by (simp_all add: ak_emit_def)

lemma ak_emit_kstr_frame [simp, ak_frame]:
  "ak_semantic (ak_emit_kstr k cgid sid cat ret res' s) = ak_semantic s"
  "ak_sessions (ak_emit_kstr k cgid sid cat ret res' s) = ak_sessions s"
  "ak_self (ak_emit_kstr k cgid sid cat ret res' s) = ak_self s"
  "ak_session_pids (ak_emit_kstr k cgid sid cat ret res' s) = ak_session_pids s"
  "ak_agent_sigs (ak_emit_kstr k cgid sid cat ret res' s) = ak_agent_sigs s"
  "ak_posture (ak_emit_kstr k cgid sid cat ret res' s) = ak_posture s"
  "ak_taint_files (ak_emit_kstr k cgid sid cat ret res' s) = ak_taint_files s"
  "ak_taint_inode (ak_emit_kstr k cgid sid cat ret res' s) = ak_taint_inode s"
  "ak_sensitive_files (ak_emit_kstr k cgid sid cat ret res' s) = ak_sensitive_files s"
  "ak_flags (ak_emit_kstr k cgid sid cat ret res' s) = ak_flags s"
  "ak_enforce_net (ak_emit_kstr k cgid sid cat ret res' s) = ak_enforce_net s"
  "ak_enforce_net6 (ak_emit_kstr k cgid sid cat ret res' s) = ak_enforce_net6 s"
  "ak_enforce_file (ak_emit_kstr k cgid sid cat ret res' s) = ak_enforce_file s"
  "ak_enforce_dir (ak_emit_kstr k cgid sid cat ret res' s) = ak_enforce_dir s"
  "ak_mcp_fds (ak_emit_kstr k cgid sid cat ret res' s) = ak_mcp_fds s"
  "ak_pipe_read_args (ak_emit_kstr k cgid sid cat ret res' s) = ak_pipe_read_args s"
  "ak_dns_fds (ak_emit_kstr k cgid sid cat ret res' s) = ak_dns_fds s"
  "ak_dns_read_args (ak_emit_kstr k cgid sid cat ret res' s) = ak_dns_read_args s"
  "ak_db_fds (ak_emit_kstr k cgid sid cat ret res' s) = ak_db_fds s"
  "ak_db_deny_tables (ak_emit_kstr k cgid sid cat ret res' s) = ak_db_deny_tables s"
  "ak_db_deny_pending (ak_emit_kstr k cgid sid cat ret res' s) = ak_db_deny_pending s"
  "ak_path_scratch (ak_emit_kstr k cgid sid cat ret res' s) = ak_path_scratch s"
  "ak_errors (ak_emit_kstr k cgid sid cat ret res' s) = ak_errors s"
  "ak_db_scratch (ak_emit_kstr k cgid sid cat ret res' s) = ak_db_scratch s"
  "ak_ssl_read_args (ak_emit_kstr k cgid sid cat ret res' s) = ak_ssl_read_args s"
  "ak_go_read_args (ak_emit_kstr k cgid sid cat ret res' s) = ak_go_read_args s"
  "ak_aead_open_args (ak_emit_kstr k cgid sid cat ret res' s) = ak_aead_open_args s"
  "ak_asm_out_args (ak_emit_kstr k cgid sid cat ret res' s) = ak_asm_out_args s"
  by (simp_all add: ak_emit_kstr_def)

lemma ak_emit_unresolved_frame [simp, ak_frame]:
  "ak_semantic (ak_emit_unresolved k cgid sid cat s) = ak_semantic s"
  "ak_sessions (ak_emit_unresolved k cgid sid cat s) = ak_sessions s"
  "ak_self (ak_emit_unresolved k cgid sid cat s) = ak_self s"
  "ak_session_pids (ak_emit_unresolved k cgid sid cat s) = ak_session_pids s"
  "ak_agent_sigs (ak_emit_unresolved k cgid sid cat s) = ak_agent_sigs s"
  "ak_posture (ak_emit_unresolved k cgid sid cat s) = ak_posture s"
  "ak_taint_files (ak_emit_unresolved k cgid sid cat s) = ak_taint_files s"
  "ak_taint_inode (ak_emit_unresolved k cgid sid cat s) = ak_taint_inode s"
  "ak_sensitive_files (ak_emit_unresolved k cgid sid cat s) = ak_sensitive_files s"
  "ak_flags (ak_emit_unresolved k cgid sid cat s) = ak_flags s"
  "ak_enforce_net (ak_emit_unresolved k cgid sid cat s) = ak_enforce_net s"
  "ak_enforce_net6 (ak_emit_unresolved k cgid sid cat s) = ak_enforce_net6 s"
  "ak_enforce_file (ak_emit_unresolved k cgid sid cat s) = ak_enforce_file s"
  "ak_enforce_dir (ak_emit_unresolved k cgid sid cat s) = ak_enforce_dir s"
  "ak_mcp_fds (ak_emit_unresolved k cgid sid cat s) = ak_mcp_fds s"
  "ak_pipe_read_args (ak_emit_unresolved k cgid sid cat s) = ak_pipe_read_args s"
  "ak_dns_fds (ak_emit_unresolved k cgid sid cat s) = ak_dns_fds s"
  "ak_dns_read_args (ak_emit_unresolved k cgid sid cat s) = ak_dns_read_args s"
  "ak_db_fds (ak_emit_unresolved k cgid sid cat s) = ak_db_fds s"
  "ak_db_deny_tables (ak_emit_unresolved k cgid sid cat s) = ak_db_deny_tables s"
  "ak_db_deny_pending (ak_emit_unresolved k cgid sid cat s) = ak_db_deny_pending s"
  "ak_path_scratch (ak_emit_unresolved k cgid sid cat s) = ak_path_scratch s"
  "ak_errors (ak_emit_unresolved k cgid sid cat s) = ak_errors s"
  "ak_db_scratch (ak_emit_unresolved k cgid sid cat s) = ak_db_scratch s"
  "ak_ssl_read_args (ak_emit_unresolved k cgid sid cat s) = ak_ssl_read_args s"
  "ak_go_read_args (ak_emit_unresolved k cgid sid cat s) = ak_go_read_args s"
  "ak_aead_open_args (ak_emit_unresolved k cgid sid cat s) = ak_aead_open_args s"
  "ak_asm_out_args (ak_emit_unresolved k cgid sid cat s) = ak_asm_out_args s"
  by (simp_all add: ak_emit_unresolved_def)

lemma ak_emit_arm_fault_frame [simp, ak_frame]:
  "ak_semantic (ak_emit_arm_fault k cgid s) = ak_semantic s"
  "ak_sessions (ak_emit_arm_fault k cgid s) = ak_sessions s"
  "ak_self (ak_emit_arm_fault k cgid s) = ak_self s"
  "ak_session_pids (ak_emit_arm_fault k cgid s) = ak_session_pids s"
  "ak_agent_sigs (ak_emit_arm_fault k cgid s) = ak_agent_sigs s"
  "ak_posture (ak_emit_arm_fault k cgid s) = ak_posture s"
  "ak_taint_files (ak_emit_arm_fault k cgid s) = ak_taint_files s"
  "ak_taint_inode (ak_emit_arm_fault k cgid s) = ak_taint_inode s"
  "ak_sensitive_files (ak_emit_arm_fault k cgid s) = ak_sensitive_files s"
  "ak_flags (ak_emit_arm_fault k cgid s) = ak_flags s"
  "ak_enforce_net (ak_emit_arm_fault k cgid s) = ak_enforce_net s"
  "ak_enforce_net6 (ak_emit_arm_fault k cgid s) = ak_enforce_net6 s"
  "ak_enforce_file (ak_emit_arm_fault k cgid s) = ak_enforce_file s"
  "ak_enforce_dir (ak_emit_arm_fault k cgid s) = ak_enforce_dir s"
  "ak_mcp_fds (ak_emit_arm_fault k cgid s) = ak_mcp_fds s"
  "ak_pipe_read_args (ak_emit_arm_fault k cgid s) = ak_pipe_read_args s"
  "ak_dns_fds (ak_emit_arm_fault k cgid s) = ak_dns_fds s"
  "ak_dns_read_args (ak_emit_arm_fault k cgid s) = ak_dns_read_args s"
  "ak_db_fds (ak_emit_arm_fault k cgid s) = ak_db_fds s"
  "ak_db_deny_tables (ak_emit_arm_fault k cgid s) = ak_db_deny_tables s"
  "ak_db_deny_pending (ak_emit_arm_fault k cgid s) = ak_db_deny_pending s"
  "ak_path_scratch (ak_emit_arm_fault k cgid s) = ak_path_scratch s"
  "ak_errors (ak_emit_arm_fault k cgid s) = ak_errors s"
  "ak_db_scratch (ak_emit_arm_fault k cgid s) = ak_db_scratch s"
  "ak_ssl_read_args (ak_emit_arm_fault k cgid s) = ak_ssl_read_args s"
  "ak_go_read_args (ak_emit_arm_fault k cgid s) = ak_go_read_args s"
  "ak_aead_open_args (ak_emit_arm_fault k cgid s) = ak_aead_open_args s"
  "ak_asm_out_args (ak_emit_arm_fault k cgid s) = ak_asm_out_args s"
  by (simp_all add: ak_emit_arm_fault_def)

lemma ak_bump_err_frame [simp, ak_frame]:
  "ak_events (ak_bump_err k slot s) = ak_events s"
  "ak_semantic (ak_bump_err k slot s) = ak_semantic s"
  "ak_sessions (ak_bump_err k slot s) = ak_sessions s"
  "ak_self (ak_bump_err k slot s) = ak_self s"
  "ak_session_pids (ak_bump_err k slot s) = ak_session_pids s"
  "ak_agent_sigs (ak_bump_err k slot s) = ak_agent_sigs s"
  "ak_posture (ak_bump_err k slot s) = ak_posture s"
  "ak_taint_files (ak_bump_err k slot s) = ak_taint_files s"
  "ak_taint_inode (ak_bump_err k slot s) = ak_taint_inode s"
  "ak_sensitive_files (ak_bump_err k slot s) = ak_sensitive_files s"
  "ak_flags (ak_bump_err k slot s) = ak_flags s"
  "ak_enforce_net (ak_bump_err k slot s) = ak_enforce_net s"
  "ak_enforce_net6 (ak_bump_err k slot s) = ak_enforce_net6 s"
  "ak_enforce_file (ak_bump_err k slot s) = ak_enforce_file s"
  "ak_enforce_dir (ak_bump_err k slot s) = ak_enforce_dir s"
  "ak_mcp_fds (ak_bump_err k slot s) = ak_mcp_fds s"
  "ak_pipe_read_args (ak_bump_err k slot s) = ak_pipe_read_args s"
  "ak_dns_fds (ak_bump_err k slot s) = ak_dns_fds s"
  "ak_dns_read_args (ak_bump_err k slot s) = ak_dns_read_args s"
  "ak_db_fds (ak_bump_err k slot s) = ak_db_fds s"
  "ak_db_deny_tables (ak_bump_err k slot s) = ak_db_deny_tables s"
  "ak_db_deny_pending (ak_bump_err k slot s) = ak_db_deny_pending s"
  "ak_path_scratch (ak_bump_err k slot s) = ak_path_scratch s"
  "ak_db_scratch (ak_bump_err k slot s) = ak_db_scratch s"
  "ak_ssl_read_args (ak_bump_err k slot s) = ak_ssl_read_args s"
  "ak_go_read_args (ak_bump_err k slot s) = ak_go_read_args s"
  "ak_aead_open_args (ak_bump_err k slot s) = ak_aead_open_args s"
  "ak_asm_out_args (ak_bump_err k slot s) = ak_asm_out_args s"
  by (simp_all add: ak_bump_err_def split: option.split)

lemma ak_path_resolve_frame [simp, ak_frame]:
  "ak_events (snd (ak_path_resolve k p s)) = ak_events s"
  "ak_semantic (snd (ak_path_resolve k p s)) = ak_semantic s"
  "ak_sessions (snd (ak_path_resolve k p s)) = ak_sessions s"
  "ak_self (snd (ak_path_resolve k p s)) = ak_self s"
  "ak_session_pids (snd (ak_path_resolve k p s)) = ak_session_pids s"
  "ak_agent_sigs (snd (ak_path_resolve k p s)) = ak_agent_sigs s"
  "ak_posture (snd (ak_path_resolve k p s)) = ak_posture s"
  "ak_taint_files (snd (ak_path_resolve k p s)) = ak_taint_files s"
  "ak_taint_inode (snd (ak_path_resolve k p s)) = ak_taint_inode s"
  "ak_sensitive_files (snd (ak_path_resolve k p s)) = ak_sensitive_files s"
  "ak_flags (snd (ak_path_resolve k p s)) = ak_flags s"
  "ak_enforce_net (snd (ak_path_resolve k p s)) = ak_enforce_net s"
  "ak_enforce_net6 (snd (ak_path_resolve k p s)) = ak_enforce_net6 s"
  "ak_enforce_file (snd (ak_path_resolve k p s)) = ak_enforce_file s"
  "ak_enforce_dir (snd (ak_path_resolve k p s)) = ak_enforce_dir s"
  "ak_mcp_fds (snd (ak_path_resolve k p s)) = ak_mcp_fds s"
  "ak_pipe_read_args (snd (ak_path_resolve k p s)) = ak_pipe_read_args s"
  "ak_dns_fds (snd (ak_path_resolve k p s)) = ak_dns_fds s"
  "ak_dns_read_args (snd (ak_path_resolve k p s)) = ak_dns_read_args s"
  "ak_db_fds (snd (ak_path_resolve k p s)) = ak_db_fds s"
  "ak_db_deny_tables (snd (ak_path_resolve k p s)) = ak_db_deny_tables s"
  "ak_db_deny_pending (snd (ak_path_resolve k p s)) = ak_db_deny_pending s"
  "ak_db_scratch (snd (ak_path_resolve k p s)) = ak_db_scratch s"
  "ak_ssl_read_args (snd (ak_path_resolve k p s)) = ak_ssl_read_args s"
  "ak_go_read_args (snd (ak_path_resolve k p s)) = ak_go_read_args s"
  "ak_aead_open_args (snd (ak_path_resolve k p s)) = ak_aead_open_args s"
  "ak_asm_out_args (snd (ak_path_resolve k p s)) = ak_asm_out_args s"
  by (simp_all add: ak_path_resolve_def Let_def split: option.split prod.split)

lemma ak_flags_or_bit_frame [simp, ak_frame]:
  "ak_events (ak_flags_or_bit k b s) = ak_events s"
  "ak_semantic (ak_flags_or_bit k b s) = ak_semantic s"
  "ak_sessions (ak_flags_or_bit k b s) = ak_sessions s"
  "ak_self (ak_flags_or_bit k b s) = ak_self s"
  "ak_session_pids (ak_flags_or_bit k b s) = ak_session_pids s"
  "ak_agent_sigs (ak_flags_or_bit k b s) = ak_agent_sigs s"
  "ak_posture (ak_flags_or_bit k b s) = ak_posture s"
  "ak_taint_files (ak_flags_or_bit k b s) = ak_taint_files s"
  "ak_taint_inode (ak_flags_or_bit k b s) = ak_taint_inode s"
  "ak_sensitive_files (ak_flags_or_bit k b s) = ak_sensitive_files s"
  "ak_enforce_net (ak_flags_or_bit k b s) = ak_enforce_net s"
  "ak_enforce_net6 (ak_flags_or_bit k b s) = ak_enforce_net6 s"
  "ak_enforce_file (ak_flags_or_bit k b s) = ak_enforce_file s"
  "ak_enforce_dir (ak_flags_or_bit k b s) = ak_enforce_dir s"
  "ak_mcp_fds (ak_flags_or_bit k b s) = ak_mcp_fds s"
  "ak_pipe_read_args (ak_flags_or_bit k b s) = ak_pipe_read_args s"
  "ak_dns_fds (ak_flags_or_bit k b s) = ak_dns_fds s"
  "ak_dns_read_args (ak_flags_or_bit k b s) = ak_dns_read_args s"
  "ak_db_fds (ak_flags_or_bit k b s) = ak_db_fds s"
  "ak_db_deny_tables (ak_flags_or_bit k b s) = ak_db_deny_tables s"
  "ak_db_deny_pending (ak_flags_or_bit k b s) = ak_db_deny_pending s"
  "ak_path_scratch (ak_flags_or_bit k b s) = ak_path_scratch s"
  "ak_errors (ak_flags_or_bit k b s) = ak_errors s"
  "ak_db_scratch (ak_flags_or_bit k b s) = ak_db_scratch s"
  "ak_ssl_read_args (ak_flags_or_bit k b s) = ak_ssl_read_args s"
  "ak_go_read_args (ak_flags_or_bit k b s) = ak_go_read_args s"
  "ak_aead_open_args (ak_flags_or_bit k b s) = ak_aead_open_args s"
  "ak_asm_out_args (ak_flags_or_bit k b s) = ak_asm_out_args s"
  by (simp_all add: ak_flags_or_bit_def split: option.split)


section \<open>Session flags under frames\<close>

lemma ak_session_flags_cong:
  "ak_self s' = ak_self s \<Longrightarrow> ak_session_pids s' = ak_session_pids s \<Longrightarrow> ak_sessions s' = ak_sessions s
    \<Longrightarrow> ak_session_flags k s' = ak_session_flags k s"
  by (simp add: ak_session_flags_def split: option.split)

lemma ak_session_flags_task:
  "ak_tgid k' = ak_tgid k \<Longrightarrow> k_cgroup_id k' = k_cgroup_id k \<Longrightarrow>
   ak_session_flags k' s = ak_session_flags k s"
  by (simp add: ak_session_flags_def split: option.split)

lemma ak_session_flags_frame [simp, ak_frame]:
  "ak_session_flags k' (emit_rec k cgid sid cat ret str s) = ak_session_flags k' s"
  "ak_session_flags k' (ak_emit k cgid sid cat ret res s) = ak_session_flags k' s"
  "ak_session_flags k' (ak_emit_kstr k cgid sid cat ret res' s) = ak_session_flags k' s"
  "ak_session_flags k' (ak_emit_unresolved k cgid sid cat s) = ak_session_flags k' s"
  "ak_session_flags k' (ak_emit_arm_fault k cgid s) = ak_session_flags k' s"
  "ak_session_flags k' (ak_bump_err k slot s) = ak_session_flags k' s"
  "ak_session_flags k' (snd (ak_path_resolve k p s)) = ak_session_flags k' s"
  by (rule ak_session_flags_cong; simp)+

lemma ak_forbidden_frame [simp, ak_frame]:
  "ak_forbidden (ak_emit_kstr k cgid sid cat ret res' s) buf opn = ak_forbidden s buf opn"
  "ak_forbidden (ak_emit_unresolved k cgid sid cat s) buf opn = ak_forbidden s buf opn"
  "ak_forbidden (snd (ak_path_resolve k p s)) buf opn = ak_forbidden s buf opn"
  by (simp_all add: ak_forbidden_def split: option.split)

lemma ak_forbidden_split_frame [simp, ak_frame]:
  "ak_forbidden_split (ak_bump_err k slot s) d n opn = ak_forbidden_split s d n opn"
  "ak_forbidden_split (snd (ak_path_resolve k p s)) d n opn = ak_forbidden_split s d n opn"
  by (simp_all add: ak_forbidden_split_def Let_def split: option.split)

section \<open>Path resolution\<close>

definition path_of :: "kenv \<Rightarrow> struct_path \<Rightarrow> kstate \<Rightarrow> bytes option" where
  "path_of k p s =
     (if ak_path_scratch s (k_cpu k) 0 = None \<or> sint (fst (k_d_path k p)) \<le> 0 then None
      else Some (fit AK_PATH_MAX (snd (k_d_path k p))))"

lemma fst_ak_path_resolve [simp]: "fst (ak_path_resolve k p s) = path_of k p s"
  by (auto simp: ak_path_resolve_def path_of_def Let_def split: option.split prod.split)

lemma ak_path_resolve_cases:
  obtains (unresolved) "path_of k p s = None" "ak_path_resolve k p s = (None, snd (ak_path_resolve k p s))"
    | (resolved) buf where "path_of k p s = Some buf"
        "ak_path_resolve k p s = (Some buf, snd (ak_path_resolve k p s))"
  by (metis fst_ak_path_resolve option.exhaust prod.collapse)

lemma length_path_of: "path_of k p s = Some buf \<Longrightarrow> length buf = AK_PATH_MAX"
  by (auto simp: path_of_def split: if_splits)

lemma ak_path_resolve_split:
  "(case ak_path_resolve k p s of (None, s1) \<Rightarrow> f s1 | (Some buf, s1) \<Rightarrow> g buf s1) =
   (case path_of k p s of None \<Rightarrow> f (snd (ak_path_resolve k p s))
      | Some buf \<Rightarrow> g buf (snd (ak_path_resolve k p s)))"
  by (cases "ak_path_resolve k p s") (auto simp flip: fst_ak_path_resolve split: option.split)

lemma path_of_cong:
  "(ak_path_scratch s' (k_cpu k) 0 = None) = (ak_path_scratch s (k_cpu k) 0 = None) \<Longrightarrow>
   path_of k p s' = path_of k p s"
  by (simp add: path_of_def)

lemma path_of_resolve [simp]: "path_of k' p' (snd (ak_path_resolve k p s)) = path_of k' p' s"
  by (rule path_of_cong) (auto simp: ak_path_resolve_def Let_def split: option.split prod.split)

lemma path_of_frame [simp]:
  "path_of k' p' (ak_bump_err k slot s) = path_of k' p' s"
  "path_of k' p' (ak_emit_kstr k cgid sid cat ret res s) = path_of k' p' s"
  "path_of k' p' (s\<lparr>ak_taint_files := m\<rparr>) = path_of k' p' s"
  by (rule path_of_cong; simp)+

section \<open>Session flags and single map updates\<close>

lemma session_flags_update [simp]:
  "ak_session_flags k (s\<lparr>ak_taint_files := m1\<rparr>) = ak_session_flags k s"
  "ak_session_flags k (s\<lparr>ak_posture := m2\<rparr>) = ak_session_flags k s"
  "ak_session_flags k (s\<lparr>ak_db_deny_pending := m3\<rparr>) = ak_session_flags k s"
  "ak_session_flags k (s\<lparr>ak_events := m4\<rparr>) = ak_session_flags k s"
  "ak_session_flags k (s\<lparr>ak_semantic := m5\<rparr>) = ak_session_flags k s"
  "ak_session_flags k (s\<lparr>ak_ssl_read_args := m6\<rparr>) = ak_session_flags k s"
  "ak_session_flags k (s\<lparr>ak_go_read_args := m7\<rparr>) = ak_session_flags k s"
  "ak_session_flags k (s\<lparr>ak_aead_open_args := m8\<rparr>) = ak_session_flags k s"
  "ak_session_flags k (s\<lparr>ak_asm_out_args := m9\<rparr>) = ak_session_flags k s"
  "ak_session_flags k (s\<lparr>ak_pipe_read_args := m10\<rparr>) = ak_session_flags k s"
  "ak_session_flags k (s\<lparr>ak_dns_read_args := m11\<rparr>) = ak_session_flags k s"
  "ak_session_flags k (s\<lparr>ak_dns_fds := m12\<rparr>) = ak_session_flags k s"
  "ak_session_flags k (s\<lparr>ak_db_fds := m13\<rparr>) = ak_session_flags k s"
  "ak_session_flags k (s\<lparr>ak_db_scratch := m14\<rparr>) = ak_session_flags k s"
  by (rule ak_session_flags_cong; simp)+

section \<open>A session member on the concrete kernel\<close>

definition member_state :: "u32 \<Rightarrow> kstate" where
  "member_state f = init_kstate\<lparr>ak_session_pids := [100 \<mapsto> f]\<rparr>"

lemma sample_task [simp]: "ak_tgid sample_env = 100" "k_cgroup_id sample_env = 7"
  by (simp_all add: sample_env_def ak_tgid_def)

lemma member_flags:
  "ak_self s 100 = None \<Longrightarrow> ak_session_pids s 100 = Some f \<Longrightarrow> ak_session_flags sample_env s = f"
  by (simp add: ak_session_flags_def)

end
