(* ===== verification/AK_Stash.thy ===== *)
theory AK_Stash
  imports AK_Frames
begin

text \<open>
  The entry/return pairing that every read-side capture uses (\<open>bpf/semantic.bpf.c\<close>,
  \<open>bpf/stdio.bpf.c\<close>, \<open>bpf/network.bpf.c\<close>): the entry program stores the buffer under the
  thread's id, the return program emits it and deletes the entry. What a pair promises is the
  locale \<open>stash_pair\<close>; it is interpreted on every pair in the theory that defines it.
\<close>

datatype ('x, 'y) rw_event = Enter kenv 'x | Leave kenv 'y

fun rw_thread :: "('x, 'y) rw_event \<Rightarrow> u64" where
  "rw_thread (Enter k x) = k_pid_tgid k"
| "rw_thread (Leave k y) = k_pid_tgid k"

fun rw_step ::
  "(kenv \<Rightarrow> 'x \<Rightarrow> kstate \<Rightarrow> kstate) \<Rightarrow> (kenv \<Rightarrow> 'y \<Rightarrow> kstate \<Rightarrow> kstate)
    \<Rightarrow> ('x, 'y) rw_event \<Rightarrow> kstate \<Rightarrow> kstate" where
  "rw_step enter leave (Enter k x) s = enter k x s"
| "rw_step enter leave (Leave k y) s = leave k y s"

locale stash_pair =
  fixes stash :: "kstate \<Rightarrow> u64 \<rightharpoonup> 'v"
    and gate :: "kenv \<Rightarrow> kstate \<Rightarrow> bool"
    and enter :: "kenv \<Rightarrow> 'x \<Rightarrow> kstate \<Rightarrow> kstate"
    and leave :: "kenv \<Rightarrow> 'y \<Rightarrow> kstate \<Rightarrow> kstate"
  assumes enter_other: "t \<noteq> k_pid_tgid k \<Longrightarrow> stash (enter k x s) t = stash s t"
    and enter_silent: "ak_semantic (enter k x s) = ak_semantic s \<and> ak_events (enter k x s) = ak_events s"
    and leave_other: "t \<noteq> k_pid_tgid k \<Longrightarrow> stash (leave k y s) t = stash s t"
    and leave_absent: "stash s (k_pid_tgid k) = None \<Longrightarrow> leave k y s = s"
    and leave_consumes: "gate k s \<Longrightarrow> stash (leave k y s) (k_pid_tgid k) = None"
begin

text \<open>A second return of the same thread emits nothing and changes nothing.\<close>

lemma leave_once:
  assumes "gate k s" "k_pid_tgid k' = k_pid_tgid k"
  shows "leave k' y' (leave k y s) = leave k y s"
  using leave_absent leave_consumes assms by metis

text \<open>Whatever other threads do in between, a thread's entry waits for its own return.\<close>

lemma others_keep:
  "\<forall>e \<in> set es. rw_thread e \<noteq> t \<Longrightarrow> stash (fold (rw_step enter leave) es s) t = stash s t"
proof (induction es arbitrary: s)
  case (Cons e es)
  then show ?case
    using enter_other leave_other by (cases e) auto
qed simp

lemma enter_leave_clean:
  assumes "gate k' (enter k x s)" "k_pid_tgid k' = k_pid_tgid k"
    and "stash s (k_pid_tgid k) = None"
  shows "stash (leave k' y (enter k x s)) = stash s"
proof
  fix t
  show "stash (leave k' y (enter k x s)) t = stash s t"
    using assms enter_other [of t k x s] leave_other [of t k' y "enter k x s"] leave_consumes [of k' "enter k x s" y]
    by (cases "t = k_pid_tgid k") auto
qed

end

end
