(* ===== verification/AK_Semantic.thy ===== *)
theory AK_Semantic
  imports AK_Stash
begin

text \<open>
  \<open>bpf/semantic.bpf.c\<close>: plaintext capture at the TLS boundary. Write-side probes emit the
  buffer at entry; read-side probes stash the buffer at entry, keyed by the thread, and the
  return probe emits it with the returned length and drops the stash.
\<close>

section \<open>Emitting a plaintext chunk\<close>

definition ak_emit_tls ::
  "kenv \<Rightarrow> u64 \<Rightarrow> s8 \<Rightarrow> kptr \<Rightarrow> s32 \<Rightarrow> u64 \<Rightarrow> kstate \<Rightarrow> kstate" where
  "ak_emit_tls k cgid dir buf len conn s =
     (if sint len \<le> 0 then s
      else
        let rlen = (if of_nat (AK_TLS_MAX - 1) < (len :: u32) then of_nat (AK_TLS_MAX - 1) else len)
        in case k_reserve_semantic k (length (ak_semantic s)) of
             None \<Rightarrow> s
           | Some r \<Rightarrow>
               (let pt = k_pid_tgid k;
                    (n, b) = k_read_user k buf (unat rlen);
                    h = (tls_hdr r)\<lparr>
                          h_event_type := AK_UNARY,
                          h_category := dir,
                          h_cpu_id := ucast (k_cpu k),
                          h_timestamp := k_ktime k,
                          h_cgroup_id := cgid,
                          h_host_pid := ucast (drop_bit 32 pt),
                          h_host_tid := ucast pt,
                          h_syscall_id := (if dir = 0 then AK_PSEUDO_TLS_WRITE
                                           else AK_PSEUDO_TLS_READ),
                          h_retval := conn,
                          h_data_len := (if n = 0 then rlen else 0)\<rparr>;
                    d = fit (unat rlen) b @ drop (unat rlen) (fit AK_TLS_MAX (tls_data r))
                in s\<lparr>ak_semantic := ak_semantic s @ [\<lparr>tls_hdr = h, tls_data = d\<rparr>]\<rparr>))"

definition monitored :: "kenv \<Rightarrow> kstate \<Rightarrow> bool" where
  "monitored k s = has (ak_session_flags k s) AK_SESS_MONITOR"

section \<open>OpenSSL: SSL_write, SSL_read\<close>

definition ak_ssl_write :: "kenv \<Rightarrow> u64 \<Rightarrow> kptr \<Rightarrow> s32 \<Rightarrow> kstate \<Rightarrow> kstate" where
  "ak_ssl_write k ssl buf num s =
     (if \<not> monitored k s then s else ak_emit_tls k (k_cgroup_id k) 0 buf num ssl s)"

definition ak_ssl_read_enter :: "kenv \<Rightarrow> u64 \<times> kptr \<Rightarrow> kstate \<Rightarrow> kstate" where
  "ak_ssl_read_enter k = (\<lambda>(ssl, buf) s.
     if \<not> monitored k s then s
     else s\<lparr>ak_ssl_read_args := map_update k M_ssl_read_args (k_pid_tgid k)
              \<lparr>st_buf = buf, st_conn = ssl\<rparr> (ak_ssl_read_args s)\<rparr>)"

definition ak_ssl_read_exit :: "kenv \<Rightarrow> s32 \<Rightarrow> kstate \<Rightarrow> kstate" where
  "ak_ssl_read_exit k ret s =
     (if \<not> monitored k s then s
      else case ak_ssl_read_args s (k_pid_tgid k) of
             None \<Rightarrow> s
           | Some st \<Rightarrow>
               (let s1 = (if 0 < sint ret
                          then ak_emit_tls k (k_cgroup_id k) 1 (st_buf st) ret (st_conn st) s else s)
                in s1\<lparr>ak_ssl_read_args := (ak_ssl_read_args s1)(k_pid_tgid k := None)\<rparr>))"

section \<open>Go crypto/tls\<close>

definition ak_gotls_write :: "kenv \<Rightarrow> pt_regs \<Rightarrow> kstate \<Rightarrow> kstate" where
  "ak_gotls_write k ctx s =
     (if \<not> monitored k s then s
      else ak_emit_tls k (k_cgroup_id k) 0 (r_bx ctx) (ucast (r_cx ctx)) (r_ax ctx) s)"

definition ak_gotls_read_enter :: "kenv \<Rightarrow> pt_regs \<Rightarrow> kstate \<Rightarrow> kstate" where
  "ak_gotls_read_enter k ctx s =
     (if \<not> monitored k s then s
      else s\<lparr>ak_go_read_args := map_update k M_go_read_args (k_pid_tgid k)
               \<lparr>st_buf = r_bx ctx, st_conn = r_ax ctx\<rparr> (ak_go_read_args s)\<rparr>)"

definition ak_gotls_read_ret :: "kenv \<Rightarrow> pt_regs \<Rightarrow> kstate \<Rightarrow> kstate" where
  "ak_gotls_read_ret k ctx s =
     (case ak_go_read_args s (k_pid_tgid k) of
        None \<Rightarrow> s
      | Some st \<Rightarrow>
          (let n = r_ax ctx;
               s1 = s\<lparr>ak_go_read_args := (ak_go_read_args s)(k_pid_tgid k := None)\<rparr>
           in if sint n \<le> 0 then s1
              else if \<not> monitored k s1 then s1
              else ak_emit_tls k (k_cgroup_id k) 1 (st_buf st) (ucast n) (st_conn st) s1))"

section \<open>The AEAD boundary\<close>

definition ak_aead_open_enter :: "kenv \<Rightarrow> kptr \<times> kptr \<Rightarrow> kstate \<Rightarrow> kstate" where
  "ak_aead_open_enter k = (\<lambda>(out, out_len) s.
     if \<not> monitored k s then s
     else s\<lparr>ak_aead_open_args := map_update k M_aead_open_args (k_pid_tgid k)
              \<lparr>ao_out = out, ao_out_len_ptr = out_len\<rparr> (ak_aead_open_args s)\<rparr>)"

definition ak_aead_open_exit :: "kenv \<Rightarrow> s32 \<Rightarrow> kstate \<Rightarrow> kstate" where
  "ak_aead_open_exit k ret s =
     (if \<not> monitored k s then s
      else case ak_aead_open_args s (k_pid_tgid k) of
             None \<Rightarrow> s
           | Some a \<Rightarrow>
               (let s1 = (if ret = 1
                          then let len = (from_le (fit 8 (snd (k_read_user k (ao_out_len_ptr a) 8))) :: u64)
                               in ak_emit_tls k (k_cgroup_id k) 1 (ao_out a) (ucast len) 0 s
                          else s)
                in s1\<lparr>ak_aead_open_args := (ak_aead_open_args s1)(k_pid_tgid k := None)\<rparr>))"

definition ak_aead_seal :: "kenv \<Rightarrow> pt_regs \<Rightarrow> kstate \<Rightarrow> kstate" where
  "ak_aead_seal k ctx s =
     (if \<not> monitored k s then s
      else let sp = r_sp ctx;
               inp = (from_le (fit 8 (snd (k_read_user k (sp + 8) 8))) :: u64);
               in_len = (from_le (fit 8 (snd (k_read_user k (sp + 16) 8))) :: u64)
           in ak_emit_tls k (k_cgroup_id k) 0 inp (ucast in_len) 0 s)"

section \<open>The assembly AEAD boundary\<close>

text \<open>
  The three decrypting routines stash the output buffer, the requested length and the
  connection's key pointer in the same map.
\<close>

definition stash_asm :: "kenv \<Rightarrow> asm_out_args \<Rightarrow> kstate \<Rightarrow> kstate" where
  "stash_asm k a s =
     (if \<not> monitored k s then s
      else s\<lparr>ak_asm_out_args :=
               map_update k M_asm_out_args (k_pid_tgid k) a (ak_asm_out_args s)\<rparr>)"

definition ak_chacha_open_enter :: "kenv \<Rightarrow> kptr \<times> u64 \<times> u64 \<Rightarrow> kstate \<Rightarrow> kstate" where
  "ak_chacha_open_enter k = (\<lambda>(out, in_len, dat) s.
     stash_asm k \<lparr>as_out = out, as_len = in_len, as_conn = dat\<rparr> s)"

definition ak_chacha_open_exit :: "kenv \<Rightarrow> unit \<Rightarrow> kstate \<Rightarrow> kstate" where
  "ak_chacha_open_exit k u s =
     (if \<not> monitored k s then s
      else case ak_asm_out_args s (k_pid_tgid k) of
             None \<Rightarrow> s
           | Some a \<Rightarrow>
               (let s1 = ak_emit_tls k (k_cgroup_id k) 1 (as_out a) (ucast (as_len a)) (as_conn a) s
                in s1\<lparr>ak_asm_out_args := (ak_asm_out_args s1)(k_pid_tgid k := None)\<rparr>))"

definition ak_chacha_seal :: "kenv \<Rightarrow> kptr \<Rightarrow> u64 \<Rightarrow> u64 \<Rightarrow> kstate \<Rightarrow> kstate" where
  "ak_chacha_seal k inp in_len dat s =
     (if \<not> monitored k s then s
      else ak_emit_tls k (k_cgroup_id k) 0 inp (ucast in_len) dat s)"

definition ak_aesgcm_dec_enter :: "kenv \<Rightarrow> kptr \<times> u64 \<times> u64 \<Rightarrow> kstate \<Rightarrow> kstate" where
  "ak_aesgcm_dec_enter k = (\<lambda>(out, len, key) s.
     stash_asm k \<lparr>as_out = out, as_len = len, as_conn = key\<rparr> s)"

definition ak_aesgcm_dec_exit :: "kenv \<Rightarrow> u64 \<Rightarrow> kstate \<Rightarrow> kstate" where
  "ak_aesgcm_dec_exit k ret s =
     (if \<not> monitored k s then s
      else case ak_asm_out_args s (k_pid_tgid k) of
             None \<Rightarrow> s
           | Some a \<Rightarrow>
               (let n = (if ret \<noteq> 0 then ret else as_len a);
                    s1 = ak_emit_tls k (k_cgroup_id k) 1 (as_out a) (ucast n) (as_conn a) s
                in s1\<lparr>ak_asm_out_args := (ak_asm_out_args s1)(k_pid_tgid k := None)\<rparr>))"

definition ak_aesgcm_enc :: "kenv \<Rightarrow> kptr \<Rightarrow> u64 \<Rightarrow> u64 \<Rightarrow> kstate \<Rightarrow> kstate" where
  "ak_aesgcm_enc k inp len key s =
     (if \<not> monitored k s then s
      else ak_emit_tls k (k_cgroup_id k) 0 inp (ucast len) key s)"

definition ak_aesgcm512_enc :: "kenv \<Rightarrow> u64 \<Rightarrow> kptr \<Rightarrow> u64 \<Rightarrow> kstate \<Rightarrow> kstate" where
  "ak_aesgcm512_enc k key inp len s =
     (if \<not> monitored k s then s
      else ak_emit_tls k (k_cgroup_id k) 0 inp (ucast len) key s)"

definition ak_aesgcm512_dec_enter :: "kenv \<Rightarrow> kptr \<times> u64 \<times> u64 \<Rightarrow> kstate \<Rightarrow> kstate" where
  "ak_aesgcm512_dec_enter k = (\<lambda>(out, len, key) s.
     stash_asm k \<lparr>as_out = out, as_len = len, as_conn = key\<rparr> s)"

definition ak_aesgcm512_dec_exit :: "kenv \<Rightarrow> unit \<Rightarrow> kstate \<Rightarrow> kstate" where
  "ak_aesgcm512_dec_exit k u s =
     (if \<not> monitored k s then s
      else case ak_asm_out_args s (k_pid_tgid k) of
             None \<Rightarrow> s
           | Some a \<Rightarrow>
               (let s1 = ak_emit_tls k (k_cgroup_id k) 1 (as_out a) (ucast (as_len a)) (as_conn a) s
                in s1\<lparr>ak_asm_out_args := (ak_asm_out_args s1)(k_pid_tgid k := None)\<rparr>))"

section \<open>What a chunk holds\<close>

lemma ak_emit_tls_only:
  "ak_emit_tls k cgid dir buf len conn s
     = s\<lparr>ak_semantic := ak_semantic (ak_emit_tls k cgid dir buf len conn s)\<rparr>"
  by (simp add: ak_emit_tls_def Let_def split: option.split prod.split)

lemma emit_tls_frame [simp, ak_frame]:
  "ak_events (ak_emit_tls k cgid dir buf len conn s) = ak_events s"
  "ak_sessions (ak_emit_tls k cgid dir buf len conn s) = ak_sessions s"
  "ak_self (ak_emit_tls k cgid dir buf len conn s) = ak_self s"
  "ak_session_pids (ak_emit_tls k cgid dir buf len conn s) = ak_session_pids s"
  "ak_posture (ak_emit_tls k cgid dir buf len conn s) = ak_posture s"
  "ak_taint_files (ak_emit_tls k cgid dir buf len conn s) = ak_taint_files s"
  "ak_taint_inode (ak_emit_tls k cgid dir buf len conn s) = ak_taint_inode s"
  "ak_flags (ak_emit_tls k cgid dir buf len conn s) = ak_flags s"
  "ak_agent_sigs (ak_emit_tls k cgid dir buf len conn s) = ak_agent_sigs s"
  "ak_sensitive_files (ak_emit_tls k cgid dir buf len conn s) = ak_sensitive_files s"
  "ak_enforce_net (ak_emit_tls k cgid dir buf len conn s) = ak_enforce_net s"
  "ak_enforce_net6 (ak_emit_tls k cgid dir buf len conn s) = ak_enforce_net6 s"
  "ak_enforce_file (ak_emit_tls k cgid dir buf len conn s) = ak_enforce_file s"
  "ak_enforce_dir (ak_emit_tls k cgid dir buf len conn s) = ak_enforce_dir s"
  "ak_db_fds (ak_emit_tls k cgid dir buf len conn s) = ak_db_fds s"
  "ak_mcp_fds (ak_emit_tls k cgid dir buf len conn s) = ak_mcp_fds s"
  "ak_dns_fds (ak_emit_tls k cgid dir buf len conn s) = ak_dns_fds s"
  "ak_db_deny_tables (ak_emit_tls k cgid dir buf len conn s) = ak_db_deny_tables s"
  "ak_db_deny_pending (ak_emit_tls k cgid dir buf len conn s) = ak_db_deny_pending s"
  "ak_db_scratch (ak_emit_tls k cgid dir buf len conn s) = ak_db_scratch s"
  "ak_path_scratch (ak_emit_tls k cgid dir buf len conn s) = ak_path_scratch s"
  "ak_errors (ak_emit_tls k cgid dir buf len conn s) = ak_errors s"
  "ak_ssl_read_args (ak_emit_tls k cgid dir buf len conn s) = ak_ssl_read_args s"
  "ak_go_read_args (ak_emit_tls k cgid dir buf len conn s) = ak_go_read_args s"
  "ak_aead_open_args (ak_emit_tls k cgid dir buf len conn s) = ak_aead_open_args s"
  "ak_asm_out_args (ak_emit_tls k cgid dir buf len conn s) = ak_asm_out_args s"
  "ak_pipe_read_args (ak_emit_tls k cgid dir buf len conn s) = ak_pipe_read_args s"
  "ak_dns_read_args (ak_emit_tls k cgid dir buf len conn s) = ak_dns_read_args s"
  "ak_session_flags k' (ak_emit_tls k cgid dir buf len conn s) = ak_session_flags k' s"
  by (subst ak_emit_tls_only, simp)+

definition tls_take :: "s32 \<Rightarrow> nat" where
  "tls_take len = min (nat (sint len)) (AK_TLS_MAX - 1)"

lemma unat_rlen:
  assumes "0 < sint (len :: s32)"
  shows "unat (if of_nat (AK_TLS_MAX - 1) < len then of_nat (AK_TLS_MAX - 1) else len) = tls_take len"
  using assms by (auto simp: tls_take_def AK_TLS_MAX_def word_less_nat_alt unat_of_sint_pos)

text \<open>The record \<open>c\<close> is a capture of \<open>b\<close> on the connection \<open>conn\<close> in direction \<open>dir\<close>.\<close>

definition chunk_of :: "kenv \<Rightarrow> u64 \<Rightarrow> s8 \<Rightarrow> u64 \<Rightarrow> bytes \<Rightarrow> ak_tls_rec \<Rightarrow> bool" where
  "chunk_of k cgid dir conn b c \<longleftrightarrow>
     unat (h_data_len (tls_hdr c)) = length b \<and> take (length b) (tls_data c) = b
     \<and> length (tls_data c) = AK_TLS_MAX
     \<and> h_category (tls_hdr c) = dir \<and> h_retval (tls_hdr c) = conn \<and> h_cgroup_id (tls_hdr c) = cgid
     \<and> h_host_pid (tls_hdr c) = ak_tgid k
     \<and> h_syscall_id (tls_hdr c) = (if dir = 0 then AK_PSEUDO_TLS_WRITE else AK_PSEUDO_TLS_READ)"

lemma emit_tls_chunk:
  assumes "0 < sint len"
    and "k_reserve_semantic k (length (ak_semantic s)) = Some r"
    and "k_read_user k buf (tls_take len) = (0, b)" "length b = tls_take len"
  shows "\<exists>c. ak_semantic (ak_emit_tls k cgid dir buf len conn s) = ak_semantic s @ [c]
     \<and> chunk_of k cgid dir conn b c"
proof -
  have "tls_take len \<le> AK_TLS_MAX" by (simp add: tls_take_def)
  then show ?thesis
    using assms(2-4) unat_rlen [OF assms(1)] assms(1)
    by (auto simp: ak_emit_tls_def Let_def fit_def chunk_of_def ak_tgid_def split: if_splits)
qed

section \<open>The pairs\<close>

lemmas map_update_simps = map_update_other map_update_same

interpretation ssl: stash_pair ak_ssl_read_args monitored ak_ssl_read_enter ak_ssl_read_exit
  by unfold_locales
   (auto simp: ak_ssl_read_enter_def ak_ssl_read_exit_def map_update_other Let_def split: option.split prod.split)

interpretation gotls: stash_pair ak_go_read_args "\<lambda>_ _. True" ak_gotls_read_enter ak_gotls_read_ret
  by unfold_locales
   (auto simp: ak_gotls_read_enter_def ak_gotls_read_ret_def map_update_other Let_def split: option.split)

interpretation aead: stash_pair ak_aead_open_args monitored ak_aead_open_enter ak_aead_open_exit
  by unfold_locales
   (auto simp: ak_aead_open_enter_def ak_aead_open_exit_def map_update_other Let_def split: option.split prod.split)

lemmas asm_defs = stash_asm_def ak_chacha_open_enter_def ak_chacha_open_exit_def ak_aesgcm_dec_enter_def
  ak_aesgcm_dec_exit_def ak_aesgcm512_dec_enter_def ak_aesgcm512_dec_exit_def

interpretation chacha: stash_pair ak_asm_out_args monitored ak_chacha_open_enter ak_chacha_open_exit
  by unfold_locales (auto simp: asm_defs map_update_other Let_def split: option.split prod.split)
interpretation aesgcm: stash_pair ak_asm_out_args monitored ak_aesgcm_dec_enter ak_aesgcm_dec_exit
  by unfold_locales (auto simp: asm_defs map_update_other Let_def split: option.split prod.split)
interpretation aesgcm512: stash_pair ak_asm_out_args monitored ak_aesgcm512_dec_enter ak_aesgcm512_dec_exit
  by unfold_locales (auto simp: asm_defs map_update_other Let_def split: option.split prod.split)

section \<open>Properties\<close>

text \<open>
  Outbound plaintext at the TLS boundary: when the ring has room and the buffer can be read,
  \<open>SSL_write\<close> of a monitored process appends one chunk with the first \<open>min len 16383\<close> bytes of
  the buffer, tagged with the connection, and the recorded length is the number of bytes copied.
\<close>

lemma ssl_write_captured:
  assumes "monitored k s" "0 < sint num"
    and "k_reserve_semantic k (length (ak_semantic s)) = Some r"
    and "k_read_user k buf (min (nat (sint num)) 16383) = (0, b)" "length b = min (nat (sint num)) 16383"
  shows "\<exists>c. ak_semantic (ak_ssl_write k ssl buf num s) = ak_semantic s @ [c]
     \<and> chunk_of k (k_cgroup_id k) 0 ssl b c"
  using assms emit_tls_chunk [of num k s r buf b "k_cgroup_id k" 0 ssl]
  by (simp add: ak_ssl_write_def tls_take_def AK_TLS_MAX_def)

text \<open>
  Inbound plaintext: between the entry of \<open>SSL_read\<close> in a thread and its return, any number
  of entries and returns of \<open>SSL_read\<close> by other threads may run; the return still emits the
  thread's own buffer with the thread's own connection, cut at 16383 bytes, and removes the
  thread's entry, so a second return emits nothing.
\<close>

lemma ssl_read_captured:
  fixes es :: "(u64 \<times> kptr, s32) rw_event list"
  defines "t s \<equiv> fold (rw_step ak_ssl_read_enter ak_ssl_read_exit) es s"
  assumes "monitored k s" "k_update k M_ssl_read_args (k_pid_tgid k) = 0"
    and "\<forall>e \<in> set es. rw_thread e \<noteq> k_pid_tgid k"
    and "k_pid_tgid k' = k_pid_tgid k" "monitored k' (t (ak_ssl_read_enter k (ssl, buf) s))"
    and "0 < sint ret"
    and "k_reserve_semantic k' (length (ak_semantic (t (ak_ssl_read_enter k (ssl, buf) s)))) = Some r"
    and "k_read_user k' buf (tls_take ret) = (0, b)" "length b = tls_take ret"
  shows "(\<exists>c. ak_semantic (ak_ssl_read_exit k' ret (t (ak_ssl_read_enter k (ssl, buf) s)))
             = ak_semantic (t (ak_ssl_read_enter k (ssl, buf) s)) @ [c]
           \<and> chunk_of k' (k_cgroup_id k') 1 ssl b c)
    \<and> ak_ssl_read_args (ak_ssl_read_exit k' ret (t (ak_ssl_read_enter k (ssl, buf) s))) (k_pid_tgid k) = None"
proof -
  let ?s = "t (ak_ssl_read_enter k (ssl, buf) s)"
  have "ak_ssl_read_args (ak_ssl_read_enter k (ssl, buf) s) (k_pid_tgid k) = Some \<lparr>st_buf = buf, st_conn = ssl\<rparr>"
    using assms(2,3) by (simp add: ak_ssl_read_enter_def map_update_same)
  then have "ak_ssl_read_args ?s (k_pid_tgid k) = Some \<lparr>st_buf = buf, st_conn = ssl\<rparr>"
    using ssl.others_keep [OF assms(4)] by (simp add: t_def)
  then show ?thesis
    using assms(5-7) emit_tls_chunk [OF assms(7-10), of "k_cgroup_id k'" 1 ssl]
    by (simp add: ak_ssl_read_exit_def Let_def)
qed

text \<open>Two threads of one process read at the same time; the first to enter returns last.\<close>

lemma ssl_read_captured_example:
  "\<exists>c. ak_semantic (ak_ssl_read_exit sample_env 2
           (ak_ssl_read_enter (sample_env\<lparr>k_pid_tgid := 0x6400000065\<rparr>) (0x88, 0x2000)
             (ak_ssl_read_enter sample_env (0x77, 0x1000) (member_state 1)))) = [c]
     \<and> chunk_of sample_env 7 1 0x77 [1, 1] c"
proof -
  let ?k2 = "sample_env\<lparr>k_pid_tgid := 0x6400000065\<rparr>"
  let ?s1 = "ak_ssl_read_enter sample_env (0x77, 0x1000) (member_state 1)"
  let ?s2 = "ak_ssl_read_enter ?k2 (0x88, 0x2000) ?s1"
  have m: "monitored sample_env (member_state 1)"
    by (simp add: monitored_def member_flags member_state_def init_kstate_def has_def ak_const)
  have f: "ak_session_flags k (ak_ssl_read_enter k' a s) = ak_session_flags k s" for k k' a s
    by (simp add: ak_ssl_read_enter_def split: prod.split)
  have "monitored sample_env ?s2" using m by (simp add: monitored_def f)
  moreover have "ak_semantic ?s2 = []"
    using ssl.enter_silent by (simp add: member_state_def init_kstate_def)
  moreover have "tls_take 2 = 2" by (simp add: tls_take_def AK_TLS_MAX_def)
  moreover have "k_read_user sample_env 0x1000 2 = (0, [1, 1])"
    by (simp add: sample_env_def numeral_2_eq_2)
  moreover obtain r where "k_reserve_semantic sample_env 0 = Some r"
    by (simp add: sample_env_def)
  moreover have "k_update sample_env M x = 0" "k_pid_tgid sample_env = 0x6400000064" for M x
    by (simp_all add: sample_env_def)
  ultimately show ?thesis
    using m ssl_read_captured [of sample_env "member_state 1" "[Enter ?k2 (0x88, 0x2000)]" sample_env "0x77" "0x1000" 2 r "[1, 1]"]
    by simp
qed

end
