(* ===== verification/AK_Network.thy ===== *)
theory AK_Network
  imports AK_Stash "HOL-Library.Sublist"
begin

text \<open>
  \<open>bpf/network.bpf.c\<close>: outbound connects and DNS traffic. A connect is recorded with its
  destination; a connect to a DNS or database destination marks the socket in
  \<open>ak_dns_fds\<close> or \<open>ak_db_fds\<close>, which the receive and write hooks consult.
\<close>

section \<open>Byte-level access\<close>

text \<open>Overwriting part of a buffer (\<open>__builtin_memcpy(&d[off], bs, n)\<close>).\<close>

definition poke :: "nat \<Rightarrow> bytes \<Rightarrow> bytes \<Rightarrow> bytes" where
  "poke off bs d = take off d @ bs @ drop (off + length bs) d"

text \<open>\<open>bpf_ntohs\<close> on the little-endian target.\<close>

definition ntohs :: "u16 \<Rightarrow> u16" where
  "ntohs x = drop_bit 8 x OR push_bit 8 x"

text \<open>Bytes \<open>off..off+n\<close> of a structure copied in whole.\<close>

definition field :: "nat \<Rightarrow> nat \<Rightarrow> bytes \<Rightarrow> bytes" where
  "field off n st = take n (drop off st)"

definition fd_key :: "kenv \<Rightarrow> u64 \<Rightarrow> u64" where
  "fd_key k fd = push_bit 32 (drop_bit 32 (k_pid_tgid k)) OR ucast (ucast fd :: u32)"

section \<open>Database sockets by name\<close>

definition AK_SUN_MAX :: nat where [ak_const]: "AK_SUN_MAX = 108"

definition ak_lc :: "u8 \<Rightarrow> u8" where
  "ak_lc c = (if 0x41 \<le> c \<and> c \<le> 0x5a then c + (0x61 - 0x41) else c)"

text \<open>
  The loop runs while five bytes remain below the bound (\<open>i + 5 <= AK_SUN_MAX\<close>).
\<close>

fun unix_db_loop :: "bytes \<Rightarrow> bool" where
  "unix_db_loop (p0 # p1 # p2 # p3 # p4 # ps) =
     (let a = ak_lc p0; b = ak_lc p1; c = ak_lc p2; d = ak_lc p3; e = ak_lc p4
      in if a = 0 then False
         else if [a, b, c, d, e] = chars ''mysql'' then True
         else if [a, b, c, d, e] = chars ''pgsql'' then True
         else if [a, b, c, d, e] = chars ''mongo'' then True
         else unix_db_loop (p1 # p2 # p3 # p4 # ps))"
| "unix_db_loop _ = False"

definition ak_unix_db_sock :: "bytes \<Rightarrow> bool" where
  "ak_unix_db_sock p = unix_db_loop (take AK_SUN_MAX p)"

section \<open>connect\<close>

text \<open>
  The payload of the record, its length, the destination port in host order and the
  database-socket verdict, by address family.
\<close>

definition connect_payload ::
  "kenv \<Rightarrow> kptr \<Rightarrow> u16 \<Rightarrow> bytes \<Rightarrow> bytes \<times> u32 \<times> u16 \<times> bool" where
  "connect_payload k sa family d =
     (if family = 1 then
        let sun = fit AK_SUN_MAX (snd (k_read_user k (sa + 2) AK_SUN_MAX));
            d1 = poke 0 (le_bytes 2 family) d;
            d2 = poke 2 [0, 0] d1;
            d3 = poke 4 sun d2;
            d4 = poke (4 + AK_SUN_MAX - 1) [0] d3
        in (d4, of_nat (4 + AK_SUN_MAX), 0, ak_unix_db_sock sun)
      else if family = 2 then
        let sin = fit 16 (snd (k_read_user k sa 16));
            d1 = poke 0 (le_bytes 2 family) d;
            d2 = poke 2 (field 2 2 sin) d1;
            d3 = poke 4 (field 4 4 sin) d2
        in (d3, 8, ntohs (from_le (field 2 2 sin)), False)
      else if family = 10 then
        let sin6 = fit 28 (snd (k_read_user k sa 28));
            d1 = poke 0 (le_bytes 2 family) d;
            d2 = poke 2 (field 2 2 sin6) d1;
            d3 = poke 4 (field 8 16 sin6) d2
        in (d3, 20, ntohs (from_le (field 2 2 sin6)), False)
      else (poke 0 (le_bytes 2 family) d, 2, 0, False))"

definition db_port :: "u16 \<Rightarrow> bool" where
  "db_port p = (p = 5432 \<or> p = 3306 \<or> p = 27017 \<or> p = 27018 \<or> p = 27019)"

definition ak_connect :: "kenv \<Rightarrow> sys_enter_ctx \<Rightarrow> kstate \<Rightarrow> kstate" where
  "ak_connect k ctx s =
     (if \<not> has (ak_session_flags k s) AK_SESS_MONITOR then s
      else
        let sa = se_args ctx 1;
            family = from_le (fit 2 (snd (k_read_user k sa 2)))
        in case k_reserve_events k (length (ak_events s)) of
             None \<Rightarrow> s
           | Some r \<Rightarrow>
               (let h = ak_fill_header k (k_cgroup_id k) (ucast (se_id ctx)) AK_CAT_NETWORK (hdr r);
                    (d, dlen, dport, unix_db) =
                       connect_payload k sa family (fit AK_MAX_STR (data r));
                    s1 = s\<lparr>ak_events := ak_events s @ [r\<lparr>hdr := h\<lparr>h_data_len := dlen\<rparr>, data := d\<rparr>]\<rparr>;
                    s2 = (if dport = 53
                          then s1\<lparr>ak_dns_fds := lru_update k M_dns_fds (fd_key k (se_args ctx 0)) 1
                                                   (ak_dns_fds s1)\<rparr>
                          else s1)
                in if unix_db \<or> db_port dport
                   then ak_flags_or_bit k AK_FLAG_DB_ARMED
                          (s2\<lparr>ak_db_fds := lru_update k M_db_fds (fd_key k (se_args ctx 0)) 1
                                              (ak_db_fds s2)\<rparr>)
                   else s2))"

section \<open>DNS queries and answers\<close>

text \<open>The length handed to the probe: clamped to one below the buffer, then masked.\<close>

definition dns_len :: "s32 \<Rightarrow> u32" where
  "dns_len len =
     (let l = (if int (AK_MAX_STR - 1) < sint len then of_nat (AK_MAX_STR - 1) else len)
      in l AND of_nat (AK_MAX_STR - 1))"

definition emit_dns :: "kenv \<Rightarrow> u64 \<Rightarrow> s32 \<Rightarrow> kptr \<Rightarrow> s32 \<Rightarrow> kstate \<Rightarrow> kstate" where
  "emit_dns k cgid sid buf len s =
     (case k_reserve_events k (length (ak_events s)) of
        None \<Rightarrow> s
      | Some r \<Rightarrow>
          (let h = ak_fill_header k cgid sid AK_CAT_DNS (hdr r);
               m = dns_len len;
               (n, b) = k_read_user k buf (unat m)
           in s\<lparr>ak_events := ak_events s @
                  [r\<lparr>hdr := h\<lparr>h_data_len := (if n = 0 then m else 0)\<rparr>,
                     data := fit (unat m) b @ drop (unat m) (fit AK_MAX_STR (data r))\<rparr>]\<rparr>))"

definition ak_sendto :: "kenv \<Rightarrow> sys_enter_ctx \<Rightarrow> kstate \<Rightarrow> kstate" where
  "ak_sendto k ctx s =
     (if \<not> has (ak_session_flags k s) AK_SESS_MONITOR then s
      else
        let sa = se_args ctx 4
        in if sa = 0 then s
           else if from_le (fit 2 (snd (k_read_user k sa 2))) \<noteq> (2 :: u16) then s
           else
             let sin = fit 16 (snd (k_read_user k sa 16))
             in if ntohs (from_le (field 2 2 sin)) \<noteq> 53 then s
                else
                  let s1 = s\<lparr>ak_dns_fds := lru_update k M_dns_fds (fd_key k (se_args ctx 0)) 1
                                              (ak_dns_fds s)\<rparr>;
                      len = (ucast (se_args ctx 2) :: s32)
                  in if sint len \<le> 0 then s1
                     else emit_dns k (k_cgroup_id k) AK_PSEUDO_DNS_QUERY (se_args ctx 1) len s1)"

definition ak_recvfrom_enter :: "kenv \<Rightarrow> sys_enter_ctx \<Rightarrow> kstate \<Rightarrow> kstate" where
  "ak_recvfrom_enter k ctx s =
     (if \<not> has (ak_session_flags k s) AK_SESS_MONITOR then s
      else if ak_dns_fds s (fd_key k (se_args ctx 0)) = None then s
      else s\<lparr>ak_dns_read_args := map_update k M_dns_read_args (k_pid_tgid k) (se_args ctx 1)
               (ak_dns_read_args s)\<rparr>)"

definition ak_recvfrom_exit :: "kenv \<Rightarrow> sys_exit_ctx \<Rightarrow> kstate \<Rightarrow> kstate" where
  "ak_recvfrom_exit k ctx s =
     (case ak_dns_read_args s (k_pid_tgid k) of
        None \<Rightarrow> s
      | Some buf \<Rightarrow>
          (let s1 = s\<lparr>ak_dns_read_args := (ak_dns_read_args s)(k_pid_tgid k := None)\<rparr>;
               ret = sx_ret ctx
           in if sint ret \<le> 0 then s1
              else if \<not> has (ak_session_flags k s1) AK_SESS_MONITOR then s1
              else emit_dns k (k_cgroup_id k) AK_PSEUDO_DNS_ANSWER buf (ucast ret) s1))"

definition ak_recvmsg_enter :: "kenv \<Rightarrow> sys_enter_ctx \<Rightarrow> kstate \<Rightarrow> kstate" where
  "ak_recvmsg_enter k ctx s =
     (if \<not> has (ak_session_flags k s) AK_SESS_MONITOR then s
      else if ak_dns_fds s (fd_key k (se_args ctx 0)) = None then s
      else
        let msg = se_args ctx 1
        in if msg = 0 then s
           else
             let (r1, b1) = k_read_user k (msg + 16) 8;
                 iovp = (from_le (fit 8 b1) :: u64)
             in if r1 \<noteq> 0 \<or> iovp = 0 then s
                else
                  let (r2, b2) = k_read_user k iovp 8;
                      base = (from_le (fit 8 b2) :: u64)
                  in if r2 \<noteq> 0 \<or> base = 0 then s
                     else s\<lparr>ak_dns_read_args := map_update k M_dns_read_args (k_pid_tgid k) base
                              (ak_dns_read_args s)\<rparr>)"

definition ak_recvmsg_exit :: "kenv \<Rightarrow> sys_exit_ctx \<Rightarrow> kstate \<Rightarrow> kstate" where
  "ak_recvmsg_exit k ctx s =
     (case ak_dns_read_args s (k_pid_tgid k) of
        None \<Rightarrow> s
      | Some buf \<Rightarrow>
          (let s1 = s\<lparr>ak_dns_read_args := (ak_dns_read_args s)(k_pid_tgid k := None)\<rparr>;
               ret = sx_ret ctx
           in if sint ret \<le> 0 then s1
              else if \<not> has (ak_session_flags k s1) AK_SESS_MONITOR then s1
              else emit_dns k (k_cgroup_id k) AK_PSEUDO_DNS_ANSWER buf (ucast ret) s1))"

section \<open>Lengths\<close>

lemma dns_len_identity:
  "0 < sint len \<Longrightarrow> unat (dns_len len) = min (nat (sint len)) (AK_MAX_STR - 1)"
  by (auto simp: dns_len_def Let_def AK_MAX_STR_def unat_and_255 unat_of_sint_pos)

text \<open>
  The length handed to the user-memory probe never reaches the payload buffer's size, for
  every 32-bit length, negative ones included, and for a positive length the mask is the
  identity on the clamped value: no payload of 256 bytes or more is lost to the mask.
\<close>

lemma dns_len_exact:
  "unat (dns_len len) < AK_MAX_STR
   \<and> (0 < sint len \<longrightarrow> unat (dns_len len) = min (nat (sint len)) 255)"
  using dns_len_identity [of len]
  by (auto simp: dns_len_def Let_def AK_MAX_STR_def unat_and_255)

lemma dns_len_exact_example: "unat (dns_len 512) = 255 \<and> unat (dns_len 100) = 100"
  using dns_len_exact [of 512] dns_len_exact [of 100] by simp

section \<open>DNS capture\<close>

lemma emit_dns_frame [simp, ak_frame]:
  "ak_semantic (emit_dns k cgid sid buf len s) = ak_semantic s"
  "ak_dns_read_args (emit_dns k cgid sid buf len s) = ak_dns_read_args s"
  "ak_dns_fds (emit_dns k cgid sid buf len s) = ak_dns_fds s"
  "ak_sessions (emit_dns k cgid sid buf len s) = ak_sessions s"
  "ak_self (emit_dns k cgid sid buf len s) = ak_self s"
  "ak_session_pids (emit_dns k cgid sid buf len s) = ak_session_pids s"
  "ak_posture (emit_dns k cgid sid buf len s) = ak_posture s"
  "ak_taint_files (emit_dns k cgid sid buf len s) = ak_taint_files s"
  "ak_taint_inode (emit_dns k cgid sid buf len s) = ak_taint_inode s"
  "ak_agent_sigs (emit_dns k cgid sid buf len s) = ak_agent_sigs s"
  "ak_sensitive_files (emit_dns k cgid sid buf len s) = ak_sensitive_files s"
  "ak_enforce_file (emit_dns k cgid sid buf len s) = ak_enforce_file s"
  "ak_enforce_dir (emit_dns k cgid sid buf len s) = ak_enforce_dir s"
  "ak_enforce_net (emit_dns k cgid sid buf len s) = ak_enforce_net s"
  "ak_enforce_net6 (emit_dns k cgid sid buf len s) = ak_enforce_net6 s"
  "ak_db_deny_tables (emit_dns k cgid sid buf len s) = ak_db_deny_tables s"
  by (simp_all add: emit_dns_def Let_def split: option.split prod.split)

interpretation recvfrom: stash_pair ak_dns_read_args "\<lambda>_ _. True" ak_recvfrom_enter ak_recvfrom_exit
  by unfold_locales
    (auto simp: ak_recvfrom_enter_def ak_recvfrom_exit_def map_update_other Let_def split: option.split)

interpretation recvmsg: stash_pair ak_dns_read_args "\<lambda>_ _. True" ak_recvmsg_enter ak_recvmsg_exit
  by unfold_locales
    (auto simp: ak_recvmsg_enter_def ak_recvmsg_exit_def map_update_other Let_def split: option.split prod.split)

text \<open>The record \<open>r\<close> carries the payload \<open>b\<close> of a DNS message under the pseudo id \<open>sid\<close>.\<close>

definition dns_record :: "kenv \<Rightarrow> s32 \<Rightarrow> bytes \<Rightarrow> ak_rec \<Rightarrow> bool" where
  "dns_record k sid b r \<longleftrightarrow>
     h_syscall_id (hdr r) = sid \<and> h_category (hdr r) = AK_CAT_DNS \<and> h_host_pid (hdr r) = ak_tgid k
     \<and> unat (h_data_len (hdr r)) = length b \<and> take (length b) (data r) = b
     \<and> length (data r) = AK_MAX_STR"

lemma emit_dns_record:
  assumes "0 < sint len" "k_reserve_events k (length (ak_events s)) = Some r"
    and "k_read_user k buf (unat (dns_len len)) = (0, b)" "length b = unat (dns_len len)"
  shows "\<exists>r. ak_events (emit_dns k cgid sid buf len s) = ak_events s @ [r] \<and> dns_record k sid b r"
proof -
  have "unat (dns_len len) \<le> AK_MAX_STR"
    using dns_len_identity [OF assms(1)] by simp
  with assms show ?thesis
    by (auto simp: emit_dns_def Let_def dns_record_def fit_def ak_fill_header_def ak_tgid_def)
qed

text \<open>
  DNS answers are captured: when a monitored thread enters \<open>recvfrom\<close> on a socket marked as
  DNS and later returns with a positive length (other threads' receives may come in between),
  one answer record with the first \<open>min ret 255\<close> bytes of that thread's buffer is appended, and
  the thread's entry is gone.
\<close>

lemma dns_answer_captured:
  fixes es :: "(sys_enter_ctx, sys_exit_ctx) rw_event list"
  defines "t s \<equiv> fold (rw_step ak_recvfrom_enter ak_recvfrom_exit) es s"
  assumes "has (ak_session_flags k s) AK_SESS_MONITOR"
    and "ak_dns_fds s (fd_key k (se_args ctx 0)) \<noteq> None"
    and "k_update k M_dns_read_args (k_pid_tgid k) = 0"
    and "\<forall>e \<in> set es. rw_thread e \<noteq> k_pid_tgid k"
    and "k_pid_tgid k' = k_pid_tgid k"
    and "has (ak_session_flags k' (t (ak_recvfrom_enter k ctx s))) AK_SESS_MONITOR"
    and "0 < sint (sx_ret xt)" "0 < sint (ucast (sx_ret xt) :: s32)"
    and "k_reserve_events k' (length (ak_events (t (ak_recvfrom_enter k ctx s)))) = Some r"
    and "k_read_user k' (se_args ctx 1) (unat (dns_len (ucast (sx_ret xt)))) = (0, b)"
    and "length b = unat (dns_len (ucast (sx_ret xt)))"
  shows "(\<exists>r. ak_events (ak_recvfrom_exit k' xt (t (ak_recvfrom_enter k ctx s)))
             = ak_events (t (ak_recvfrom_enter k ctx s)) @ [r]
           \<and> dns_record k' AK_PSEUDO_DNS_ANSWER b r)
    \<and> ak_dns_read_args (ak_recvfrom_exit k' xt (t (ak_recvfrom_enter k ctx s))) (k_pid_tgid k) = None"
proof -
  let ?s = "t (ak_recvfrom_enter k ctx s)"
  have "ak_dns_read_args (ak_recvfrom_enter k ctx s) (k_pid_tgid k) = Some (se_args ctx 1)"
    using assms(2-4) by (auto simp: ak_recvfrom_enter_def map_update_same)
  then have st: "ak_dns_read_args ?s (k_pid_tgid k) = Some (se_args ctx 1)"
    using recvfrom.others_keep [OF assms(5)] by (simp add: t_def)
  let ?s1 = "?s\<lparr>ak_dns_read_args := (ak_dns_read_args ?s)(k_pid_tgid k := None)\<rparr>"
  have "\<exists>r. ak_events (emit_dns k' (k_cgroup_id k') AK_PSEUDO_DNS_ANSWER (se_args ctx 1) (ucast (sx_ret xt)) ?s1)
          = ak_events ?s1 @ [r] \<and> dns_record k' AK_PSEUDO_DNS_ANSWER b r"
    using assms(9-12) by (intro emit_dns_record) simp_all
  then show ?thesis
    using assms(6-8) st by (simp add: ak_recvfrom_exit_def Let_def)
qed

text \<open>Thread 100 receives 3 bytes on descriptor 5 while thread 101 starts a receive.\<close>

definition recv_ctx :: sys_enter_ctx where
  "recv_ctx = \<lparr>se_id = 45, se_args = (\<lambda>i. if i = 0 then 5 else 0x1000)\<rparr>"

definition dns_state :: kstate where
  "dns_state = member_state 1\<lparr>ak_dns_fds := [fd_key sample_env 5 \<mapsto> 1]\<rparr>"

lemma dns_answer_captured_example:
  "\<exists>r. ak_events (ak_recvfrom_exit sample_env \<lparr>sx_id = 45, sx_ret = 3\<rparr>
           (ak_recvfrom_enter (sample_env\<lparr>k_pid_tgid := 0x6400000065\<rparr>) recv_ctx
             (ak_recvfrom_enter sample_env recv_ctx dns_state))) = [r]
     \<and> dns_record sample_env AK_PSEUDO_DNS_ANSWER [1, 1, 1] r"
proof -
  let ?k2 = "sample_env\<lparr>k_pid_tgid := 0x6400000065\<rparr>"
  let ?s2 = "ak_recvfrom_enter ?k2 recv_ctx (ak_recvfrom_enter sample_env recv_ctx dns_state)"
  have f: "ak_session_flags k (ak_recvfrom_enter k' c s) = ak_session_flags k s" for k k' c s
    by (simp add: ak_recvfrom_enter_def)
  have m: "ak_session_flags sample_env dns_state = 1" "has 1 AK_SESS_MONITOR"
    by (simp_all add: member_flags dns_state_def member_state_def init_kstate_def has_def ak_const)
  have d: "dns_len 3 = 3" by (simp add: dns_len_def ak_const)
  have "ak_events ?s2 = []"
    using recvfrom.enter_silent by (simp add: dns_state_def member_state_def init_kstate_def)
  moreover have "k_read_user sample_env 0x1000 3 = (0, [1, 1, 1])"
    by (simp add: sample_env_def numeral_3_eq_3)
  moreover obtain r where "k_reserve_events sample_env 0 = Some r"
    by (simp add: sample_env_def)
  moreover have "k_update sample_env M x = 0" "k_pid_tgid sample_env = 0x6400000064" for M x
    by (simp_all add: sample_env_def)
  moreover have "ak_dns_fds dns_state (fd_key sample_env (se_args recv_ctx 0)) \<noteq> None"
    "se_args recv_ctx 1 = 0x1000"
    by (simp_all add: dns_state_def recv_ctx_def)
  ultimately show ?thesis
    using m f d dns_answer_captured [of sample_env dns_state recv_ctx "[Enter ?k2 recv_ctx]" sample_env
        "\<lparr>sx_id = 45, sx_ret = 3\<rparr>" r "[1, 1, 1]"]
    by simp
qed

section \<open>Database sockets by name\<close>

lemma ak_lc_zero [simp]: "ak_lc c = 0 \<longleftrightarrow> c = 0"
  by (auto simp: ak_lc_def) (unat_arith; simp)

definition db_names :: "bytes list" where
  "db_names = [chars ''mysql'', chars ''pgsql'', chars ''mongo'']"

lemma db_names_five: "w \<in> set db_names \<Longrightarrow> length w = 5 \<and> 0 \<notin> set w"
  by (auto simp: db_names_def chars_def)

lemma prefix_five:
  "length w = 5 \<Longrightarrow> 0 \<notin> set w \<Longrightarrow>
   prefix w (map ak_lc (cstr (p0 # p1 # p2 # p3 # p4 # ps)))
     \<longleftrightarrow> [ak_lc p0, ak_lc p1, ak_lc p2, ak_lc p3, ak_lc p4] = w"
  by (auto simp: length_Suc_conv numeral_eq_Suc)

lemma db_names_short:
  assumes "length p < 5" "w \<in> set db_names"
  shows "\<not> sublist w (map ak_lc (cstr p))"
proof
  assume "sublist w (map ak_lc (cstr p))"
  then have "length w \<le> length (cstr p)" by (auto dest: sublist_length_le)
  with assms db_names_five [OF assms(2)] show False using length_cstr_le [of p] by simp
qed

lemma unix_db_loop_spec:
  "unix_db_loop p \<longleftrightarrow> (\<exists>w \<in> set db_names. sublist w (map ak_lc (cstr p)))"
proof (induction p rule: unix_db_loop.induct)
  case (1 p0 p1 p2 p3 p4 ps)
  show ?case
  proof (cases "p0 = 0")
    case True
    then show ?thesis using db_names_five by force
  next
    case False
    let ?c = "map ak_lc (cstr (p0 # p1 # p2 # p3 # p4 # ps))"
    let ?t = "map ak_lc (cstr (p1 # p2 # p3 # p4 # ps))"
    have "?c = ak_lc p0 # ?t" using False by simp
    then have "sublist w ?c \<longleftrightarrow> prefix w ?c \<or> sublist w ?t" for w
      by (simp only: sublist_Cons_right)
    then have "(\<exists>w \<in> set db_names. sublist w ?c) \<longleftrightarrow>
       (\<exists>w \<in> set db_names. prefix w ?c) \<or> (\<exists>w \<in> set db_names. sublist w ?t)"
      by blast
    also have "(\<exists>w \<in> set db_names. prefix w ?c)
        \<longleftrightarrow> [ak_lc p0, ak_lc p1, ak_lc p2, ak_lc p3, ak_lc p4] \<in> set db_names"
      using prefix_five db_names_five by metis
    finally show ?thesis
      using 1 False by (auto simp: db_names_def Let_def simp del: cstr_Cons)
  qed
qed (use db_names_short in \<open>auto simp del: cstr_Cons cstr_Nil\<close>)

text \<open>
  The socket-name scan is a case-insensitive substring search: a unix socket counts as a
  database server's exactly when its path (the C string in the 108-byte buffer), lower-cased,
  contains \<open>mysql\<close>, \<open>pgsql\<close> or \<open>mongo\<close>. An abstract socket (leading NUL) never does.
\<close>

lemma unix_db_sock_spec:
  "(ak_unix_db_sock p \<longleftrightarrow>
     (\<exists>w \<in> {chars ''mysql'', chars ''pgsql'', chars ''mongo''}.
        sublist w (map ak_lc (cstr (take AK_SUN_MAX p)))))
   \<and> \<not> ak_unix_db_sock (0 # p)"
proof -
  have "\<not> ak_unix_db_sock (0 # p)"
    using db_names_five
    by (fastforce simp: ak_unix_db_sock_def unix_db_loop_spec AK_SUN_MAX_def dest: sublist_length_le)
  then show ?thesis by (auto simp: ak_unix_db_sock_def unix_db_loop_spec db_names_def)
qed

lemma unix_db_sock_spec_example: "ak_unix_db_sock (fit 108 (chars ''/run/.s.PGSQL.5432''))"
proof -
  have "map ak_lc (cstr (take AK_SUN_MAX (fit 108 (chars ''/run/.s.PGSQL.5432''))))
      = chars ''/run/.s.'' @ chars ''pgsql'' @ chars ''.5432''"
    by (simp add: AK_SUN_MAX_def cstr_fit chars_def ak_lc_def)
  then have "sublist (chars ''pgsql'') (map ak_lc (cstr (take AK_SUN_MAX (fit 108 (chars ''/run/.s.PGSQL.5432'')))))"
    by (auto simp: sublist_def)
  then show ?thesis using unix_db_sock_spec [of "fit 108 (chars ''/run/.s.PGSQL.5432'')"] by blast
qed

end
