(* ===== verification/AK_Stdio.thy ===== *)
theory AK_Stdio
  imports AK_Semantic AK_Network
begin

text \<open>
  \<open>bpf/stdio.bpf.c\<close>: capture of registered stdio-MCP pipes and database sockets, and the
  in-kernel match of an outbound database payload against the denied tables.
\<close>

section \<open>Registered descriptors\<close>

definition fd_key32 :: "u32 \<Rightarrow> u64 \<Rightarrow> u64" where
  "fd_key32 tgid fd = push_bit 32 (ucast tgid) OR (fd AND 0xffffffff)"

definition ak_mcp_fd :: "kstate \<Rightarrow> u32 \<Rightarrow> u64 \<Rightarrow> bool" where
  "ak_mcp_fd s tgid fd = (ak_mcp_fds s (fd_key32 tgid fd) \<noteq> None)"

definition ak_db_fd :: "kstate \<Rightarrow> u32 \<Rightarrow> u64 \<Rightarrow> bool" where
  "ak_db_fd s tgid fd = (ak_db_fds s (fd_key32 tgid fd) \<noteq> None)"

section \<open>Matching a denied table\<close>

definition AK_DB_SCAN :: nat where [ak_const]: "AK_DB_SCAN = 64"
definition AK_DB_PAT :: nat where [ak_const]: "AK_DB_PAT = 16"

definition ak_sql_ident :: "u8 \<Rightarrow> bool" where
  "ak_sql_ident c = ((0x61 \<le> c \<and> c \<le> 0x7a) \<or> (0x30 \<le> c \<and> c \<le> 0x39) \<or> c = 0x5f)"

definition ak_sql_delim :: "u8 \<Rightarrow> bool" where
  "ak_sql_delim c = (c = 0x20 \<or> c = 0x09 \<or> c = 0x0a \<or> c = 0x0d \<or> c = 0x60 \<or>
                     c = 0x2e \<or> c = 0x28 \<or> c = 0x2c)"

text \<open>
  The unrolled inner loop: \<open>miss\<close> collects the differing bits of the active positions; a
  position past the window ends it.
\<close>

fun db_miss_loop :: "bytes \<Rightarrow> ak_db_pat \<Rightarrow> nat \<Rightarrow> nat list \<Rightarrow> u32 \<Rightarrow> u32" where
  "db_miss_loop sql p i [] miss = miss"
| "db_miss_loop sql p i (j # js) miss =
     (if AK_DB_SCAN \<le> i + j then miss
      else let active = (if j < unat (pat_len p) then 1 else 0)
           in db_miss_loop sql p i js (miss OR active * ucast (sql ! (i + j) XOR pat p ! j)))"

text \<open>The scan over the offsets 6 to \<open>AK_DB_SCAN - 2\<close>.\<close>

fun db_scan_loop :: "bytes \<Rightarrow> ak_db_pat \<Rightarrow> nat list \<Rightarrow> bool" where
  "db_scan_loop sql p [] = False"
| "db_scan_loop sql p (i # is) =
     (if \<not> ak_sql_delim (sql ! (i - 1)) then db_scan_loop sql p is
      else if AK_DB_SCAN < i + unat (pat_len p) then db_scan_loop sql p is
      else if db_miss_loop sql p i [0..<AK_DB_PAT] 0 = 0 then True
      else db_scan_loop sql p is)"

definition ak_db_match_slot :: "kstate \<Rightarrow> bytes \<Rightarrow> u32 \<Rightarrow> bool" where
  "ak_db_match_slot s sql slot =
     (case ak_db_deny_tables s slot of
        None \<Rightarrow> False
      | Some p \<Rightarrow>
          if pat_len p = 0 \<or> of_nat AK_DB_PAT < pat_len p then False
          else db_scan_loop sql p [6..<AK_DB_SCAN - 1])"

text \<open>The MongoDB matcher: the active positions and the terminator.\<close>

fun mongo_miss_loop :: "bytes \<Rightarrow> ak_db_pat \<Rightarrow> nat \<Rightarrow> nat list \<Rightarrow> u32 \<Rightarrow> u32" where
  "mongo_miss_loop b p cs [] miss = miss"
| "mongo_miss_loop b p cs (j # js) miss =
     (let c = b ! (cs + 4 + j);
          active = (if j < unat (pat_len p) then 1 else 0);
          trm = (if j = unat (pat_len p) then 1 else 0);
          m1 = miss OR active * ucast (c XOR pat p ! j)
      in mongo_miss_loop b p cs js (m1 OR trm * ucast c))"

fun mongo_scan_loop :: "bytes \<Rightarrow> ak_db_pat \<Rightarrow> s32 \<Rightarrow> nat list \<Rightarrow> bool" where
  "mongo_scan_loop b p len [] = False"
| "mongo_scan_loop b p len (cs # css) =
     (if sint len < int (cs + 4 + AK_DB_PAT + 1) then mongo_scan_loop b p len css
      else if b ! cs \<noteq> ucast (pat_len p + 1) \<or> b ! (cs + 1) \<noteq> 0 \<or> b ! (cs + 2) \<noteq> 0
              \<or> b ! (cs + 3) \<noteq> 0
           then mongo_scan_loop b p len css
      else if mongo_miss_loop b p cs [0..<AK_DB_PAT + 1] 0 = 0 then True
      else mongo_scan_loop b p len css)"

definition ak_mongo_match_slot :: "kenv \<Rightarrow> kstate \<Rightarrow> s32 \<Rightarrow> u32 \<Rightarrow> bool" where
  "ak_mongo_match_slot k s len slot =
     (case ak_db_scratch s (k_cpu k) 0 of
        None \<Rightarrow> False
      | Some b \<Rightarrow>
          (case ak_db_deny_tables s slot of
             None \<Rightarrow> False
           | Some p \<Rightarrow>
               if pat_len p = 0 \<or> of_nat AK_DB_PAT < pat_len p then False
               else if b ! 20 \<noteq> 0 \<or> b ! 25 \<noteq> 2 then False
               else mongo_scan_loop b p len [30..<41]))"

definition lower_sql :: "u8 \<Rightarrow> u8" where
  "lower_sql c = (if 0x41 \<le> c \<and> c \<le> 0x5a then c + 32 else c)"

definition ak_db_query_check :: "kenv \<Rightarrow> u32 \<Rightarrow> kptr \<Rightarrow> s32 \<Rightarrow> kstate \<Rightarrow> kstate" where
  "ak_db_query_check k tgid buf len s =
     (if sint len < 6 then s
      else case ak_db_scratch s (k_cpu k) 0 of
             None \<Rightarrow> s
           | Some _ \<Rightarrow>
               (let n = (if of_nat AK_DB_SCAN < (len :: u32) then of_nat AK_DB_SCAN else len);
                    (r, b) = k_read_user k buf (unat n);
                    raw = fit AK_DB_SCAN (fit (unat n) b);
                    put = (\<lambda>v s. s\<lparr>ak_db_scratch := (ak_db_scratch s)
                              (k_cpu k := (ak_db_scratch s (k_cpu k))(0 \<mapsto> v))\<rparr>)
                in if r \<noteq> 0 then ak_bump_err k AK_ERR_DB_READ (put raw s)
                   else
                     let sql = map lower_sql raw;
                         s1 = put sql s;
                         hit =
                           (if sql ! 12 = 0xdd \<and> sql ! 13 = 0x07 \<and> sql ! 14 = 0 \<and> sql ! 15 = 0
                            then ak_mongo_match_slot k s1 len 0 \<or> ak_mongo_match_slot k s1 len 1 \<or>
                                 ak_mongo_match_slot k s1 len 2 \<or> ak_mongo_match_slot k s1 len 3
                            else if sql ! 4 = 0x03
                            then ak_db_match_slot s1 sql 0 \<or> ak_db_match_slot s1 sql 1 \<or>
                                 ak_db_match_slot s1 sql 2 \<or> ak_db_match_slot s1 sql 3
                            else False)
                     in if hit
                        then s1\<lparr>ak_db_deny_pending :=
                               lru_update k M_db_deny_pending tgid 1 (ak_db_deny_pending s1)\<rparr>
                        else s1))"

section \<open>The hooks\<close>

definition ak_stdio_write :: "kenv \<Rightarrow> sys_enter_ctx \<Rightarrow> kstate \<Rightarrow> kstate" where
  "ak_stdio_write k ctx s =
     (let fl = ak_flags_get s
      in if \<not> has fl (AK_FLAG_MCP_ARMED OR AK_FLAG_DB_ARMED) then s
         else if ak_is_self k s then s
         else
           let tgid = ak_tgid k; fd = se_args ctx 0;
               is_mcp = (has fl AK_FLAG_MCP_ARMED \<and> ak_mcp_fd s tgid fd);
               is_db = (has fl AK_FLAG_DB_ARMED \<and> ak_db_fd s tgid fd)
           in if \<not> is_mcp \<and> \<not> is_db then s
              else
                let s1 = ak_emit_tls k (k_cgroup_id k) 0 (se_args ctx 1) (ucast (se_args ctx 2)) 0 s
                in if is_db \<and> has fl AK_FLAG_DB_BLOCK_ARMED
                   then ak_db_query_check k tgid (se_args ctx 1) (ucast (se_args ctx 2)) s1
                   else s1)"

definition ak_db_sendto :: "kenv \<Rightarrow> sys_enter_ctx \<Rightarrow> kstate \<Rightarrow> kstate" where
  "ak_db_sendto k ctx s =
     (if \<not> has (ak_flags_get s) AK_FLAG_DB_ARMED then s
      else if ak_is_self k s then s
      else
        let tgid = ak_tgid k
        in if \<not> ak_db_fd s tgid (se_args ctx 0) then s
           else
             let s1 = ak_emit_tls k (k_cgroup_id k) 0 (se_args ctx 1) (ucast (se_args ctx 2)) 0 s
             in if has (ak_flags_get s1) AK_FLAG_DB_BLOCK_ARMED
                then ak_db_query_check k tgid (se_args ctx 1) (ucast (se_args ctx 2)) s1
                else s1)"

definition ak_stdio_read_enter :: "kenv \<Rightarrow> sys_enter_ctx \<Rightarrow> kstate \<Rightarrow> kstate" where
  "ak_stdio_read_enter k ctx s =
     (if \<not> has (ak_flags_get s) AK_FLAG_MCP_ARMED then s
      else if \<not> ak_mcp_fd s (ak_tgid k) (se_args ctx 0) then s
      else if ak_is_self k s then s
      else s\<lparr>ak_pipe_read_args := map_update k M_pipe_read_args (k_pid_tgid k) (se_args ctx 1)
               (ak_pipe_read_args s)\<rparr>)"

definition ak_stdio_read_exit :: "kenv \<Rightarrow> sys_exit_ctx \<Rightarrow> kstate \<Rightarrow> kstate" where
  "ak_stdio_read_exit k ctx s =
     (if \<not> has (ak_flags_get s) AK_FLAG_MCP_ARMED then s
      else case ak_pipe_read_args s (k_pid_tgid k) of
             None \<Rightarrow> s
           | Some b \<Rightarrow>
               (let s1 = (if 0 < sint (sx_ret ctx)
                          then ak_emit_tls k (k_cgroup_id k) 1 b (ucast (sx_ret ctx)) 0 s else s)
                in s1\<lparr>ak_pipe_read_args := (ak_pipe_read_args s1)(k_pid_tgid k := None)\<rparr>))"

section \<open>The matchers against their specification\<close>

lemma db_miss_loop_zero:
  "sorted js \<Longrightarrow> db_miss_loop sql p i js miss = 0 \<longleftrightarrow>
     miss = 0 \<and> (\<forall>j \<in> set js. i + j < AK_DB_SCAN \<longrightarrow> j < unat (pat_len p) \<longrightarrow> sql ! (i + j) = pat p ! j)"
proof (induction js arbitrary: miss)
  case (Cons j js)
  show ?case
  proof (cases "AK_DB_SCAN \<le> i + j")
    case True
    then have "\<forall>j' \<in> set (j # js). \<not> i + j' < AK_DB_SCAN" using Cons.prems by auto
    with True show ?thesis by auto
  next
    case False
    with Cons show ?thesis by (auto simp: Let_def or_eq_zero ucast_eq_zero xor_eq_zero)
  qed
qed simp

text \<open>The denied name stands at offset \<open>i\<close>.\<close>

definition names_at :: "bytes \<Rightarrow> nat \<Rightarrow> ak_db_pat \<Rightarrow> bool" where
  "names_at sql i p \<longleftrightarrow> take (unat (pat_len p)) (drop i sql) = take (unat (pat_len p)) (pat p)"

lemma names_at_nth:
  assumes "i + unat (pat_len p) \<le> length sql" "unat (pat_len p) \<le> length (pat p)"
  shows "names_at sql i p \<longleftrightarrow> (\<forall>j < unat (pat_len p). sql ! (i + j) = pat p ! j)"
  using assms by (auto simp: names_at_def list_eq_iff_nth_eq)

lemma db_scan_loop_spec:
  assumes "length sql = AK_DB_SCAN" "unat (pat_len p) \<le> AK_DB_PAT" "AK_DB_PAT \<le> length (pat p)"
  shows "db_scan_loop sql p is \<longleftrightarrow>
     (\<exists>i \<in> set is. ak_sql_delim (sql ! (i - 1)) \<and> i + unat (pat_len p) \<le> AK_DB_SCAN \<and> names_at sql i p)"
proof (induction "is")
  case (Cons i "is")
  have "i + unat (pat_len p) \<le> AK_DB_SCAN \<Longrightarrow> db_miss_loop sql p i [0..<AK_DB_PAT] 0 = 0 \<longleftrightarrow> names_at sql i p"
    using assms by (auto simp: db_miss_loop_zero names_at_nth)
  with Cons show ?case by auto
qed simp

text \<open>A usable pattern: between 1 and 16 bytes, in its 32-byte field.\<close>

definition usable_pat :: "ak_db_pat \<Rightarrow> bool" where
  "usable_pat p \<longleftrightarrow> 1 \<le> unat (pat_len p) \<and> unat (pat_len p) \<le> 16"

lemma usable_pat_iff:
  "(pat_len p = 0 \<or> of_nat AK_DB_PAT < pat_len p) \<longleftrightarrow> \<not> usable_pat p"
  by (auto simp: usable_pat_def AK_DB_PAT_def word_less_nat_alt unat_eq_zero Suc_le_eq)

definition sql_names :: "bytes \<Rightarrow> ak_db_pat \<Rightarrow> bool" where
  "sql_names w p \<longleftrightarrow> usable_pat p \<and>
     (\<exists>i \<in> {6..62}. ak_sql_delim (w ! (i - 1)) \<and> i + unat (pat_len p) \<le> 64 \<and> names_at w i p)"

lemma db_match_slot_iff:
  assumes "length sql = 64" "ak_db_deny_tables s slot = Some p" "length (pat p) = 32"
  shows "ak_db_match_slot s sql slot \<longleftrightarrow> sql_names sql p"
proof (cases "usable_pat p")
  case True
  then have "ak_db_match_slot s sql slot = db_scan_loop sql p [6..<AK_DB_SCAN - 1]"
    using assms(2) usable_pat_iff [of p] by (simp add: ak_db_match_slot_def)
  also have "\<dots> \<longleftrightarrow> (\<exists>i \<in> set [6..<AK_DB_SCAN - 1]. ak_sql_delim (sql ! (i - 1)) \<and>
      i + unat (pat_len p) \<le> AK_DB_SCAN \<and> names_at sql i p)"
    using assms(1,3) True by (intro db_scan_loop_spec) (simp_all add: usable_pat_def ak_const)
  also have "set [6..<AK_DB_SCAN - 1] = {6..62}" unfolding set_upt AK_DB_SCAN_def by auto
  finally show ?thesis using True by (simp add: sql_names_def AK_DB_SCAN_def)
next
  case False
  then show ?thesis using assms(2) usable_pat_iff [of p] by (auto simp: ak_db_match_slot_def sql_names_def)
qed

lemma mongo_miss_loop_zero:
  "mongo_miss_loop b p cs js miss = 0 \<longleftrightarrow>
     miss = 0 \<and> (\<forall>j \<in> set js. (j < unat (pat_len p) \<longrightarrow> b ! (cs + 4 + j) = pat p ! j)
                           \<and> (j = unat (pat_len p) \<longrightarrow> b ! (cs + 4 + j) = 0))"
proof (induction js arbitrary: miss)
  case (Cons j js)
  then show ?case by (auto simp: Let_def or_eq_zero ucast_eq_zero xor_eq_zero)
qed simp

text \<open>
  The BSON string at \<open>cs\<close> is the denied collection: its length field is the name's length plus
  one, the name follows, then the terminator.
\<close>

definition bson_names_at :: "bytes \<Rightarrow> nat \<Rightarrow> ak_db_pat \<Rightarrow> bool" where
  "bson_names_at b cs p \<longleftrightarrow>
     b ! cs = ucast (pat_len p + 1) \<and> b ! (cs + 1) = 0 \<and> b ! (cs + 2) = 0 \<and> b ! (cs + 3) = 0
     \<and> names_at b (cs + 4) p \<and> b ! (cs + 4 + unat (pat_len p)) = 0"

lemma mongo_scan_loop_spec:
  assumes "\<forall>cs \<in> set css. cs + 4 + 16 < length b" "usable_pat p" "length (pat p) = 32"
  shows "mongo_scan_loop b p len css \<longleftrightarrow>
     (\<exists>cs \<in> set css. int cs + 21 \<le> sint len \<and> bson_names_at b cs p)"
  using assms(1)
proof (induction css)
  case (Cons cs css)
  have "cs + 4 + unat (pat_len p) \<le> length b" "unat (pat_len p) \<le> length (pat p)" "unat (pat_len p) \<le> 16"
    using Cons.prems assms(2,3) by (auto simp: usable_pat_def)
  then have "mongo_miss_loop b p cs [0..<AK_DB_PAT + 1] 0 = 0 \<longleftrightarrow>
      names_at b (cs + 4) p \<and> b ! (cs + 4 + unat (pat_len p)) = 0"
    by (auto simp: mongo_miss_loop_zero names_at_nth AK_DB_PAT_def simp del: upt_Suc)
  with Cons show ?case
    by (auto simp: bson_names_at_def AK_DB_PAT_def simp del: upt_Suc)
qed simp

definition mongo_names :: "bytes \<Rightarrow> s32 \<Rightarrow> ak_db_pat \<Rightarrow> bool" where
  "mongo_names w len p \<longleftrightarrow> usable_pat p \<and> w ! 20 = 0 \<and> w ! 25 = 2 \<and>
     (\<exists>cs \<in> {30..40}. int cs + 21 \<le> sint len \<and> bson_names_at w cs p)"

lemma mongo_match_slot_iff:
  assumes "ak_db_scratch s (k_cpu k) 0 = Some b" "length b = 64"
    and "ak_db_deny_tables s slot = Some p" "length (pat p) = 32"
  shows "ak_mongo_match_slot k s len slot \<longleftrightarrow> mongo_names b len p"
proof (cases "usable_pat p")
  case True
  then have "ak_mongo_match_slot k s len slot \<longleftrightarrow> b ! 20 = 0 \<and> b ! 25 = 2 \<and> mongo_scan_loop b p len [30..<41]"
    using assms(1,3) usable_pat_iff [of p] by (auto simp: ak_mongo_match_slot_def simp del: upt_rec_numeral)
  also have "mongo_scan_loop b p len [30..<41] \<longleftrightarrow>
      (\<exists>cs \<in> set [30..<41]. int cs + 21 \<le> sint len \<and> bson_names_at b cs p)"
    using assms(2,4) True by (intro mongo_scan_loop_spec) (auto simp del: upt_rec_numeral)
  also have "set [30..<41] = {30..40}" unfolding set_upt by auto
  finally show ?thesis using True by (simp add: mongo_names_def)
next
  case False
  then show ?thesis using assms(1,3) usable_pat_iff [of p] by (auto simp: ak_mongo_match_slot_def mongo_names_def)
qed

section \<open>The query check\<close>

text \<open>The array of denied tables has its four slots, each with a 32-byte name field.\<close>

definition wf_tables :: "kstate \<Rightarrow> bool" where
  "wf_tables s \<longleftrightarrow> (\<forall>slot \<in> {0, 1, 2, 3}. \<exists>p. ak_db_deny_tables s slot = Some p \<and> length (pat p) = 32)"

text \<open>
  The specification: the lower-cased first 64 bytes name one of the denied tables, as the
  collection of an \<open>OP_MSG\<close> command or else as a table reference of a \<open>COM_QUERY\<close>.
\<close>

definition is_op_msg :: "bytes \<Rightarrow> bool" where
  "is_op_msg w \<longleftrightarrow> w ! 12 = 0xdd \<and> w ! 13 = 0x07 \<and> w ! 14 = 0 \<and> w ! 15 = 0"

definition denied_query :: "kstate \<Rightarrow> bytes \<Rightarrow> s32 \<Rightarrow> bool" where
  "denied_query s w len \<longleftrightarrow>
     (\<exists>slot \<in> {0, 1, 2, 3}. \<exists>p. ak_db_deny_tables s slot = Some p \<and>
        (if is_op_msg w then mongo_names w len p else w ! 4 = 0x03 \<and> sql_names w p))"

lemma db_slots_iff:
  assumes "wf_tables s" "length w = 64"
  shows "(\<exists>slot \<in> {0, 1, 2, 3}. ak_db_match_slot s w slot) \<longleftrightarrow>
     (\<exists>slot \<in> {0, 1, 2, 3}. \<exists>p. ak_db_deny_tables s slot = Some p \<and> sql_names w p)"
  using assms db_match_slot_iff [OF assms(2)] unfolding wf_tables_def by (metis option.inject)

lemma mongo_slots_iff:
  assumes "wf_tables s" "ak_db_scratch s (k_cpu k) 0 = Some w" "length w = 64"
  shows "(\<exists>slot \<in> {0, 1, 2, 3}. ak_mongo_match_slot k s len slot) \<longleftrightarrow>
     (\<exists>slot \<in> {0, 1, 2, 3}. \<exists>p. ak_db_deny_tables s slot = Some p \<and> mongo_names w len p)"
  using assms mongo_match_slot_iff [OF assms(2,3)] unfolding wf_tables_def by (metis option.inject)

text \<open>The bytes of the payload that are looked at, and the window the matchers see.\<close>

definition db_read_len :: "s32 \<Rightarrow> nat" where
  "db_read_len len = min (nat (sint len)) 64"

definition db_window :: "bytes \<Rightarrow> bytes" where
  "db_window b = map lower_sql (fit 64 b)"

lemma unat_db_read_len:
  "6 \<le> sint len \<Longrightarrow> unat (if of_nat AK_DB_SCAN < (len :: u32) then of_nat AK_DB_SCAN else len) = db_read_len len"
  by (auto simp: db_read_len_def AK_DB_SCAN_def word_less_nat_alt unat_of_sint_pos)

lemma query_check_pending:
  assumes "6 \<le> sint len" "ak_db_scratch s (k_cpu k) 0 \<noteq> None" "wf_tables s"
    and "k_read_user k buf (db_read_len len) = (0, b)" "length b = db_read_len len"
    and "k_update k M_db_deny_pending (ucast tgid) = 0"
  shows "ak_db_deny_pending (ak_db_query_check k tgid buf len s) tgid =
     (if denied_query s (db_window b) len then Some 1 else ak_db_deny_pending s tgid)"
proof -
  let ?w = "db_window b"
  let ?s1 = "s\<lparr>ak_db_scratch := (ak_db_scratch s)(k_cpu k := (ak_db_scratch s (k_cpu k))(0 \<mapsto> ?w))\<rparr>"
  have raw: "fit AK_DB_SCAN (fit (db_read_len len) b) = fit 64 b"
    using assms(5) by (simp add: fit_def AK_DB_SCAN_def)
  have w: "length ?w = 64" by (simp add: db_window_def)
  have wf: "wf_tables ?s1" and sc: "ak_db_scratch ?s1 (k_cpu k) 0 = Some ?w"
    using assms(3) by (simp_all add: wf_tables_def)
  let ?hit = "if is_op_msg ?w then \<exists>slot \<in> {0, 1, 2, 3}. ak_mongo_match_slot k ?s1 len slot
              else ?w ! 4 = 0x03 \<and> (\<exists>slot \<in> {0, 1, 2, 3}. ak_db_match_slot ?s1 ?w slot)"
  have "?hit \<longleftrightarrow> denied_query s ?w len"
    unfolding mongo_slots_iff [OF wf sc w] db_slots_iff [OF wf w] by (auto simp: denied_query_def)
  moreover have "ak_db_query_check k tgid buf len s =
      (if ?hit then ?s1\<lparr>ak_db_deny_pending := lru_update k M_db_deny_pending tgid 1 (ak_db_deny_pending ?s1)\<rparr>
       else ?s1)"
    using assms(1,2,4) unat_db_read_len [OF assms(1)] raw
    by (auto simp: ak_db_query_check_def Let_def db_window_def is_op_msg_def)
  ultimately show ?thesis
    using assms(6) by (simp add: lru_update_same)
qed

text \<open>
  C22. The in-kernel query check refines its specification: for a readable payload of at least 6
  bytes, the process is marked for refusal exactly when the lower-cased first 64 bytes of the
  payload name a denied table: the collection of a MongoDB \<open>OP_MSG\<close> command, or else a table of
  a MySQL \<open>COM_QUERY\<close> that follows a delimiter and fits the window. No other mark is set.
\<close>

theorem db_query_check_refines:
  assumes "6 \<le> sint len" "ak_db_scratch s (k_cpu k) 0 \<noteq> None" "wf_tables s"
    and "k_read_user k buf (min (nat (sint len)) 64) = (0, b)" "length b = min (nat (sint len)) 64"
    and "k_update k M_db_deny_pending (ucast tgid) = 0" "ak_db_deny_pending s tgid = None"
  shows "ak_db_deny_pending (ak_db_query_check k tgid buf len s) tgid \<noteq> None
     \<longleftrightarrow> denied_query s (db_window b) len"
  using query_check_pending [of len s k buf b tgid] assms by (simp add: db_read_len_def)

text \<open>\<open>SELECT 1 FROM Users\<close> with \<open>users\<close> denied.\<close>

definition users_query :: bytes where
  "users_query = [20, 0, 0, 0, 3] @ chars ''SELECT 1 FROM Users''"

definition users_state :: kstate where
  "users_state = init_kstate\<lparr>ak_db_deny_tables := (ak_db_deny_tables init_kstate)
     (0 \<mapsto> \<lparr>pat_len = 5, pat = fit 32 (chars ''users'')\<rparr>)\<rparr>"

lemma users_denied: "denied_query users_state (db_window users_query) 24"
proof -
  let ?p = "\<lparr>pat_len = 5, pat = fit 32 (chars ''users'')\<rparr>"
  have "names_at (db_window users_query) 19 ?p" "ak_sql_delim (db_window users_query ! 18)"
    "\<not> is_op_msg (db_window users_query)" "db_window users_query ! 4 = 3" "usable_pat ?p"
    by code_simp+
  then have "sql_names (db_window users_query) ?p"
    unfolding sql_names_def by (intro conjI bexI [of _ 19]) simp_all
  moreover have "ak_db_deny_tables users_state 0 = Some ?p"
    by (simp add: users_state_def)
  ultimately show ?thesis
    using \<open>\<not> is_op_msg _\<close> \<open>_ ! 4 = 3\<close> by (auto simp: denied_query_def)
qed

lemma users_tables: "wf_tables users_state"
  by (simp add: wf_tables_def users_state_def init_kstate_def)

definition query_env :: kenv where
  "query_env = sample_env\<lparr>k_read_user := (\<lambda>_ n. (0, take n users_query))\<rparr>"

theorem db_query_check_refines_witness:
  "ak_db_deny_pending (ak_db_query_check query_env 100 0x1000 24 users_state) 100 \<noteq> None"
proof -
  have "length users_query = 24" by (simp add: users_query_def chars_def)
  then show ?thesis
    using db_query_check_refines [of 24 users_state query_env "0x1000" users_query 100] users_tables users_denied
    by (simp add: query_env_def sample_env_def users_state_def init_kstate_def)
qed

section \<open>Registered descriptors\<close>

text \<open>The two ways the sources form a descriptor key agree.\<close>

lemma fd_key_eq: "fd_key k fd = fd_key32 (ak_tgid k) fd"
proof -
  have "drop_bit 32 (k_pid_tgid k) = ucast (ucast (drop_bit 32 (k_pid_tgid k)) :: u32)"
    by (rule bit_word_eqI) (auto simp: bit_simps dest: bit_imp_le_length)
  then show ?thesis
    by (simp add: fd_key_def fd_key32_def ak_tgid_def and_32_bits unsigned_ucast_eq)
qed

lemma flags_or_bit_sets:
  assumes "k_update k M_flags 0 = 0" "b \<noteq> 0"
  shows "has (ak_flags_get (ak_flags_or_bit k b s)) b"
  using assms
  by (auto simp: ak_flags_or_bit_def ak_flags_get_def map_update_same has_or has_self split: option.split)

text \<open>The destination a connect names, read from user memory.\<close>

definition dst_family :: "kenv \<Rightarrow> kptr \<Rightarrow> u16" where
  "dst_family k sa = from_le (fit 2 (snd (k_read_user k sa 2)))"

definition dst_port :: "kenv \<Rightarrow> kptr \<Rightarrow> u16" where
  "dst_port k sa = ntohs (from_le (field 2 2 (fit (if dst_family k sa = 2 then 16 else 28)
       (snd (k_read_user k sa (if dst_family k sa = 2 then 16 else 28))))))"

text \<open>The destination is a database server: by port, or by the name of a unix socket.\<close>

definition db_destination :: "kenv \<Rightarrow> kptr \<Rightarrow> bool" where
  "db_destination k sa \<longleftrightarrow>
     (dst_family k sa = 2 \<or> dst_family k sa = 10) \<and> db_port (dst_port k sa)
     \<or> dst_family k sa = 1 \<and> ak_unix_db_sock (fit AK_SUN_MAX (snd (k_read_user k (sa + 2) AK_SUN_MAX)))"

lemma connect_payload_db:
  "connect_payload k sa (dst_family k sa) d = (d', n, port, u) \<Longrightarrow>
     (u \<or> db_port port) = db_destination k sa"
  by (auto simp: connect_payload_def db_destination_def dst_port_def Let_def db_port_def
      split: if_splits)

text \<open>
  A monitored process's connect to a database (a well-known port over IPv4 or IPv6, or a unix
  socket named after a server) registers the descriptor under the very key the write hooks look
  up and arms the capture flag, provided the event ring has room and the map writes succeed.
\<close>

lemma connect_registers_db:
  assumes "has (ak_session_flags k s) AK_SESS_MONITOR"
    and "db_destination k (se_args ctx 1)"
    and "k_reserve_events k (length (ak_events s)) = Some r"
    and "k_update k M_db_fds (fd_key k (se_args ctx 0)) = 0" "k_update k M_flags 0 = 0"
  shows "ak_db_fd (ak_connect k ctx s) (ak_tgid k) (se_args ctx 0)
    \<and> has (ak_flags_get (ak_connect k ctx s)) AK_FLAG_DB_ARMED"
proof -
  obtain d n port u where pl: "connect_payload k (se_args ctx 1) (dst_family k (se_args ctx 1))
      (fit AK_MAX_STR (data r)) = (d, n, port, u)"
    by (metis prod_cases4)
  then have hit: "u \<or> db_port port" using assms(2) connect_payload_db by blast
  let ?h = "ak_fill_header k (k_cgroup_id k) (ucast (se_id ctx)) AK_CAT_NETWORK (hdr r)"
  let ?s1 = "s\<lparr>ak_events := ak_events s @ [r\<lparr>hdr := ?h\<lparr>h_data_len := n\<rparr>, data := d\<rparr>]\<rparr>"
  let ?s2 = "if port = 53 then ?s1\<lparr>ak_dns_fds := lru_update k M_dns_fds (fd_key k (se_args ctx 0)) 1
       (ak_dns_fds ?s1)\<rparr> else ?s1"
  have "ak_connect k ctx s = ak_flags_or_bit k AK_FLAG_DB_ARMED
      (?s2\<lparr>ak_db_fds := lru_update k M_db_fds (fd_key k (se_args ctx 0)) 1 (ak_db_fds ?s2)\<rparr>)"
    using assms(1,3) pl hit by (simp add: ak_connect_def Let_def dst_family_def)
  then show ?thesis
    using assms(4,5) flags_or_bit_sets [of k AK_FLAG_DB_ARMED]
    by (simp add: ak_db_fd_def fd_key_eq [symmetric] lru_update_same AK_FLAG_DB_ARMED_def)
qed

text \<open>Connecting to port 3306 over IPv4.\<close>

definition mysql_env :: kenv where
  "mysql_env = sample_env\<lparr>k_read_user := (\<lambda>_ n. (0, take n [2, 0, 0x0c, 0xea, 127, 0, 0, 1, 0, 0, 0, 0, 0, 0, 0, 0]))\<rparr>"

lemma connect_registers_db_example:
  "ak_db_fd (ak_connect mysql_env recv_ctx (member_state 1)) 100 5"
proof -
  have "db_destination mysql_env (se_args recv_ctx 1)"
    by (simp add: db_destination_def dst_family_def dst_port_def mysql_env_def fit_def field_def
        ntohs_def db_port_def)
  moreover have "ak_session_flags mysql_env (member_state 1) = 1" "ak_tgid mysql_env = 100"
    by (simp_all add: mysql_env_def sample_env_def ak_session_flags_def ak_tgid_def member_state_def init_kstate_def)
  moreover obtain r where "k_reserve_events mysql_env (length (ak_events (member_state 1))) = Some r"
    by (simp add: mysql_env_def sample_env_def)
  moreover have "k_update mysql_env M x = 0" for M x by (simp add: mysql_env_def sample_env_def)
  ultimately show ?thesis
    using connect_registers_db [of mysql_env "member_state 1" recv_ctx r]
    by (simp add: has_def ak_const recv_ctx_def)
qed

text \<open>
  When the event ring is full, a connect registers nothing: the maps are unchanged, so a
  database socket whose descriptor was not registered before stays unknown to the write hook,
  which then neither captures nor checks what is sent on it.
\<close>

lemma connect_ring_full:
  assumes "k_reserve_events k (length (ak_events s)) = None"
    and "\<not> ak_db_fd s (ak_tgid k) (se_args ctx 0)"
    and "ak_tgid k' = ak_tgid k" "se_args ctx' 0 = se_args ctx 0"
  shows "ak_connect k ctx s = s \<and> ak_db_sendto k' ctx' (ak_connect k ctx s) = s"
proof -
  have "ak_connect k ctx s = s" using assms(1) by (simp add: ak_connect_def Let_def)
  with assms(2-4) show ?thesis by (simp add: ak_db_sendto_def Let_def)
qed

lemma connect_ring_full_example:
  "ak_db_sendto mysql_env recv_ctx (ak_connect (mysql_env\<lparr>k_reserve_events := (\<lambda>_. None)\<rparr>) recv_ctx (member_state 1))
     = member_state 1"
proof -
  have "\<not> ak_db_fd (member_state 1) t fd" for t fd
    by (simp add: ak_db_fd_def member_state_def init_kstate_def)
  then show ?thesis
    using connect_ring_full [of "mysql_env\<lparr>k_reserve_events := (\<lambda>_. None)\<rparr>" "member_state 1" recv_ctx mysql_env recv_ctx]
    by (auto simp: ak_tgid_def)
qed

section \<open>Pipe reads\<close>

interpretation pipe: stash_pair ak_pipe_read_args "\<lambda>_ s. has (ak_flags_get s) AK_FLAG_MCP_ARMED"
    ak_stdio_read_enter ak_stdio_read_exit
  by unfold_locales
    (auto simp: ak_stdio_read_enter_def ak_stdio_read_exit_def map_update_other Let_def split: option.split)

end
