(* ===== verification/AK_PathRules.thy ===== *)
theory AK_PathRules
  imports AK_Helpers
begin

text \<open>
  What the path functions of \<open>bpf/helpers.bpf.h\<close> compute. The hash a scan produces is a
  function of the C string in the buffer; the rule matcher is equivalent to
  \<open>forbidden_spec\<close>, and its two-buffer variant to the matcher on the joined path.
  \<open>rolling_hash\<close> is what the scans rely on: the hash can be continued byte by byte.
\<close>

section \<open>The hash as a function of the string\<close>

definition fnv1a :: "bytes \<Rightarrow> u64" where
  "fnv1a p = foldl fnv_step FNV_BASIS p"

locale rolling_hash =
  fixes hash :: "bytes \<Rightarrow> 'h"
    and stp :: "'h \<Rightarrow> u8 \<Rightarrow> 'h"
    and basis :: 'h
  assumes hash_Nil: "hash [] = basis"
    and hash_snoc: "hash (p @ [c]) = stp (hash p) c"
begin

lemma foldl_hash: "foldl stp (hash p) q = hash (p @ q)"
proof (induction q arbitrary: p)
  case Nil
  then show ?case by simp
next
  case (Cons c q)
  then show ?case using Cons.IH [of "p @ [c]"] by (simp add: hash_snoc)
qed

lemma foldl_basis: "foldl stp basis q = hash q"
  using foldl_hash [of "[]" q] by (simp add: hash_Nil)

end

interpretation fnv: rolling_hash fnv1a fnv_step FNV_BASIS
  by unfold_locales (simp_all add: fnv1a_def)

lemma fnv1a_loop_foldl: "fnv1a_loop h bs = foldl fnv_step h (cstr bs)"
  by (induction bs arbitrary: h) auto

lemma fnv1a_loop_hash: "fnv1a_loop (fnv1a p) bs = fnv1a (p @ cstr bs)"
  by (simp add: fnv1a_loop_foldl fnv.foldl_hash)

lemma fnv1a_loop_basis: "fnv1a_loop FNV_BASIS bs = fnv1a (cstr bs)"
  by (simp add: fnv1a_loop_foldl fnv.foldl_basis)

lemma ak_fnv1a_full: "ak_fnv1a buf 1024 = fnv1a (cstr (take AK_PATH_MAX buf))"
  by (simp add: ak_fnv1a_def fnv1a_loop_basis AK_PATH_MAX_def)

text \<open>The last component of a path: what follows the last separator.\<close>

definition basename :: "bytes \<Rightarrow> bytes" where
  "basename p = rev (takeWhile (\<lambda>c. c \<noteq> slash) (rev p))"

lemma basename_Cons_slash: "slash \<in> set p \<Longrightarrow> basename (c # p) = basename p"
  by (simp add: basename_def takeWhile_append1 [where x = slash])

lemma basename_no_slash: "slash \<notin> set p \<Longrightarrow> basename p = p"
  unfolding basename_def
  by (subst takeWhile_eq_all_conv [THEN iffD2]) auto

lemma basename_slash_Cons: "basename (slash # p) = basename p"
proof (cases "slash \<in> set p")
  case False
  have "takeWhile (\<lambda>c. c \<noteq> slash) (rev p @ [slash]) = rev p"
    using False by (subst takeWhile_append2) auto
  with False show ?thesis by (simp add: basename_def [of "slash # p"] basename_no_slash)
qed (rule basename_Cons_slash)

lemma fnv1a_basename_loop_eq:
  "fnv1a_basename_loop (fnv1a p) q =
     (if slash \<in> set (cstr q) then fnv1a (map lc (basename (cstr q)))
      else fnv1a (p @ map lc (cstr q)))"
proof (induction q arbitrary: p)
  case Nil
  then show ?case by simp
next
  case (Cons c q)
  show ?case
  proof (cases "c = slash")
    case True
    have "fnv1a_basename_loop (fnv1a p) (c # q) = fnv1a_basename_loop (fnv1a []) q"
      using True by (simp add: fnv1a_def)
    also have "\<dots> = fnv1a (map lc (basename (cstr q)))"
      using Cons.IH [of "[]"] by (simp add: basename_no_slash)
    finally show ?thesis using True by (simp add: basename_slash_Cons)
  next
    case False
    then show ?thesis
      using Cons.IH [of "p @ [lc c]"]
      by (auto simp: fnv.hash_snoc basename_Cons_slash)
  qed
qed

lemma ak_fnv1a_basename_eq:
  "ak_fnv1a_basename buf = fnv1a (map lc (basename (cstr (take AK_BASENAME_MAX buf))))"
  using fnv1a_basename_loop_eq [of "[]"]
  by (simp add: ak_fnv1a_basename_def fnv1a_def basename_no_slash)

section \<open>Specification of rule matching\<close>

definition ancestor_of :: "bytes \<Rightarrow> bytes \<Rightarrow> bool" where
  "ancestor_of d p \<longleftrightarrow> d \<noteq> [] \<and> (\<exists>t. p = d @ slash # t)"

definition forbidden_spec :: "kstate \<Rightarrow> bytes \<Rightarrow> u32 \<Rightarrow> bool" where
  "forbidden_spec s p opn \<longleftrightarrow>
     (\<exists>d. ancestor_of d p \<and> opt_has (ak_enforce_dir s (fnv1a d)) opn)
     \<or> opt_has (ak_enforce_file s (fnv1a p)) opn"

definition dir_hit :: "(u64 \<rightharpoonup> u32) \<Rightarrow> u32 \<Rightarrow> bytes \<Rightarrow> bytes \<Rightarrow> bool" where
  "dir_hit dirs opn p q \<longleftrightarrow>
     (\<exists>r t. q = r @ slash # t \<and> p @ r \<noteq> [] \<and> opt_has (dirs (fnv1a (p @ r))) opn)"

lemma dir_hit_Nil [simp]: "\<not> dir_hit dirs opn p []"
  by (simp add: dir_hit_def)

lemma dir_hit_Cons:
  "dir_hit dirs opn p (c # q) \<longleftrightarrow>
     (c = slash \<and> p \<noteq> [] \<and> opt_has (dirs (fnv1a p)) opn) \<or> dir_hit dirs opn (p @ [c]) q"
    (is "?l \<longleftrightarrow> ?a \<or> ?b")
proof
  assume ?l
  then obtain r t where "c # q = r @ slash # t" "p @ r \<noteq> []"
      "opt_has (dirs (fnv1a (p @ r))) opn"
    by (auto simp: dir_hit_def)
  then show "?a \<or> ?b"
    by (cases r) (auto simp: dir_hit_def)
next
  assume "?a \<or> ?b"
  then show ?l
  proof
    assume ?a
    then show ?l unfolding dir_hit_def by (intro exI [of _ "[]"] exI [of _ q]) simp
  next
    assume ?b
    then obtain r t where "q = r @ slash # t" "opt_has (dirs (fnv1a ((p @ [c]) @ r))) opn"
      by (auto simp: dir_hit_def)
    then show ?l unfolding dir_hit_def by (intro exI [of _ "c # r"] exI [of _ t]) simp
  qed
qed

lemma forbidden_loop_eq:
  "forbidden_loop dirs opn (length p) (fnv1a p) q =
     (if dir_hit dirs opn p (cstr q) then None else Some (fnv1a (p @ cstr q)))"
proof (induction q arbitrary: p)
  case Nil
  then show ?case by simp
next
  case (Cons c q)
  then show ?case
    using Cons.IH [of "p @ [c]"] by (auto simp: dir_hit_Cons fnv.hash_snoc)
qed

lemma forbidden_loop_start:
  "forbidden_loop dirs opn 0 FNV_BASIS q =
     (if dir_hit dirs opn [] (cstr q) then None else Some (fnv1a (cstr q)))"
  using forbidden_loop_eq [of dirs opn "[]" q] by (simp add: fnv1a_def)

lemma dir_hit_ancestor:
  "dir_hit dirs opn [] p \<longleftrightarrow> (\<exists>d. ancestor_of d p \<and> opt_has (dirs (fnv1a d)) opn)"
  by (auto simp: dir_hit_def ancestor_of_def)

lemma ak_forbidden_eq_spec:
  "ak_forbidden s buf opn \<longleftrightarrow> forbidden_spec s (cstr (take AK_PATH_MAX buf)) opn"
  by (auto simp: ak_forbidden_def forbidden_spec_def forbidden_loop_start dir_hit_ancestor)

section \<open>The two-buffer variant\<close>

lemma fnv1a_last_loop_eq:
  "fnv1a_last_loop h l q = (foldl fnv_step h (cstr q), if cstr q = [] then l else last (cstr q))"
  by (induction q arbitrary: h l) auto

lemma forbidden_last_loop_eq:
  "forbidden_last_loop dirs opn i h l q =
     map_option (\<lambda>h'. (h', if cstr q = [] then l else last (cstr q)))
       (forbidden_loop dirs opn i h q)"
  by (induction q arbitrary: i h l) auto

text \<open>The path a directory string and an entry name denote: \<open>dir/name\<close>, with no second
  separator when the directory is the root.\<close>

definition join_path :: "bytes \<Rightarrow> bytes \<Rightarrow> bytes" where
  "join_path d n = (if d \<noteq> [] \<and> last d = slash then d @ n else d @ slash # n)"

lemma split_hash_eq:
  "fnv1a_loop (if (if d = [] then 0 else last d) \<noteq> slash then fnv_step (fnv1a d) slash else fnv1a d) nm
     = fnv1a (join_path d (cstr nm))"
  by (auto simp: join_path_def fnv1a_loop_hash fnv.hash_snoc [symmetric] simp del: fnv.hash_snoc)

lemma ak_fnv1a_split_eq:
  "ak_fnv1a_split dir name =
     fnv1a (join_path (cstr (take AK_PATH_MAX dir)) (cstr (take AK_NAME_MAX name)))"
  by (simp add: ak_fnv1a_split_def fnv1a_last_loop_eq fnv.foldl_basis Let_def split_hash_eq)

lemma ak_forbidden_split_eq:
  fixes dir nm
  defines "d \<equiv> cstr (take AK_PATH_MAX dir)"
  shows "ak_forbidden_split s dir nm opn \<longleftrightarrow>
     (\<exists>a. ancestor_of a d \<and> opt_has (ak_enforce_dir s (fnv1a a)) opn)
     \<or> opt_has (ak_enforce_dir s (fnv1a d)) opn
     \<or> opt_has (ak_enforce_file s (fnv1a (join_path d (cstr (take AK_NAME_MAX nm))))) opn"
  by (auto simp: ak_forbidden_split_def forbidden_last_loop_eq forbidden_loop_start
      dir_hit_ancestor d_def Let_def split_hash_eq)

lemma ancestor_join:
  assumes "slash \<notin> set n" "d \<noteq> []" "last d \<noteq> slash"
  shows "ancestor_of a (d @ slash # n) \<longleftrightarrow> ancestor_of a d \<or> a = d"
proof
  assume "ancestor_of a (d @ slash # n)"
  then obtain t where a: "a \<noteq> []" and eq: "d @ slash # n = a @ slash # t"
    by (auto simp: ancestor_of_def)
  from eq show "ancestor_of a d \<or> a = d"
  proof (cases "length a < length d")
    case True
    with eq obtain us where "us \<noteq> []" "us @ slash # n = slash # t" "d = a @ us"
      by (auto simp: append_eq_append_conv2)
    then have "\<exists>u. d = a @ slash # u" by (cases us) auto
    with a show ?thesis by (auto simp: ancestor_of_def)
  next
    case False
    with eq assms(1) show ?thesis
      by (auto simp: append_eq_append_conv2 Cons_eq_append_conv append_eq_Cons_conv)
  qed
next
  assume "ancestor_of a d \<or> a = d"
  with assms(2) show "ancestor_of a (d @ slash # n)" by (auto simp: ancestor_of_def)
qed

lemma cstr_take_fit:
  "0 \<notin> set p \<Longrightarrow> length p \<le> m \<Longrightarrow> m \<le> n \<Longrightarrow> cstr (take m (fit n p)) = p"
  by (simp add: cstr_take cstr_fit)

lemma set_join_path: "set (join_path d n) \<subseteq> insert slash (set d \<union> set n)"
  by (auto simp: join_path_def)

lemma ak_forbidden_fit:
  "0 \<notin> set p \<Longrightarrow> length p \<le> AK_PATH_MAX \<Longrightarrow>
   ak_forbidden s (fit AK_PATH_MAX p) opn = forbidden_spec s p opn"
  by (simp add: ak_forbidden_eq_spec cstr_fit)

lemma ak_fnv1a_fit:
  "0 \<notin> set p \<Longrightarrow> length p \<le> AK_PATH_MAX \<Longrightarrow> ak_fnv1a (fit AK_PATH_MAX p) 1024 = fnv1a p"
  by (simp add: ak_fnv1a_full cstr_fit)

lemma forbidden_split_joined:
  assumes "d \<noteq> []" "last d \<noteq> slash" "0 \<notin> set d"
    and "slash \<notin> set n" "0 \<notin> set n"
    and "length d + 1 + length n < AK_PATH_MAX" "length n < AK_NAME_MAX"
  shows "ak_forbidden_split s (fit AK_PATH_MAX d) (fit AK_NAME_MAX n) opn
       = forbidden_spec s (d @ slash # n) opn"
proof -
  have d: "cstr (take AK_PATH_MAX (fit AK_PATH_MAX d)) = d"
    and n: "cstr (take AK_NAME_MAX (fit AK_NAME_MAX n)) = n"
    using assms by (simp_all add: cstr_fit)
  have j: "join_path d n = d @ slash # n"
    using assms by (simp add: join_path_def)
  show ?thesis
    unfolding ak_forbidden_split_eq forbidden_spec_def d n j
    using ancestor_join [OF assms(4,1,2)] by auto
qed

lemma fnv1a_split_fit:
  assumes "0 \<notin> set d" "0 \<notin> set n" "length d \<le> AK_PATH_MAX" "length n \<le> AK_NAME_MAX"
  shows "ak_fnv1a_split (fit AK_PATH_MAX d) (fit AK_NAME_MAX n) = fnv1a (join_path d n)"
  using assms by (simp add: ak_fnv1a_split_eq cstr_fit)

section \<open>Properties\<close>

text \<open>
  C10. The single-pass matcher refines the specification of a path rule: an operation on an
  absolute path is forbidden exactly when an ancestor directory (any non-empty prefix that ends
  at a separator) has the operation's bit in the directory table, or the path itself has it in
  the file table.
\<close>

theorem ak_forbidden_refines:
  assumes "0 \<notin> set p" "length p \<le> AK_PATH_MAX"
  shows "ak_forbidden s (fit AK_PATH_MAX p) opn \<longleftrightarrow>
     (\<exists>d t. d \<noteq> [] \<and> p = d @ slash # t \<and> opt_has (ak_enforce_dir s (fnv1a d)) opn)
     \<or> opt_has (ak_enforce_file s (fnv1a p)) opn"
  using assms by (auto simp: ak_forbidden_fit forbidden_spec_def ancestor_of_def)

text \<open>A directory rule on \<open>/etc\<close> forbids opening \<open>/etc/ssh/key\<close>.\<close>

definition etc_rules :: kstate where
  "etc_rules = init_kstate\<lparr>ak_enforce_dir := [fnv1a (chars ''/etc'') \<mapsto> AK_OP_OPEN]\<rparr>"

theorem ak_forbidden_refines_witness:
  "ak_forbidden etc_rules (fit AK_PATH_MAX (chars ''/etc/ssh/key'')) AK_OP_OPEN"
proof -
  have "chars ''/etc/ssh/key'' = chars ''/etc'' @ slash # chars ''ssh/key''" "chars ''/etc'' \<noteq> []"
    "0 \<notin> set (chars ''/etc/ssh/key'')" "length (chars ''/etc/ssh/key'') \<le> AK_PATH_MAX"
    "opt_has (ak_enforce_dir etc_rules (fnv1a (chars ''/etc''))) AK_OP_OPEN"
    by (simp_all add: chars_def etc_rules_def ak_const has_def)
  then show ?thesis
    using ak_forbidden_refines [of "chars ''/etc/ssh/key''" etc_rules AK_OP_OPEN] by metis
qed

text \<open>
  In the root directory the separator is not doubled: the verdict on \<open>/name\<close> is that of the
  single-buffer matcher, except that a directory rule on \<open>/\<close> itself also applies (the scan of
  \<open>ak_forbidden\<close> never looks up the empty prefix or the root).
\<close>

lemma ak_forbidden_split_root:
  assumes "slash \<notin> set n" "0 \<notin> set n" "length n < AK_NAME_MAX"
  shows "ak_forbidden_split s (fit AK_PATH_MAX [slash]) (fit AK_NAME_MAX n) opn
       \<longleftrightarrow> ak_forbidden s (fit AK_PATH_MAX (slash # n)) opn
         \<or> opt_has (ak_enforce_dir s (fnv1a [slash])) opn"
proof -
  have d: "cstr (take AK_PATH_MAX (fit AK_PATH_MAX [slash])) = [slash]"
    and n: "cstr (take AK_NAME_MAX (fit AK_NAME_MAX n)) = n"
    and p: "cstr (take AK_PATH_MAX (fit AK_PATH_MAX (slash # n))) = slash # n"
    using assms by (simp_all add: cstr_fit ak_const)
  have j: "join_path [slash] n = slash # n"
    by (simp add: join_path_def)
  have no: "\<not> ancestor_of a (slash # n)" "\<not> ancestor_of a [slash]" for a
    using assms(1) by (auto simp: ancestor_of_def Cons_eq_append_conv)
  show ?thesis
    unfolding ak_forbidden_split_eq ak_forbidden_eq_spec forbidden_spec_def d n p j
    by (auto simp: no)
qed

text \<open>Both cases: the path of an entry, and the rule on \<open>/\<close> that only the two-buffer matcher consults.\<close>

lemma forbidden_split_entry:
  assumes "d \<noteq> []" "d = [slash] \<or> last d \<noteq> slash" "0 \<notin> set d" "slash \<notin> set n" "0 \<notin> set n"
    and "q = (if d = [slash] then slash # n else d @ slash # n)" "length q < AK_PATH_MAX" "length n < AK_NAME_MAX"
  shows "ak_forbidden_split s (fit AK_PATH_MAX d) (fit AK_NAME_MAX n) opn
       \<longleftrightarrow> forbidden_spec s q opn \<or> d = [slash] \<and> opt_has (ak_enforce_dir s (fnv1a [slash])) opn"
proof (cases "d = [slash]")
  case True
  then show ?thesis using assms ak_forbidden_split_root [of n s opn] by (simp add: ak_forbidden_fit)
next
  case False
  then show ?thesis using assms by (simp add: forbidden_split_joined)
qed

text \<open>
  C17. The two-buffer matcher decides as the single-buffer one does on the joined path: for any
  directory, the root included, and any entry name, \<open>ak_forbidden_split dir name\<close> is \<open>ak_forbidden\<close>
  of \<open>dir/name\<close> (of \<open>/name\<close>, with one separator, in the root), with the name cut off behind 127
  bytes as the hooks read it; the one difference is a tree rule on \<open>/\<close> itself, which it applies
  to the entries of the root and \<open>ak_forbidden\<close> never looks up.
\<close>

theorem ak_forbidden_split_equiv:
  assumes "d \<noteq> []" "d = [slash] \<or> last d \<noteq> slash" "0 \<notin> set d" "slash \<notin> set name" "0 \<notin> set name"
    and "n = take (AK_NAME_MAX - 1) name"
    and "q = (if d = [slash] then slash # n else d @ slash # n)" "length q < AK_PATH_MAX"
  shows "ak_forbidden_split s (fit AK_PATH_MAX d) (fit AK_NAME_MAX n) opn
       \<longleftrightarrow> ak_forbidden s (fit AK_PATH_MAX q) opn \<or> d = [slash] \<and> opt_has (ak_enforce_dir s (fnv1a [slash])) opn"
proof -
  have n: "slash \<notin> set n" "0 \<notin> set n" "length n < AK_NAME_MAX"
    using assms(4-6) by (auto simp: AK_NAME_MAX_def dest: in_set_takeD)
  then have "0 \<notin> set q" using assms(3,7) by auto
  then show ?thesis
    using forbidden_split_entry [OF assms(1-3) n(1,2) assms(7,8) n(3)] assms(8) by (simp add: ak_forbidden_fit)
qed

theorem ak_forbidden_split_equiv_witness:
  "ak_forbidden_split (init_kstate\<lparr>ak_enforce_file := [fnv1a (chars ''/vm'') \<mapsto> AK_OP_DELETE]\<rparr>)
     (fit AK_PATH_MAX [slash]) (fit AK_NAME_MAX (chars ''vm'')) AK_OP_DELETE"
proof -
  let ?s = "init_kstate\<lparr>ak_enforce_file := [fnv1a (chars ''/vm'') \<mapsto> AK_OP_DELETE]\<rparr>"
  have "slash # chars ''vm'' = chars ''/vm''" "0 \<notin> set (chars ''/vm'')" "length (chars ''/vm'') = 3"
    by (simp_all add: chars_def)
  then have "ak_forbidden ?s (fit AK_PATH_MAX (slash # chars ''vm'')) AK_OP_DELETE"
    by (simp add: ak_forbidden_eq_spec forbidden_spec_def cstr_fit has_def ak_const)
  then show ?thesis
    using ak_forbidden_split_equiv [of "[slash]" "chars ''vm''" "chars ''vm''" "slash # chars ''vm''" ?s AK_OP_DELETE]
    by (simp add: chars_def ak_const)
qed

text \<open>
  The hash of \<open>dir/name\<close> computed from two buffers is the hash \<open>ak_fnv1a\<close> computes of the
  joined path, so a taint or a rule stored under one is found under the other.
\<close>

lemma ak_fnv1a_split_joins:
  assumes "0 \<notin> set d" "0 \<notin> set n" "length n < AK_NAME_MAX"
    and "length d + 1 + length n < AK_PATH_MAX"
  shows "ak_fnv1a_split (fit AK_PATH_MAX d) (fit AK_NAME_MAX n)
       = ak_fnv1a (fit AK_PATH_MAX (join_path d n)) 1024"
proof -
  have "0 \<notin> set (join_path d n)" "length (join_path d n) \<le> AK_PATH_MAX"
    using assms set_join_path [of d n] by (auto simp: join_path_def)
  then show ?thesis
    using assms by (simp add: fnv1a_split_fit ak_fnv1a_fit)
qed

lemma ak_fnv1a_split_joins_example:
  "ak_fnv1a_split (fit AK_PATH_MAX (chars ''/tmp'')) (fit AK_NAME_MAX (chars ''x''))
   = ak_fnv1a (fit AK_PATH_MAX (chars ''/tmp/x'')) 1024"
  using ak_fnv1a_split_joins [of "chars ''/tmp''" "chars ''x''"]
  by (simp add: chars_def ak_const join_path_def)

end
