(* ===== verification/AK_Enforcer.thy ===== *)
theory AK_Enforcer
  imports AK_Frames AK_PathRules
begin

text \<open>
  \<open>bpf/enforcer.bpf.c\<close>: the BPF-LSM hooks. A hook takes the verdict \<open>ret\<close> of the modules
  before it and returns its own: 0 to allow, \<open>-1\<close> (\<open>-EPERM\<close>) to refuse. The model of a hook
  returns the verdict and the maps. What every hook promises is the locale \<open>lsm_hook\<close>, what the
  path-mediating ones add is \<open>path_hook\<close>; both are interpreted on every hook they apply to.
\<close>

abbreviation EPERM :: s32 where "EPERM \<equiv> - 1"

section \<open>Provenance taint\<close>

definition ak_deny_code_armed :: "kstate \<Rightarrow> u32 \<Rightarrow> u64 \<Rightarrow> bool" where
  "ak_deny_code_armed s flags cgid =
     (if has flags AK_SESS_DENY_CODE then True
      else opt_has (ak_posture s cgid) AK_POSTURE_DENY_TAINTED_CODE)"

definition ak_ino_tainted :: "kstate \<Rightarrow> kptr \<Rightarrow> u32 \<Rightarrow> bool" where
  "ak_ino_tainted s ino want =
     (if ino = 0 then False else opt_has (ak_taint_inode s ino) want)"

definition ak_deny_taint :: "kstate \<Rightarrow> bytes \<Rightarrow> kptr \<Rightarrow> u32 \<Rightarrow> u64 \<Rightarrow> u32 \<Rightarrow> bool" where
  "ak_deny_taint s buf ino flags cgid want =
     (if \<not> ak_deny_code_armed s flags cgid then False
      else if opt_has (ak_taint_files s (ak_fnv1a buf (of_nat AK_PATH_MAX))) want then True
      else ak_ino_tainted s ino want)"

definition ak_is_anon_file :: "bytes \<Rightarrow> bool" where
  "ak_is_anon_file b = (b ! 0 = slash \<and> b ! 1 = 0x6d \<and> b ! 2 = 0x65 \<and> b ! 3 = 0x6d \<and>
                        b ! 4 = 0x66 \<and> b ! 5 = 0x64 \<and> b ! 6 = 0x3a)"

text \<open>The value stored: written, code when an execute bit is set, and what was there.\<close>

definition taint_value :: "kenv \<Rightarrow> kstate \<Rightarrow> u64 \<Rightarrow> kptr \<Rightarrow> u32" where
  "taint_value k s h ino =
     (let im = (if ino \<noteq> 0 then i_mode (k_inode k ino) else 0);
          tv = (if im AND 0x49 \<noteq> 0 then AK_TAINT_WRITTEN OR AK_TAINT_CODE else AK_TAINT_WRITTEN)
      in case ak_taint_files s h of Some ex \<Rightarrow> tv OR ex | None \<Rightarrow> tv)"

text \<open>\<open>bpf_inode_storage_get\<close> with \<open>F_CREATE\<close>: the existing value, or a fresh zero one.\<close>

definition inode_storage_get_create :: "kenv \<Rightarrow> kstate \<Rightarrow> kptr \<Rightarrow> u32 option" where
  "inode_storage_get_create k s ino =
     (case ak_taint_inode s ino of
        Some v \<Rightarrow> Some v
      | None \<Rightarrow> if k_inode_create k ino then Some 0 else None)"

definition ak_taint_write :: "kenv \<Rightarrow> bytes \<Rightarrow> u32 \<Rightarrow> u64 \<Rightarrow> struct_file \<Rightarrow> kstate \<Rightarrow> kstate" where
  "ak_taint_write k buf flags cgid file s =
     (if \<not> ak_deny_code_armed s flags cgid then s
      else
        let h = ak_fnv1a buf (of_nat AK_PATH_MAX);
            ino = f_inode file;
            tv = taint_value k s h ino;
            s1 = s\<lparr>ak_taint_files := lru_update k M_taint_files h tv (ak_taint_files s)\<rparr>;
            s2 = (if k_update k M_taint_files h \<noteq> 0
                  then ak_bump_err k AK_ERR_TAINT_STORE s1 else s1)
        in if ino = 0 then s2
           else case inode_storage_get_create k s2 ino of
                  None \<Rightarrow> s2
                | Some iv \<Rightarrow> s2\<lparr>ak_taint_inode := (ak_taint_inode s2)(ino \<mapsto> iv OR tv)\<rparr>)"

section \<open>File open\<close>

text \<open>
  The sensitive-source arm of a read-open: deny-egress on the reading process and on its
  cgroup; refused when neither could be recorded.
\<close>

definition arm_egress :: "kenv \<Rightarrow> u32 \<Rightarrow> kstate \<Rightarrow> s32 \<times> kstate" where
  "arm_egress k flags s =
     (let tgid = ak_tgid k; cgid = k_cgroup_id k;
          nf = flags OR AK_SESS_DENY_EGRESS;
          e1 = k_update k M_session_pids (ucast tgid);
          s1 = s\<lparr>ak_session_pids := map_update k M_session_pids tgid nf (ak_session_pids s)\<rparr>;
          pv = (case ak_posture s1 cgid of None \<Rightarrow> 0 | Some v \<Rightarrow> v) OR AK_POSTURE_DENY_EGRESS;
          e2 = k_update k M_posture cgid;
          s2 = s1\<lparr>ak_posture := map_update k M_posture cgid pv (ak_posture s1)\<rparr>
      in if e1 \<noteq> 0 \<and> e2 \<noteq> 0 then (EPERM, ak_bump_err k AK_ERR_ARM_EGRESS s2) else (0, s2))"

definition ak_lsm_file_open :: "kenv \<Rightarrow> struct_file \<Rightarrow> s32 \<Rightarrow> kstate \<Rightarrow> s32 \<times> kstate" where
  "ak_lsm_file_open k file ret s =
     (if ret \<noteq> 0 then (ret, s)
      else
        let cgid = k_cgroup_id k; flags = ak_session_flags k s
        in if \<not> has flags AK_SESS_MONITOR then (0, s)
           else case ak_path_resolve k (f_path file) s of
             (None, s1) \<Rightarrow>
               (if has flags AK_SESS_ENFORCE then EPERM else 0,
                ak_emit_unresolved k cgid AK_PSEUDO_LSM_FILE AK_CAT_FILE s1)
           | (Some buf, s1) \<Rightarrow>
               (let s2 = ak_emit_kstr k cgid AK_PSEUDO_LSM_FILE AK_CAT_FILE 0 (Some buf) s1
                in if \<not> has flags AK_SESS_ENFORCE then (0, s2)
                   else if ak_forbidden s2 buf AK_OP_OPEN then (EPERM, s2)
                   else if has (f_mode file) 0x2 then
                     (if ak_forbidden s2 buf AK_OP_WRITE then (EPERM, s2)
                      else (0, ak_taint_write k buf flags cgid file s2))
                   else if ak_deny_taint s2 buf (f_inode file) flags cgid AK_TAINT_CODE
                     then (EPERM, s2)
                   else
                     (case ak_sensitive_files s2 (ak_fnv1a buf (of_nat AK_PATH_MAX)) of
                        None \<Rightarrow> (0, s2)
                      | Some sv \<Rightarrow> if sv \<noteq> 0 then arm_egress k flags s2 else (0, s2))))"

section \<open>Exec\<close>

text \<open>
  Arming at exec. The first component is \<open>None\<close> for the early \<open>return -1\<close>, else the flags the
  hook goes on with.
\<close>

definition bprm_arm :: "kenv \<Rightarrow> u32 \<Rightarrow> u32 \<Rightarrow> kstate \<Rightarrow> u32 option \<times> kstate" where
  "bprm_arm k sv flags s =
     (let tgid = ak_tgid k;
          s1 = s\<lparr>ak_session_pids := map_update k M_session_pids tgid sv (ak_session_pids s)\<rparr>
      in if k_update k M_session_pids (ucast tgid) \<noteq> 0 then
           let s2 = ak_emit_arm_fault k (k_cgroup_id k) (ak_bump_err k AK_ERR_ARM_SESSION s1)
           in if has sv AK_SESS_ENFORCE then (None, s2) else (Some flags, s2)
         else (Some sv, s1))"

definition bprm_arm_sig ::
  "kenv \<Rightarrow> struct_linux_binprm \<Rightarrow> u32 \<Rightarrow> kstate \<Rightarrow> u32 option \<times> kstate" where
  "bprm_arm_sig k bprm flags s =
     (if has flags AK_SESS_MONITOR then (Some flags, s)
      else
        let fn = bprm_filename bprm
        in if fn = 0 then (Some flags, s)
           else
             let (fl, nb) = k_read_kernel_str k fn AK_MAX_STR
             in if sint fl \<le> 0 then (Some flags, s)
                else case ak_agent_sigs s (ak_fnv1a_basename (fit AK_MAX_STR nb)) of
                       None \<Rightarrow> (Some flags, s)
                     | Some sf \<Rightarrow> bprm_arm k sf flags s)"

definition bprm_arm_parent :: "kenv \<Rightarrow> u32 \<Rightarrow> kstate \<Rightarrow> u32 option \<times> kstate" where
  "bprm_arm_parent k flags s =
     (if has flags AK_SESS_MONITOR then (Some flags, s)
      else case ak_session_pids s (t_tgid (k_parent k)) of
             None \<Rightarrow> (Some flags, s)
           | Some pf \<Rightarrow> bprm_arm k pf flags s)"

text \<open>The part of the hook after arming.\<close>

definition bprm_mediate ::
  "kenv \<Rightarrow> struct_linux_binprm \<Rightarrow> bool \<Rightarrow> u32 \<Rightarrow> kstate \<Rightarrow> s32 \<times> kstate" where
  "bprm_mediate k bprm armed flags s =
     (if \<not> has flags AK_SESS_MONITOR \<and> \<not> armed then (0, s)
      else
        let cgid = k_cgroup_id k
        in case ak_path_resolve k (f_path (bprm_file bprm)) s of
             (None, s1) \<Rightarrow>
               (if has flags AK_SESS_ENFORCE then EPERM else 0,
                ak_emit_unresolved k cgid AK_PSEUDO_LSM_EXEC AK_CAT_PROCESS s1)
           | (Some buf, s1) \<Rightarrow>
               (let s2 = (if armed \<and>
                             opt_has (ak_taint_files s1 (ak_fnv1a buf (of_nat AK_PATH_MAX)))
                               AK_TAINT_PERSIST
                          then ak_emit_kstr k cgid AK_PSEUDO_PERSIST_EXEC AK_CAT_PROCESS 0 (Some buf) s1
                          else s1)
                in if \<not> has flags AK_SESS_MONITOR then (0, s2)
                   else
                     let s3 = ak_emit_kstr k cgid AK_PSEUDO_LSM_EXEC AK_CAT_PROCESS 0 (Some buf) s2
                     in if \<not> has flags AK_SESS_ENFORCE then (0, s3)
                        else if ak_forbidden s3 buf AK_OP_EXEC then (EPERM, s3)
                        else if ak_deny_taint s3 buf (f_inode (bprm_file bprm)) flags cgid
                                  AK_TAINT_WRITTEN then (EPERM, s3)
                        else if ak_deny_code_armed s3 flags cgid \<and> ak_is_anon_file buf
                          then (EPERM, s3)
                        else (0, s3)))"

definition ak_lsm_bprm :: "kenv \<Rightarrow> struct_linux_binprm \<Rightarrow> s32 \<Rightarrow> kstate \<Rightarrow> s32 \<times> kstate" where
  "ak_lsm_bprm k bprm ret s =
     (if ret \<noteq> 0 then (ret, s)
      else
        let armed = has (ak_flags_get s) AK_FLAG_PERSIST_ARMED
        in case bprm_arm_sig k bprm (ak_session_flags k s) s of
             (None, s1) \<Rightarrow> (EPERM, s1)
           | (Some flags1, s1) \<Rightarrow>
               (case bprm_arm_parent k flags1 s1 of
                  (None, s2) \<Rightarrow> (EPERM, s2)
                | (Some flags2, s2) \<Rightarrow> bprm_mediate k bprm armed flags2 s2))"

section \<open>Mutations of paths\<close>

definition ak_enforce_path :: "kenv \<Rightarrow> struct_path \<Rightarrow> u32 \<Rightarrow> kstate \<Rightarrow> s32 \<times> kstate" where
  "ak_enforce_path k p opn s =
     (if \<not> has (ak_session_flags k s) AK_SESS_ENFORCE then (0, s)
      else case ak_path_resolve k p s of
             (None, s1) \<Rightarrow>
               (EPERM, ak_emit_unresolved k (k_cgroup_id k) AK_PSEUDO_LSM_FILE AK_CAT_FILE s1)
           | (Some buf, s1) \<Rightarrow> (if ak_forbidden s1 buf opn then EPERM else 0, s1))"

definition dentry_name :: "kenv \<Rightarrow> struct_dentry \<Rightarrow> bytes" where
  "dentry_name k de =
     fit AK_NAME_MAX (snd (k_read_kernel_str k (q_name (d_name de)) AK_NAME_MAX))"

definition ak_enforce_dentry ::
  "kenv \<Rightarrow> struct_path \<Rightarrow> struct_dentry \<Rightarrow> u32 \<Rightarrow> kstate \<Rightarrow> s32 \<times> kstate" where
  "ak_enforce_dentry k dir de opn s =
     (if \<not> has (ak_session_flags k s) AK_SESS_ENFORCE then (0, s)
      else case ak_path_resolve k dir s of
             (None, s1) \<Rightarrow>
               (EPERM, ak_emit_unresolved k (k_cgroup_id k) AK_PSEUDO_LSM_FILE AK_CAT_FILE s1)
           | (Some dbuf, s1) \<Rightarrow>
               (if ak_forbidden_split s1 dbuf (dentry_name k de) opn then EPERM else 0, s1))"

definition ak_lsm_path_chmod :: "kenv \<Rightarrow> struct_path \<Rightarrow> s32 \<Rightarrow> kstate \<Rightarrow> s32 \<times> kstate" where
  "ak_lsm_path_chmod k p ret s =
     (if ret \<noteq> 0 then (ret, s)
      else if \<not> has (ak_session_flags k s) AK_SESS_MONITOR then (0, s)
      else ak_enforce_path k p AK_OP_CHMOD s)"

definition ak_lsm_path_chown :: "kenv \<Rightarrow> struct_path \<Rightarrow> s32 \<Rightarrow> kstate \<Rightarrow> s32 \<times> kstate" where
  "ak_lsm_path_chown k p ret s =
     (if ret \<noteq> 0 then (ret, s)
      else if \<not> has (ak_session_flags k s) AK_SESS_MONITOR then (0, s)
      else ak_enforce_path k p AK_OP_CHOWN s)"

definition ak_lsm_path_truncate :: "kenv \<Rightarrow> struct_path \<Rightarrow> s32 \<Rightarrow> kstate \<Rightarrow> s32 \<times> kstate" where
  "ak_lsm_path_truncate k p ret s =
     (if ret \<noteq> 0 then (ret, s)
      else if \<not> has (ak_session_flags k s) AK_SESS_MONITOR then (0, s)
      else ak_enforce_path k p AK_OP_WRITE s)"

definition ak_lsm_path_unlink ::
  "kenv \<Rightarrow> struct_path \<times> struct_dentry \<Rightarrow> s32 \<Rightarrow> kstate \<Rightarrow> s32 \<times> kstate" where
  "ak_lsm_path_unlink k a ret s =
     (if ret \<noteq> 0 then (ret, s)
      else if \<not> has (ak_session_flags k s) AK_SESS_MONITOR then (0, s)
      else ak_enforce_dentry k (fst a) (snd a) AK_OP_DELETE s)"

definition ak_lsm_path_rmdir ::
  "kenv \<Rightarrow> struct_path \<times> struct_dentry \<Rightarrow> s32 \<Rightarrow> kstate \<Rightarrow> s32 \<times> kstate" where
  "ak_lsm_path_rmdir k a ret s =
     (if ret \<noteq> 0 then (ret, s)
      else if \<not> has (ak_session_flags k s) AK_SESS_MONITOR then (0, s)
      else ak_enforce_dentry k (fst a) (snd a) AK_OP_DELETE s)"

text \<open>
  The provenance step of a rename: the taint word under the old path is stored under the new
  one. The same scratch buffer resolves both directories, the old one first.
\<close>

definition rename_taint ::
  "kenv \<Rightarrow> struct_path \<Rightarrow> struct_dentry \<Rightarrow> struct_path \<Rightarrow> struct_dentry \<Rightarrow> kstate \<Rightarrow> kstate" where
  "rename_taint k old_dir old_de new_dir new_de s =
     (case ak_path_resolve k old_dir s of
        (None, s1) \<Rightarrow> s1
      | (Some db, s1) \<Rightarrow>
          (case ak_taint_files s1 (ak_fnv1a_split db (dentry_name k old_de)) of
             None \<Rightarrow> s1
           | Some tv \<Rightarrow>
               (case ak_path_resolve k new_dir s1 of
                  (None, s2) \<Rightarrow> s2
                | (Some db2, s2) \<Rightarrow>
                    (let nh = ak_fnv1a_split db2 (dentry_name k new_de);
                         s3 = s2\<lparr>ak_taint_files := lru_update k M_taint_files nh tv (ak_taint_files s2)\<rparr>
                     in if k_update k M_taint_files nh \<noteq> 0
                        then ak_bump_err k AK_ERR_TAINT_STORE s3 else s3))))"

record rename_args =
  old_dir :: struct_path
  old_dentry :: struct_dentry
  new_dir :: struct_path
  new_dentry :: struct_dentry

definition ak_lsm_path_rename :: "kenv \<Rightarrow> rename_args \<Rightarrow> s32 \<Rightarrow> kstate \<Rightarrow> s32 \<times> kstate" where
  "ak_lsm_path_rename k a ret s =
     (if ret \<noteq> 0 then (ret, s)
      else
        let cgid = k_cgroup_id k; flags = ak_session_flags k s
        in if \<not> has flags AK_SESS_MONITOR then (0, s)
           else
             let s1 = (if ak_deny_code_armed s flags cgid
                       then rename_taint k (old_dir a) (old_dentry a) (new_dir a) (new_dentry a) s
                       else s)
             in if \<not> has flags AK_SESS_ENFORCE then (0, s1)
                else ak_enforce_dentry k (old_dir a) (old_dentry a) AK_OP_RENAME s1)"

section \<open>Network egress\<close>

definition ak_lsm_socket_connect :: "kenv \<Rightarrow> kptr \<Rightarrow> s32 \<Rightarrow> kstate \<Rightarrow> s32 \<times> kstate" where
  "ak_lsm_socket_connect k address ret s =
     (if ret \<noteq> 0 then (ret, s)
      else
        let cgid = k_cgroup_id k; flags = ak_session_flags k s
        in if \<not> has flags AK_SESS_MONITOR then (0, s)
           else
             let family = (from_le (fit 2 (snd (k_read_kernel k address 2))) :: u16)
             in if family \<noteq> 2 \<and> family \<noteq> 10 then (0, s)
                else if \<not> has flags AK_SESS_ENFORCE then (0, s)
                else
                  let nport = (from_le (fit 2 (snd (k_read_kernel k (address + 2) 2))) :: u16);
                      dport = drop_bit 8 nport OR push_bit 8 nport
                  in if has flags AK_SESS_DENY_EGRESS \<and> dport \<noteq> 53 then (EPERM, s)
                     else if opt_has (ak_posture s cgid) AK_POSTURE_DENY_EGRESS \<and> dport \<noteq> 53
                       then (EPERM, s)
                     else if family = 2 then
                       (let sin = fit 16 (snd (k_read_kernel k address 16));
                            key = (32, take 4 (drop 4 sin))
                        in case k_lpm_lookup k (ak_enforce_net s) key of
                             None \<Rightarrow> (0, s)
                           | Some act \<Rightarrow> (if act \<noteq> 0 then EPERM else 0, s))
                     else
                       (let sin6 = fit 28 (snd (k_read_kernel k address 28));
                            key6 = (128, take 16 (drop 8 sin6))
                        in case k_lpm_lookup k (ak_enforce_net6 s) key6 of
                             None \<Rightarrow> (0, s)
                           | Some act \<Rightarrow> (if act \<noteq> 0 then EPERM else 0, s)))"

section \<open>Database sends\<close>

definition ak_lsm_socket_sendmsg :: "kenv \<Rightarrow> unit \<Rightarrow> s32 \<Rightarrow> kstate \<Rightarrow> s32 \<times> kstate" where
  "ak_lsm_socket_sendmsg k u ret s =
     (if ret \<noteq> 0 then (ret, s)
      else if \<not> has (ak_flags_get s) AK_FLAG_DB_BLOCK_ARMED then (0, s)
      else if ak_db_deny_pending s (ak_tgid k) = None then (0, s)
      else
        let s1 = s\<lparr>ak_db_deny_pending := (ak_db_deny_pending s)(ak_tgid k := None)\<rparr>
        in if \<not> has (ak_session_flags k s1) AK_SESS_ENFORCE then (0, s1)
           else (EPERM, s1))"

section \<open>Self-protection\<close>

definition ak_lsm_task_kill :: "kenv \<Rightarrow> struct_task \<times> s32 \<Rightarrow> s32 \<Rightarrow> kstate \<Rightarrow> s32 \<times> kstate" where
  "ak_lsm_task_kill k a ret s =
     (if ret \<noteq> 0 then (ret, s)
      else if snd a = 0 then (0, s)
      else if \<not> has (ak_session_flags k s) AK_SESS_ENFORCE then (0, s)
      else if ak_self s (t_tgid (fst a)) \<noteq> None then (EPERM, s)
      else (0, s))"

definition ak_lsm_ptrace :: "kenv \<Rightarrow> struct_task \<Rightarrow> s32 \<Rightarrow> kstate \<Rightarrow> s32 \<times> kstate" where
  "ak_lsm_ptrace k child ret s =
     (if ret \<noteq> 0 then (ret, s)
      else if \<not> has (ak_session_flags k s) AK_SESS_ENFORCE then (0, s)
      else if ak_self s (t_tgid child) \<noteq> None then (EPERM, s)
      else (0, s))"

lemmas resolve_simps = ak_path_resolve_split

text \<open>An enforce-mode member, the monitor-only member, the outsider.\<close>

definition enforced :: "kenv \<Rightarrow> kstate \<Rightarrow> bool" where
  "enforced k s \<longleftrightarrow> has (ak_session_flags k s) AK_SESS_MONITOR \<and> has (ak_session_flags k s) AK_SESS_ENFORCE"

definition monitor_only :: "kenv \<Rightarrow> kstate \<Rightarrow> bool" where
  "monitor_only k s \<longleftrightarrow> has (ak_session_flags k s) AK_SESS_MONITOR \<and> \<not> has (ak_session_flags k s) AK_SESS_ENFORCE"

section \<open>The contract of an LSM hook\<close>

locale lsm_hook =
  fixes hook :: "kenv \<Rightarrow> 'a \<Rightarrow> s32 \<Rightarrow> kstate \<Rightarrow> s32 \<times> kstate"
  assumes earlier_denial: "ret \<noteq> 0 \<Longrightarrow> hook k a ret s = (ret, s)"
    and verdict: "fst (hook k a 0 s) = 0 \<or> fst (hook k a 0 s) = EPERM"
    and monitor_allows: "monitor_only k s \<Longrightarrow> fst (hook k a 0 s) = 0"
begin

lemma denial_final: "fst (hook k a ret s) \<noteq> 0 \<Longrightarrow> hook k' a' (fst (hook k a ret s)) s' = (fst (hook k a ret s), s')"
  by (rule earlier_denial)

lemma verdict_cases:
  obtains (earlier) "ret \<noteq> 0" "hook k a ret s = (ret, s)"
    | (allow) "ret = 0" "fst (hook k a ret s) = 0"
    | (refuse) "ret = 0" "fst (hook k a ret s) = EPERM" "\<not> monitor_only k s"
  using earlier_denial verdict monitor_allows by (cases "ret = 0") (metis zero_neq_neg_one)+

lemma never_loosens: "fst (hook k a ret s) = 0 \<Longrightarrow> ret = 0"
  using earlier_denial [of ret k a s] by (cases "ret = 0") auto

end

lemma arm_egress_fst:
  "fst (arm_egress k flags s) =
     (if k_update k M_session_pids (ucast (ak_tgid k)) \<noteq> 0 \<and> k_update k M_posture (k_cgroup_id k) \<noteq> 0
      then EPERM else 0)"
  by (simp add: arm_egress_def Let_def)

interpretation h_file_open: lsm_hook ak_lsm_file_open
  by unfold_locales
    (auto simp: ak_lsm_file_open_def monitor_only_def Let_def resolve_simps arm_egress_fst split: option.split)

lemma bprm_mediate_verdict:
  "fst (bprm_mediate k bprm armed flags s) = 0 \<or> fst (bprm_mediate k bprm armed flags s) = EPERM"
  by (auto simp: bprm_mediate_def Let_def resolve_simps split: option.split)

lemma bprm_mediate_monitor:
  "\<not> has flags AK_SESS_ENFORCE \<Longrightarrow> fst (bprm_mediate k bprm armed flags s) = 0"
  by (auto simp: bprm_mediate_def Let_def resolve_simps split: option.split)

lemma bprm_arm_skip [simp]:
  "has flags AK_SESS_MONITOR \<Longrightarrow> bprm_arm_sig k bprm flags s = (Some flags, s)"
  "has flags AK_SESS_MONITOR \<Longrightarrow> bprm_arm_parent k flags s = (Some flags, s)"
  by (simp_all add: bprm_arm_sig_def bprm_arm_parent_def)

lemma ak_lsm_bprm_member:
  "has (ak_session_flags k s) AK_SESS_MONITOR \<Longrightarrow>
     ak_lsm_bprm k bprm 0 s =
       bprm_mediate k bprm (has (ak_flags_get s) AK_FLAG_PERSIST_ARMED) (ak_session_flags k s) s"
  by (simp add: ak_lsm_bprm_def)

interpretation h_bprm: lsm_hook ak_lsm_bprm
proof
  fix k bprm s
  show "fst (ak_lsm_bprm k bprm 0 s) = 0 \<or> fst (ak_lsm_bprm k bprm 0 s) = EPERM"
    using bprm_mediate_verdict by (auto simp: ak_lsm_bprm_def split: option.split prod.split)
  show "monitor_only k s \<Longrightarrow> fst (ak_lsm_bprm k bprm 0 s) = 0"
    by (simp add: monitor_only_def ak_lsm_bprm_member bprm_mediate_monitor)
qed (simp add: ak_lsm_bprm_def)

lemma ak_enforce_path_fst:
  "fst (ak_enforce_path k p opn s) =
     (if \<not> has (ak_session_flags k s) AK_SESS_ENFORCE then 0
      else case path_of k p s of None \<Rightarrow> EPERM
           | Some buf \<Rightarrow> if ak_forbidden s buf opn then EPERM else 0)"
  by (simp add: ak_enforce_path_def resolve_simps split: option.split)

lemma ak_enforce_dentry_fst:
  "fst (ak_enforce_dentry k dir de opn s) =
     (if \<not> has (ak_session_flags k s) AK_SESS_ENFORCE then 0
      else case path_of k dir s of None \<Rightarrow> EPERM
           | Some buf \<Rightarrow> if ak_forbidden_split s buf (dentry_name k de) opn then EPERM else 0)"
  by (simp add: ak_enforce_dentry_def resolve_simps split: option.split)

interpretation h_chmod: lsm_hook ak_lsm_path_chmod
  by unfold_locales (auto simp: ak_lsm_path_chmod_def monitor_only_def ak_enforce_path_fst split: option.split)
interpretation h_chown: lsm_hook ak_lsm_path_chown
  by unfold_locales (auto simp: ak_lsm_path_chown_def monitor_only_def ak_enforce_path_fst split: option.split)
interpretation h_truncate: lsm_hook ak_lsm_path_truncate
  by unfold_locales (auto simp: ak_lsm_path_truncate_def monitor_only_def ak_enforce_path_fst split: option.split)
interpretation h_unlink: lsm_hook ak_lsm_path_unlink
  by unfold_locales (auto simp: ak_lsm_path_unlink_def monitor_only_def ak_enforce_dentry_fst split: option.split)
interpretation h_rmdir: lsm_hook ak_lsm_path_rmdir
  by unfold_locales (auto simp: ak_lsm_path_rmdir_def monitor_only_def ak_enforce_dentry_fst split: option.split)
interpretation h_rename: lsm_hook ak_lsm_path_rename
  by unfold_locales (auto simp: ak_lsm_path_rename_def monitor_only_def ak_enforce_dentry_fst Let_def split: option.split)
interpretation h_connect: lsm_hook ak_lsm_socket_connect
  by unfold_locales (auto simp: ak_lsm_socket_connect_def monitor_only_def Let_def split: option.split)
interpretation h_kill: lsm_hook ak_lsm_task_kill
  by unfold_locales (auto simp: ak_lsm_task_kill_def monitor_only_def)
interpretation h_ptrace: lsm_hook ak_lsm_ptrace
  by unfold_locales (auto simp: ak_lsm_ptrace_def monitor_only_def)

interpretation h_sendmsg: lsm_hook ak_lsm_socket_sendmsg
  by unfold_locales (auto simp: ak_lsm_socket_sendmsg_def monitor_only_def Let_def)

section \<open>Hooks that mediate a path\<close>

text \<open>
  Eight of the hooks decide on a path: \<open>tgt\<close> is the path they resolve, \<open>blocked\<close> the reason to
  refuse once it is resolved. For an enforced member the hook refuses when there is no path.
\<close>

locale path_hook = lsm_hook hook
  for hook :: "kenv \<Rightarrow> 'a \<Rightarrow> s32 \<Rightarrow> kstate \<Rightarrow> s32 \<times> kstate" +
  fixes tgt :: "'a \<Rightarrow> struct_path"
    and blocked :: "kenv \<Rightarrow> 'a \<Rightarrow> kstate \<Rightarrow> bytes \<Rightarrow> bool"
  assumes mediates: "enforced k s \<Longrightarrow>
     fst (hook k a 0 s) =
       (case path_of k (tgt a) s of
          None \<Rightarrow> EPERM
        | Some buf \<Rightarrow> if blocked k a s buf then EPERM else 0)"
begin

lemma fail_closed:
  "enforced k s \<Longrightarrow> path_of k (tgt a) s = None \<Longrightarrow> fst (hook k a 0 s) = EPERM"
  by (simp add: mediates)

lemma refused_iff:
  "enforced k s \<Longrightarrow> fst (hook k a 0 s) = EPERM \<longleftrightarrow>
     (case path_of k (tgt a) s of None \<Rightarrow> True | Some buf \<Rightarrow> blocked k a s buf)"
  by (simp add: mediates split: option.split)

lemma allowedE:
  assumes "enforced k s" "fst (hook k a 0 s) = 0"
  obtains buf where "path_of k (tgt a) s = Some buf" "\<not> blocked k a s buf"
  using assms by (auto simp: mediates split: option.splits if_splits)

end

text \<open>Why an open or an exec of a resolved path is refused.\<close>

definition open_blocked :: "kenv \<Rightarrow> struct_file \<Rightarrow> kstate \<Rightarrow> bytes \<Rightarrow> bool" where
  "open_blocked k file s buf \<longleftrightarrow>
     ak_forbidden s buf AK_OP_OPEN
     \<or> (if has (f_mode file) 0x2 then ak_forbidden s buf AK_OP_WRITE
        else ak_deny_taint s buf (f_inode file) (ak_session_flags k s) (k_cgroup_id k) AK_TAINT_CODE
           \<or> (\<exists>v. ak_sensitive_files s (ak_fnv1a buf 1024) = Some v \<and> v \<noteq> 0)
             \<and> k_update k M_session_pids (ucast (ak_tgid k)) \<noteq> 0
             \<and> k_update k M_posture (k_cgroup_id k) \<noteq> 0)"

definition exec_blocked :: "kenv \<Rightarrow> struct_linux_binprm \<Rightarrow> kstate \<Rightarrow> bytes \<Rightarrow> bool" where
  "exec_blocked k bprm s buf \<longleftrightarrow>
     ak_forbidden s buf AK_OP_EXEC
     \<or> ak_deny_taint s buf (f_inode (bprm_file bprm)) (ak_session_flags k s) (k_cgroup_id k)
         AK_TAINT_WRITTEN
     \<or> ak_deny_code_armed s (ak_session_flags k s) (k_cgroup_id k) \<and> ak_is_anon_file buf"

lemma ak_deny_code_armed_cong:
  "ak_posture s' = ak_posture s \<Longrightarrow> ak_deny_code_armed s' flags cg = ak_deny_code_armed s flags cg"
  by (simp add: ak_deny_code_armed_def)

lemma ak_deny_taint_frame [simp]:
  "ak_deny_taint (ak_emit_kstr k cgid sid cat ret res s) buf ino flags cg want = ak_deny_taint s buf ino flags cg want"
  "ak_deny_taint (snd (ak_path_resolve k p s)) buf ino flags cg want = ak_deny_taint s buf ino flags cg want"
  "ak_deny_code_armed (ak_emit_kstr k cgid sid cat ret res s) flags cg = ak_deny_code_armed s flags cg"
  "ak_deny_code_armed (snd (ak_path_resolve k p s)) flags cg = ak_deny_code_armed s flags cg"
  by (simp_all add: ak_deny_taint_def ak_deny_code_armed_def ak_ino_tainted_def)

interpretation p_file_open: path_hook ak_lsm_file_open f_path open_blocked
  by unfold_locales
    (auto simp: enforced_def ak_lsm_file_open_def open_blocked_def Let_def resolve_simps
      arm_egress_fst AK_PATH_MAX_def split: option.split)

interpretation p_bprm: path_hook ak_lsm_bprm "\<lambda>bprm. f_path (bprm_file bprm)" exec_blocked
  by unfold_locales
    (auto simp: enforced_def ak_lsm_bprm_member bprm_mediate_def exec_blocked_def Let_def
      resolve_simps split: option.split)

interpretation p_chmod: path_hook ak_lsm_path_chmod "\<lambda>p. p" "\<lambda>_ _ s buf. ak_forbidden s buf AK_OP_CHMOD"
  by unfold_locales (simp add: enforced_def ak_lsm_path_chmod_def ak_enforce_path_fst)
interpretation p_chown: path_hook ak_lsm_path_chown "\<lambda>p. p" "\<lambda>_ _ s buf. ak_forbidden s buf AK_OP_CHOWN"
  by unfold_locales (simp add: enforced_def ak_lsm_path_chown_def ak_enforce_path_fst)
interpretation p_truncate: path_hook ak_lsm_path_truncate "\<lambda>p. p" "\<lambda>_ _ s buf. ak_forbidden s buf AK_OP_WRITE"
  by unfold_locales (simp add: enforced_def ak_lsm_path_truncate_def ak_enforce_path_fst)

text \<open>A directory entry is matched by its directory's path and its name.\<close>

definition entry_blocked ::
  "u32 \<Rightarrow> kenv \<Rightarrow> struct_path \<times> struct_dentry \<Rightarrow> kstate \<Rightarrow> bytes \<Rightarrow> bool" where
  "entry_blocked opn k a s buf = ak_forbidden_split s buf (dentry_name k (snd a)) opn"

interpretation p_unlink: path_hook ak_lsm_path_unlink fst "entry_blocked AK_OP_DELETE"
  by unfold_locales
    (simp add: enforced_def ak_lsm_path_unlink_def ak_enforce_dentry_fst entry_blocked_def
      split: option.split)
interpretation p_rmdir: path_hook ak_lsm_path_rmdir fst "entry_blocked AK_OP_DELETE"
  by unfold_locales
    (simp add: enforced_def ak_lsm_path_rmdir_def ak_enforce_dentry_fst entry_blocked_def
      split: option.split)

lemma rename_taint_frame [simp]:
  "ak_session_flags k' (rename_taint k od oe nd ne s) = ak_session_flags k' s"
  "ak_enforce_dir (rename_taint k od oe nd ne s) = ak_enforce_dir s"
  "ak_enforce_file (rename_taint k od oe nd ne s) = ak_enforce_file s"
  "path_of k' p (rename_taint k od oe nd ne s) = path_of k' p s"
  by (auto simp: rename_taint_def resolve_simps Let_def split: option.split)

lemma ak_forbidden_split_cong:
  "ak_enforce_dir s' = ak_enforce_dir s \<Longrightarrow> ak_enforce_file s' = ak_enforce_file s \<Longrightarrow>
   ak_forbidden_split s' d n opn = ak_forbidden_split s d n opn"
  by (simp add: ak_forbidden_split_eq)

lemma ak_forbidden_split_rename [simp]:
  "ak_forbidden_split (rename_taint k od oe nd ne s) d n opn = ak_forbidden_split s d n opn"
  by (rule ak_forbidden_split_cong) simp_all

interpretation p_rename: path_hook ak_lsm_path_rename old_dir
    "\<lambda>k a. entry_blocked AK_OP_RENAME k (old_dir a, old_dentry a)"
  by unfold_locales
    (simp add: enforced_def ak_lsm_path_rename_def Let_def ak_enforce_dentry_fst entry_blocked_def
      split: option.split)

end
