(* ===== verification/AK_Verdicts.thy ===== *)
theory AK_Verdicts
  imports AK_Enforcer
begin

text \<open>
  When the hooks of \<open>bpf/enforcer.bpf.c\<close> refuse. The verdicts are stated on path strings and
  sockaddr fields; they follow from the contracts of the theory \<open>AK_Enforcer\<close> and from the
  matcher's specification of \<open>AK_PathRules\<close>.
\<close>

section \<open>Paths by name\<close>

text \<open>The kernel resolves \<open>p\<close> to the string \<open>q\<close>; a directory entry has the name \<open>n\<close>.\<close>

definition names :: "kenv \<Rightarrow> struct_path \<Rightarrow> kstate \<Rightarrow> bytes \<Rightarrow> bool" where
  "names k p s q \<longleftrightarrow>
     path_of k p s = Some (fit AK_PATH_MAX q) \<and> 0 \<notin> set q \<and> length q < AK_PATH_MAX"

definition entry_name :: "kenv \<Rightarrow> struct_dentry \<Rightarrow> bytes \<Rightarrow> bool" where
  "entry_name k de n \<longleftrightarrow>
     dentry_name k de = fit AK_NAME_MAX n \<and> 0 \<notin> set n \<and> slash \<notin> set n \<and> length n < AK_NAME_MAX"

text \<open>The provenance rule: deny-tainted-code is armed and one of the two keys has the bit.\<close>

definition provenance_denied ::
  "kenv \<Rightarrow> kstate \<Rightarrow> bytes \<Rightarrow> kptr \<Rightarrow> u32 \<Rightarrow> bool" where
  "provenance_denied k s q ino want \<longleftrightarrow>
     (has (ak_session_flags k s) AK_SESS_DENY_CODE
      \<or> opt_has (ak_posture s (k_cgroup_id k)) AK_POSTURE_DENY_TAINTED_CODE)
     \<and> (opt_has (ak_taint_files s (fnv1a q)) want
        \<or> ino \<noteq> 0 \<and> opt_has (ak_taint_inode s ino) want)"

lemma names_forbidden: "names k p s q \<Longrightarrow> ak_forbidden s (fit AK_PATH_MAX q) opn = forbidden_spec s q opn"
  by (simp add: names_def ak_forbidden_fit)

lemma names_fnv1a: "names k p s q \<Longrightarrow> ak_fnv1a (fit AK_PATH_MAX q) 1024 = fnv1a q"
  by (simp add: names_def ak_fnv1a_fit)

lemma names_fnv1a_max:
  "names k p s q \<Longrightarrow> ak_fnv1a (fit AK_PATH_MAX q) (of_nat AK_PATH_MAX) = fnv1a q"
  using names_fnv1a by (simp add: AK_PATH_MAX_def)

lemma names_deny_taint:
  "names k p s q \<Longrightarrow>
     ak_deny_taint s (fit AK_PATH_MAX q) ino (ak_session_flags k s) (k_cgroup_id k) want
       = provenance_denied k s q ino want"
  by (auto simp: ak_deny_taint_def provenance_denied_def ak_deny_code_armed_def ak_ino_tainted_def
      names_fnv1a_max)

lemma names_path_of: "names k p s q \<Longrightarrow> path_of k p s = Some (fit AK_PATH_MAX q)"
  by (simp add: names_def)

lemmas names_simps = names_path_of names_forbidden names_fnv1a names_deny_taint

text \<open>Objects of the concrete kernel; every path there is \<open>/a/b\<close>.\<close>

definition any_path :: struct_path where
  "any_path = \<lparr>path_mnt = 1, path_dentry = 2\<rparr>"

definition dentry_b :: struct_dentry where
  "dentry_b = \<lparr>d_name = \<lparr>q_name = 3\<rparr>\<rparr>"

definition dentry_c :: struct_dentry where
  "dentry_c = \<lparr>d_name = \<lparr>q_name = 4\<rparr>\<rparr>"

definition some_file :: "u32 \<Rightarrow> struct_file" where
  "some_file mode = \<lparr>f_path = any_path, f_inode = 9, f_mode = mode\<rparr>"

lemma sample_enforced:
  "ak_self s 100 = None \<Longrightarrow> ak_session_pids s 100 = Some f \<Longrightarrow> has f AK_SESS_MONITOR \<Longrightarrow>
   has f AK_SESS_ENFORCE \<Longrightarrow> enforced sample_env s"
  by (simp add: enforced_def member_flags)

lemma sample_names:
  "ak_path_scratch s 0 0 \<noteq> None \<Longrightarrow> names sample_env p s (chars ''/a/b'')"
  by (auto simp: names_def path_of_def sample_env_def chars_def ak_const)

lemma sample_entry:
  "entry_name sample_env dentry_b (chars ''b'')" "entry_name sample_env dentry_c (chars ''c'')"
  by (simp_all add: entry_name_def dentry_name_def dentry_b_def dentry_c_def sample_env_def
      chars_def ak_const)

lemmas sample_simps = member_state_def init_kstate_def ak_const has_def

section \<open>Opening a file\<close>

text \<open>
  C18. The verdict of \<open>file_open\<close> for an enforced member, on every branch: refused exactly when a
  rule forbids opening the path or an ancestor; for a write-open, when a rule forbids writing
  it; for a read-open, when the file is agent-written code under deny-tainted-code, or when it
  is a sensitive source and neither deny-egress arm could be recorded.
\<close>

theorem file_open_verdict:
  assumes "enforced k s" "names k (f_path file) s q"
  shows "fst (ak_lsm_file_open k file 0 s) = EPERM \<longleftrightarrow>
     forbidden_spec s q AK_OP_OPEN
     \<or> (if has (f_mode file) 0x2 then forbidden_spec s q AK_OP_WRITE
        else provenance_denied k s q (f_inode file) AK_TAINT_CODE
           \<or> (\<exists>v. ak_sensitive_files s (fnv1a q) = Some v \<and> v \<noteq> 0)
             \<and> k_update k M_session_pids (ucast (ak_tgid k)) \<noteq> 0
             \<and> k_update k M_posture (k_cgroup_id k) \<noteq> 0)"
  using assms by (simp add: p_file_open.refused_iff open_blocked_def names_simps)

theorem file_open_verdict_witness:
  "fst (ak_lsm_file_open sample_env (some_file 1) 0
     (member_state 3\<lparr>ak_enforce_file := [fnv1a (chars ''/a/b'') \<mapsto> AK_OP_OPEN]\<rparr>)) = EPERM"
  using file_open_verdict [of sample_env "member_state 3\<lparr>ak_enforce_file := [fnv1a (chars ''/a/b'') \<mapsto> AK_OP_OPEN]\<rparr>"
      "some_file 1" "chars ''/a/b''"]
  by (simp add: sample_enforced sample_names forbidden_spec_def sample_simps)

section \<open>Executing a file\<close>

text \<open>
  C19. The verdict of \<open>bprm_check_security\<close> for an enforced member: refused exactly when a rule
  forbids executing the path or an ancestor, when the file is agent-written under
  deny-tainted-code (by either provenance key), or when deny-tainted-code is armed and the image
  is an anonymous in-memory file.
\<close>

theorem bprm_verdict:
  assumes "enforced k s" "names k (f_path (bprm_file bprm)) s q"
  shows "fst (ak_lsm_bprm k bprm 0 s) = EPERM \<longleftrightarrow>
     forbidden_spec s q AK_OP_EXEC
     \<or> provenance_denied k s q (f_inode (bprm_file bprm)) AK_TAINT_WRITTEN
     \<or> ak_deny_code_armed s (ak_session_flags k s) (k_cgroup_id k)
       \<and> take 7 (fit AK_PATH_MAX q) = chars ''/memfd:''"
proof -
  have "ak_is_anon_file (fit AK_PATH_MAX q) \<longleftrightarrow> take 7 (fit AK_PATH_MAX q) = chars ''/memfd:''"
  proof -
    have "take 7 b = [b ! 0, b ! 1, b ! 2, b ! 3, b ! 4, b ! 5, b ! 6]" if "7 \<le> length b" for b :: bytes
      using that by (simp add: list_eq_iff_nth_eq nth_Cons' numeral_eq_Suc less_Suc_eq)
    then show ?thesis by (simp add: ak_is_anon_file_def chars_def AK_PATH_MAX_def)
  qed
  with assms show ?thesis
    by (simp add: p_bprm.refused_iff exec_blocked_def names_simps)
qed

definition some_bprm :: struct_linux_binprm where
  "some_bprm = \<lparr>bprm_file = some_file 1, bprm_filename = 5\<rparr>"

theorem bprm_verdict_witness:
  "fst (ak_lsm_bprm sample_env some_bprm 0 (member_state 7\<lparr>ak_taint_inode := [9 \<mapsto> AK_TAINT_WRITTEN]\<rparr>)) = EPERM"
proof -
  let ?s = "member_state 7\<lparr>ak_taint_inode := [9 \<mapsto> AK_TAINT_WRITTEN]\<rparr>"
  have "enforced sample_env ?s" "names sample_env (f_path (bprm_file some_bprm)) ?s (chars ''/a/b'')"
    by (simp_all add: sample_enforced sample_names sample_simps)
  moreover have "provenance_denied sample_env ?s (chars ''/a/b'') (f_inode (bprm_file some_bprm)) AK_TAINT_WRITTEN"
    by (simp add: provenance_denied_def some_bprm_def some_file_def member_flags sample_simps)
  ultimately show ?thesis using bprm_verdict [of sample_env ?s some_bprm "chars ''/a/b''"] by simp
qed

section \<open>Mutating a path\<close>

text \<open>
  The five mutation hooks refuse an enforced member exactly by the rule of their own
  operation bit: chmod, chown and truncate (as a write) on the path itself, unlink and rmdir (as
  a delete) on the entry \<open>dir/name\<close>, each by the path or any ancestor directory.
\<close>

lemma mutation_verdicts:
  assumes "enforced k s"
    and "names k p s q"
    and "names k dir s d" "d \<noteq> []" "last d \<noteq> slash"
    and "entry_name k de n" "length d + 1 + length n < AK_PATH_MAX"
  shows "(fst (ak_lsm_path_chmod k p 0 s) = EPERM \<longleftrightarrow> forbidden_spec s q AK_OP_CHMOD)
    \<and> (fst (ak_lsm_path_chown k p 0 s) = EPERM \<longleftrightarrow> forbidden_spec s q AK_OP_CHOWN)
    \<and> (fst (ak_lsm_path_truncate k p 0 s) = EPERM \<longleftrightarrow> forbidden_spec s q AK_OP_WRITE)
    \<and> (fst (ak_lsm_path_unlink k (dir, de) 0 s) = EPERM \<longleftrightarrow> forbidden_spec s (d @ slash # n) AK_OP_DELETE)
    \<and> (fst (ak_lsm_path_rmdir k (dir, de) 0 s) = EPERM \<longleftrightarrow> forbidden_spec s (d @ slash # n) AK_OP_DELETE)"
proof -
  have "entry_blocked opn k (dir, de) s (fit AK_PATH_MAX d) = forbidden_spec s (d @ slash # n) opn" for opn
    using assms(3-7) by (simp add: entry_blocked_def entry_name_def names_def forbidden_split_joined)
  with assms(1-3) show ?thesis
    by (simp add: p_chmod.refused_iff p_chown.refused_iff p_truncate.refused_iff
        p_unlink.refused_iff p_rmdir.refused_iff names_simps)
qed

lemma mutation_verdicts_example:
  "fst (ak_lsm_path_unlink sample_env (any_path, dentry_b) 0
     (member_state 3\<lparr>ak_enforce_dir := [fnv1a (chars ''/a'') \<mapsto> AK_OP_DELETE]\<rparr>)) = EPERM"
proof -
  let ?s = "member_state 3\<lparr>ak_enforce_dir := [fnv1a (chars ''/a'') \<mapsto> AK_OP_DELETE]\<rparr>"
  have e: "enforced sample_env ?s" and p: "names sample_env any_path ?s (chars ''/a/b'')"
    by (simp_all add: sample_enforced sample_names sample_simps)
  have "ancestor_of (chars ''/a'') (chars ''/a/b'' @ slash # chars ''b'')"
    by (simp add: ancestor_of_def chars_def)
  then have "forbidden_spec ?s (chars ''/a/b'' @ slash # chars ''b'') AK_OP_DELETE"
    unfolding forbidden_spec_def by (intro disjI1 exI [of _ "chars ''/a''"]) (simp add: sample_simps)
  then show ?thesis
    using mutation_verdicts [OF e p p _ _ sample_entry(1)] by (simp add: chars_def ak_const)
qed

text \<open>
  C24. Fail closed: when the kernel yields no path, each of the eight path-mediating hooks refuses
  an enforced member, so no operation runs unmatched against the rules.
\<close>

theorem unresolved_path_refused:
  assumes "enforced k s" "\<forall>p. path_of k p s = None"
  shows "fst (ak_lsm_file_open k file 0 s) = EPERM \<and> fst (ak_lsm_bprm k bprm 0 s) = EPERM
    \<and> fst (ak_lsm_path_chmod k p 0 s) = EPERM \<and> fst (ak_lsm_path_chown k p 0 s) = EPERM
    \<and> fst (ak_lsm_path_truncate k p 0 s) = EPERM
    \<and> fst (ak_lsm_path_unlink k e 0 s) = EPERM \<and> fst (ak_lsm_path_rmdir k e 0 s) = EPERM
    \<and> fst (ak_lsm_path_rename k a 0 s) = EPERM"
  using assms
  by (simp add: p_file_open.fail_closed p_bprm.fail_closed p_chmod.fail_closed p_chown.fail_closed
      p_truncate.fail_closed p_unlink.fail_closed p_rmdir.fail_closed p_rename.fail_closed)

text \<open>A path longer than the buffer: \<open>bpf_d_path\<close> returns \<open>-ENAMETOOLONG\<close>.\<close>

theorem unresolved_path_refused_witness:
  "fst (ak_lsm_file_open (sample_env\<lparr>k_d_path := (\<lambda>_. (- 36, []))\<rparr>) (some_file 1) 0 (member_state 3)) = EPERM"
  using unresolved_path_refused [of "sample_env\<lparr>k_d_path := (\<lambda>_. (- 36, []))\<rparr>" "member_state 3" "some_file 1"]
  by (simp add: enforced_def path_of_def ak_session_flags_def ak_tgid_def sample_env_def sample_simps)

section \<open>Renaming\<close>

text \<open>
  The verdict of a rename by an enforced member is the rename rule on the source
  \<open>old_dir/old_name\<close> (the path or any ancestor of it).
\<close>

lemma rename_verdict:
  assumes "enforced k s"
    and "names k (old_dir a) s d" "d \<noteq> []" "last d \<noteq> slash"
    and "entry_name k (old_dentry a) n" "length d + 1 + length n < AK_PATH_MAX"
  shows "fst (ak_lsm_path_rename k a 0 s) = EPERM \<longleftrightarrow> forbidden_spec s (d @ slash # n) AK_OP_RENAME"
  using assms
  by (simp add: p_rename.refused_iff names_path_of)
     (simp add: entry_blocked_def entry_name_def names_def forbidden_split_joined)

definition some_rename :: rename_args where
  "some_rename = \<lparr>old_dir = any_path, old_dentry = dentry_b, new_dir = any_path, new_dentry = dentry_c\<rparr>"

lemma rename_verdict_example:
  "fst (ak_lsm_path_rename sample_env some_rename 0
     (member_state 3\<lparr>ak_enforce_file := [fnv1a (chars ''/a/b/b'') \<mapsto> AK_OP_RENAME]\<rparr>)) = EPERM"
  using rename_verdict [of sample_env "member_state 3\<lparr>ak_enforce_file := [fnv1a (chars ''/a/b/b'') \<mapsto> AK_OP_RENAME]\<rparr>"
      some_rename "chars ''/a/b''" "chars ''b''"]
  by (simp add: some_rename_def sample_enforced sample_names sample_entry forbidden_spec_def sample_simps)
     (simp add: chars_def has_def)

text \<open>
  The destination of a rename plays no part in its verdict: whatever directory and name the
  file is renamed to, a path under a rename, write or delete rule included, the verdict is the
  same.
\<close>

lemma rename_ignores_destination:
  "fst (ak_lsm_path_rename k a ret s)
     = fst (ak_lsm_path_rename k (a\<lparr>new_dir := nd, new_dentry := ne\<rparr>) ret s)"
  by (simp add: ak_lsm_path_rename_def Let_def ak_enforce_dentry_fst split: option.split)

text \<open>
  A rename carries the path-keyed provenance: with deny-tainted-code armed, the taint word
  stored under \<open>old_dir/old_name\<close> is stored under \<open>new_dir/new_name\<close> afterwards (when the write
  succeeds), whether the rename itself is then allowed or refused.
\<close>

lemma rename_carries_taint:
  assumes "has (ak_session_flags k s) AK_SESS_MONITOR"
    and "ak_deny_code_armed s (ak_session_flags k s) (k_cgroup_id k)"
    and "names k (old_dir a) s od" "entry_name k (old_dentry a) on"
    and "names k (new_dir a) s nd" "entry_name k (new_dentry a) nn"
    and "ak_taint_files s (fnv1a (join_path od on)) = Some tv"
    and "k_update k M_taint_files (fnv1a (join_path nd nn)) = 0"
  shows "ak_taint_files (snd (ak_lsm_path_rename k a 0 s)) (fnv1a (join_path nd nn)) = Some tv"
proof -
  have e: "ak_taint_files (snd (ak_enforce_dentry k d de opn s1)) = ak_taint_files s1" for d de opn s1
    by (auto simp: ak_enforce_dentry_def resolve_simps split: option.split)
  have "ak_fnv1a_split (fit AK_PATH_MAX od) (dentry_name k (old_dentry a)) = fnv1a (join_path od on)"
    and "ak_fnv1a_split (fit AK_PATH_MAX nd) (dentry_name k (new_dentry a)) = fnv1a (join_path nd nn)"
    using assms(3-6) by (simp_all add: names_def entry_name_def fnv1a_split_fit)
  with assms show ?thesis
    by (auto simp: ak_lsm_path_rename_def Let_def e rename_taint_def resolve_simps lru_update_same
        names_path_of)
qed

lemma rename_carries_taint_example:
  "ak_taint_files (snd (ak_lsm_path_rename sample_env some_rename 0
     (member_state 7\<lparr>ak_taint_files := [fnv1a (chars ''/a/b/b'') \<mapsto> 1]\<rparr>))) (fnv1a (chars ''/a/b/c'')) = Some 1"
proof -
  let ?s = "member_state 7\<lparr>ak_taint_files := [fnv1a (chars ''/a/b/b'') \<mapsto> 1]\<rparr>"
  have j: "join_path (chars ''/a/b'') (chars ''b'') = chars ''/a/b/b''"
    "join_path (chars ''/a/b'') (chars ''c'') = chars ''/a/b/c''"
    by (simp_all add: join_path_def chars_def)
  have "names sample_env any_path ?s (chars ''/a/b'')"
    by (simp add: sample_names sample_simps)
  then show ?thesis
    using rename_carries_taint [of sample_env ?s some_rename "chars ''/a/b''" "chars ''b''" "chars ''/a/b''" "chars ''c''" 1]
    by (simp add: j some_rename_def sample_entry member_flags ak_deny_code_armed_def sample_simps)
       (simp add: sample_env_def)
qed

lemma rename_pids: "ak_session_pids (snd (ak_lsm_path_rename k a ret s)) = ak_session_pids s"
proof -
  have "ak_session_pids (snd (ak_enforce_dentry k d de opn t)) = ak_session_pids t" for d de opn t
    by (simp add: ak_enforce_dentry_def resolve_simps split: option.split)
  moreover have "ak_session_pids (rename_taint k od oe nd ne t) = ak_session_pids t" for od oe nd ne t
    by (simp add: rename_taint_def resolve_simps Let_def split: option.split)
  ultimately show ?thesis by (simp add: ak_lsm_path_rename_def Let_def)
qed

section \<open>Arming at exec\<close>

lemma bprm_mediate_frame [simp]:
  "ak_session_pids (snd (bprm_mediate k bprm armed flags s)) = ak_session_pids s"
  "ak_self (snd (bprm_mediate k bprm armed flags s)) = ak_self s"
  by (auto simp: bprm_mediate_def Let_def resolve_simps split: option.split)

text \<open>
  C30. A recognised agent never starts unarmed under enforcement: when the executed file's
  lower-cased basename is a signature with flags \<open>sf\<close> that include monitoring, then after the
  hook either the process carries exactly \<open>sf\<close>, or the membership write failed, and then an
  enforcing agent is refused at exec.
\<close>

theorem bprm_arms_agent:
  assumes "\<not> has (ak_session_flags k s) AK_SESS_MONITOR" "ak_self s (ak_tgid k) = None"
    and "bprm_filename bprm \<noteq> 0"
    and "k_read_kernel_str k (bprm_filename bprm) AK_MAX_STR = (fl, fn)" "0 < sint fl"
    and "ak_agent_sigs s (fnv1a (map lc (basename (cstr (fit AK_MAX_STR fn))))) = Some sf"
    and "has sf AK_SESS_MONITOR"
  shows "if k_update k M_session_pids (ucast (ak_tgid k)) = 0
         then ak_session_flags k (snd (ak_lsm_bprm k bprm 0 s)) = sf
         else has sf AK_SESS_ENFORCE \<longrightarrow> fst (ak_lsm_bprm k bprm 0 s) = EPERM"
proof -
  have "ak_agent_sigs s (ak_fnv1a_basename (fit AK_MAX_STR fn)) = Some sf"
    using assms(6) by (simp add: ak_fnv1a_basename_eq AK_BASENAME_MAX_def)
  with assms show ?thesis
    by (simp add: ak_lsm_bprm_def bprm_arm_sig_def bprm_arm_def Let_def map_update_same
        ak_session_flags_def)
qed

text \<open>\<open>/opt/B\<close> is run by an outsider; the signature is \<open>b\<close>.\<close>

theorem bprm_arms_agent_witness:
  "ak_session_flags sample_env
     (snd (ak_lsm_bprm (sample_env\<lparr>k_read_kernel_str := (\<lambda>_ _. (7, chars ''/opt/B''))\<rparr>) some_bprm 0
        (init_kstate\<lparr>ak_agent_sigs := [fnv1a (chars ''b'') \<mapsto> 3]\<rparr>))) = 3"
proof -
  let ?k = "sample_env\<lparr>k_read_kernel_str := (\<lambda>_ _. (7, chars ''/opt/B''))\<rparr>"
  let ?s = "init_kstate\<lparr>ak_agent_sigs := [fnv1a (chars ''b'') \<mapsto> 3]\<rparr>"
  have c: "cstr (fit AK_MAX_STR (chars ''/opt/B'')) = chars ''/opt/B''"
    by (simp add: cstr_fit chars_def ak_const)
  have b: "map lc (basename (chars ''/opt/B'')) = chars ''b''" by code_simp
  have eq: "ak_session_flags ?k t = ak_session_flags sample_env t" for t
    by (rule ak_session_flags_task) (simp_all add: ak_tgid_def)
  have "ak_session_flags ?k ?s = 0" "ak_tgid ?k = 100" "k_update ?k M_session_pids x = 0"
    "ak_self ?s 100 = None" "k_read_kernel_str ?k 5 AK_MAX_STR = (7, chars ''/opt/B'')" for x
    by (simp_all add: ak_session_flags_def ak_tgid_def sample_env_def init_kstate_def)
  moreover have "ak_agent_sigs ?s (fnv1a (chars ''b'')) = Some 3" "bprm_filename some_bprm = 5"
    "has 3 AK_SESS_MONITOR"
    by (simp_all add: some_bprm_def has_def ak_const)
  ultimately show ?thesis
    using bprm_arms_agent [of ?k ?s some_bprm 7 "chars ''/opt/B''" 3] by (simp add: c b eq)
qed

section \<open>Self-protection\<close>

text \<open>
  AgentKnox protects itself from an enforcing session and only from that: a signal (other
  than the probe 0) or a ptrace is refused exactly when the caller is enforced-mode and the
  target process is one of AgentKnox's own. The maps do not change.
\<close>

lemma self_protection:
  "ak_lsm_task_kill k (p, sig) 0 s =
     (if sig \<noteq> 0 \<and> has (ak_session_flags k s) AK_SESS_ENFORCE \<and> t_tgid p \<in> dom (ak_self s)
      then EPERM else 0, s)
   \<and> ak_lsm_ptrace k p 0 s =
     (if has (ak_session_flags k s) AK_SESS_ENFORCE \<and> t_tgid p \<in> dom (ak_self s)
      then EPERM else 0, s)"
  by (auto simp: ak_lsm_task_kill_def ak_lsm_ptrace_def)

end
