(* ===== verification/AK_Egress.thy ===== *)
theory AK_Egress
  imports AK_Verdicts
begin

text \<open>
  Outbound connections under \<open>bpf/enforcer.bpf.c\<close>: the verdict of \<open>socket_connect\<close>, denied
  prefixes, and how the read of a sensitive file bars later egress.
\<close>

section \<open>Reading the destination\<close>

definition sock_family :: "kenv \<Rightarrow> kptr \<Rightarrow> u16" where
  "sock_family k address = from_le (fit 2 (snd (k_read_kernel k address 2)))"

definition sock_port :: "kenv \<Rightarrow> kptr \<Rightarrow> u16" where
  "sock_port k address =
     (let nport = from_le (fit 2 (snd (k_read_kernel k (address + 2) 2)))
      in drop_bit 8 nport OR push_bit 8 nport)"

definition sock_addr4 :: "kenv \<Rightarrow> kptr \<Rightarrow> bytes" where
  "sock_addr4 k address = take 4 (drop 4 (fit 16 (snd (k_read_kernel k address 16))))"

definition sock_addr6 :: "kenv \<Rightarrow> kptr \<Rightarrow> bytes" where
  "sock_addr6 k address = take 16 (drop 8 (fit 28 (snd (k_read_kernel k address 28))))"

text \<open>Deny-egress is on for the process or for its cgroup.\<close>

definition egress_barred :: "kenv \<Rightarrow> kstate \<Rightarrow> bool" where
  "egress_barred k s \<longleftrightarrow>
     has (ak_session_flags k s) AK_SESS_DENY_EGRESS
     \<or> opt_has (ak_posture s (k_cgroup_id k)) AK_POSTURE_DENY_EGRESS"

lemma connect_refused_iff:
  assumes "enforced k s"
  shows "fst (ak_lsm_socket_connect k address 0 s) = EPERM \<longleftrightarrow>
     (sock_family k address = 2 \<or> sock_family k address = 10) \<and>
     ((egress_barred k s \<and> sock_port k address \<noteq> 53)
      \<or> (sock_family k address = 2 \<and>
         (\<exists>v. k_lpm_lookup k (ak_enforce_net s) (32, sock_addr4 k address) = Some v \<and> v \<noteq> 0))
      \<or> (sock_family k address = 10 \<and>
         (\<exists>v. k_lpm_lookup k (ak_enforce_net6 s) (128, sock_addr6 k address) = Some v \<and> v \<noteq> 0)))"
  using assms
  by (auto simp: enforced_def egress_barred_def ak_lsm_socket_connect_def sock_family_def
      sock_port_def sock_addr4_def sock_addr6_def Let_def split: option.split)

section \<open>Denied prefixes\<close>

text \<open>The bits of an address, most significant first, and the addresses a prefix covers.\<close>

definition byte_bits :: "u8 \<Rightarrow> bool list" where
  "byte_bits b = map (\<lambda>i. bit b i) [7, 6, 5, 4, 3, 2, 1, 0]"

definition covers :: "u32 \<times> bytes \<Rightarrow> bytes \<Rightarrow> bool" where
  "covers key addr \<longleftrightarrow>
     take (unat (fst key)) (concat (map byte_bits (snd key)))
     = take (unat (fst key)) (concat (map byte_bits addr))"

text \<open>
  What the kernel documents of an LPM trie lookup with a full-length key: the value stored under
  the longest stored prefix that covers the address, or nothing when none does.
\<close>

definition lpm_ok :: "kenv \<Rightarrow> (u32 \<times> bytes \<rightharpoonup> u32) \<Rightarrow> u32 \<Rightarrow> bytes \<Rightarrow> bool" where
  "lpm_ok k m full addr \<longleftrightarrow>
     (case k_lpm_lookup k m (full, addr) of
        None \<Rightarrow> \<not> (\<exists>key \<in> dom m. covers key addr)
      | Some v \<Rightarrow> \<exists>key. m key = Some v \<and> covers key addr \<and>
          (\<forall>key' \<in> dom m. covers key' addr \<longrightarrow> fst key' \<le> fst key))"

lemma lpm_ok_hit:
  assumes "lpm_ok k m full addr" "\<forall>v \<in> ran m. v \<noteq> 0"
  shows "(\<exists>v. k_lpm_lookup k m (full, addr) = Some v \<and> v \<noteq> 0) \<longleftrightarrow> (\<exists>key \<in> dom m. covers key addr)"
  using assms by (fastforce simp: lpm_ok_def ran_def split: option.splits)

text \<open>
  The verdict of \<open>socket_connect\<close> for an enforced member, when every stored prefix is a deny
  (as the daemon installs them) and the trie lookup is a longest-prefix match: an IPv4 or IPv6
  connect is refused exactly when deny-egress is on (for the process or its cgroup) and the port
  is not 53, or when some denied prefix of its family covers the address. Other families pass.
\<close>

lemma connect_verdict:
  assumes "enforced k s"
    and "lpm_ok k (ak_enforce_net s) 32 (sock_addr4 k address)" "\<forall>v \<in> ran (ak_enforce_net s). v \<noteq> 0"
    and "lpm_ok k (ak_enforce_net6 s) 128 (sock_addr6 k address)" "\<forall>v \<in> ran (ak_enforce_net6 s). v \<noteq> 0"
  shows "fst (ak_lsm_socket_connect k address 0 s) = EPERM \<longleftrightarrow>
     (sock_family k address = 2 \<or> sock_family k address = 10) \<and> egress_barred k s \<and> sock_port k address \<noteq> 53
     \<or> sock_family k address = 2 \<and> (\<exists>key \<in> dom (ak_enforce_net s). covers key (sock_addr4 k address))
     \<or> sock_family k address = 10 \<and> (\<exists>key \<in> dom (ak_enforce_net6 s). covers key (sock_addr6 k address))"
  unfolding connect_refused_iff [OF assms(1)] lpm_ok_hit [OF assms(2,3)] lpm_ok_hit [OF assms(4,5)]
  by blast

text \<open>A connect to 10.1.2.3:443 with 10.0.0.0/8 denied.\<close>

definition net10 :: "u32 \<times> bytes" where
  "net10 = (8, [10, 0, 0, 0])"

definition connect_env :: kenv where
  "connect_env = sample_env\<lparr>
     k_read_kernel := (\<lambda>p n. (0, take n (drop (unat p) [2, 0, 1, 0xbb, 10, 1, 2, 3, 0, 0, 0, 0, 0, 0, 0, 0]))),
     k_lpm_lookup := (\<lambda>m key. if covers net10 (snd key) then m net10 else None)\<rparr>"

lemma connect_env_simps [simp]:
  "ak_session_flags connect_env s = ak_session_flags sample_env s"
  "sock_family connect_env 0 = 2" "sock_port connect_env 0 = 443"
  "sock_addr4 connect_env 0 = [10, 1, 2, 3]"
  "ak_tgid connect_env = 100" "k_cgroup_id connect_env = 7"
  by (rule ak_session_flags_task; simp add: connect_env_def ak_tgid_def)
     (simp_all add: connect_env_def sock_family_def sock_port_def sock_addr4_def fit_def
       sample_env_def ak_tgid_def)

lemma connect_verdict_example:
  "fst (ak_lsm_socket_connect connect_env 0 0 (member_state 3\<lparr>ak_enforce_net := [net10 \<mapsto> 1]\<rparr>)) = EPERM"
proof -
  let ?s = "member_state 3\<lparr>ak_enforce_net := [net10 \<mapsto> 1]\<rparr>"
  have e: "enforced connect_env ?s"
    by (simp add: enforced_def member_flags sample_simps)
  have c: "covers net10 [10, 1, 2, 3]" by code_simp
  have "lpm_ok connect_env (ak_enforce_net ?s) 32 [10, 1, 2, 3]"
    using c by (auto simp: lpm_ok_def connect_env_def intro!: exI [of _ "fst net10"] exI [of _ "snd net10"])
  moreover have "lpm_ok connect_env (ak_enforce_net6 ?s) 128 a" for a
    by (simp add: lpm_ok_def connect_env_def sample_simps)
  ultimately show ?thesis
    using connect_verdict [OF e, of 0] c by (simp add: sample_simps)
qed

section \<open>A sensitive read bars egress\<close>

lemma session_flags_arm:
  assumes "ak_session_flags k s \<noteq> 0"
    and "ak_tgid k' = ak_tgid k" "k_cgroup_id k' = k_cgroup_id k"
  shows "ak_session_flags k' (s\<lparr>ak_session_pids := map_update k M_session_pids (ak_tgid k) nf (ak_session_pids s)\<rparr>)
    = (if k_update k M_session_pids (ucast (ak_tgid k)) = 0 then nf else ak_session_flags k s)"
  using assms by (auto simp: ak_session_flags_def map_update_def split: option.splits)

lemma enforced_nonzero: "enforced k s \<Longrightarrow> ak_session_flags k s \<noteq> 0"
  by (auto simp: enforced_def)

lemma arm_egress_bars:
  assumes "enforced k s" "ak_tgid k' = ak_tgid k" "k_cgroup_id k' = k_cgroup_id k"
    and "fst (arm_egress k (ak_session_flags k s) s) = 0"
  shows "enforced k' (snd (arm_egress k (ak_session_flags k s) s))
     \<and> egress_barred k' (snd (arm_egress k (ak_session_flags k s) s))"
  using assms enforced_nonzero [OF assms(1)]
  by (auto simp: egress_barred_def enforced_def arm_egress_def Let_def session_flags_arm map_update_same ak_flag
      split: if_splits)

text \<open>The open of a sensitive file for reading, once allowed, is the arming step.\<close>

lemma sensitive_open_is_arm:
  assumes "enforced k s" "names k (f_path file) s q" "\<not> has (f_mode file) 0x2"
    and "ak_sensitive_files s (fnv1a q) = Some v" "v \<noteq> 0"
    and "fst (ak_lsm_file_open k file 0 s) = 0"
  obtains s2 where "ak_lsm_file_open k file 0 s = arm_egress k (ak_session_flags k s) s2"
    "enforced k s2" "ak_session_flags k s2 = ak_session_flags k s"
proof
  let ?s2 = "ak_emit_kstr k (k_cgroup_id k) AK_PSEUDO_LSM_FILE AK_CAT_FILE 0 (Some (fit AK_PATH_MAX q))
               (snd (ak_path_resolve k (f_path file) s))"
  show "ak_lsm_file_open k file 0 s = arm_egress k (ak_session_flags k s) ?s2"
    using assms(1,3-6) names_path_of [OF assms(2)] names_fnv1a_max [OF assms(2)]
    by (auto simp: enforced_def ak_lsm_file_open_def Let_def resolve_simps split: if_splits)
  show "enforced k ?s2" "ak_session_flags k ?s2 = ak_session_flags k s"
    using assms(1) by (simp_all add: enforced_def)
qed

lemma sensitive_open_arms:
  assumes "enforced k s" "names k (f_path file) s q" "\<not> has (f_mode file) 0x2"
    and "ak_sensitive_files s (fnv1a q) = Some v" "v \<noteq> 0"
    and "fst (ak_lsm_file_open k file 0 s) = 0"
    and "ak_tgid k' = ak_tgid k" "k_cgroup_id k' = k_cgroup_id k"
  shows "enforced k' (snd (ak_lsm_file_open k file 0 s))
     \<and> egress_barred k' (snd (ak_lsm_file_open k file 0 s))"
  using sensitive_open_is_arm [OF assms(1-6)] arm_egress_bars assms(6-8) by metis

lemma sensitive_open_posture:
  assumes "enforced k s" "names k (f_path file) s q" "\<not> has (f_mode file) 0x2"
    and "ak_sensitive_files s (fnv1a q) = Some v" "v \<noteq> 0"
    and "fst (ak_lsm_file_open k file 0 s) = 0" "k_update k M_posture (k_cgroup_id k) = 0"
  shows "opt_has (ak_posture (snd (ak_lsm_file_open k file 0 s)) (k_cgroup_id k)) AK_POSTURE_DENY_EGRESS"
proof -
  obtain s2 where "ak_lsm_file_open k file 0 s = arm_egress k (ak_session_flags k s) s2"
    using sensitive_open_is_arm [OF assms(1-6)] by blast
  with assms(7) show ?thesis by (simp add: arm_egress_def Let_def map_update_same ak_flag)
qed

text \<open>
  Reading a secret bars egress, synchronously: once an enforced member's read-open of a
  sensitive file has been allowed, the next IPv4 or IPv6 connect of any thread of that process
  (in the same cgroup), other than to port 53, is refused.
\<close>

lemma sensitive_read_bars_egress:
  assumes "enforced k s" "names k (f_path file) s q" "\<not> has (f_mode file) 0x2"
    and "ak_sensitive_files s (fnv1a q) = Some v" "v \<noteq> 0"
    and "fst (ak_lsm_file_open k file 0 s) = 0"
    and "ak_tgid k' = ak_tgid k" "k_cgroup_id k' = k_cgroup_id k"
    and "sock_family k' address = 2 \<or> sock_family k' address = 10" "sock_port k' address \<noteq> 53"
  shows "fst (ak_lsm_socket_connect k' address 0 (snd (ak_lsm_file_open k file 0 s))) = EPERM"
  using sensitive_open_arms [OF assms(1-8)] assms(9,10) by (simp add: connect_refused_iff)

definition secret_state :: kstate where
  "secret_state = member_state 3\<lparr>ak_sensitive_files := [fnv1a (chars ''/a/b'') \<mapsto> 1]\<rparr>"

lemma secret_open:
  "enforced sample_env secret_state" "names sample_env p secret_state (chars ''/a/b'')"
  "ak_sensitive_files secret_state (fnv1a (chars ''/a/b'')) = Some 1"
  "fst (ak_lsm_file_open sample_env (some_file 1) 0 secret_state) = 0"
proof -
  show e: "enforced sample_env secret_state" and n: "names sample_env p secret_state (chars ''/a/b'')" for p
    by (simp_all add: sample_enforced sample_names secret_state_def sample_simps)
  show "ak_sensitive_files secret_state (fnv1a (chars ''/a/b'')) = Some 1"
    by (simp add: secret_state_def)
  have "\<not> provenance_denied sample_env secret_state q ino w" "\<not> forbidden_spec secret_state q opn" for q ino w opn
    by (simp_all add: provenance_denied_def forbidden_spec_def secret_state_def sample_simps)
  moreover have "k_update sample_env M x = 0" for M x by (simp add: sample_env_def)
  ultimately show "fst (ak_lsm_file_open sample_env (some_file 1) 0 secret_state) = 0"
    using p_file_open.mediates [OF e, of "some_file 1"] names_path_of [OF n] names_simps [OF n]
    by (simp add: open_blocked_def some_file_def has_def)
qed

lemma sensitive_read_bars_egress_example:
  "fst (ak_lsm_socket_connect connect_env 0 0
     (snd (ak_lsm_file_open sample_env (some_file 1) 0 secret_state))) = EPERM"
  using sensitive_read_bars_egress [OF secret_open(1) secret_open(2) _ secret_open(3) _ secret_open(4), of connect_env 0]
  by (simp add: some_file_def has_def)

lemma write_open_frame:
  assumes "has (f_mode file) 0x2"
  shows "ak_session_pids (snd (ak_lsm_file_open k file ret s)) = ak_session_pids s"
    and "ak_posture (snd (ak_lsm_file_open k file ret s)) = ak_posture s"
  using assms
  by (auto simp: ak_lsm_file_open_def ak_taint_write_def Let_def resolve_simps split: option.split)

text \<open>
  An open for reading and writing arms nothing: with the write mode bit set, neither the
  session flags of any process nor the posture of any cgroup change, even when the path is a
  sensitive source.
\<close>

lemma read_write_open_arms_nothing:
  assumes "has (f_mode file) 0x2"
  shows "ak_session_pids (snd (ak_lsm_file_open k file ret s)) = ak_session_pids s
    \<and> ak_posture (snd (ak_lsm_file_open k file ret s)) = ak_posture s"
  using write_open_frame [OF assms] by simp

lemma read_write_open_arms_nothing_example:
  "ak_posture (snd (ak_lsm_file_open sample_env (some_file 3) 0 secret_state)) 7 = None"
  using read_write_open_arms_nothing [of "some_file 3" sample_env 0 secret_state]
  by (simp add: some_file_def has_def secret_state_def member_state_def init_kstate_def)

end
