(* ===== verification/AK_Userspace.thy ===== *)
theory AK_Userspace
  imports AK_Stdio AK_Egress
begin

text \<open>
  The daemon's side of the interface, \<open>internal/bpf2frame/bpf2frame.go\<close>: the hash under which
  rules are installed, the decoder of ring samples and the reading of a connect payload. A Go
  byte slice is a list; \<open>le.Uint32(b[n:])\<close> reads the four bytes at \<open>n\<close>.
\<close>

section \<open>Hashing\<close>

text \<open>The loop over the 256-byte copy stops at the first NUL.\<close>

fun hash_loop :: "u64 \<Rightarrow> bytes \<Rightarrow> u64" where
  "hash_loop h [] = h"
| "hash_loop h (c # cs) = (if c = 0 then h else hash_loop ((h XOR ucast c) * 0x100000001b3) cs)"

definition HashString :: "bytes \<Rightarrow> u64" where
  "HashString p = hash_loop 0xcbf29ce484222325 (fit 256 p)"

section \<open>Decoding samples\<close>

record Header =
  EventType :: s8
  Category :: s8
  CPUID :: u16
  DataLen :: u32
  Timestamp :: u64
  CgroupID :: u64
  HostPPID :: s32
  HostPID :: s32
  HostTID :: s32
  PID :: s32
  TID :: s32
  UID :: u32
  GID :: u32
  PidNS :: u32
  MntNS :: u32
  SyscallID :: s32
  RetVal :: s64
  Comm :: bytes

record Frame =
  Hd :: Header
  Payload :: bytes

datatype decode_error = ShortSample nat

definition le_at :: "bytes \<Rightarrow> nat \<Rightarrow> nat \<Rightarrow> 'a::len word" where
  "le_at b off n = from_le (take n (drop off b))"

definition HeaderSize :: nat where [ak_const]: "HeaderSize = 88"

definition decode_header :: "bytes \<Rightarrow> Header" where
  "decode_header b = \<lparr>
     EventType = le_at b 0 1, Category = le_at b 1 1, CPUID = le_at b 2 2, DataLen = le_at b 4 4,
     Timestamp = le_at b 8 8, CgroupID = le_at b 16 8,
     HostPPID = le_at b 24 4, HostPID = le_at b 28 4, HostTID = le_at b 32 4,
     PID = le_at b 36 4, TID = le_at b 40 4,
     UID = le_at b 44 4, GID = le_at b 48 4, PidNS = le_at b 52 4, MntNS = le_at b 56 4,
     SyscallID = le_at b 60 4, RetVal = le_at b 64 8,
     Comm = cstr (take 16 (drop 72 b)) \<rparr>"

definition Decode :: "bytes \<Rightarrow> decode_error + Frame" where
  "Decode b =
     (if length b < HeaderSize then Inl (ShortSample (length b))
      else
        let h = decode_header b;
            pl = (if 0 < unat (DataLen h)
                  then let end = HeaderSize + unat (DataLen h);
                           end' = (if length b < end then length b else end)
                       in take (end' - HeaderSize) (drop HeaderSize b)
                  else [])
        in Inr \<lparr>Hd = h, Payload = pl\<rparr>)"

section \<open>Destinations\<close>

text \<open>
  What the rendered string of \<open>decodeSockaddr\<close> says; the textual form of an address is left to
  the Go library.
\<close>

datatype destination =
    NoAddr
  | UnixAbstract
  | UnixPath bytes
  | Inet bytes u16
  | Inet6 bytes u16
  | Family u16

definition be16_at :: "bytes \<Rightarrow> nat \<Rightarrow> u16" where
  "be16_at b off = push_bit 8 (ucast (b ! off)) OR ucast (b ! (off + 1))"

definition decodeSockaddr :: "bytes \<Rightarrow> destination" where
  "decodeSockaddr p =
     (if length p < 4 then NoAddr
      else
        let family = (le_at p 0 2 :: u16); port = be16_at p 2
        in if family = 1 then
             (let path = cstr (drop 4 p) in if path = [] then UnixAbstract else UnixPath path)
           else if family = 2 then
             (if length p < 8 then NoAddr else Inet (take 4 (drop 4 p)) port)
           else if family = 10 then
             (if length p < 20 then NoAddr else Inet6 (take 16 (drop 4 p)) port)
           else Family family)"

section \<open>The two hashes\<close>

lemma hash_loop_fnv: "hash_loop h bs = fnv1a_loop h bs"
  by (induction bs arbitrary: h) (auto simp: fnv_step_def)

lemma HashString_eq: "0 \<notin> set p \<Longrightarrow> HashString p = fnv1a (take 256 p)"
  using fnv1a_loop_basis [of "fit 256 p"]
  by (simp add: HashString_def hash_loop_fnv cstr_fit FNV_BASIS_def)

text \<open>
  Kernel and daemon agree on a path of at most 256 bytes: the key under which the daemon
  stores a rule, a taint or a sensitive path is the hash the hooks compute of the resolved path.
\<close>

lemma hash_agrees:
  assumes "0 \<notin> set p" "length p \<le> 256"
  shows "HashString p = ak_fnv1a (fit AK_PATH_MAX p) 1024"
  using assms ak_fnv1a_fit [of p] by (simp add: HashString_eq AK_PATH_MAX_def)

lemma hash_agrees_example:
  "HashString (chars ''/etc/shadow'') = ak_fnv1a (fit AK_PATH_MAX (chars ''/etc/shadow'')) 1024"
  using hash_agrees [of "chars ''/etc/shadow''"] by (simp add: chars_def)

text \<open>
  Beyond 256 bytes they do not: the daemon's hash of a longer path is the kernel's hash of its
  first 256 bytes, while the hooks hash up to 1024 bytes. A rule the daemon installs for a path
  \<open>p\<close> of 257 to 1024 bytes therefore forbids nothing on \<open>p\<close> (unless the two hashes collide).
\<close>

lemma long_path_rule_misses:
  assumes "0 \<notin> set p" "256 < length p" "length p \<le> AK_PATH_MAX"
    and "s = init_kstate\<lparr>ak_enforce_file := [HashString p \<mapsto> opn]\<rparr>"
    and "fnv1a p \<noteq> fnv1a (take 256 p)"
  shows "HashString p = ak_fnv1a (fit AK_PATH_MAX (take 256 p)) 1024
    \<and> \<not> ak_forbidden s (fit AK_PATH_MAX p) opn'"
proof -
  have "0 \<notin> set (take 256 p)" using assms(1) by (auto dest: in_set_takeD)
  then have "ak_fnv1a (fit AK_PATH_MAX (take 256 p)) 1024 = fnv1a (take 256 p)"
    by (intro ak_fnv1a_fit) (simp_all add: AK_PATH_MAX_def)
  moreover have "\<not> forbidden_spec s p opn'"
    using assms by (simp add: forbidden_spec_def HashString_eq init_kstate_def)
  ultimately show ?thesis using assms by (simp add: HashString_eq ak_forbidden_fit)
qed

text \<open>One more odd byte always changes the hash: the multiplier is odd.\<close>

lemma fnv_step_odd: "odd c \<Longrightarrow> fnv_step h c \<noteq> h"
proof
  assume c: "odd c" and eq: "fnv_step h c = h"
  have "even (fnv_step h c) \<longleftrightarrow> even (h XOR ucast c)"
    by (simp add: fnv_step_def)
  also have "\<dots> \<longleftrightarrow> \<not> even h"
  proof -
    have "bit (h XOR ucast c) 0 \<longleftrightarrow> (bit h 0 \<noteq> bit c 0)" by (simp add: bit_xor_iff bit_ucast_iff del: bit_0)
    with c show ?thesis by (auto simp: bit_0)
  qed
  finally show False using eq by simp
qed

lemma long_path_differs: "fnv1a (replicate 257 0x61) \<noteq> fnv1a (replicate 256 0x61)"
  using fnv.hash_snoc [of "replicate 256 0x61" "0x61"] fnv_step_odd [of "0x61" "fnv1a (replicate 256 0x61)"]
  by (simp add: replicate_append_same flip: replicate_Suc)

lemma long_path_rule_misses_example:
  "\<not> ak_forbidden (init_kstate\<lparr>ak_enforce_file := [HashString (replicate 257 0x61) \<mapsto> AK_OP_OPEN]\<rparr>)
      (fit AK_PATH_MAX (replicate 257 0x61)) AK_OP_OPEN"
proof -
  have "0 \<notin> set (replicate 257 (0x61 :: u8))" "256 < length (replicate 257 (0x61 :: u8))"
    "length (replicate 257 (0x61 :: u8)) \<le> AK_PATH_MAX" "take 256 (replicate 257 (0x61 :: u8)) = replicate 256 0x61"
    by (simp_all add: AK_PATH_MAX_def)
  then show ?thesis
    using long_path_rule_misses [of "replicate 257 0x61" _ AK_OP_OPEN AK_OP_OPEN] long_path_differs by metis
qed

section \<open>Samples\<close>

lemma le_at_skip: "length xs \<le> off \<Longrightarrow> le_at (xs @ ys) off n = le_at ys (off - length xs) n"
  by (simp add: le_at_def)

lemma le_at_here: "length xs = n \<Longrightarrow> le_at (xs @ ys) 0 n = from_le xs"
  by (simp add: le_at_def)

text \<open>The header as the decoder is meant to see it.\<close>

definition header_of :: "event_t \<Rightarrow> Header" where
  "header_of e = \<lparr>
     EventType = h_event_type e, Category = h_category e, CPUID = h_cpu_id e, DataLen = h_data_len e,
     Timestamp = h_timestamp e, CgroupID = h_cgroup_id e,
     HostPPID = h_host_ppid e, HostPID = h_host_pid e, HostTID = h_host_tid e,
     PID = h_pid e, TID = h_tid e, UID = h_uid e, GID = h_gid e, PidNS = h_pid_ns e,
     MntNS = h_mnt_ns e, SyscallID = h_syscall_id e, RetVal = h_retval e,
     Comm = cstr (h_comm e) \<rparr>"

lemma decode_header_event:
  assumes "length (h_comm e) = AK_TASK_COMM_LEN"
  shows "decode_header (event_bytes e @ rest) = header_of e"
proof -
  have "fit AK_TASK_COMM_LEN (h_comm e) = h_comm e" using assms by (simp add: fit_def)
  then show ?thesis
    unfolding decode_header_def header_of_def event_bytes_def append_assoc
    using assms by (simp add: le_at_skip le_at_here AK_TASK_COMM_LEN_def del: le_bytes.simps One_nat_def)
qed

lemma Decode_event:
  assumes "length (h_comm e) = AK_TASK_COMM_LEN" "unat (h_data_len e) \<le> length rest"
  shows "Decode (event_bytes e @ rest) = Inr \<lparr>Hd = header_of e, Payload = take (unat (h_data_len e)) rest\<rparr>"
proof -
  have "DataLen (header_of e) = h_data_len e" by (simp add: header_of_def)
  with assms(2) show ?thesis
    unfolding Decode_def decode_header_event [OF assms(1)] by (simp add: Let_def HeaderSize_def)
qed

text \<open>
  Decoding inverts the wire format: the sample of a system record or of a semantic record
  whose recorded length is within its data area decodes, without error, to the header field by
  field (the command name up to its NUL) and to exactly the recorded part of the data.
\<close>

lemma Decode_roundtrip:
  assumes "length (h_comm (hdr r)) = AK_TASK_COMM_LEN" "length (data r) = AK_MAX_STR"
    and "unat (h_data_len (hdr r)) \<le> AK_MAX_STR"
    and "length (h_comm (tls_hdr t)) = AK_TASK_COMM_LEN" "length (tls_data t) = AK_TLS_MAX"
    and "unat (h_data_len (tls_hdr t)) \<le> AK_TLS_MAX"
  shows "Decode (rec_bytes r) = Inr \<lparr>Hd = header_of (hdr r), Payload = take (unat (h_data_len (hdr r))) (data r)\<rparr>
    \<and> Decode (tls_rec_bytes t) = Inr \<lparr>Hd = header_of (tls_hdr t), Payload = take (unat (h_data_len (tls_hdr t))) (tls_data t)\<rparr>"
  using assms by (simp add: rec_bytes_def tls_rec_bytes_def Decode_event fit_def)

lemma Decode_roundtrip_example:
  "Decode (rec_bytes \<lparr>hdr = blank_event\<lparr>h_syscall_id := 59, h_data_len := 3\<rparr>, data = fit AK_MAX_STR [0x2f, 0x61, 0]\<rparr>)
   = Inr \<lparr>Hd = header_of (blank_event\<lparr>h_syscall_id := 59, h_data_len := 3\<rparr>), Payload = [0x2f, 0x61, 0]\<rparr>"
  using Decode_roundtrip [of "\<lparr>hdr = blank_event\<lparr>h_syscall_id := 59, h_data_len := 3\<rparr>, data = fit AK_MAX_STR [0x2f, 0x61, 0]\<rparr>"
      "\<lparr>tls_hdr = blank_event, tls_data = fit AK_TLS_MAX []\<rparr>"]
  by (simp add: blank_event_def take_fit AK_MAX_STR_def)

section \<open>From the connect hook to the daemon\<close>

lemma be16_ntohs:
  assumes "length f = 2"
  shows "be16_at (a # b # f @ rest) 2 = ntohs (from_le f)"
proof -
  obtain x y where f: "f = [x, y]"
    using assms by (cases f; cases "tl f") auto
  have "drop_bit 8 (ucast x OR push_bit 8 (ucast y :: u16)) = ucast y"
    by (rule bit_word_eqI) (auto simp: bit_or_iff bit_drop_bit_eq bit_push_bit_iff bit_ucast_iff
        dest: bit_imp_le_length)
  moreover have "push_bit 8 (ucast x OR push_bit 8 (ucast y :: u16)) = push_bit 8 (ucast x)"
    by (rule bit_word_eqI) (auto simp: bit_or_iff bit_push_bit_iff)
  ultimately have "push_bit 8 (ucast x) OR ucast y = ntohs (ucast x OR push_bit 8 (ucast y))"
    by (simp add: ntohs_def or.commute)
  then show ?thesis by (simp add: f be16_at_def)
qed

text \<open>What a connect's argument says, read from user memory by family.\<close>

definition user_destination :: "kenv \<Rightarrow> kptr \<Rightarrow> destination" where
  "user_destination k sa =
     (if dst_family k sa = 1 then
        (let path = cstr (take 107 (fit AK_SUN_MAX (snd (k_read_user k (sa + 2) AK_SUN_MAX))))
         in if path = [] then UnixAbstract else UnixPath path)
      else if dst_family k sa = 2 then
        Inet (field 4 4 (fit 16 (snd (k_read_user k sa 16)))) (dst_port k sa)
      else if dst_family k sa = 10 then
        Inet6 (field 8 16 (fit 28 (snd (k_read_user k sa 28)))) (dst_port k sa)
      else NoAddr)"

lemma length_field [simp]: "off + n \<le> length st \<Longrightarrow> length (field off n st) = n"
  by (simp add: field_def)

lemma family_bytes:
  "le_bytes 2 (1 :: u16) = [1, 0]" "le_bytes 2 (2 :: u16) = [2, 0]" "le_bytes 2 (10 :: u16) = [10, 0]"
  by code_simp+

lemma decode_inet:
  assumes "length p = 2" "length a = 4"
  shows "decodeSockaddr (le_bytes 2 (2 :: u16) @ p @ a) = Inet a (ntohs (from_le p))"
  using assms be16_ntohs [OF assms(1), of 2 0 a]
  by (simp add: family_bytes decodeSockaddr_def le_at_def Let_def)

lemma decode_inet6:
  assumes "length p = 2" "length a = 16"
  shows "decodeSockaddr (le_bytes 2 (10 :: u16) @ p @ a) = Inet6 a (ntohs (from_le p))"
  using assms be16_ntohs [OF assms(1), of 10 0 a]
  by (simp add: family_bytes decodeSockaddr_def le_at_def Let_def)

lemma decode_unix:
  "decodeSockaddr (le_bytes 2 (1 :: u16) @ [0, 0] @ a @ [0]) =
     (if cstr a = [] then UnixAbstract else UnixPath (cstr a))"
proof -
  have "cstr (a @ [0]) = cstr a" by (induction a) auto
  then show ?thesis by (simp add: family_bytes decodeSockaddr_def le_at_def Let_def)
qed

text \<open>The payload the hook writes, decoded.\<close>

lemma connect_payload_decoded:
  assumes "connect_payload k sa (dst_family k sa) d = (d', n, port, u)" "length d = AK_MAX_STR"
  shows "length d' = AK_MAX_STR \<and> unat n \<le> AK_MAX_STR
    \<and> decodeSockaddr (take (unat n) d') = user_destination k sa"
proof -
  consider "dst_family k sa = 1" | "dst_family k sa = 2" | "dst_family k sa = 10"
    | "dst_family k sa \<notin> {1, 2, 10}" by blast
  then show ?thesis
  proof cases
    case 1
    let ?a = "take 107 (fit AK_SUN_MAX (snd (k_read_user k (sa + 2) AK_SUN_MAX)))"
    have "take (unat n) d' = le_bytes 2 (1 :: u16) @ [0, 0] @ ?a @ [0]"
      using assms 1 by (auto simp: connect_payload_def Let_def poke_def AK_MAX_STR_def AK_SUN_MAX_def)
    moreover have "length d' = AK_MAX_STR \<and> unat n \<le> AK_MAX_STR"
      using assms 1 by (auto simp: connect_payload_def Let_def poke_def AK_MAX_STR_def AK_SUN_MAX_def)
    ultimately show ?thesis using 1 decode_unix [of ?a] by (simp add: user_destination_def Let_def)
  next
    case 2
    let ?st = "fit 16 (snd (k_read_user k sa 16))"
    have "take (unat n) d' = le_bytes 2 (2 :: u16) @ field 2 2 ?st @ field 4 4 ?st"
      using assms 2 by (auto simp: connect_payload_def Let_def poke_def field_def AK_MAX_STR_def)
    moreover have "length d' = AK_MAX_STR \<and> unat n \<le> AK_MAX_STR"
      using assms 2 by (auto simp: connect_payload_def Let_def poke_def field_def AK_MAX_STR_def)
    ultimately show ?thesis
      using 2 decode_inet [of "field 2 2 ?st" "field 4 4 ?st"]
      by (simp add: user_destination_def dst_port_def)
  next
    case 3
    let ?st = "fit 28 (snd (k_read_user k sa 28))"
    have "take (unat n) d' = le_bytes 2 (10 :: u16) @ field 2 2 ?st @ field 8 16 ?st"
      using assms 3 by (auto simp: connect_payload_def Let_def poke_def field_def AK_MAX_STR_def)
    moreover have "length d' = AK_MAX_STR \<and> unat n \<le> AK_MAX_STR"
      using assms 3 by (auto simp: connect_payload_def Let_def poke_def field_def AK_MAX_STR_def)
    ultimately show ?thesis
      using 3 decode_inet6 [of "field 2 2 ?st" "field 8 16 ?st"]
      by (simp add: user_destination_def dst_port_def)
  next
    case 4
    then show ?thesis
      using assms
      by (auto simp: connect_payload_def Let_def poke_def user_destination_def decodeSockaddr_def AK_MAX_STR_def)
  qed
qed

text \<open>
  C39. A connect is reported with its destination: when the event ring has room, a monitored
  process's connect appends one record, and decoding its sample yields the syscall number, the
  process id and the destination of the user's sockaddr: address and port for IPv4 and IPv6, the
  socket path (or its absence) for a unix socket. For every other family the decoded destination
  is empty: the two-byte payload is below the decoder's minimum, its \<open>family_<n>\<close> form unused.
\<close>

theorem connect_reported:
  assumes "has (ak_session_flags k s) AK_SESS_MONITOR"
    and "k_reserve_events k (length (ak_events s)) = Some r"
  shows "\<exists>e f. ak_events (ak_connect k ctx s) = ak_events s @ [e] \<and> Decode (rec_bytes e) = Inr f
     \<and> SyscallID (Hd f) = ucast (se_id ctx) \<and> HostPID (Hd f) = ak_tgid k
     \<and> decodeSockaddr (Payload f) = user_destination k (se_args ctx 1)"
proof -
  obtain d n port u where pl: "connect_payload k (se_args ctx 1) (dst_family k (se_args ctx 1))
      (fit AK_MAX_STR (data r)) = (d, n, port, u)"
    by (metis prod_cases4)
  note dec = connect_payload_decoded [OF pl, simplified]
  let ?h = "ak_fill_header k (k_cgroup_id k) (ucast (se_id ctx)) AK_CAT_NETWORK (hdr r)"
  let ?e = "r\<lparr>hdr := ?h\<lparr>h_data_len := n\<rparr>, data := d\<rparr>"
  have ev: "ak_events (ak_connect k ctx s) = ak_events s @ [?e]"
    using assms pl by (simp add: ak_connect_def Let_def dst_family_def)
  have "Decode (rec_bytes ?e) = Inr \<lparr>Hd = header_of (hdr ?e), Payload = take (unat n) d\<rparr>"
    using dec Decode_event [of "hdr ?e" "fit AK_MAX_STR d"]
    by (simp add: rec_bytes_def ak_fill_header_def fit_def Let_def)
  then show ?thesis
    using ev dec by (simp add: header_of_def ak_fill_header_def Let_def ak_tgid_def)
qed

theorem connect_reported_witness:
  "\<exists>e f. ak_events (ak_connect mysql_env recv_ctx (member_state 1)) = [e] \<and> Decode (rec_bytes e) = Inr f
     \<and> decodeSockaddr (Payload f) = Inet [127, 0, 0, 1] 3306"
proof -
  have "user_destination mysql_env (se_args recv_ctx 1) = Inet [127, 0, 0, 1] 3306"
    by (simp add: user_destination_def dst_family_def dst_port_def mysql_env_def fit_def field_def ntohs_def)
  moreover have "ak_session_flags mysql_env (member_state 1) = 1" "ak_events (member_state 1) = []"
    by (simp_all add: mysql_env_def sample_env_def ak_session_flags_def ak_tgid_def member_state_def init_kstate_def)
  moreover obtain r where "k_reserve_events mysql_env 0 = Some r"
    by (simp add: mysql_env_def sample_env_def)
  ultimately show ?thesis
    using connect_reported [of mysql_env "member_state 1" r recv_ctx] by (auto simp: has_def ak_const)
qed

end
