(* ===== verification/AK_Dns.thy ===== *)
theory AK_Dns
  imports AK_Userspace "HOL-Library.Monad_Syntax"
begin

text \<open>
  The DNS parsers of \<open>internal/bpf2frame/bpf2frame.go\<close>, which read attacker-controlled packet
  bytes. A Go index or slice expression out of range panics; each one is a checked access here
  and a panic is the outer \<open>None\<close>. The parsers' own failure (\<open>ok == false\<close>, \<open>nil\<close>) is an inner
  \<open>None\<close>. Go strings are byte lists, offsets are natural numbers (they stay below \<open>2 ^ 17\<close>).
\<close>

section \<open>Checked accesses\<close>

definition go_index :: "bytes \<Rightarrow> nat \<Rightarrow> u8 option" where
  "go_index p i = (if i < length p then Some (p ! i) else None)"

definition go_slice :: "bytes \<Rightarrow> nat \<Rightarrow> nat \<Rightarrow> bytes option" where
  "go_slice p a b = (if a \<le> b \<and> b \<le> length p then Some (take (b - a) (drop a p)) else None)"

text \<open>\<open>int(hi)<<8 | int(lo)\<close>.\<close>

definition be16n :: "u8 \<Rightarrow> u8 \<Rightarrow> nat" where
  "be16n hi lo = push_bit 8 (unat hi) OR unat lo"

text \<open>\<open>strings.Join(labels, ".")\<close>.\<close>

fun join_labels :: "bytes list \<Rightarrow> bytes" where
  "join_labels [] = []"
| "join_labels [l] = l"
| "join_labels (l # ls) = l @ 0x2e # join_labels ls"

section \<open>Reading a name\<close>

text \<open>
  \<open>readDNSName\<close>: the first argument counts the iterations left of \<open>depth < 32\<close>; \<open>jumped\<close> and
  \<open>next\<close> as in the code. When the iterations run out the loop ends normally.
\<close>

fun readDNSName_loop ::
  "nat \<Rightarrow> bytes \<Rightarrow> nat \<Rightarrow> bool \<Rightarrow> nat \<Rightarrow> bytes list \<Rightarrow> (bytes list \<times> nat) option option" where
  "readDNSName_loop 0 p off jumped nxt labels = Some (Some (labels, nxt))"
| "readDNSName_loop (Suc d) p off jumped nxt labels =
     (if length p \<le> off then Some None
      else do {
        n \<leftarrow> go_index p off;
        if n = 0 then Some (Some (labels, if jumped then nxt else off + 1))
        else if n AND 0xc0 = 0xc0 then
          (if length p \<le> off + 1 then Some None
           else do {
             m \<leftarrow> go_index p (off + 1);
             readDNSName_loop d p (be16n (n AND 0x3f) m) True (if jumped then nxt else off + 2) labels
           })
        else if length p < off + 1 + unat n then Some None
        else do {
          l \<leftarrow> go_slice p (off + 1) (off + 1 + unat n);
          let labels' = labels @ [l];
          if 16 < length labels' then Some (Some (labels', nxt))
          else readDNSName_loop d p (off + 1 + unat n) jumped nxt labels'
        }
      })"

definition readDNSName :: "bytes \<Rightarrow> nat \<Rightarrow> (bytes \<times> nat) option option" where
  "readDNSName p off =
     map_option (map_option (\<lambda>(labels, nxt). (join_labels labels, nxt)))
       (readDNSName_loop 32 p off False off [])"

section \<open>Queries\<close>

text \<open>The loop of \<open>parseDNSQName\<close> over \<open>q = p[12:]\<close>; \<open>i\<close> grows by at least one.\<close>

function parseDNSQName_loop :: "bytes \<Rightarrow> nat \<Rightarrow> bytes list \<Rightarrow> bytes list option" where
  "parseDNSQName_loop q i labels =
     (if length q \<le> i then Some labels
      else do {
        n \<leftarrow> go_index q i;
        if n = 0 then Some labels
        else if n AND 0xc0 \<noteq> 0 then Some labels
        else if length q < i + 1 + unat n then Some labels
        else do {
          l \<leftarrow> go_slice q (i + 1) (i + 1 + unat n);
          let labels' = labels @ [l];
          if 16 < length labels' then Some labels'
          else parseDNSQName_loop q (i + 1 + unat n) labels'
        }
      })"
  by pat_completeness auto
termination
  by (relation "measure (\<lambda>(q, i, labels). length q - i)") auto

declare parseDNSQName_loop.simps [simp del]

definition parseDNSQName :: "bytes \<Rightarrow> bytes option" where
  "parseDNSQName p =
     (if length p < 13 then Some []
      else do {
        q \<leftarrow> go_slice p 12 (length p);
        labels \<leftarrow> parseDNSQName_loop q 0 [];
        Some (join_labels labels)
      })"

section \<open>Answers\<close>

record DNSAnswer =
  IP :: bytes
  TTL :: u32

record DNSInfo =
  QName :: bytes
  Answers :: "DNSAnswer list"

text \<open>The questions after the first are read and skipped.\<close>

fun skip_questions :: "nat \<Rightarrow> bytes \<Rightarrow> nat \<Rightarrow> nat option option" where
  "skip_questions 0 p off = Some (Some off)"
| "skip_questions (Suc i) p off = do {
     r \<leftarrow> readDNSName p off;
     case r of None \<Rightarrow> Some None | Some (_, n) \<Rightarrow> skip_questions i p (n + 4)
   }"

definition be32 :: "u8 \<Rightarrow> u8 \<Rightarrow> u8 \<Rightarrow> u8 \<Rightarrow> u32" where
  "be32 a b c d = push_bit 24 (ucast a) OR push_bit 16 (ucast b) OR push_bit 8 (ucast c) OR ucast d"

text \<open>One record's address, when it is an A or AAAA record of the right length.\<close>

definition rr_answer :: "bytes \<Rightarrow> nat \<Rightarrow> nat \<Rightarrow> nat \<Rightarrow> u32 \<Rightarrow> DNSAnswer list option" where
  "rr_answer p off rtype rdlen ttl =
     (if rtype = 1 \<and> rdlen = 4 then do {
        ip \<leftarrow> go_slice p off (off + 4); Some [\<lparr>IP = ip, TTL = ttl\<rparr>] }
      else if rtype = 28 \<and> rdlen = 16 then do {
        ip \<leftarrow> go_slice p off (off + 16); Some [\<lparr>IP = ip, TTL = ttl\<rparr>] }
      else Some [])"

fun answers_loop :: "nat \<Rightarrow> bytes \<Rightarrow> nat \<Rightarrow> DNSAnswer list \<Rightarrow> DNSAnswer list option" where
  "answers_loop 0 p off acc = Some acc"
| "answers_loop (Suc i) p off acc =
     (if length p \<le> off then Some acc
      else do {
        r \<leftarrow> readDNSName p off;
        case r of
          None \<Rightarrow> Some acc
        | Some (_, n) \<Rightarrow>
            if length p < n + 10 then Some acc
            else do {
              t0 \<leftarrow> go_index p n; t1 \<leftarrow> go_index p (n + 1);
              l0 \<leftarrow> go_index p (n + 4); l1 \<leftarrow> go_index p (n + 5);
              l2 \<leftarrow> go_index p (n + 6); l3 \<leftarrow> go_index p (n + 7);
              d0 \<leftarrow> go_index p (n + 8); d1 \<leftarrow> go_index p (n + 9);
              let rdlen = be16n d0 d1;
              if length p < n + 10 + rdlen then Some acc
              else do {
                a \<leftarrow> rr_answer p (n + 10) (be16n t0 t1) rdlen (be32 l0 l1 l2 l3);
                answers_loop i p (n + 10 + rdlen) (acc @ a)
              }
            }
      })"

definition parseDNSAnswer :: "bytes \<Rightarrow> DNSInfo option option" where
  "parseDNSAnswer p =
     (if length p < 12 then Some None
      else do {
        f0 \<leftarrow> go_index p 2; f1 \<leftarrow> go_index p 3;
        if (push_bit 8 (ucast f0) OR ucast f1 :: u16) AND 0x8000 = 0 then Some None
        else do {
          q0 \<leftarrow> go_index p 4; q1 \<leftarrow> go_index p 5;
          a0 \<leftarrow> go_index p 6; a1 \<leftarrow> go_index p 7;
          r \<leftarrow> readDNSName p 12;
          case r of
            None \<Rightarrow> Some None
          | Some (qname, nxt) \<Rightarrow> do {
              s \<leftarrow> skip_questions (be16n q0 q1 - 1) p (nxt + 4);
              case s of
                None \<Rightarrow> Some None
              | Some off \<Rightarrow> do {
                  as \<leftarrow> answers_loop (be16n a0 a1) p off [];
                  Some (if qname = [] then None else Some \<lparr>QName = qname, Answers = as\<rparr>)
                }
            }
        }
      })"

section \<open>No payload makes a parser panic\<close>

lemma go_index_Some: "i < length p \<Longrightarrow> go_index p i = Some (p ! i)"
  by (simp add: go_index_def)

lemma go_slice_Some: "a \<le> b \<Longrightarrow> b \<le> length p \<Longrightarrow> go_slice p a b = Some (take (b - a) (drop a p))"
  by (simp add: go_slice_def)

lemmas go_access = go_index_Some go_slice_Some

lemma readDNSName_loop_total: "\<exists>r. readDNSName_loop d p off jumped nxt labels = Some r"
  by (induction d p off jumped nxt labels rule: readDNSName_loop.induct) (auto simp: go_access Let_def)

lemma readDNSName_total: "\<exists>r. readDNSName p off = Some r"
  using readDNSName_loop_total [of 32 p off False off "[]"] by (auto simp: readDNSName_def)

lemma parseDNSQName_loop_total: "\<exists>r. parseDNSQName_loop q i labels = Some r"
proof (induction q i labels rule: parseDNSQName_loop.induct)
  case (1 q i labels)
  then show ?case by (subst parseDNSQName_loop.simps) (auto simp: go_access Let_def)
qed

lemma skip_questions_total: "\<exists>r. skip_questions i p off = Some r"
proof (induction i arbitrary: off)
  case (Suc i)
  obtain r where "readDNSName p off = Some r" using readDNSName_total by blast
  then show ?case using Suc by (auto split: option.split)
qed simp

lemma rr_answer_total: "off + rdlen \<le> length p \<Longrightarrow> \<exists>r. rr_answer p off rtype rdlen ttl = Some r"
  by (auto simp: rr_answer_def go_access)

lemma answers_loop_total: "\<exists>r. answers_loop i p off acc = Some r"
proof (induction i arbitrary: off acc)
  case (Suc i)
  obtain r where r: "readDNSName p off = Some r" using readDNSName_total by blast
  show ?case
  proof (cases r)
    case None
    then show ?thesis using r by simp
  next
    case (Some x)
    then obtain nm n where [simp]: "r = Some (nm, n)" by (cases x) auto
    define rdlen where "rdlen = be16n (p ! (n + 8)) (p ! (n + 9))"
    show ?thesis
    proof (cases "n + 10 + rdlen \<le> length p")
      case True
      then obtain a where
        "rr_answer p (n + 10) (be16n (p ! n) (p ! (n + 1))) rdlen
           (be32 (p ! (n + 4)) (p ! (n + 5)) (p ! (n + 6)) (p ! (n + 7))) = Some a"
        using rr_answer_total by blast
      with True Suc show ?thesis using r by (simp add: go_access flip: rdlen_def)
    next
      case False
      then show ?thesis using r by (auto simp: go_access simp flip: rdlen_def)
    qed
  qed
qed simp

lemma parseDNSQName_total: "\<exists>name. parseDNSQName p = Some name"
  using parseDNSQName_loop_total [of "drop 12 p" 0 "[]"] by (auto simp: parseDNSQName_def go_access)

lemma parseDNSAnswer_total: "\<exists>info. parseDNSAnswer p = Some info"
proof -
  obtain r where r: "readDNSName p 12 = Some r" using readDNSName_total by blast
  show ?thesis
  proof (cases r)
    case None
    then show ?thesis using r by (auto simp: parseDNSAnswer_def go_access)
  next
    case (Some x)
    then obtain q n where x: "r = Some (q, n)" by (cases x) auto
    obtain s where s: "skip_questions (be16n (p ! 4) (p ! 5) - 1) p (n + 4) = Some s"
      using skip_questions_total by blast
    show ?thesis
    proof (cases s)
      case None
      then show ?thesis using r x s by (auto simp: parseDNSAnswer_def go_access)
    next
      case (Some off)
      obtain as where "answers_loop (be16n (p ! 6) (p ! 7)) p off [] = Some as"
        using answers_loop_total by blast
      then show ?thesis using r x s Some by (auto simp: parseDNSAnswer_def go_access)
    qed
  qed
qed

text \<open>
  C37. Every payload is parsed: for arbitrary bytes, truncated messages, counts that promise more
  records than the message holds and compression pointers that point at themselves included,
  both parsers run to their end and no index or slice expression is out of range.
\<close>

theorem dns_parsers_return:
  "(\<exists>name. parseDNSQName p = Some name) \<and> (\<exists>info. parseDNSAnswer p = Some info)"
  using parseDNSQName_total parseDNSAnswer_total by simp

section \<open>Encodings\<close>

text \<open>
  What a message puts on the wire: a name as length-prefixed labels, ended by a zero byte or by
  a compression pointer; an address record with the name compressed to the question's.
\<close>

definition valid_label :: "bytes \<Rightarrow> bool" where
  "valid_label l \<longleftrightarrow> 1 \<le> length l \<and> length l \<le> 63"

definition enc_labels :: "bytes list \<Rightarrow> bytes" where
  "enc_labels ls = concat (map (\<lambda>l. of_nat (length l) # l) ls)"

definition enc_name :: "bytes list \<Rightarrow> bytes" where
  "enc_name ls = enc_labels ls @ [0]"

definition enc16 :: "nat \<Rightarrow> bytes" where
  "enc16 n = [of_nat (n div 256), of_nat n]"

definition enc32 :: "u32 \<Rightarrow> bytes" where
  "enc32 w = [ucast (drop_bit 24 w), ucast (drop_bit 16 w), ucast (drop_bit 8 w), ucast w]"

lemma enc_labels_simps [simp]:
  "enc_labels [] = []" "enc_labels (l # ls) = of_nat (length l) # l @ enc_labels ls"
  by (simp_all add: enc_labels_def)

lemma small_word_masks:
  fixes w :: u8
  assumes "unat w < 64"
  shows "w AND 0xc0 = 0"
proof -
  have "take_bit 6 w = w"
    using assms by (simp add: take_bit_eq_mod word_arith_nat_mod)
  then have "w AND 0xc0 = w AND (mask 6 AND 0xc0)"
    by (metis and.assoc take_bit_eq_mask)
  then show ?thesis by (simp add: mask_numeral)
qed

lemma label_byte:
  assumes "valid_label l"
  shows "unat (of_nat (length l) :: u8) = length l" "(of_nat (length l) :: u8) \<noteq> 0"
    "(of_nat (length l) :: u8) AND 0xc0 = 0"
proof -
  show u: "unat (of_nat (length l) :: u8) = length l"
    using assms by (simp add: valid_label_def unsigned_of_nat take_bit_nat_eq_self)
  show "(of_nat (length l) :: u8) \<noteq> 0" using u assms by (auto simp: valid_label_def)
  show "(of_nat (length l) :: u8) AND 0xc0 = 0"
    using u assms by (intro small_word_masks) (simp add: valid_label_def)
qed

lemma be16n_sum: "be16n hi lo = 256 * unat hi + unat lo"
proof -
  have "take_bit 8 (unat lo) = unat lo"
    using unsigned_less [of lo, where ?'a = nat] by (simp add: take_bit_nat_eq_self)
  then have "push_bit 8 (unat hi) AND unat lo = (push_bit 8 (unat hi) AND mask 8) AND unat lo"
    by (metis and.assoc and.commute take_bit_eq_mask)
  also have "push_bit 8 (unat hi) AND mask 8 = 0"
    by (simp add: take_bit_push_bit flip: take_bit_eq_mask)
  finally have "push_bit 8 (unat hi) AND unat lo = 0" by simp
  then show ?thesis
    by (simp add: be16n_def push_bit_eq_mult flip: disjunctive_add_eq_or)
qed

lemma be16n_enc16: "n < 65536 \<Longrightarrow> be16n (of_nat (n div 256)) (of_nat n) = n"
  by (simp add: be16n_sum unsigned_of_nat take_bit_nat_def)

lemma be32_enc32:
  "be32 (ucast (drop_bit 24 w)) (ucast (drop_bit 16 w)) (ucast (drop_bit 8 w)) (ucast w) = w"
proof (rule bit_word_eqI)
  fix n :: nat
  assume "n < LENGTH(32)"
  then consider "n < 8" | "8 \<le> n" "n < 16" | "16 \<le> n" "n < 24" | "24 \<le> n" "n < 32"
    by fastforce
  then show "bit (be32 (ucast (drop_bit 24 w)) (ucast (drop_bit 16 w)) (ucast (drop_bit 8 w)) (ucast w)) n
     \<longleftrightarrow> bit w n"
    by cases (auto simp: be32_def bit_simps)
qed

section \<open>Names\<close>

declare readDNSName_loop.simps(2) [simp del]

lemma drop_behind: "drop off p = xs @ ys \<Longrightarrow> drop (off + length xs) p = ys"
  by (metis add.commute append_eq_conv_conj drop_drop)

text \<open>One label, then all labels of a name, advance the reader by their encoding.\<close>

lemma read_label:
  assumes "drop off p = of_nat (length l) # l @ rest" "valid_label l" "length acc < 16"
  shows "readDNSName_loop (Suc d) p off j nxt acc = readDNSName_loop d p (off + 1 + length l) j nxt (acc @ [l])"
proof -
  have len: "length p = off + (1 + length l + length rest)"
    using arg_cong [OF assms(1), of length] by auto
  have "p ! off = of_nat (length l)"
    using assms(1) len by (metis less_add_same_cancel1 add_pos_nonneg zero_less_one zero_le
        hd_drop_conv_nth list.sel(1) add.assoc)
  moreover have "take (length l) (drop (Suc off) p) = l"
    using arg_cong [OF assms(1), of "drop 1"] by (simp add: add.commute)
  ultimately show ?thesis
    using len assms(3) label_byte [OF assms(2)] by (simp add: go_access readDNSName_loop.simps(2))
qed

lemma read_labels:
  assumes "drop off p = enc_labels ls @ rest" "\<forall>l \<in> set ls. valid_label l" "length acc + length ls \<le> 16"
  shows "readDNSName_loop (length ls + d) p off j nxt acc
       = readDNSName_loop d p (off + length (enc_labels ls)) j nxt (acc @ ls)"
  using assms
proof (induction ls arbitrary: off acc)
  case (Cons l ls)
  have "drop (off + 1 + length l) p = enc_labels ls @ rest"
    using arg_cong [OF Cons.prems(1), of "drop (1 + length l)"] by (simp add: ac_simps)
  with Cons show ?case
    using read_label [of off p l "enc_labels ls @ rest" acc "length ls + d" j nxt]
    by (simp add: ac_simps)
qed simp

lemma read_end:
  "drop off p = 0 # rest \<Longrightarrow>
   readDNSName_loop (Suc d) p off j nxt acc = Some (Some (acc, if j then nxt else off + 1))"
proof -
  assume d: "drop off p = 0 # rest"
  then have "off < length p" by (metis drop_eq_Nil2 linorder_not_le list.distinct(1))
  moreover from this d have "p ! off = 0" by (simp add: Cons_nth_drop_Suc [symmetric])
  ultimately show ?thesis by (simp add: go_access readDNSName_loop.simps(2))
qed

lemma readDNSName_plain:
  assumes "drop off p = enc_name ls @ rest" "\<forall>l \<in> set ls. valid_label l" "length ls \<le> 16"
  shows "readDNSName p off = Some (Some (join_labels ls, off + length (enc_name ls)))"
proof -
  define d where "d = 31 - length ls"
  have 32: "32 = length ls + Suc d" using assms(3) by (simp add: d_def)
  have "drop (off + length (enc_labels ls)) p = 0 # rest"
    using assms(1) by (intro drop_behind) (simp add: enc_name_def)
  then show ?thesis
    using read_labels [of off p ls "0 # rest" "[]" "Suc d" False off] assms
    by (simp add: readDNSName_def 32 enc_name_def read_end)
qed

section \<open>Queries are read back\<close>

lemma qname_label:
  assumes "drop i q = of_nat (length l) # l @ rest" "valid_label l" "length acc < 16"
  shows "parseDNSQName_loop q i acc = parseDNSQName_loop q (i + 1 + length l) (acc @ [l])"
proof -
  have len: "length q = i + (1 + length l + length rest)"
    using arg_cong [OF assms(1), of length] by auto
  have "q ! i = of_nat (length l)"
    using assms(1) len by (simp add: Cons_nth_drop_Suc [symmetric])
  moreover have "take (length l) (drop (Suc i) q) = l"
    using arg_cong [OF assms(1), of "drop 1"] by (simp add: add.commute)
  ultimately show ?thesis
    using len assms(3) label_byte [OF assms(2)]
    by (subst parseDNSQName_loop.simps) (simp add: go_access)
qed

lemma qname_labels:
  assumes "drop i q = enc_name ls @ rest" "\<forall>l \<in> set ls. valid_label l" "length acc + length ls \<le> 16"
  shows "parseDNSQName_loop q i acc = Some (acc @ ls)"
  using assms
proof (induction ls arbitrary: i acc)
  case Nil
  then have "drop i q = 0 # rest" by (simp add: enc_name_def)
  then have "i < length q" "q ! i = 0"
    by (auto simp: nth_via_drop intro: ccontr)
  then show ?case by (subst parseDNSQName_loop.simps) (simp add: go_access)
next
  case (Cons l ls)
  have "drop (i + 1 + length l) q = enc_name ls @ rest"
    using arg_cong [OF Cons.prems(1), of "drop (1 + length l)"] by (simp add: enc_name_def ac_simps)
  with Cons show ?case
    using qname_label [of i q l "enc_name ls @ rest" acc] by (simp add: enc_name_def)
qed

lemma parseDNSQName_enc:
  assumes "length h = 12" "\<forall>l \<in> set ls. valid_label l" "length ls \<le> 16"
  shows "parseDNSQName (h @ enc_name ls @ rest) = Some (join_labels ls)"
  using assms qname_labels [of 0 "enc_name ls @ rest" ls rest "[]"]
  by (simp add: parseDNSQName_def go_access) (simp add: enc_name_def)

text \<open>
  The queried name is read back: for a message with a 12-byte header whose question is a name
  of at most 16 labels of 1 to 63 bytes, the parser returns the labels joined by dots, whatever
  follows the name.
\<close>

lemma dns_query_roundtrip:
  assumes "length h = 12" "\<forall>l \<in> set ls. valid_label l" "length ls \<le> 16"
  shows "parseDNSQName (h @ enc_name ls @ rest) = Some (join_labels ls)"
  using assms by (rule parseDNSQName_enc)

lemma dns_query_roundtrip_example:
  "parseDNSQName (replicate 12 0 @ enc_name [chars ''api'', chars ''com''] @ [0, 1, 0, 1]) = Some (chars ''api.com'')"
  using dns_query_roundtrip [of "replicate 12 0" "[chars ''api'', chars ''com'']" "[0, 1, 0, 1]"]
  by (simp add: valid_label_def chars_def)

section \<open>Answers are read back\<close>

text \<open>
  The wire format of a name (RFC 1035): labels up to the root, or up to a pointer to a name that was
  written earlier in the message. \<open>name_at p off ls e n\<close>: at \<open>off\<close> stands the name of the labels
  \<open>ls\<close>, its encoding ends at \<open>e\<close>, and reading it takes \<open>n\<close> steps.
\<close>

inductive name_at :: "bytes \<Rightarrow> nat \<Rightarrow> bytes list \<Rightarrow> nat \<Rightarrow> nat \<Rightarrow> bool" for p where
  root: "off < length p \<Longrightarrow> p ! off = 0 \<Longrightarrow> name_at p off [] (off + 1) 1"
| label: "valid_label l \<Longrightarrow> off + 1 + length l \<le> length p \<Longrightarrow> p ! off = of_nat (length l)
    \<Longrightarrow> take (length l) (drop (off + 1) p) = l \<Longrightarrow> name_at p (off + 1 + length l) ls e n
    \<Longrightarrow> name_at p off (l # ls) e (Suc n)"
| pointer: "off + 1 < length p \<Longrightarrow> p ! off AND 0xc0 = 0xc0
    \<Longrightarrow> name_at p (be16n (p ! off AND 0x3f) (p ! (off + 1))) ls e n \<Longrightarrow> e \<le> off
    \<Longrightarrow> name_at p off ls (off + 2) (Suc n)"

lemma name_end: "name_at p off ls e n \<Longrightarrow> off < e \<and> e \<le> length p"
  by (induction rule: name_at.induct) auto

lemma name_labels: "name_at p off ls e n \<Longrightarrow> \<forall>l \<in> set ls. valid_label l"
  by (induction rule: name_at.induct) auto

text \<open>A payload cut off behind the name still holds it; cut off inside, the reader reports it.\<close>

lemma slice_take: "i + n \<le> m \<Longrightarrow> take n (drop i (take m xs)) = take n (drop i xs)"
  by (simp add: drop_take min_absorb1)

lemma name_take: "name_at p off ls e n \<Longrightarrow> e \<le> m \<Longrightarrow> name_at (take m p) off ls e n"
proof (induction rule: name_at.induct)
  case (root off)
  then show ?case by (intro name_at.root) simp_all
next
  case (label l off ls e n)
  then have "off + 1 + length l \<le> m" using name_end [OF label.hyps(5)] by simp
  then have "take (length l) (drop (off + 1) (take m p)) = l"
    using label.hyps(4) by (simp add: slice_take)
  then show ?case using label \<open>off + 1 + length l \<le> m\<close> by (intro name_at.label) simp_all
next
  case (pointer off ls e n)
  then show ?case by (intro name_at.pointer) simp_all
qed

lemma pointer_mask: "(w :: u8) AND 0xc0 = 0xc0 \<Longrightarrow> w \<noteq> 0"
  by auto

lemma read_name:
  "name_at p off ls e n \<Longrightarrow> n \<le> d \<Longrightarrow> length acc + length ls \<le> 16
   \<Longrightarrow> readDNSName_loop d p off j nxt acc = Some (Some (acc @ ls, if j then nxt else e))"
proof (induction arbitrary: d acc j nxt rule: name_at.induct)
  case (root off)
  then show ?case by (cases d) (simp_all add: go_access readDNSName_loop.simps(2))
next
  case (label l off ls e n)
  then obtain d' where "d = Suc d'" by (cases d) auto
  then show ?case
    using label label_byte [OF label.hyps(1)] by (simp add: go_access readDNSName_loop.simps(2))
next
  case (pointer off ls e n)
  then obtain d' where "d = Suc d'" by (cases d) auto
  then show ?case
    using pointer pointer_mask [OF pointer.hyps(2)] by (simp add: go_access readDNSName_loop.simps(2))
qed

lemma read_cut:
  "name_at p off ls e n \<Longrightarrow> m < e \<Longrightarrow> n \<le> d \<Longrightarrow> length acc + length ls \<le> 16
   \<Longrightarrow> readDNSName_loop d (take m p) off j nxt acc = Some None"
proof (induction arbitrary: d acc j nxt rule: name_at.induct)
  case (root off)
  then show ?case by (cases d) (simp_all add: readDNSName_loop.simps(2))
next
  case (label l off ls e n)
  then obtain d' where d: "d = Suc d'" by (cases d) auto
  have "take (length l) (drop (Suc off) (take m p)) = l" if "off + 1 + length l \<le> m"
    using that label.hyps(4) by (simp add: slice_take)
  then show ?case
    using label label_byte [OF label.hyps(1)] d by (simp add: go_access readDNSName_loop.simps(2))
next
  case (pointer off ls e n)
  then obtain d' where d: "d = Suc d'" by (cases d) auto
  then show ?case
    using pointer pointer_mask [OF pointer.hyps(2)] by (simp add: go_access readDNSName_loop.simps(2))
qed

text \<open>A name the reader can take in: at most 16 labels in at most 32 steps.\<close>

definition readable :: "bytes \<Rightarrow> nat \<Rightarrow> nat \<Rightarrow> bool" where
  "readable p off e \<longleftrightarrow> (\<exists>ls n. name_at p off ls e n \<and> length ls \<le> 16 \<and> n \<le> 32)"

lemma readDNSName_at:
  assumes "name_at p off ls e n" "length ls \<le> 16" "n \<le> 32" "e \<le> m"
  shows "readDNSName (take m p) off = Some (Some (join_labels ls, e))"
  using read_name [OF name_take [OF assms(1,4)] assms(3), of "[]"] assms(2) by (simp add: readDNSName_def)

lemma readable_read: "readable p off e \<Longrightarrow> e \<le> m \<Longrightarrow> \<exists>nm. readDNSName (take m p) off = Some (Some (nm, e))"
  unfolding readable_def using readDNSName_at by blast

lemma readable_cut: "readable p off e \<Longrightarrow> m < e \<Longrightarrow> readDNSName (take m p) off = Some None"
  unfolding readable_def using read_cut [of p off _ e _ m 32 "[]"] by (auto simp: readDNSName_def)

text \<open>
  A response: a header, questions (an encoded name, type and class), records (an encoded owner name,
  a type, a class, a lifetime and data), and whatever follows them (authority, additional records).
\<close>

record dns_rr =
  rr_name :: bytes
  rr_type :: nat
  rr_class :: bytes
  rr_ttl :: u32
  rr_data :: bytes

definition enc_rr :: "dns_rr \<Rightarrow> bytes" where
  "enc_rr r = rr_name r @ enc16 (rr_type r) @ rr_class r @ enc32 (rr_ttl r) @ enc16 (length (rr_data r)) @ rr_data r"

definition dns_questions :: "(bytes \<times> bytes) list \<Rightarrow> bytes" where
  "dns_questions qs = concat (map (\<lambda>(nm, q). nm @ q) qs)"

definition dns_response :: "bytes \<Rightarrow> (bytes \<times> bytes) list \<Rightarrow> dns_rr list \<Rightarrow> bytes \<Rightarrow> bytes" where
  "dns_response h qs rs rest = h @ dns_questions qs @ concat (map enc_rr rs) @ rest"

definition response_header :: "bytes \<Rightarrow> nat \<Rightarrow> nat \<Rightarrow> bool" where
  "response_header h qd an \<longleftrightarrow>
     length h = 12 \<and> (push_bit 8 (ucast (h ! 2)) OR ucast (h ! 3) :: u16) AND 0x8000 \<noteq> 0
     \<and> be16n (h ! 4) (h ! 5) = qd \<and> be16n (h ! 6) (h ! 7) = an"

fun questions_ok :: "bytes \<Rightarrow> nat \<Rightarrow> (bytes \<times> bytes) list \<Rightarrow> bool" where
  "questions_ok p off [] = True"
| "questions_ok p off ((nm, q) # qs) \<longleftrightarrow>
     readable p off (off + length nm) \<and> length q = 4 \<and> questions_ok p (off + length nm + 4) qs"

fun records_ok :: "bytes \<Rightarrow> nat \<Rightarrow> dns_rr list \<Rightarrow> bool" where
  "records_ok p off [] = True"
| "records_ok p off (r # rs) \<longleftrightarrow>
     readable p off (off + length (rr_name r)) \<and> rr_type r < 65536 \<and> length (rr_class r) = 2
     \<and> length (rr_data r) < 65536 \<and> records_ok p (off + length (enc_rr r)) rs"

text \<open>The address of an A or AAAA record; any other record has none.\<close>

definition addresses :: "dns_rr \<Rightarrow> DNSAnswer list" where
  "addresses r =
     (if rr_type r = 1 \<and> length (rr_data r) = 4 \<or> rr_type r = 28 \<and> length (rr_data r) = 16
      then [\<lparr>IP = rr_data r, TTL = rr_ttl r\<rparr>] else [])"

text \<open>The records that arrived whole within the first \<open>m\<close> bytes of the section.\<close>

fun arrived :: "nat \<Rightarrow> dns_rr list \<Rightarrow> dns_rr list" where
  "arrived m [] = []"
| "arrived m (r # rs) = (if length (enc_rr r) \<le> m then r # arrived (m - length (enc_rr r)) rs else [])"

lemma length_enc_rr: "length (rr_class r) = 2 \<Longrightarrow> length (enc_rr r) = length (rr_name r) + 10 + length (rr_data r)"
  by (simp add: enc_rr_def enc16_def enc32_def)

lemma skip_read:
  "questions_ok p off qs \<Longrightarrow> off + length (dns_questions qs) \<le> m
   \<Longrightarrow> skip_questions (length qs) (take m p) off = Some (Some (off + length (dns_questions qs)))"
proof (induction qs arbitrary: off)
  case (Cons x qs)
  obtain nm q where x: "x = (nm, q)" by (cases x)
  have "length (dns_questions (x # qs)) = length nm + 4 + length (dns_questions qs)"
    using Cons.prems(1) by (simp add: x dns_questions_def)
  then show ?case
    using Cons readable_read [of p off "off + length nm" m] by (auto simp: x ac_simps)
qed (simp add: dns_questions_def)

text \<open>The fixed fields of a record, from the end \<open>e\<close> of its name on, in a payload that holds them.\<close>

lemma rr_fields:
  assumes "drop off p = enc_rr r @ rest" "length (rr_class r) = 2" "e = off + length (rr_name r)" "e + 10 \<le> m"
  defines "P \<equiv> take m p"
  shows "P ! e = of_nat (rr_type r div 256)" "P ! (e + 1) = of_nat (rr_type r)"
    "P ! (e + 4) = ucast (drop_bit 24 (rr_ttl r))" "P ! (e + 5) = ucast (drop_bit 16 (rr_ttl r))"
    "P ! (e + 6) = ucast (drop_bit 8 (rr_ttl r))" "P ! (e + 7) = ucast (rr_ttl r)"
    "P ! (e + 8) = of_nat (length (rr_data r) div 256)" "P ! (e + 9) = of_nat (length (rr_data r))"
    "take (length (rr_data r)) (drop (e + 10) p) = rr_data r"
proof -
  obtain c0 c1 where c: "rr_class r = [c0, c1]" using assms(2) by (auto simp: numeral_2_eq_2 length_Suc_conv)
  define b where "b = enc16 (rr_type r) @ [c0, c1] @ enc32 (rr_ttl r) @ enc16 (length (rr_data r)) @ rr_data r @ rest"
  have b: "drop e p = b" unfolding assms(3) by (rule drop_behind) (simp add: assms(1) enc_rr_def b_def c)
  then have "length b = length p - e" by (metis length_drop)
  then have le: "e \<le> length p" by (simp add: b_def enc16_def enc32_def)
  have nth: "P ! (e + i) = b ! i" if "i < 10" for i
    using that assms(4) b nth_drop [OF le, of i] by (simp add: P_def)
  show "P ! e = of_nat (rr_type r div 256)" using nth [of 0] by (simp add: b_def enc16_def)
  show "P ! (e + 1) = of_nat (rr_type r)"
    "P ! (e + 4) = ucast (drop_bit 24 (rr_ttl r))" "P ! (e + 5) = ucast (drop_bit 16 (rr_ttl r))"
    "P ! (e + 6) = ucast (drop_bit 8 (rr_ttl r))" "P ! (e + 7) = ucast (rr_ttl r)"
    "P ! (e + 8) = of_nat (length (rr_data r) div 256)" "P ! (e + 9) = of_nat (length (rr_data r))"
    by (simp_all only: nth, simp_all add: b_def enc16_def enc32_def)
  have "drop (e + 10) p = drop 10 b" using b by (metis add.commute drop_drop)
  then show "take (length (rr_data r)) (drop (e + 10) p) = rr_data r" by (simp add: b_def enc16_def enc32_def)
qed

lemma answers_step:
  assumes "off < length p" "readDNSName p off = Some (Some (nm, n))"
    and "n + 10 + rdlen \<le> length p" "be16n (p ! (n + 8)) (p ! (n + 9)) = rdlen"
    and "rr_answer p (n + 10) (be16n (p ! n) (p ! (n + 1))) rdlen
           (be32 (p ! (n + 4)) (p ! (n + 5)) (p ! (n + 6)) (p ! (n + 7))) = Some a"
  shows "answers_loop (Suc i) p off acc = answers_loop i p (n + 10 + rdlen) (acc @ a)"
  using assms by (simp add: go_access Let_def)

text \<open>A record that arrived whole is consumed and contributes its address, if it has one.\<close>

lemma answers_record:
  assumes "drop off p = enc_rr r @ rest" "records_ok p off (r # rs)" "off + length (enc_rr r) \<le> m"
  shows "answers_loop (Suc i) (take m p) off acc = answers_loop i (take m p) (off + length (enc_rr r)) (acc @ addresses r)"
proof -
  let ?P = "take m p"
  define e where "e = off + length (rr_name r)"
  have ok: "readable p off e" "rr_type r < 65536" "length (rr_class r) = 2" "length (rr_data r) < 65536"
    using assms(2) by (simp_all add: e_def)
  have end_m: "e + 10 + length (rr_data r) = off + length (enc_rr r)" using length_enc_rr [OF ok(3)] by (simp add: e_def)
  have "off + length (enc_rr r) \<le> length ?P"
    using arg_cong [OF assms(1), of length] length_enc_rr [OF ok(3)] assms(3) by simp
  then have len: "off < length ?P" "e + 10 + length (rr_data r) \<le> length ?P" using end_m by (simp_all add: e_def)
  obtain nm where read: "readDNSName ?P off = Some (Some (nm, e))"
    using readable_read [OF ok(1), of m] end_m assms(3) by auto
  note f = rr_fields [OF assms(1) ok(3) e_def, of m]
  have em: "e + 10 \<le> m" using end_m assms(3) by simp
  have rd: "be16n (?P ! (e + 8)) (?P ! (e + 9)) = length (rr_data r)"
    using f(7,8) [OF em] be16n_enc16 [OF ok(4)] by simp
  have "take (length (rr_data r)) (drop (e + 10) ?P) = rr_data r"
    using f(9) [OF em] end_m assms(3) by (simp add: slice_take)
  then have "rr_answer ?P (e + 10) (rr_type r) (length (rr_data r)) (rr_ttl r) = Some (addresses r)"
    using len(2) by (auto simp: rr_answer_def addresses_def go_access)
  then have "answers_loop (Suc i) ?P off acc = answers_loop i ?P (e + 10 + length (rr_data r)) (acc @ addresses r)"
    using f(1-6) [OF em] be16n_enc16 [OF ok(2)] be32_enc32 [of "rr_ttl r"]
    by (intro answers_step [OF len(1) read len(2) rd]) simp
  then show ?thesis using end_m by simp
qed

text \<open>A record cut off by the end of the payload ends the loop with what was read so far.\<close>

lemma answers_cut:
  assumes "drop off p = enc_rr r @ rest" "records_ok p off (r # rs)" "m < off + length (enc_rr r)"
  shows "answers_loop (Suc i) (take m p) off acc = Some acc"
proof -
  let ?P = "take m p"
  define e where "e = off + length (rr_name r)"
  have ok: "readable p off e" "length (rr_class r) = 2" "length (rr_data r) < 65536"
    using assms(2) by (simp_all add: e_def)
  have end_m: "m < e + 10 + length (rr_data r)" using length_enc_rr [OF ok(2)] assms(3) by (simp add: e_def)
  consider "m < e" | "e \<le> m" "m < e + 10" | "e + 10 \<le> m" by fastforce
  then show ?thesis
  proof cases
    case 1
    then show ?thesis using readable_cut [OF ok(1) 1] by simp
  next
    case 2
    then show ?thesis using readable_read [OF ok(1) 2(1)] by auto
  next
    case 3
    note f = rr_fields(7,8) [OF assms(1) ok(2) e_def 3]
    have "be16n (?P ! (e + 8)) (?P ! (e + 9)) = length (rr_data r)" using f be16n_enc16 [OF ok(3)] by simp
    moreover have "e \<le> m" using 3 by simp
    then obtain nm where "readDNSName ?P off = Some (Some (nm, e))" using readable_read [OF ok(1)] by blast
    moreover have "length ?P = m" using arg_cong [OF assms(1), of length] length_enc_rr [OF ok(2)] assms(3) by simp
    ultimately show ?thesis using end_m 3 by (simp add: go_access)
  qed
qed

lemma answers_records:
  assumes "drop off p = concat (map enc_rr rs) @ rest" "records_ok p off rs" "off \<le> m"
  shows "answers_loop (length rs) (take m p) off acc = Some (acc @ concat (map addresses (arrived (m - off) rs)))"
  using assms
proof (induction rs arbitrary: off acc)
  case (Cons r rs)
  have d: "drop off p = enc_rr r @ concat (map enc_rr rs) @ rest" using Cons.prems(1) by simp
  show ?case
  proof (cases "off + length (enc_rr r) \<le> m")
    case True
    have "drop (off + length (enc_rr r)) p = concat (map enc_rr rs) @ rest" using d by (rule drop_behind)
    then show ?thesis
      using answers_record [OF d Cons.prems(2) True] Cons.IH [of "off + length (enc_rr r)"] Cons.prems(2) True
      by (simp del: answers_loop.simps(2))
  next
    case False
    then have "\<not> length (enc_rr r) \<le> m - off" using Cons.prems(3) by arith
    then show ?thesis using answers_cut [OF d Cons.prems(2), of m] False by (simp del: answers_loop.simps(2))
  qed
qed simp

text \<open>
  C38. The answer section is read back: for a response whose names follow the wire format, plain or
  compressed by pointers to earlier names, with at most 16 labels and 32 reading steps each, the
  parser returns the name of the first question and the addresses, with their lifetimes and in order,
  of exactly the A and AAAA records; further questions, records of any other type or length, and what
  follows the answer section are skipped. Of a payload cut off anywhere behind the questions, as the
  capture's 255-byte limit does, it returns those of the records that arrived whole.
\<close>

theorem dns_answer_roundtrip:
  assumes "p = dns_response h ((nm, q) # qs) rs rest" "response_header h (Suc (length qs)) (length rs)"
    and "name_at p 12 ls (12 + length nm) n" "ls \<noteq> []" "length ls \<le> 16" "n \<le> 32"
    and "off = 12 + length (dns_questions ((nm, q) # qs))" "questions_ok p 12 ((nm, q) # qs)" "records_ok p off rs"
    and "off \<le> m"
  shows "parseDNSAnswer (take m p)
    = Some (Some \<lparr>QName = join_labels ls, Answers = concat (map addresses (arrived (m - off) rs))\<rparr>)"
proof -
  let ?P = "take m p"
  have h: "length h = 12" using assms(2) by (simp add: response_header_def)
  have off: "off = 12 + length nm + 4 + length (dns_questions qs)" using assms(7,8) by (simp add: dns_questions_def)
  have hd: "p ! i = h ! i" if "i < 12" for i using that h off assms(10) by (simp add: assms(1) dns_response_def nth_append)
  have "length p = off + length (concat (map enc_rr rs) @ rest)" using h assms(7) by (simp add: assms(1) dns_response_def)
  then have len: "12 \<le> length ?P" using off assms(10) by simp
  have "drop off p = concat (map enc_rr rs) @ rest" using h assms(7) by (simp add: assms(1) dns_response_def)
  from answers_records [OF this assms(9,10), of "[]"]
  have as: "answers_loop (length rs) ?P off [] = Some (concat (map addresses (arrived (m - off) rs)))" by simp
  have read: "readDNSName ?P 12 = Some (Some (join_labels ls, 12 + length nm))"
    using readDNSName_at [OF assms(3,5,6)] off assms(10) by simp
  have skip: "skip_questions (length qs) ?P (12 + length nm + 4) = Some (Some off)"
    using skip_read [of p "12 + length nm + 4" qs m] assms(8,10) off by simp
  have "join_labels ls \<noteq> []"
    using assms(4) name_labels [OF assms(3)] by (cases ls rule: join_labels.cases) (auto simp: valid_label_def)
  then show ?thesis
    using assms(2) len read skip as by (simp add: parseDNSAnswer_def go_access hd response_header_def min_less_iff_disj)
qed

text \<open>
  A CNAME record from \<open>api.x\<close> to \<open>b.x\<close>, which points to the label \<open>x\<close> of the question, and the address of \<open>b.x\<close>, whose owner
  is a pointer into the data of the first record.
\<close>

definition sample_header :: bytes where
  "sample_header = [0, 7, 0x81, 0x80, 0, 1, 0, 2, 0, 0, 0, 0]"

definition sample_records :: "dns_rr list" where
  "sample_records =
     [\<lparr>rr_name = [0xc0, 12], rr_type = 5, rr_class = [0, 1], rr_ttl = 60, rr_data = [1, 0x62, 0xc0, 16]\<rparr>,
      \<lparr>rr_name = [0xc0, 35], rr_type = 1, rr_class = [0, 1], rr_ttl = 30, rr_data = [10, 0, 0, 1]\<rparr>]"

definition sample_question :: bytes where
  "sample_question = enc_name [chars ''api'', chars ''x'']"

theorem dns_answer_roundtrip_witness:
  "parseDNSAnswer (take 255 (dns_response sample_header [(sample_question, [0, 1, 0, 1])] sample_records []))
     = Some (Some \<lparr>QName = chars ''api.x'', Answers = [\<lparr>IP = [10, 0, 0, 1], TTL = 30\<rparr>]\<rparr>)"
proof -
  define p where "p = dns_response sample_header [(sample_question, [0, 1, 0, 1])] sample_records []"
  have p: "p = [0, 7, 0x81, 0x80, 0, 1, 0, 2, 0, 0, 0, 0] @ [3, 0x61, 0x70, 0x69, 1, 0x78, 0] @ [0, 1, 0, 1]
      @ [0xc0, 12, 0, 5, 0, 1, 0, 0, 0, 60, 0, 4, 1, 0x62, 0xc0, 16] @ [0xc0, 35, 0, 1, 0, 1, 0, 0, 0, 30, 0, 4, 10, 0, 0, 1]"
    unfolding p_def by code_simp
  have v: "valid_label [0x61, 0x70, 0x69]" "valid_label [0x78]" "valid_label [0x62]" by (simp_all add: valid_label_def)
  have x: "name_at p 16 [[0x78]] 19 2"
    using name_at.label [OF v(2), of 16 p "[]" 19 1] name_at.root [of 18 p] by (simp add: p numeral_2_eq_2)
  have api: "name_at p 12 [[0x61, 0x70, 0x69], [0x78]] 19 3"
    using name_at.label [OF v(1), of 12 p "[[0x78]]" 19 2] x by (simp add: p)
  have o1: "name_at p 23 [[0x61, 0x70, 0x69], [0x78]] 25 4"
    using name_at.pointer [of 23 p "[[0x61, 0x70, 0x69], [0x78]]" 19 3] api by (simp add: p be16n_sum)
  have "name_at p 37 [[0x78]] 39 3"
    using name_at.pointer [of 37 p "[[0x78]]" 19 2] x by (simp add: p be16n_sum)
  then have b: "name_at p 35 [[0x62], [0x78]] 39 4"
    using name_at.label [OF v(3), of 35 p "[[0x78]]" 39 3] by (simp add: p)
  have o2: "name_at p 39 [[0x62], [0x78]] 41 5"
    using name_at.pointer [of 39 p "[[0x62], [0x78]]" 39 4] b by (simp add: p be16n_sum)
  have r: "readable p 12 19" "readable p 23 25" "readable p 39 41"
    unfolding readable_def
    by (rule exI, rule exI, rule conjI, rule api, simp, rule exI, rule exI, rule conjI, rule o1, simp,
        rule exI, rule exI, rule conjI, rule o2, simp)
  have l: "length sample_question = 7" "join_labels [[0x61, 0x70, 0x69], [0x78]] = chars ''api.x''"
    "length (dns_questions [(sample_question, [0, 1, 0, 1])]) = 11"
    "response_header sample_header (Suc (length ([] :: (bytes \<times> bytes) list))) (length sample_records)"
    "concat (map addresses (arrived 232 sample_records)) = [\<lparr>IP = [10, 0, 0, 1], TTL = 30\<rparr>]"
    by code_simp+
  have q: "questions_ok p 12 [(sample_question, [0, 1, 0, 1])]" using r(1) l(1) by simp
  have rs: "records_ok p 23 sample_records" using r(2,3) by (simp add: sample_records_def enc_rr_def enc16_def enc32_def)
  show ?thesis
    using dns_answer_roundtrip [OF p_def l(4), of "[[0x61, 0x70, 0x69], [0x78]]" 3 23 255] api q rs l by (simp add: p_def)
qed

section \<open>Long names\<close>

text \<open>
  A name of more than 16 labels is not skipped: the reader stops after the 17th label before
  it has seen the end of the name, and reports as the offset behind the name the offset at which
  the name starts, so the caller reads the question's or record's fields inside the name.
\<close>

lemma long_name_not_skipped:
  assumes "drop off p = enc_labels ls @ rest" "\<forall>l \<in> set ls. valid_label l" "16 < length ls"
  shows "readDNSName p off = Some (Some (join_labels (take 17 ls), off))"
proof -
  define l where "l = ls ! 16"
  have ls: "ls = take 16 ls @ l # drop 17 ls"
    using assms(3) id_take_nth_drop [of 16 ls] by (simp add: l_def)
  have enc: "drop off p = enc_labels (take 16 ls) @ (of_nat (length l) # l @ enc_labels (drop 17 ls) @ rest)"
    using assms(1) by (subst (asm) ls) (simp add: enc_labels_def)
  define o' where "o' = off + length (enc_labels (take 16 ls))"
  have o': "drop o' p = of_nat (length l) # l @ enc_labels (drop 17 ls) @ rest"
    unfolding o'_def by (rule drop_behind [OF enc])
  have vl: "valid_label l" using assms(2,3) by (simp add: l_def)
  have len: "length p = o' + (1 + length l + length (enc_labels (drop 17 ls) @ rest))"
    using arg_cong [OF o', of length] by auto
  have "p ! o' = of_nat (length l)" using o' by (rule nth_via_drop)
  moreover have "take (length l) (drop (Suc o') p) = l"
    using drop_behind [of o' p "[of_nat (length l)]"] o' by simp
  ultimately have last: "readDNSName_loop (Suc d) p o' False off (take 16 ls)
      = Some (Some (take 16 ls @ [l], off))" for d
    using len label_byte [OF vl] assms(3) by (simp add: go_access readDNSName_loop.simps(2))
  have "length (take 16 ls) = 16" using assms(3) by simp
  then have "readDNSName_loop (16 + Suc 15) p off False off [] = Some (Some (take 16 ls @ [l], off))"
    using read_labels [OF enc, of "[]" "Suc 15" False off] assms(2) last [of 15]
    by (auto simp: o'_def dest: in_set_takeD)
  moreover have "take 16 ls @ [l] = take 17 ls"
    using assms(3) take_Suc_conv_app_nth [of 16 ls] by (simp add: l_def)
  ultimately show ?thesis by (simp add: readDNSName_def)
qed

lemma long_name_not_skipped_example:
  "readDNSName (replicate 12 0 @ enc_name (replicate 17 (chars ''a''))) 12
     = Some (Some (join_labels (replicate 17 (chars ''a'')), 12))"
  using long_name_not_skipped [of 12 "replicate 12 0 @ enc_name (replicate 17 (chars ''a''))"
      "replicate 17 (chars ''a'')" "[0]"]
  by (simp add: enc_name_def valid_label_def chars_def)

end
