(* ===== verification/AK_Trace.thy ===== *)
theory AK_Trace
  imports AK_Frames
begin

text \<open>
  The observation tracepoints: \<open>bpf/file_io.bpf.c\<close>, \<open>bpf/file_meta.bpf.c\<close> and
  \<open>bpf/creds.bpf.c\<close>. Each is gated on the current task being a monitored session member and
  emits one record. The retval field carries a syscall argument where the source says so.
  What the rest of the system relies on (they change no map, they append at most one record,
  they are silent for non-members) is the locale \<open>observer\<close>, interpreted on every program.
\<close>

section \<open>File opens\<close>

definition ak_openat :: "kenv \<Rightarrow> sys_enter_ctx \<Rightarrow> kstate \<Rightarrow> kstate" where
  "ak_openat k ctx s =
     (if \<not> has (ak_session_flags k s) AK_SESS_MONITOR then s
      else ak_emit k (k_cgroup_id k) (ucast (se_id ctx)) AK_CAT_FILE (se_args ctx 2) (se_args ctx 1) s)"

definition ak_openat2 :: "kenv \<Rightarrow> sys_enter_ctx \<Rightarrow> kstate \<Rightarrow> kstate" where
  "ak_openat2 k ctx s =
     (if \<not> has (ak_session_flags k s) AK_SESS_MONITOR then s
      else ak_emit k (k_cgroup_id k) (ucast (se_id ctx)) AK_CAT_FILE 0 (se_args ctx 1) s)"

section \<open>File mutations\<close>

definition ak_unlinkat :: "kenv \<Rightarrow> sys_enter_ctx \<Rightarrow> kstate \<Rightarrow> kstate" where
  "ak_unlinkat k ctx s =
     (if \<not> has (ak_session_flags k s) AK_SESS_MONITOR then s
      else ak_emit k (k_cgroup_id k) (ucast (se_id ctx)) AK_CAT_FILE 0 (se_args ctx 1) s)"

definition ak_unlink :: "kenv \<Rightarrow> sys_enter_ctx \<Rightarrow> kstate \<Rightarrow> kstate" where
  "ak_unlink k ctx s =
     (if \<not> has (ak_session_flags k s) AK_SESS_MONITOR then s
      else ak_emit k (k_cgroup_id k) (ucast (se_id ctx)) AK_CAT_FILE 0 (se_args ctx 0) s)"

definition ak_renameat2 :: "kenv \<Rightarrow> sys_enter_ctx \<Rightarrow> kstate \<Rightarrow> kstate" where
  "ak_renameat2 k ctx s =
     (if \<not> has (ak_session_flags k s) AK_SESS_MONITOR then s
      else ak_emit k (k_cgroup_id k) (ucast (se_id ctx)) AK_CAT_FILE 0 (se_args ctx 1) s)"

definition ak_rename :: "kenv \<Rightarrow> sys_enter_ctx \<Rightarrow> kstate \<Rightarrow> kstate" where
  "ak_rename k ctx s =
     (if \<not> has (ak_session_flags k s) AK_SESS_MONITOR then s
      else ak_emit k (k_cgroup_id k) (ucast (se_id ctx)) AK_CAT_FILE 0 (se_args ctx 0) s)"

definition ak_mkdirat :: "kenv \<Rightarrow> sys_enter_ctx \<Rightarrow> kstate \<Rightarrow> kstate" where
  "ak_mkdirat k ctx s =
     (if \<not> has (ak_session_flags k s) AK_SESS_MONITOR then s
      else ak_emit k (k_cgroup_id k) (ucast (se_id ctx)) AK_CAT_FILE 0 (se_args ctx 1) s)"

definition ak_fchmodat :: "kenv \<Rightarrow> sys_enter_ctx \<Rightarrow> kstate \<Rightarrow> kstate" where
  "ak_fchmodat k ctx s =
     (if \<not> has (ak_session_flags k s) AK_SESS_MONITOR then s
      else ak_emit k (k_cgroup_id k) (ucast (se_id ctx)) AK_CAT_FILE 0 (se_args ctx 1) s)"

definition ak_fchownat :: "kenv \<Rightarrow> sys_enter_ctx \<Rightarrow> kstate \<Rightarrow> kstate" where
  "ak_fchownat k ctx s =
     (if \<not> has (ak_session_flags k s) AK_SESS_MONITOR then s
      else ak_emit k (k_cgroup_id k) (ucast (se_id ctx)) AK_CAT_FILE 0 (se_args ctx 1) s)"

section \<open>Privilege-relevant operations\<close>

definition ak_ptrace :: "kenv \<Rightarrow> sys_enter_ctx \<Rightarrow> kstate \<Rightarrow> kstate" where
  "ak_ptrace k ctx s =
     (if \<not> has (ak_session_flags k s) AK_SESS_MONITOR then s
      else ak_emit k (k_cgroup_id k) (ucast (se_id ctx)) AK_CAT_PROCESS (se_args ctx 0) 0 s)"

definition ak_kill :: "kenv \<Rightarrow> sys_enter_ctx \<Rightarrow> kstate \<Rightarrow> kstate" where
  "ak_kill k ctx s =
     (if \<not> has (ak_session_flags k s) AK_SESS_MONITOR then s
      else ak_emit k (k_cgroup_id k) (ucast (se_id ctx)) AK_CAT_PROCESS (se_args ctx 1) 0 s)"

definition ak_setuid :: "kenv \<Rightarrow> sys_enter_ctx \<Rightarrow> kstate \<Rightarrow> kstate" where
  "ak_setuid k ctx s =
     (if \<not> has (ak_session_flags k s) AK_SESS_MONITOR then s
      else ak_emit k (k_cgroup_id k) (ucast (se_id ctx)) AK_CAT_CAP (se_args ctx 0) 0 s)"

definition ak_setreuid :: "kenv \<Rightarrow> sys_enter_ctx \<Rightarrow> kstate \<Rightarrow> kstate" where
  "ak_setreuid k ctx s =
     (if \<not> has (ak_session_flags k s) AK_SESS_MONITOR then s
      else ak_emit k (k_cgroup_id k) (ucast (se_id ctx)) AK_CAT_CAP (se_args ctx 1) 0 s)"

definition ak_io_uring_submit :: "kenv \<Rightarrow> io_uring_ctx \<Rightarrow> kstate \<Rightarrow> kstate" where
  "ak_io_uring_submit k ctx s =
     (if \<not> has (ak_session_flags k s) AK_SESS_MONITOR then s
      else ak_emit k (k_cgroup_id k) AK_PSEUDO_IO_URING AK_CAT_PROCESS (ucast (ur_opcode ctx)) 0 s)"

section \<open>The contract of an observer\<close>

locale observer =
  fixes prog :: "kenv \<Rightarrow> 'c \<Rightarrow> kstate \<Rightarrow> kstate"
  assumes only_events: "prog k c s = s\<lparr>ak_events := ak_events (prog k c s)\<rparr>"
    and appends: "\<exists>rs. ak_events (prog k c s) = ak_events s @ rs \<and> length rs \<le> 1"
    and gated: "\<not> has (ak_session_flags k s) AK_SESS_MONITOR \<Longrightarrow> prog k c s = s"
begin

lemma flags_kept: "ak_session_flags k' (prog k c s) = ak_session_flags k' s"
  by (subst only_events) (simp add: ak_session_flags_def split: option.split)

lemma rules_kept: "ak_forbidden (prog k c s) buf opn = ak_forbidden s buf opn"
  by (subst only_events) (simp add: ak_forbidden_def split: option.split)

text \<open>A run of observations by any tasks only extends the ring.\<close>

lemma run_appends:
  "\<exists>rs. fold (\<lambda>(k, c). prog k c) ops s = s\<lparr>ak_events := ak_events s @ rs\<rparr> \<and> length rs \<le> length ops"
proof (induction ops arbitrary: s)
  case Nil
  then show ?case by (auto intro!: exI [of _ "[]"])
next
  case (Cons kc ops)
  obtain k c where kc: "kc = (k, c)" by (cases kc)
  from appends [of k c s] only_events [of k c s] obtain r1
    where r1: "prog k c s = s\<lparr>ak_events := ak_events s @ r1\<rparr>" "length r1 \<le> 1"
    by metis
  from Cons.IH [of "prog k c s"] obtain r2 where
    r2: "fold (\<lambda>(k, c). prog k c) ops (prog k c s)
          = (prog k c s)\<lparr>ak_events := ak_events (prog k c s) @ r2\<rparr>" "length r2 \<le> length ops"
    by blast
  have "fold (\<lambda>(k, c). prog k c) (kc # ops) s = s\<lparr>ak_events := ak_events s @ (r1 @ r2)\<rparr>"
    using r1 r2 by (simp add: kc)
  with r1 r2 show ?case by (intro exI [of _ "r1 @ r2"]) simp
qed

end

text \<open>The shape all fourteen programs share meets the contract.\<close>

lemma observerI:
  assumes "\<And>k c s. prog k c s = (if \<not> has (ak_session_flags k s) AK_SESS_MONITOR then s
      else ak_emit k (k_cgroup_id k) (sid c) cat (ret c) (res c) s)"
  shows "observer prog"
proof
  fix k c s
  show "prog k c s = s\<lparr>ak_events := ak_events (prog k c s)\<rparr>"
    using emit_rec_eq by (simp add: assms ak_emit_def)
  show "\<exists>rs. ak_events (prog k c s) = ak_events s @ rs \<and> length rs \<le> 1"
    using emit_rec_events by (simp add: assms ak_emit_def)
  show "\<not> has (ak_session_flags k s) AK_SESS_MONITOR \<Longrightarrow> prog k c s = s"
    by (simp add: assms)
qed

interpretation o_openat: observer ak_openat
  by (rule observerI) (rule ak_openat_def)
interpretation o_openat2: observer ak_openat2
  by (rule observerI) (rule ak_openat2_def)
interpretation o_unlinkat: observer ak_unlinkat
  by (rule observerI) (rule ak_unlinkat_def)
interpretation o_unlink: observer ak_unlink
  by (rule observerI) (rule ak_unlink_def)
interpretation o_renameat2: observer ak_renameat2
  by (rule observerI) (rule ak_renameat2_def)
interpretation o_rename: observer ak_rename
  by (rule observerI) (rule ak_rename_def)
interpretation o_mkdirat: observer ak_mkdirat
  by (rule observerI) (rule ak_mkdirat_def)
interpretation o_fchmodat: observer ak_fchmodat
  by (rule observerI) (rule ak_fchmodat_def)
interpretation o_fchownat: observer ak_fchownat
  by (rule observerI) (rule ak_fchownat_def)
interpretation o_ptrace: observer ak_ptrace
  by (rule observerI) (rule ak_ptrace_def)
interpretation o_kill: observer ak_kill
  by (rule observerI) (rule ak_kill_def)
interpretation o_setuid: observer ak_setuid
  by (rule observerI) (rule ak_setuid_def)
interpretation o_setreuid: observer ak_setreuid
  by (rule observerI) (rule ak_setreuid_def)
interpretation o_io_uring: observer ak_io_uring_submit
  by (rule observerI) (rule ak_io_uring_submit_def)

end
