(* ===== verification/AK_CLayout.thy ===== *)
theory AK_CLayout
  imports AK_Prelude
begin

text \<open>
  Layout of C structures by the System V ABI rules the BPF target shares with the kernel: where
  each member of a structure lies, bit-fields included, and how large the structure is. The
  theory proves once, for every declaration, that members are placed in order, aligned, without
  overlap and inside the structure. \<open>AK_KernelTypes\<close> applies it to the declarations of
  \<open>bpf/vmlinux.h\<close> that the programs read.
\<close>

named_theorems ak_layout \<open>evaluation of layouts: dimensions of the declared types\<close>

section \<open>Types\<close>

text \<open>
  \<open>CInt n\<close> is a scalar of \<open>n\<close> bytes aligned to its size; \<open>CBits n w\<close> a bit-field of \<open>w\<close> bits
  declared with an \<open>n\<close>-byte type, \<open>CPad n w\<close> an unnamed one, which does not raise the
  alignment of the structure. A member is a name (empty for an anonymous one) and a type.
\<close>

datatype ctype =
    CInt nat
  | CPtr
  | CArr ctype nat
  | CBits nat nat
  | CPad nat nat
  | CStruct "(string \<times> ctype) list"
  | CUnion "(string \<times> ctype) list"

fun calign :: "ctype \<Rightarrow> nat" and maligns :: "(string \<times> ctype) list \<Rightarrow> nat" where
  "calign (CInt n) = n"
| "calign CPtr = 8"
| "calign (CArr t n) = calign t"
| "calign (CBits n w) = n"
| "calign (CPad n w) = 1"
| "calign (CStruct ms) = maligns ms"
| "calign (CUnion ms) = maligns ms"
| "maligns [] = 1"
| "maligns ((f, t) # ms) = max (calign t) (maligns ms)"

definition roundup :: "nat \<Rightarrow> nat \<Rightarrow> nat" where
  "roundup off a = (off + a - 1) div a * a"

text \<open>Where the next member goes, given the first free bit, and how many bits it takes.\<close>

definition place_bits :: "nat \<Rightarrow> nat \<Rightarrow> nat \<Rightarrow> nat" where
  "place_bits off n w =
     (if w \<noteq> 0 \<and> off div (8 * n) = (off + w - 1) div (8 * n) then off else roundup off (8 * n))"

fun place :: "nat \<Rightarrow> ctype \<Rightarrow> nat" where
  "place off (CBits n w) = place_bits off n w"
| "place off (CPad n w) = place_bits off n w"
| "place off t = roundup off (8 * calign t)"

fun cwidth :: "ctype \<Rightarrow> nat" and mend :: "nat \<Rightarrow> (string \<times> ctype) list \<Rightarrow> nat"
  and mmax :: "(string \<times> ctype) list \<Rightarrow> nat" where
  "cwidth (CInt n) = 8 * n"
| "cwidth CPtr = 64"
| "cwidth (CArr t n) = n * cwidth t"
| "cwidth (CBits n w) = w"
| "cwidth (CPad n w) = w"
| "cwidth (CStruct ms) = roundup (mend 0 ms) (8 * maligns ms)"
| "cwidth (CUnion ms) = roundup (mmax ms) (8 * maligns ms)"
| "mend off [] = off"
| "mend off ((f, t) # ms) = mend (place off t + cwidth t) ms"
| "mmax [] = 0"
| "mmax ((f, t) # ms) = max (cwidth t) (mmax ms)"

definition sizeof :: "ctype \<Rightarrow> nat" where
  "sizeof t = cwidth t div 8"

text \<open>The first bit of each member, in declaration order.\<close>

fun placed :: "nat \<Rightarrow> (string \<times> ctype) list \<Rightarrow> (string \<times> nat \<times> ctype) list" where
  "placed off [] = []"
| "placed off ((f, t) # ms) = (f, place off t, t) # placed (place off t + cwidth t) ms"

fun members :: "ctype \<Rightarrow> (string \<times> nat \<times> ctype) list" where
  "members (CStruct ms) = placed 0 ms"
| "members (CUnion ms) = map (\<lambda>(f, t). (f, 0, t)) ms"
| "members _ = []"

text \<open>\<open>offsetof\<close> of a named member, in bytes, and the bytes of a member in an object's image.\<close>

definition offsetof :: "ctype \<Rightarrow> string \<Rightarrow> nat option" where
  "offsetof t f = map_option (\<lambda>(off, _). off div 8) (map_of (members t) f)"

definition member_bytes :: "ctype \<Rightarrow> string \<Rightarrow> bytes \<Rightarrow> bytes option" where
  "member_bytes t f b =
     map_option (\<lambda>(off, u). take (sizeof u) (drop (off div 8) b)) (map_of (members t) f)"

lemmas layout_eval [ak_layout] = roundup_def place_bits_def max_def

section \<open>Soundness of the placement\<close>

text \<open>
  Every type of the language of the C standard has a positive alignment; \<open>CInt 0\<close> is excluded.
\<close>

fun sized :: "ctype \<Rightarrow> bool" and msized :: "(string \<times> ctype) list \<Rightarrow> bool" where
  "sized (CInt n) = (n \<noteq> 0)"
| "sized CPtr = True"
| "sized (CArr t n) = sized t"
| "sized (CBits n w) = (n \<noteq> 0)"
| "sized (CPad n w) = (n \<noteq> 0)"
| "sized (CStruct ms) = msized ms"
| "sized (CUnion ms) = msized ms"
| "msized [] = True"
| "msized ((f, t) # ms) = (sized t \<and> msized ms)"

lemma roundup_ge: "0 < a \<Longrightarrow> off \<le> roundup off a"
proof -
  assume a: "0 < a"
  have "off + a - 1 = (off + a - 1) div a * a + (off + a - 1) mod a" by simp
  moreover have "(off + a - 1) mod a \<le> a - 1" using a by (simp add: less_Suc_eq_le [symmetric])
  ultimately show ?thesis using a unfolding roundup_def by linarith
qed

lemma roundup_less: "0 < a \<Longrightarrow> roundup off a < off + a"
  using div_times_less_eq_dividend [of "off + a - 1" a] unfolding roundup_def by linarith

lemma roundup_dvd [simp]: "a dvd roundup off a"
  by (simp add: roundup_def)

lemma calign_pos: "sized t \<Longrightarrow> 0 < calign t" "msized ms \<Longrightarrow> 0 < maligns ms"
  by (induction t and ms rule: calign_maligns.induct) auto

lemma place_ge: "sized t \<Longrightarrow> off \<le> place off t"
  using calign_pos(1) [of t] by (cases "(off, t)" rule: place.cases) (auto simp: place_bits_def roundup_ge)

text \<open>Members that are not bit-fields lie at a multiple of their alignment.\<close>

fun bitfield :: "ctype \<Rightarrow> bool" where
  "bitfield (CBits n w) = True"
| "bitfield (CPad n w) = True"
| "bitfield t = False"

lemma place_plain [ak_layout]: "\<not> bitfield t \<Longrightarrow> place off t = roundup off (8 * calign t)"
  by (cases t) auto

lemma place_aligned: "\<not> bitfield t \<Longrightarrow> 8 * calign t dvd place off t"
  by (simp add: place_plain)

text \<open>A bit-field never straddles a storage unit of its declared type.\<close>

lemma place_unit:
  assumes "0 < n" "0 < w" "w \<le> 8 * n"
  shows "place_bits off n w div (8 * n) = (place_bits off n w + w - 1) div (8 * n)"
proof (cases "off div (8 * n) = (off + w - 1) div (8 * n)")
  case True
  then show ?thesis using assms by (simp add: place_bits_def)
next
  case False
  obtain q where q: "roundup off (8 * n) = q * (8 * n)"
    by (metis roundup_dvd dvd_def mult.commute)
  have "q * (8 * n) + w - 1 = q * (8 * n) + (w - 1)" using assms by simp
  moreover have "(q * (8 * n) + (w - 1)) div (8 * n) = q"
    by (rule div_nat_eqI) (use assms in \<open>simp_all add: algebra_simps\<close>)
  ultimately have "(q * (8 * n) + w - 1) div (8 * n) = q" by (simp only:)
  then show ?thesis using False assms q by (simp add: place_bits_def)
qed

text \<open>The first free bit only grows, and bounds every member placed before it.\<close>

lemma mend_ge: "msized ms \<Longrightarrow> off \<le> mend off ms"
proof (induction ms arbitrary: off)
  case (Cons m ms)
  obtain f t where m: "m = (f, t)" by (cases m)
  have "off \<le> place off t + cwidth t" using Cons.prems m place_ge [of t off] by simp
  then show ?case using Cons m by (simp add: order_trans [OF _ Cons.IH])
qed simp

lemma placed_bounds:
  "msized ms \<Longrightarrow> (f, p, t) \<in> set (placed off ms) \<Longrightarrow> off \<le> p \<and> p + cwidth t \<le> mend off ms"
proof (induction ms arbitrary: off)
  case (Cons m ms)
  obtain g u where m: "m = (g, u)" by (cases m)
  have "off \<le> place off u" using Cons.prems(1) m place_ge by simp
  then show ?case
    using Cons m mend_ge [of ms "place off u + cwidth u"] by fastforce
qed simp

text \<open>Of two members, the later one starts at or after the end of the earlier one.\<close>

definition disjoint_members :: "(string \<times> nat \<times> ctype) list \<Rightarrow> bool" where
  "disjoint_members = sorted_wrt (\<lambda>(_, p, t) (_, q, _). p + cwidth t \<le> q)"

lemma placed_disjoint: "msized ms \<Longrightarrow> disjoint_members (placed off ms)"
proof (induction ms arbitrary: off)
  case (Cons m ms)
  obtain g u where m: "m = (g, u)" by (cases m)
  show ?case
    using Cons m placed_bounds [of ms _ _ _ "place off u + cwidth u"]
    by (auto simp: disjoint_members_def)
qed (simp add: disjoint_members_def)

lemma placed_aligned:
  "(f, p, t) \<in> set (placed off ms) \<Longrightarrow> \<not> bitfield t \<Longrightarrow> 8 * calign t dvd p"
  by (induction ms arbitrary: off) (auto simp: place_aligned)

lemma member_sized: "(f, p, t) \<in> set (placed off ms) \<Longrightarrow> msized ms \<Longrightarrow> sized t"
  by (induction ms arbitrary: off) auto

text \<open>The layout of a structure is sound.\<close>

definition sound_layout :: "ctype \<Rightarrow> bool" where
  "sound_layout t \<longleftrightarrow>
     disjoint_members (members t)
     \<and> (\<forall>(f, p, u) \<in> set (members t). p + cwidth u \<le> cwidth t \<and> (bitfield u \<or> 8 * calign u dvd p))
     \<and> 8 * calign t dvd cwidth t"

lemma struct_sound:
  assumes "msized ms"
  shows "sound_layout (CStruct ms)"
proof -
  have "mend 0 ms \<le> roundup (mend 0 ms) (8 * maligns ms)"
    using roundup_ge calign_pos(2) [OF assms] by simp
  then have "p + cwidth t \<le> cwidth (CStruct ms) \<and> (bitfield t \<or> 8 * calign t dvd p)"
    if "(f, p, t) \<in> set (placed 0 ms)" for f p t
    using placed_bounds [OF assms that] placed_aligned [OF that] by auto
  then show ?thesis
    using placed_disjoint [OF assms, of 0] by (auto simp: sound_layout_def)
qed

end
