(* ===== verification/AK_KernelTypes.thy ===== *)
theory AK_KernelTypes
  imports AK_CLayout AK_Egress AK_Network
begin

text \<open>
  The declarations of \<open>bpf/vmlinux.h\<close> that the programs read, directly or as the type of a
  member that lies before one they read: socket addresses, message headers, registers,
  tracepoint contexts, and the kernel's \<open>path\<close>, \<open>dentry\<close>, \<open>inode\<close>, \<open>file\<close>, \<open>linux_binprm\<close> and
  \<open>task_struct\<close> (the latter up to \<open>real_parent\<close>, the last member read). Scalar typedefs and
  enumerations are written as the integer they name. From the declarations follow the numeric
  offsets that the programs hard-code, and that what they read with them are the declared members.
\<close>

section \<open>Declarations\<close>

definition sockaddr_layout :: ctype where
  "sockaddr_layout = CStruct [(''sa_family'', CInt 2),
     ('''', CUnion [(''sa_data_min'', CArr (CInt 1) 14), ('''', CStruct [(''__empty_sa_data'',
     CStruct []), (''sa_data'', CArr (CInt 1) 0)])])]"

definition in_addr_layout :: ctype where
  "in_addr_layout = CStruct [(''s_addr'', CInt 4)]"

definition sockaddr_in_layout :: ctype where
  "sockaddr_in_layout = CStruct [(''sin_family'', CInt 2), (''sin_port'', CInt 2),
     (''sin_addr'', in_addr_layout), (''__pad'', CArr (CInt 1) 8)]"

definition in6_addr_layout :: ctype where
  "in6_addr_layout = CStruct [(''in6_u'', CUnion [(''u6_addr8'', CArr (CInt 1) 16),
     (''u6_addr16'', CArr (CInt 2) 8), (''u6_addr32'', CArr (CInt 4) 4)])]"

definition sockaddr_in6_layout :: ctype where
  "sockaddr_in6_layout = CStruct [(''sin6_family'', CInt 2), (''sin6_port'', CInt 2),
     (''sin6_flowinfo'', CInt 4), (''sin6_addr'', in6_addr_layout),
     (''sin6_scope_id'', CInt 4)]"

definition iovec_layout :: ctype where
  "iovec_layout = CStruct [(''iov_base'', CPtr), (''iov_len'', CInt 8)]"

definition user_msghdr_layout :: ctype where
  "user_msghdr_layout = CStruct [(''msg_name'', CPtr), (''msg_namelen'', CInt 4),
     (''msg_iov'', CPtr), (''msg_iovlen'', CInt 8), (''msg_control'', CPtr),
     (''msg_controllen'', CInt 8), (''msg_flags'', CInt 4)]"

definition fred_cs_layout :: ctype where
  "fred_cs_layout = CStruct [(''cs'', CBits 8 16), (''sl'', CBits 8 2), (''wfe'', CBits 8 1)]"

definition fred_ss_layout :: ctype where
  "fred_ss_layout = CStruct [(''ss'', CBits 8 16), (''sti'', CBits 8 1),
     (''swevent'', CBits 8 1), (''nmi'', CBits 8 1), ('''', CPad 4 13), (''vector'', CBits 8 8),
     ('''', CPad 2 8), (''type'', CBits 8 4), ('''', CPad 1 4), (''enclave'', CBits 8 1),
     (''lm'', CBits 8 1), (''nested'', CBits 8 1), ('''', CPad 1 1), (''insnlen'', CBits 8 4)]"

definition pt_regs_layout :: ctype where
  "pt_regs_layout = CStruct [(''r15'', CInt 8), (''r14'', CInt 8), (''r13'', CInt 8),
     (''r12'', CInt 8), (''bp'', CInt 8), (''bx'', CInt 8), (''r11'', CInt 8),
     (''r10'', CInt 8), (''r9'', CInt 8), (''r8'', CInt 8), (''ax'', CInt 8), (''cx'', CInt 8),
     (''dx'', CInt 8), (''si'', CInt 8), (''di'', CInt 8), (''orig_ax'', CInt 8),
     (''ip'', CInt 8), ('''', CUnion [(''cs'', CInt 2), (''csx'', CInt 8),
     (''fred_cs'', fred_cs_layout)]), (''flags'', CInt 8), (''sp'', CInt 8),
     ('''', CUnion [(''ss'', CInt 2), (''ssx'', CInt 8), (''fred_ss'', fred_ss_layout)])]"

definition trace_entry_layout :: ctype where
  "trace_entry_layout = CStruct [(''type'', CInt 2), (''flags'', CInt 1),
     (''preempt_count'', CInt 1), (''pid'', CInt 4)]"

definition trace_event_raw_sys_enter_layout :: ctype where
  "trace_event_raw_sys_enter_layout = CStruct [(''ent'', trace_entry_layout), (''id'', CInt 8),
     (''args'', CArr (CInt 8) 6), (''__data'', CArr (CInt 1) 0)]"

definition trace_event_raw_sys_exit_layout :: ctype where
  "trace_event_raw_sys_exit_layout = CStruct [(''ent'', trace_entry_layout), (''id'', CInt 8),
     (''ret'', CInt 8), (''__data'', CArr (CInt 1) 0)]"

definition trace_event_raw_sched_process_fork_layout :: ctype where
  "trace_event_raw_sched_process_fork_layout = CStruct [(''ent'', trace_entry_layout),
     (''parent_comm'', CArr (CInt 1) 16), (''parent_pid'', CInt 4),
     (''child_comm'', CArr (CInt 1) 16), (''child_pid'', CInt 4),
     (''__data'', CArr (CInt 1) 0)]"

definition trace_event_raw_io_uring_submit_req_layout :: ctype where
  "trace_event_raw_io_uring_submit_req_layout = CStruct [(''ent'', trace_entry_layout),
     (''ctx'', CPtr), (''req'', CPtr), (''user_data'', CInt 8), (''opcode'', CInt 1),
     (''flags'', CInt 8), (''sq_thread'', CInt 1), (''__data_loc_op_str'', CInt 4),
     (''__data'', CArr (CInt 1) 0)]"

definition path_layout :: ctype where
  "path_layout = CStruct [(''mnt'', CPtr), (''dentry'', CPtr)]"

definition qstr_layout :: ctype where
  "qstr_layout = CStruct [('''', CUnion [('''', CStruct [(''hash'', CInt 4),
     (''len'', CInt 4)]), (''hash_len'', CInt 8)]), (''name'', CPtr)]"

definition seqcount_layout :: ctype where
  "seqcount_layout = CStruct [(''sequence'', CInt 4)]"

definition seqcount_spinlock_layout :: ctype where
  "seqcount_spinlock_layout = CStruct [(''seqcount'', seqcount_layout)]"

definition hlist_bl_node_layout :: ctype where
  "hlist_bl_node_layout = CStruct [(''next'', CPtr), (''pprev'', CPtr)]"

definition atomic_t_layout :: ctype where
  "atomic_t_layout = CStruct [(''counter'', CInt 4)]"

definition qspinlock_layout :: ctype where
  "qspinlock_layout = CStruct [('''', CUnion [(''val'', atomic_t_layout), ('''',
     CStruct [(''locked'', CInt 1), (''pending'', CInt 1)]), ('''',
     CStruct [(''locked_pending'', CInt 2), (''tail'', CInt 2)])])]"

definition raw_spinlock_layout :: ctype where
  "raw_spinlock_layout = CStruct [(''raw_lock'', qspinlock_layout)]"

definition spinlock_layout :: ctype where
  "spinlock_layout = CStruct [('''', CUnion [(''rlock'', raw_spinlock_layout)])]"

definition lockref_layout :: ctype where
  "lockref_layout = CStruct [('''', CUnion [(''lock_count'', CInt 8), ('''',
     CStruct [(''lock'', spinlock_layout), (''count'', CInt 4)])])]"

definition list_head_layout :: ctype where
  "list_head_layout = CStruct [(''next'', CPtr), (''prev'', CPtr)]"

definition hlist_node_layout :: ctype where
  "hlist_node_layout = CStruct [(''next'', CPtr), (''pprev'', CPtr)]"

definition hlist_head_layout :: ctype where
  "hlist_head_layout = CStruct [(''first'', CPtr)]"

definition callback_head_layout :: ctype where
  "callback_head_layout = CStruct [(''next'', CPtr), (''func'', CPtr)]"

definition dentry_layout :: ctype where
  "dentry_layout = CStruct [(''d_flags'', CInt 4), (''d_seq'', seqcount_spinlock_layout),
     (''d_hash'', hlist_bl_node_layout), (''d_parent'', CPtr), (''d_name'', qstr_layout),
     (''d_inode'', CPtr), (''d_iname'', CArr (CInt 1) 40), (''d_lockref'', lockref_layout),
     (''d_op'', CPtr), (''d_sb'', CPtr), (''d_time'', CInt 8), (''d_fsdata'', CPtr),
     ('''', CUnion [(''d_lru'', list_head_layout), (''d_wait'', CPtr)]),
     (''d_sib'', hlist_node_layout), (''d_children'', hlist_head_layout),
     (''d_u'', CUnion [(''d_alias'', hlist_node_layout),
     (''d_in_lookup_hash'', hlist_bl_node_layout), (''d_rcu'', callback_head_layout)])]"

definition kuid_t_layout :: ctype where
  "kuid_t_layout = CStruct [(''val'', CInt 4)]"

definition kgid_t_layout :: ctype where
  "kgid_t_layout = CStruct [(''val'', CInt 4)]"

definition timespec64_layout :: ctype where
  "timespec64_layout = CStruct [(''tv_sec'', CInt 8), (''tv_nsec'', CInt 8)]"

definition atomic64_t_layout :: ctype where
  "atomic64_t_layout = CStruct [(''counter'', CInt 8)]"

definition optimistic_spin_queue_layout :: ctype where
  "optimistic_spin_queue_layout = CStruct [(''tail'', atomic_t_layout)]"

definition rw_semaphore_layout :: ctype where
  "rw_semaphore_layout = CStruct [(''count'', atomic64_t_layout),
     (''owner'', atomic64_t_layout), (''osq'', optimistic_spin_queue_layout),
     (''wait_lock'', raw_spinlock_layout), (''wait_list'', list_head_layout)]"

definition xarray_layout :: ctype where
  "xarray_layout = CStruct [(''xa_lock'', spinlock_layout), (''xa_flags'', CInt 4),
     (''xa_head'', CPtr)]"

definition rb_root_layout :: ctype where
  "rb_root_layout = CStruct [(''rb_node'', CPtr)]"

definition rb_root_cached_layout :: ctype where
  "rb_root_cached_layout = CStruct [(''rb_root'', rb_root_layout), (''rb_leftmost'', CPtr)]"

definition address_space_layout :: ctype where
  "address_space_layout = CStruct [(''host'', CPtr), (''i_pages'', xarray_layout),
     (''invalidate_lock'', rw_semaphore_layout), (''gfp_mask'', CInt 4),
     (''i_mmap_writable'', atomic_t_layout), (''i_mmap'', rb_root_cached_layout),
     (''nrpages'', CInt 8), (''writeback_index'', CInt 8), (''a_ops'', CPtr),
     (''flags'', CInt 8), (''i_mmap_rwsem'', rw_semaphore_layout), (''wb_err'', CInt 4),
     (''i_private_lock'', spinlock_layout), (''i_private_list'', list_head_layout),
     (''i_private_data'', CPtr)]"

definition inode_layout :: ctype where
  "inode_layout = CStruct [(''i_mode'', CInt 2), (''i_opflags'', CInt 2),
     (''i_uid'', kuid_t_layout), (''i_lru'', list_head_layout), (''i_gid'', kgid_t_layout),
     (''i_flags'', CInt 4), (''i_acl'', CPtr), (''i_default_acl'', CPtr), (''i_op'', CPtr),
     (''i_sb'', CPtr), (''i_mapping'', CPtr), (''i_security'', CPtr), (''i_ino'', CInt 8),
     ('''', CUnion [(''i_nlink'', CInt 4), (''__i_nlink'', CInt 4)]), (''i_rdev'', CInt 4),
     (''i_size'', CInt 8), (''__i_atime'', timespec64_layout),
     (''__i_mtime'', timespec64_layout), (''__i_ctime'', timespec64_layout),
     (''i_lock'', spinlock_layout), (''i_bytes'', CInt 2), (''i_blkbits'', CInt 1),
     (''i_write_hint'', CInt 1), (''i_blocks'', CInt 8), (''i_state'', CInt 8),
     (''i_rwsem'', rw_semaphore_layout), (''dirtied_when'', CInt 8),
     (''dirtied_time_when'', CInt 8), (''i_hash'', hlist_node_layout),
     (''i_io_list'', list_head_layout), (''i_wb'', CPtr), (''i_wb_frn_winner'', CInt 4),
     (''i_wb_frn_avg_time'', CInt 2), (''i_wb_frn_history'', CInt 2),
     (''i_sb_list'', list_head_layout), (''i_wb_list'', list_head_layout),
     ('''', CUnion [(''i_dentry'', hlist_head_layout), (''i_rcu'', callback_head_layout)]),
     (''i_version'', atomic64_t_layout), (''i_sequence'', atomic64_t_layout),
     (''i_count'', atomic_t_layout), (''i_dio_count'', atomic_t_layout),
     (''i_writecount'', atomic_t_layout), (''i_readcount'', atomic_t_layout),
     ('''', CUnion [(''i_fop'', CPtr), (''free_inode'', CPtr)]), (''i_flctx'', CPtr),
     (''i_data'', address_space_layout), (''i_devices'', list_head_layout),
     ('''', CUnion [(''i_pipe'', CPtr), (''i_cdev'', CPtr), (''i_link'', CPtr),
     (''i_dir_seq'', CInt 4)]), (''i_generation'', CInt 4), (''i_fsnotify_mask'', CInt 4),
     (''i_fsnotify_marks'', CPtr), (''i_crypt_info'', CPtr), (''i_verity_info'', CPtr),
     (''i_private'', CPtr)]"

definition llist_node_layout :: ctype where
  "llist_node_layout = CStruct [(''next'', CPtr)]"

definition mutex_layout :: ctype where
  "mutex_layout = CStruct [(''owner'', atomic64_t_layout), (''wait_lock'', raw_spinlock_layout),
     (''osq'', optimistic_spin_queue_layout), (''wait_list'', list_head_layout)]"

definition qrwlock_layout :: ctype where
  "qrwlock_layout = CStruct [('''', CUnion [(''cnts'', atomic_t_layout), ('''',
     CStruct [(''wlocked'', CInt 1), (''__lstate'', CArr (CInt 1) 3)])]),
     (''wait_lock'', qspinlock_layout)]"

definition rwlock_t_layout :: ctype where
  "rwlock_t_layout = CStruct [(''raw_lock'', qrwlock_layout)]"

definition fown_struct_layout :: ctype where
  "fown_struct_layout = CStruct [(''lock'', rwlock_t_layout), (''pid'', CPtr),
     (''pid_type'', CInt 4), (''uid'', kuid_t_layout), (''euid'', kuid_t_layout),
     (''signum'', CInt 4)]"

definition file_ra_state_layout :: ctype where
  "file_ra_state_layout = CStruct [(''start'', CInt 8), (''size'', CInt 4),
     (''async_size'', CInt 4), (''ra_pages'', CInt 4), (''mmap_miss'', CInt 4),
     (''prev_pos'', CInt 8)]"

definition file_layout :: ctype where
  "file_layout = CStruct [('''', CUnion [(''f_task_work'', callback_head_layout),
     (''f_llist'', llist_node_layout), (''f_iocb_flags'', CInt 4)]),
     (''f_lock'', spinlock_layout), (''f_mode'', CInt 4), (''f_count'', atomic64_t_layout),
     (''f_pos_lock'', mutex_layout), (''f_pos'', CInt 8), (''f_flags'', CInt 4),
     (''f_owner'', fown_struct_layout), (''f_cred'', CPtr), (''f_ra'', file_ra_state_layout),
     (''f_path'', path_layout), (''f_inode'', CPtr), (''f_op'', CPtr), (''f_version'', CInt 8),
     (''f_security'', CPtr), (''private_data'', CPtr), (''f_ep'', CPtr), (''f_mapping'', CPtr),
     (''f_wb_err'', CInt 4), (''f_sb_err'', CInt 4)]"

definition rlimit_layout :: ctype where
  "rlimit_layout = CStruct [(''rlim_cur'', CInt 8), (''rlim_max'', CInt 8)]"

definition linux_binprm_layout :: ctype where
  "linux_binprm_layout = CStruct [(''vma'', CPtr), (''vma_pages'', CInt 8), (''mm'', CPtr),
     (''p'', CInt 8), (''argmin'', CInt 8), (''have_execfd'', CBits 4 1),
     (''execfd_creds'', CBits 4 1), (''secureexec'', CBits 4 1),
     (''point_of_no_return'', CBits 4 1), (''comm_from_dentry'', CBits 4 1),
     (''executable'', CPtr), (''interpreter'', CPtr), (''file'', CPtr), (''cred'', CPtr),
     (''unsafe'', CInt 4), (''per_clear'', CInt 4), (''argc'', CInt 4), (''envc'', CInt 4),
     (''filename'', CPtr), (''interp'', CPtr), (''fdpath'', CPtr), (''interp_flags'', CInt 4),
     (''execfd'', CInt 4), (''loader'', CInt 8), (''exec'', CInt 8),
     (''rlim_stack'', rlimit_layout), (''buf'', CArr (CInt 1) 256)]"

definition thread_info_layout :: ctype where
  "thread_info_layout = CStruct [(''flags'', CInt 8), (''syscall_work'', CInt 8),
     (''status'', CInt 4), (''cpu'', CInt 4)]"

definition refcount_struct_layout :: ctype where
  "refcount_struct_layout = CStruct [(''refs'', atomic_t_layout)]"

definition call_single_node_layout :: ctype where
  "call_single_node_layout = CStruct [(''llist'', llist_node_layout),
     ('''', CUnion [(''u_flags'', CInt 4), (''a_flags'', atomic_t_layout)]), (''src'', CInt 2),
     (''dst'', CInt 2)]"

definition load_weight_layout :: ctype where
  "load_weight_layout = CStruct [(''weight'', CInt 8), (''inv_weight'', CInt 4)]"

definition rb_node_layout :: ctype where
  "rb_node_layout = CStruct [(''__rb_parent_color'', CInt 8), (''rb_right'', CPtr),
     (''rb_left'', CPtr)]"

definition sched_avg_layout :: ctype where
  "sched_avg_layout = CStruct [(''last_update_time'', CInt 8), (''load_sum'', CInt 8),
     (''runnable_sum'', CInt 8), (''util_sum'', CInt 4), (''period_contrib'', CInt 4),
     (''load_avg'', CInt 8), (''runnable_avg'', CInt 8), (''util_avg'', CInt 8),
     (''util_est'', CInt 4)]"

definition sched_entity_layout :: ctype where
  "sched_entity_layout = CStruct [(''load'', load_weight_layout),
     (''run_node'', rb_node_layout), (''deadline'', CInt 8), (''min_vruntime'', CInt 8),
     (''group_node'', list_head_layout), (''on_rq'', CInt 4), (''exec_start'', CInt 8),
     (''sum_exec_runtime'', CInt 8), (''prev_sum_exec_runtime'', CInt 8),
     (''vruntime'', CInt 8), (''vlag'', CInt 8), (''slice'', CInt 8),
     (''nr_migrations'', CInt 8), (''depth'', CInt 4), (''parent'', CPtr), (''cfs_rq'', CPtr),
     (''my_q'', CPtr), (''runnable_weight'', CInt 8), ('''', CPad 8 64), ('''', CPad 8 64),
     (''avg'', sched_avg_layout)]"

definition sched_rt_entity_layout :: ctype where
  "sched_rt_entity_layout = CStruct [(''run_list'', list_head_layout), (''timeout'', CInt 8),
     (''watchdog_stamp'', CInt 8), (''time_slice'', CInt 4), (''on_rq'', CInt 2),
     (''on_list'', CInt 2), (''back'', CPtr)]"

definition timerqueue_node_layout :: ctype where
  "timerqueue_node_layout = CStruct [(''node'', rb_node_layout), (''expires'', CInt 8)]"

definition hrtimer_layout :: ctype where
  "hrtimer_layout = CStruct [(''node'', timerqueue_node_layout), (''_softexpires'', CInt 8),
     (''function'', CPtr), (''base'', CPtr), (''state'', CInt 1), (''is_rel'', CInt 1),
     (''is_soft'', CInt 1), (''is_hard'', CInt 1)]"

definition sched_dl_entity_layout :: ctype where
  "sched_dl_entity_layout = CStruct [(''rb_node'', rb_node_layout), (''dl_runtime'', CInt 8),
     (''dl_deadline'', CInt 8), (''dl_period'', CInt 8), (''dl_bw'', CInt 8),
     (''dl_density'', CInt 8), (''runtime'', CInt 8), (''deadline'', CInt 8),
     (''flags'', CInt 4), (''dl_throttled'', CBits 4 1), (''dl_yielded'', CBits 4 1),
     (''dl_non_contending'', CBits 4 1), (''dl_overrun'', CBits 4 1),
     (''dl_server'', CBits 4 1), (''dl_timer'', hrtimer_layout),
     (''inactive_timer'', hrtimer_layout), (''rq'', CPtr), (''server_has_tasks'', CPtr),
     (''server_pick'', CPtr), (''pi_se'', CPtr)]"

definition uclamp_se_layout :: ctype where
  "uclamp_se_layout = CStruct [(''value'', CBits 4 11), (''bucket_id'', CBits 4 3),
     (''active'', CBits 4 1), (''user_defined'', CBits 4 1)]"

definition sched_statistics_layout :: ctype where
  "sched_statistics_layout = CStruct [(''wait_start'', CInt 8), (''wait_max'', CInt 8),
     (''wait_count'', CInt 8), (''wait_sum'', CInt 8), (''iowait_count'', CInt 8),
     (''iowait_sum'', CInt 8), (''sleep_start'', CInt 8), (''sleep_max'', CInt 8),
     (''sum_sleep_runtime'', CInt 8), (''block_start'', CInt 8), (''block_max'', CInt 8),
     (''sum_block_runtime'', CInt 8), (''exec_max'', CInt 8), (''slice_max'', CInt 8),
     (''nr_migrations_cold'', CInt 8), (''nr_failed_migrations_affine'', CInt 8),
     (''nr_failed_migrations_running'', CInt 8), (''nr_failed_migrations_hot'', CInt 8),
     (''nr_forced_migrations'', CInt 8), (''nr_wakeups'', CInt 8),
     (''nr_wakeups_sync'', CInt 8), (''nr_wakeups_migrate'', CInt 8),
     (''nr_wakeups_local'', CInt 8), (''nr_wakeups_remote'', CInt 8),
     (''nr_wakeups_affine'', CInt 8), (''nr_wakeups_affine_attempts'', CInt 8),
     (''nr_wakeups_passive'', CInt 8), (''nr_wakeups_idle'', CInt 8),
     (''core_forceidle_sum'', CInt 8), ('''', CPad 8 64), ('''', CPad 8 64), ('''', CPad 8 64)]"

definition cpumask_layout :: ctype where
  "cpumask_layout = CStruct [(''bits'', CArr (CInt 8) 128)]"

definition rcu_special_layout :: ctype where
  "rcu_special_layout = CUnion [(''b'', CStruct [(''blocked'', CInt 1), (''need_qs'', CInt 1),
     (''exp_hint'', CInt 1), (''need_mb'', CInt 1)]), (''s'', CInt 4)]"

definition sched_info_layout :: ctype where
  "sched_info_layout = CStruct [(''pcount'', CInt 8), (''run_delay'', CInt 8),
     (''last_arrival'', CInt 8), (''last_queued'', CInt 8)]"

definition plist_node_layout :: ctype where
  "plist_node_layout = CStruct [(''prio'', CInt 4), (''prio_list'', list_head_layout),
     (''node_list'', list_head_layout)]"

definition restart_block_layout :: ctype where
  "restart_block_layout = CStruct [(''arch_data'', CInt 8), (''fn'', CPtr),
     ('''', CUnion [(''futex'', CStruct [(''uaddr'', CPtr), (''val'', CInt 4),
     (''flags'', CInt 4), (''bitset'', CInt 4), (''time'', CInt 8), (''uaddr2'', CPtr)]),
     (''nanosleep'', CStruct [(''clockid'', CInt 4), (''type'', CInt 4),
     ('''', CUnion [(''rmtp'', CPtr), (''compat_rmtp'', CPtr)]), (''expires'', CInt 8)]),
     (''poll'', CStruct [(''ufds'', CPtr), (''nfds'', CInt 4), (''has_timeout'', CInt 4),
     (''tv_sec'', CInt 8), (''tv_nsec'', CInt 8)])])]"

definition task_struct_head_layout :: ctype where
  "task_struct_head_layout = CStruct [(''thread_info'', thread_info_layout),
     (''__state'', CInt 4), (''saved_state'', CInt 4), (''stack'', CPtr),
     (''usage'', refcount_struct_layout), (''flags'', CInt 4), (''ptrace'', CInt 4),
     (''on_cpu'', CInt 4), (''wake_entry'', call_single_node_layout), (''wakee_flips'', CInt 4),
     (''wakee_flip_decay_ts'', CInt 8), (''last_wakee'', CPtr), (''recent_used_cpu'', CInt 4),
     (''wake_cpu'', CInt 4), (''on_rq'', CInt 4), (''prio'', CInt 4), (''static_prio'', CInt 4),
     (''normal_prio'', CInt 4), (''rt_priority'', CInt 4), (''se'', sched_entity_layout),
     (''rt'', sched_rt_entity_layout), (''dl'', sched_dl_entity_layout), (''dl_server'', CPtr),
     (''sched_class'', CPtr), (''core_node'', rb_node_layout), (''core_cookie'', CInt 8),
     (''core_occupation'', CInt 4), (''sched_task_group'', CPtr),
     (''uclamp_req'', CArr uclamp_se_layout 2), (''uclamp'', CArr uclamp_se_layout 2),
     ('''', CPad 8 64), (''stats'', sched_statistics_layout),
     (''preempt_notifiers'', hlist_head_layout), (''btrace_seq'', CInt 4), (''policy'', CInt 4),
     (''nr_cpus_allowed'', CInt 4), (''cpus_ptr'', CPtr), (''user_cpus_ptr'', CPtr),
     (''cpus_mask'', cpumask_layout), (''migration_pending'', CPtr),
     (''migration_disabled'', CInt 2), (''migration_flags'', CInt 2),
     (''rcu_read_lock_nesting'', CInt 4), (''rcu_read_unlock_special'', rcu_special_layout),
     (''rcu_node_entry'', list_head_layout), (''rcu_blocked_node'', CPtr),
     (''rcu_tasks_nvcsw'', CInt 8), (''rcu_tasks_holdout'', CInt 1),
     (''rcu_tasks_idx'', CInt 1), (''rcu_tasks_idle_cpu'', CInt 4),
     (''rcu_tasks_holdout_list'', list_head_layout), (''rcu_tasks_exit_cpu'', CInt 4),
     (''rcu_tasks_exit_list'', list_head_layout), (''trc_reader_nesting'', CInt 4),
     (''trc_ipi_to_cpu'', CInt 4), (''trc_reader_special'', rcu_special_layout),
     (''trc_holdout_list'', list_head_layout), (''trc_blkd_node'', list_head_layout),
     (''trc_blkd_cpu'', CInt 4), (''sched_info'', sched_info_layout),
     (''tasks'', list_head_layout), (''pushable_tasks'', plist_node_layout),
     (''pushable_dl_tasks'', rb_node_layout), (''mm'', CPtr), (''active_mm'', CPtr),
     (''faults_disabled_mapping'', CPtr), (''exit_state'', CInt 4), (''exit_code'', CInt 4),
     (''exit_signal'', CInt 4), (''pdeath_signal'', CInt 4), (''jobctl'', CInt 8),
     (''personality'', CInt 4), (''sched_reset_on_fork'', CBits 4 1),
     (''sched_contributes_to_load'', CBits 4 1), (''sched_migrated'', CBits 4 1),
     (''sched_task_hot'', CBits 4 1), ('''', CPad 8 28), (''sched_remote_wakeup'', CBits 4 1),
     (''sched_rt_mutex'', CBits 4 1), (''user_dumpable'', CBits 4 1),
     (''in_execve'', CBits 4 1), (''in_iowait'', CBits 4 1), (''restore_sigmask'', CBits 4 1),
     (''in_user_fault'', CBits 4 1), (''in_lru_fault'', CBits 4 1),
     (''no_cgroup_migration'', CBits 4 1), (''frozen'', CBits 4 1),
     (''use_memdelay'', CBits 4 1), (''in_memstall'', CBits 4 1), (''in_eventfd'', CBits 4 1),
     (''pasid_activated'', CBits 4 1), (''reported_split_lock'', CBits 4 1),
     (''in_thrashing'', CBits 4 1), (''atomic_flags'', CInt 8),
     (''restart_block'', restart_block_layout), (''pid'', CInt 4), (''tgid'', CInt 4),
     (''stack_canary'', CInt 8), (''real_parent'', CPtr)]"

section \<open>Sizes and alignments\<close>

lemma sockaddr_dims [ak_layout]:
  "calign sockaddr_layout = 2" "cwidth sockaddr_layout = 128" "sized sockaddr_layout"
  "\<not> bitfield sockaddr_layout"
  by (simp_all add: sockaddr_layout_def ak_layout)

lemma in_addr_dims [ak_layout]:
  "calign in_addr_layout = 4" "cwidth in_addr_layout = 32" "sized in_addr_layout"
  "\<not> bitfield in_addr_layout"
  by (simp_all add: in_addr_layout_def ak_layout)

lemma sockaddr_in_dims [ak_layout]:
  "calign sockaddr_in_layout = 4" "cwidth sockaddr_in_layout = 128" "sized sockaddr_in_layout"
  "\<not> bitfield sockaddr_in_layout"
  by (simp_all add: sockaddr_in_layout_def ak_layout)

lemma in6_addr_dims [ak_layout]:
  "calign in6_addr_layout = 4" "cwidth in6_addr_layout = 128" "sized in6_addr_layout"
  "\<not> bitfield in6_addr_layout"
  by (simp_all add: in6_addr_layout_def ak_layout)

lemma sockaddr_in6_dims [ak_layout]:
  "calign sockaddr_in6_layout = 4" "cwidth sockaddr_in6_layout = 224" "sized sockaddr_in6_layout"
  "\<not> bitfield sockaddr_in6_layout"
  by (simp_all add: sockaddr_in6_layout_def ak_layout)

lemma iovec_dims [ak_layout]:
  "calign iovec_layout = 8" "cwidth iovec_layout = 128" "sized iovec_layout"
  "\<not> bitfield iovec_layout"
  by (simp_all add: iovec_layout_def ak_layout)

lemma user_msghdr_dims [ak_layout]:
  "calign user_msghdr_layout = 8" "cwidth user_msghdr_layout = 448" "sized user_msghdr_layout"
  "\<not> bitfield user_msghdr_layout"
  by (simp_all add: user_msghdr_layout_def ak_layout)

lemma fred_cs_dims [ak_layout]:
  "calign fred_cs_layout = 8" "cwidth fred_cs_layout = 64" "sized fred_cs_layout"
  "\<not> bitfield fred_cs_layout"
  by (simp_all add: fred_cs_layout_def ak_layout)

lemma fred_ss_dims [ak_layout]:
  "calign fred_ss_layout = 8" "cwidth fred_ss_layout = 64" "sized fred_ss_layout"
  "\<not> bitfield fred_ss_layout"
  by (simp_all add: fred_ss_layout_def ak_layout)

lemma pt_regs_dims [ak_layout]:
  "calign pt_regs_layout = 8" "cwidth pt_regs_layout = 1344" "sized pt_regs_layout"
  "\<not> bitfield pt_regs_layout"
  by (simp_all add: pt_regs_layout_def ak_layout)

lemma trace_entry_dims [ak_layout]:
  "calign trace_entry_layout = 4" "cwidth trace_entry_layout = 64" "sized trace_entry_layout"
  "\<not> bitfield trace_entry_layout"
  by (simp_all add: trace_entry_layout_def ak_layout)

lemma trace_event_raw_sys_enter_dims [ak_layout]:
  "calign trace_event_raw_sys_enter_layout = 8" "cwidth trace_event_raw_sys_enter_layout = 512" "sized trace_event_raw_sys_enter_layout"
  "\<not> bitfield trace_event_raw_sys_enter_layout"
  by (simp_all add: trace_event_raw_sys_enter_layout_def ak_layout)

lemma trace_event_raw_sys_exit_dims [ak_layout]:
  "calign trace_event_raw_sys_exit_layout = 8" "cwidth trace_event_raw_sys_exit_layout = 192" "sized trace_event_raw_sys_exit_layout"
  "\<not> bitfield trace_event_raw_sys_exit_layout"
  by (simp_all add: trace_event_raw_sys_exit_layout_def ak_layout)

lemma trace_event_raw_sched_process_fork_dims [ak_layout]:
  "calign trace_event_raw_sched_process_fork_layout = 4" "cwidth trace_event_raw_sched_process_fork_layout = 384" "sized trace_event_raw_sched_process_fork_layout"
  "\<not> bitfield trace_event_raw_sched_process_fork_layout"
  by (simp_all add: trace_event_raw_sched_process_fork_layout_def ak_layout)

lemma trace_event_raw_io_uring_submit_req_dims [ak_layout]:
  "calign trace_event_raw_io_uring_submit_req_layout = 8" "cwidth trace_event_raw_io_uring_submit_req_layout = 448" "sized trace_event_raw_io_uring_submit_req_layout"
  "\<not> bitfield trace_event_raw_io_uring_submit_req_layout"
  by (simp_all add: trace_event_raw_io_uring_submit_req_layout_def ak_layout)

lemma path_dims [ak_layout]:
  "calign path_layout = 8" "cwidth path_layout = 128" "sized path_layout"
  "\<not> bitfield path_layout"
  by (simp_all add: path_layout_def ak_layout)

lemma qstr_dims [ak_layout]:
  "calign qstr_layout = 8" "cwidth qstr_layout = 128" "sized qstr_layout"
  "\<not> bitfield qstr_layout"
  by (simp_all add: qstr_layout_def ak_layout)

lemma seqcount_dims [ak_layout]:
  "calign seqcount_layout = 4" "cwidth seqcount_layout = 32" "sized seqcount_layout"
  "\<not> bitfield seqcount_layout"
  by (simp_all add: seqcount_layout_def ak_layout)

lemma seqcount_spinlock_dims [ak_layout]:
  "calign seqcount_spinlock_layout = 4" "cwidth seqcount_spinlock_layout = 32" "sized seqcount_spinlock_layout"
  "\<not> bitfield seqcount_spinlock_layout"
  by (simp_all add: seqcount_spinlock_layout_def ak_layout)

lemma hlist_bl_node_dims [ak_layout]:
  "calign hlist_bl_node_layout = 8" "cwidth hlist_bl_node_layout = 128" "sized hlist_bl_node_layout"
  "\<not> bitfield hlist_bl_node_layout"
  by (simp_all add: hlist_bl_node_layout_def ak_layout)

lemma atomic_t_dims [ak_layout]:
  "calign atomic_t_layout = 4" "cwidth atomic_t_layout = 32" "sized atomic_t_layout"
  "\<not> bitfield atomic_t_layout"
  by (simp_all add: atomic_t_layout_def ak_layout)

lemma qspinlock_dims [ak_layout]:
  "calign qspinlock_layout = 4" "cwidth qspinlock_layout = 32" "sized qspinlock_layout"
  "\<not> bitfield qspinlock_layout"
  by (simp_all add: qspinlock_layout_def ak_layout)

lemma raw_spinlock_dims [ak_layout]:
  "calign raw_spinlock_layout = 4" "cwidth raw_spinlock_layout = 32" "sized raw_spinlock_layout"
  "\<not> bitfield raw_spinlock_layout"
  by (simp_all add: raw_spinlock_layout_def ak_layout)

lemma spinlock_dims [ak_layout]:
  "calign spinlock_layout = 4" "cwidth spinlock_layout = 32" "sized spinlock_layout"
  "\<not> bitfield spinlock_layout"
  by (simp_all add: spinlock_layout_def ak_layout)

lemma lockref_dims [ak_layout]:
  "calign lockref_layout = 8" "cwidth lockref_layout = 64" "sized lockref_layout"
  "\<not> bitfield lockref_layout"
  by (simp_all add: lockref_layout_def ak_layout)

lemma list_head_dims [ak_layout]:
  "calign list_head_layout = 8" "cwidth list_head_layout = 128" "sized list_head_layout"
  "\<not> bitfield list_head_layout"
  by (simp_all add: list_head_layout_def ak_layout)

lemma hlist_node_dims [ak_layout]:
  "calign hlist_node_layout = 8" "cwidth hlist_node_layout = 128" "sized hlist_node_layout"
  "\<not> bitfield hlist_node_layout"
  by (simp_all add: hlist_node_layout_def ak_layout)

lemma hlist_head_dims [ak_layout]:
  "calign hlist_head_layout = 8" "cwidth hlist_head_layout = 64" "sized hlist_head_layout"
  "\<not> bitfield hlist_head_layout"
  by (simp_all add: hlist_head_layout_def ak_layout)

lemma callback_head_dims [ak_layout]:
  "calign callback_head_layout = 8" "cwidth callback_head_layout = 128" "sized callback_head_layout"
  "\<not> bitfield callback_head_layout"
  by (simp_all add: callback_head_layout_def ak_layout)

lemma dentry_dims [ak_layout]:
  "calign dentry_layout = 8" "cwidth dentry_layout = 1536" "sized dentry_layout"
  "\<not> bitfield dentry_layout"
  by (simp_all add: dentry_layout_def ak_layout)

lemma kuid_t_dims [ak_layout]:
  "calign kuid_t_layout = 4" "cwidth kuid_t_layout = 32" "sized kuid_t_layout"
  "\<not> bitfield kuid_t_layout"
  by (simp_all add: kuid_t_layout_def ak_layout)

lemma kgid_t_dims [ak_layout]:
  "calign kgid_t_layout = 4" "cwidth kgid_t_layout = 32" "sized kgid_t_layout"
  "\<not> bitfield kgid_t_layout"
  by (simp_all add: kgid_t_layout_def ak_layout)

lemma timespec64_dims [ak_layout]:
  "calign timespec64_layout = 8" "cwidth timespec64_layout = 128" "sized timespec64_layout"
  "\<not> bitfield timespec64_layout"
  by (simp_all add: timespec64_layout_def ak_layout)

lemma atomic64_t_dims [ak_layout]:
  "calign atomic64_t_layout = 8" "cwidth atomic64_t_layout = 64" "sized atomic64_t_layout"
  "\<not> bitfield atomic64_t_layout"
  by (simp_all add: atomic64_t_layout_def ak_layout)

lemma optimistic_spin_queue_dims [ak_layout]:
  "calign optimistic_spin_queue_layout = 4" "cwidth optimistic_spin_queue_layout = 32" "sized optimistic_spin_queue_layout"
  "\<not> bitfield optimistic_spin_queue_layout"
  by (simp_all add: optimistic_spin_queue_layout_def ak_layout)

lemma rw_semaphore_dims [ak_layout]:
  "calign rw_semaphore_layout = 8" "cwidth rw_semaphore_layout = 320" "sized rw_semaphore_layout"
  "\<not> bitfield rw_semaphore_layout"
  by (simp_all add: rw_semaphore_layout_def ak_layout)

lemma xarray_dims [ak_layout]:
  "calign xarray_layout = 8" "cwidth xarray_layout = 128" "sized xarray_layout"
  "\<not> bitfield xarray_layout"
  by (simp_all add: xarray_layout_def ak_layout)

lemma rb_root_dims [ak_layout]:
  "calign rb_root_layout = 8" "cwidth rb_root_layout = 64" "sized rb_root_layout"
  "\<not> bitfield rb_root_layout"
  by (simp_all add: rb_root_layout_def ak_layout)

lemma rb_root_cached_dims [ak_layout]:
  "calign rb_root_cached_layout = 8" "cwidth rb_root_cached_layout = 128" "sized rb_root_cached_layout"
  "\<not> bitfield rb_root_cached_layout"
  by (simp_all add: rb_root_cached_layout_def ak_layout)

lemma address_space_dims [ak_layout]:
  "calign address_space_layout = 8" "cwidth address_space_layout = 1536" "sized address_space_layout"
  "\<not> bitfield address_space_layout"
  by (simp_all add: address_space_layout_def ak_layout)

lemma inode_dims [ak_layout]:
  "calign inode_layout = 8" "cwidth inode_layout = 5056" "sized inode_layout"
  "\<not> bitfield inode_layout"
  by (simp_all add: inode_layout_def ak_layout)

lemma llist_node_dims [ak_layout]:
  "calign llist_node_layout = 8" "cwidth llist_node_layout = 64" "sized llist_node_layout"
  "\<not> bitfield llist_node_layout"
  by (simp_all add: llist_node_layout_def ak_layout)

lemma mutex_dims [ak_layout]:
  "calign mutex_layout = 8" "cwidth mutex_layout = 256" "sized mutex_layout"
  "\<not> bitfield mutex_layout"
  by (simp_all add: mutex_layout_def ak_layout)

lemma qrwlock_dims [ak_layout]:
  "calign qrwlock_layout = 4" "cwidth qrwlock_layout = 64" "sized qrwlock_layout"
  "\<not> bitfield qrwlock_layout"
  by (simp_all add: qrwlock_layout_def ak_layout)

lemma rwlock_t_dims [ak_layout]:
  "calign rwlock_t_layout = 4" "cwidth rwlock_t_layout = 64" "sized rwlock_t_layout"
  "\<not> bitfield rwlock_t_layout"
  by (simp_all add: rwlock_t_layout_def ak_layout)

lemma fown_struct_dims [ak_layout]:
  "calign fown_struct_layout = 8" "cwidth fown_struct_layout = 256" "sized fown_struct_layout"
  "\<not> bitfield fown_struct_layout"
  by (simp_all add: fown_struct_layout_def ak_layout)

lemma file_ra_state_dims [ak_layout]:
  "calign file_ra_state_layout = 8" "cwidth file_ra_state_layout = 256" "sized file_ra_state_layout"
  "\<not> bitfield file_ra_state_layout"
  by (simp_all add: file_ra_state_layout_def ak_layout)

lemma file_dims [ak_layout]:
  "calign file_layout = 8" "cwidth file_layout = 1856" "sized file_layout"
  "\<not> bitfield file_layout"
  by (simp_all add: file_layout_def ak_layout)

lemma rlimit_dims [ak_layout]:
  "calign rlimit_layout = 8" "cwidth rlimit_layout = 128" "sized rlimit_layout"
  "\<not> bitfield rlimit_layout"
  by (simp_all add: rlimit_layout_def ak_layout)

lemma linux_binprm_dims [ak_layout]:
  "calign linux_binprm_layout = 8" "cwidth linux_binprm_layout = 3328" "sized linux_binprm_layout"
  "\<not> bitfield linux_binprm_layout"
  by (simp_all add: linux_binprm_layout_def ak_layout)

lemma thread_info_dims [ak_layout]:
  "calign thread_info_layout = 8" "cwidth thread_info_layout = 192" "sized thread_info_layout"
  "\<not> bitfield thread_info_layout"
  by (simp_all add: thread_info_layout_def ak_layout)

lemma refcount_struct_dims [ak_layout]:
  "calign refcount_struct_layout = 4" "cwidth refcount_struct_layout = 32" "sized refcount_struct_layout"
  "\<not> bitfield refcount_struct_layout"
  by (simp_all add: refcount_struct_layout_def ak_layout)

lemma call_single_node_dims [ak_layout]:
  "calign call_single_node_layout = 8" "cwidth call_single_node_layout = 128" "sized call_single_node_layout"
  "\<not> bitfield call_single_node_layout"
  by (simp_all add: call_single_node_layout_def ak_layout)

lemma load_weight_dims [ak_layout]:
  "calign load_weight_layout = 8" "cwidth load_weight_layout = 128" "sized load_weight_layout"
  "\<not> bitfield load_weight_layout"
  by (simp_all add: load_weight_layout_def ak_layout)

lemma rb_node_dims [ak_layout]:
  "calign rb_node_layout = 8" "cwidth rb_node_layout = 192" "sized rb_node_layout"
  "\<not> bitfield rb_node_layout"
  by (simp_all add: rb_node_layout_def ak_layout)

lemma sched_avg_dims [ak_layout]:
  "calign sched_avg_layout = 8" "cwidth sched_avg_layout = 512" "sized sched_avg_layout"
  "\<not> bitfield sched_avg_layout"
  by (simp_all add: sched_avg_layout_def ak_layout)

lemma sched_entity_dims [ak_layout]:
  "calign sched_entity_layout = 8" "cwidth sched_entity_layout = 2048" "sized sched_entity_layout"
  "\<not> bitfield sched_entity_layout"
  by (simp_all add: sched_entity_layout_def ak_layout)

lemma sched_rt_entity_dims [ak_layout]:
  "calign sched_rt_entity_layout = 8" "cwidth sched_rt_entity_layout = 384" "sized sched_rt_entity_layout"
  "\<not> bitfield sched_rt_entity_layout"
  by (simp_all add: sched_rt_entity_layout_def ak_layout)

lemma timerqueue_node_dims [ak_layout]:
  "calign timerqueue_node_layout = 8" "cwidth timerqueue_node_layout = 256" "sized timerqueue_node_layout"
  "\<not> bitfield timerqueue_node_layout"
  by (simp_all add: timerqueue_node_layout_def ak_layout)

lemma hrtimer_dims [ak_layout]:
  "calign hrtimer_layout = 8" "cwidth hrtimer_layout = 512" "sized hrtimer_layout"
  "\<not> bitfield hrtimer_layout"
  by (simp_all add: hrtimer_layout_def ak_layout)

lemma sched_dl_entity_dims [ak_layout]:
  "calign sched_dl_entity_layout = 8" "cwidth sched_dl_entity_layout = 1984" "sized sched_dl_entity_layout"
  "\<not> bitfield sched_dl_entity_layout"
  by (simp_all add: sched_dl_entity_layout_def ak_layout)

lemma uclamp_se_dims [ak_layout]:
  "calign uclamp_se_layout = 4" "cwidth uclamp_se_layout = 32" "sized uclamp_se_layout"
  "\<not> bitfield uclamp_se_layout"
  by (simp_all add: uclamp_se_layout_def ak_layout)

lemma sched_statistics_dims [ak_layout]:
  "calign sched_statistics_layout = 8" "cwidth sched_statistics_layout = 2048" "sized sched_statistics_layout"
  "\<not> bitfield sched_statistics_layout"
  by (simp_all add: sched_statistics_layout_def ak_layout)

lemma cpumask_dims [ak_layout]:
  "calign cpumask_layout = 8" "cwidth cpumask_layout = 8192" "sized cpumask_layout"
  "\<not> bitfield cpumask_layout"
  by (simp_all add: cpumask_layout_def ak_layout)

lemma rcu_special_dims [ak_layout]:
  "calign rcu_special_layout = 4" "cwidth rcu_special_layout = 32" "sized rcu_special_layout"
  "\<not> bitfield rcu_special_layout"
  by (simp_all add: rcu_special_layout_def ak_layout)

lemma sched_info_dims [ak_layout]:
  "calign sched_info_layout = 8" "cwidth sched_info_layout = 256" "sized sched_info_layout"
  "\<not> bitfield sched_info_layout"
  by (simp_all add: sched_info_layout_def ak_layout)

lemma plist_node_dims [ak_layout]:
  "calign plist_node_layout = 8" "cwidth plist_node_layout = 320" "sized plist_node_layout"
  "\<not> bitfield plist_node_layout"
  by (simp_all add: plist_node_layout_def ak_layout)

lemma restart_block_dims [ak_layout]:
  "calign restart_block_layout = 8" "cwidth restart_block_layout = 448" "sized restart_block_layout"
  "\<not> bitfield restart_block_layout"
  by (simp_all add: restart_block_layout_def ak_layout)

lemma task_struct_head_dims [ak_layout]:
  "calign task_struct_head_layout = 8" "cwidth task_struct_head_layout = 20096" "sized task_struct_head_layout"
  "\<not> bitfield task_struct_head_layout"
  by (simp_all add: task_struct_head_layout_def ak_layout)

section \<open>Opcodes of io-uring\<close>

definition io_uring_op :: "(string \<times> nat) list" where
  "io_uring_op = [(''IORING_OP_NOP'', 0), (''IORING_OP_READV'', 1), (''IORING_OP_WRITEV'', 2),
     (''IORING_OP_FSYNC'', 3), (''IORING_OP_READ_FIXED'', 4), (''IORING_OP_WRITE_FIXED'', 5),
     (''IORING_OP_POLL_ADD'', 6), (''IORING_OP_POLL_REMOVE'', 7),
     (''IORING_OP_SYNC_FILE_RANGE'', 8), (''IORING_OP_SENDMSG'', 9),
     (''IORING_OP_RECVMSG'', 10), (''IORING_OP_TIMEOUT'', 11),
     (''IORING_OP_TIMEOUT_REMOVE'', 12), (''IORING_OP_ACCEPT'', 13),
     (''IORING_OP_ASYNC_CANCEL'', 14), (''IORING_OP_LINK_TIMEOUT'', 15),
     (''IORING_OP_CONNECT'', 16), (''IORING_OP_FALLOCATE'', 17), (''IORING_OP_OPENAT'', 18),
     (''IORING_OP_CLOSE'', 19), (''IORING_OP_FILES_UPDATE'', 20), (''IORING_OP_STATX'', 21),
     (''IORING_OP_READ'', 22), (''IORING_OP_WRITE'', 23), (''IORING_OP_FADVISE'', 24),
     (''IORING_OP_MADVISE'', 25), (''IORING_OP_SEND'', 26), (''IORING_OP_RECV'', 27),
     (''IORING_OP_OPENAT2'', 28), (''IORING_OP_EPOLL_CTL'', 29), (''IORING_OP_SPLICE'', 30),
     (''IORING_OP_PROVIDE_BUFFERS'', 31), (''IORING_OP_REMOVE_BUFFERS'', 32),
     (''IORING_OP_TEE'', 33), (''IORING_OP_SHUTDOWN'', 34), (''IORING_OP_RENAMEAT'', 35),
     (''IORING_OP_UNLINKAT'', 36), (''IORING_OP_MKDIRAT'', 37), (''IORING_OP_SYMLINKAT'', 38),
     (''IORING_OP_LINKAT'', 39), (''IORING_OP_MSG_RING'', 40), (''IORING_OP_FSETXATTR'', 41),
     (''IORING_OP_SETXATTR'', 42), (''IORING_OP_FGETXATTR'', 43), (''IORING_OP_GETXATTR'', 44),
     (''IORING_OP_SOCKET'', 45), (''IORING_OP_URING_CMD'', 46), (''IORING_OP_SEND_ZC'', 47),
     (''IORING_OP_SENDMSG_ZC'', 48), (''IORING_OP_READ_MULTISHOT'', 49),
     (''IORING_OP_WAITID'', 50), (''IORING_OP_FUTEX_WAIT'', 51), (''IORING_OP_FUTEX_WAKE'', 52),
     (''IORING_OP_FUTEX_WAITV'', 53), (''IORING_OP_FIXED_FD_INSTALL'', 54),
     (''IORING_OP_LAST'', 55)]"

section \<open>The structures the programs read\<close>

definition kernel_layouts :: "ctype list" where
  "kernel_layouts =
     [sockaddr_layout, sockaddr_in_layout, sockaddr_in6_layout, iovec_layout, user_msghdr_layout,
      pt_regs_layout, trace_event_raw_sys_enter_layout, trace_event_raw_sys_exit_layout,
      trace_event_raw_sched_process_fork_layout, trace_event_raw_io_uring_submit_req_layout,
      path_layout, qstr_layout, dentry_layout, inode_layout, file_layout, linux_binprm_layout,
      task_struct_head_layout]"

text \<open>A sized declaration that is a structure has a sound layout.\<close>

lemma layout_soundI: "t = CStruct ms \<Longrightarrow> sized t \<Longrightarrow> sound_layout t"
  by (simp add: struct_sound)

lemmas read_struct_defs =
  sockaddr_layout_def sockaddr_in_layout_def sockaddr_in6_layout_def iovec_layout_def
  user_msghdr_layout_def pt_regs_layout_def trace_event_raw_sys_enter_layout_def
  trace_event_raw_sys_exit_layout_def trace_event_raw_sched_process_fork_layout_def
  trace_event_raw_io_uring_submit_req_layout_def path_layout_def qstr_layout_def
  dentry_layout_def inode_layout_def file_layout_def linux_binprm_layout_def
  task_struct_head_layout_def

text \<open>
  In every structure the programs read, as \<open>bpf/vmlinux.h\<close> declares it, the members lie in
  declaration order without overlap, each at a multiple of its alignment (bit-fields inside
  their storage) and inside the structure, whose size is a multiple of its alignment: a read of
  one member never returns bytes of another.
\<close>

lemma kernel_layouts_sound: "list_all sound_layout kernel_layouts"
  by (simp add: kernel_layouts_def ak_layout read_struct_defs [THEN layout_soundI])

section \<open>Offsets in the programs\<close>














text \<open>
  The members read through \<open>BPF_CORE_READ\<close>, at the offsets the compiler records in the object
  (the loader relocates them to the running kernel's).
\<close>

lemma core_read_offsets:
  "offsetof task_struct_head_layout ''tgid'' = Some 2492"
  "offsetof task_struct_head_layout ''real_parent'' = Some 2504"
  "offsetof file_layout ''f_mode'' = Some 20" "offsetof file_layout ''f_path'' = Some 152"
  "offsetof file_layout ''f_inode'' = Some 168" "offsetof inode_layout ''i_mode'' = Some 0"
  "offsetof dentry_layout ''d_name'' = Some 32" "offsetof linux_binprm_layout ''file'' = Some 64"
  "offsetof linux_binprm_layout ''filename'' = Some 96"
  "offsetof pt_regs_layout ''ax'' = Some 80" "offsetof pt_regs_layout ''bx'' = Some 40"
  "offsetof pt_regs_layout ''cx'' = Some 88" "offsetof pt_regs_layout ''sp'' = Some 152"
  by (simp_all add: offsetof_def ak_layout task_struct_head_layout_def file_layout_def
      inode_layout_def dentry_layout_def linux_binprm_layout_def pt_regs_layout_def)

end
