(* ===== verification/AK_Events.thy ===== *)
theory AK_Events
  imports AK_Dns AK_Trace AK_KernelTypes
begin

text \<open>
  From decoded frames to events, the rest of \<open>internal/bpf2frame/bpf2frame.go\<close>: the
  classification of syscall and pseudo ids, \<open>MapSyscall\<close>, \<open>MapSemantic\<close> and the names of
  \<open>io_uring\<close> opcodes; and what the events say about the operations the kernel recorded. Left out
  of an event are its random id and its wall-clock time.
\<close>

section \<open>Events\<close>

datatype category =
    CategoryProcess
  | CategoryFile
  | CategoryNetwork
  | CategoryCapability
  | CategoryDNS
  | CategoryDatabase

text \<open>A resource is text, or the rendering of a socket address.\<close>

datatype resource = Text bytes | Address destination

record SyscallEvent =
  ev_header :: Header
  ev_Name :: string
  ev_Category :: category
  ev_Operation :: string
  ev_Resource :: resource
  ev_ExePath :: bytes
  ev_DNS :: "DNSInfo option"

section \<open>Classification\<close>

text \<open>\<open>%d\<close> of a signed number.\<close>

fun dec_nat :: "nat \<Rightarrow> string" where
  "dec_nat n = (if n < 10 then [char_of (48 + n)] else dec_nat (n div 10) @ [char_of (48 + n mod 10)])"

definition dec_int :: "int \<Rightarrow> string" where
  "dec_int i = (if i < 0 then ''-'' @ dec_nat (nat (- i)) else dec_nat (nat i))"

definition classify_table :: "(s32 \<times> string \<times> category \<times> string) list" where
  "classify_table = [
     (59, ''execve'', CategoryProcess, ''exec''),
     (322, ''execveat'', CategoryProcess, ''exec''),
     (AK_PSEUDO_SCHED_EXIT, ''sched_exit'', CategoryProcess, ''exit''),
     (257, ''openat'', CategoryFile, ''open''),
     (437, ''openat2'', CategoryFile, ''open''),
     (AK_PSEUDO_LSM_FILE, ''lsm_file_open'', CategoryFile, ''open''),
     (42, ''connect'', CategoryNetwork, ''connect''),
     (87, ''unlink'', CategoryFile, ''delete''),
     (263, ''unlinkat'', CategoryFile, ''delete''),
     (82, ''rename'', CategoryFile, ''rename''),
     (316, ''renameat2'', CategoryFile, ''rename''),
     (258, ''mkdirat'', CategoryFile, ''mkdir''),
     (268, ''fchmodat'', CategoryFile, ''chmod''),
     (260, ''fchownat'', CategoryFile, ''chown''),
     (101, ''ptrace'', CategoryProcess, ''ptrace''),
     (62, ''kill'', CategoryProcess, ''kill''),
     (105, ''setuid'', CategoryCapability, ''setuid''),
     (113, ''setreuid'', CategoryCapability, ''setuid''),
     (AK_PSEUDO_DNS_QUERY, ''dns_query'', CategoryDNS, ''resolve''),
     (AK_PSEUDO_DNS_ANSWER, ''dns_answer'', CategoryDNS, ''resolve''),
     (AK_PSEUDO_LSM_EXEC, ''lsm_bprm'', CategoryProcess, ''exec''),
     (AK_PSEUDO_PERSIST_EXEC, ''persist_exec'', CategoryProcess, ''persist-exec''),
     (AK_PSEUDO_IO_URING, ''io_uring_submit'', CategoryProcess, ''io_uring'')]"

definition classify :: "s32 \<Rightarrow> string \<times> category \<times> string" where
  "classify sid =
     (case map_of classify_table sid of
        Some c \<Rightarrow> c
      | None \<Rightarrow> (''syscall_'' @ dec_int (sint sid), CategoryProcess, ''unknown''))"

definition ioUringOpNames :: "(nat \<times> string) list" where
  "ioUringOpNames = [
     (9, ''sendmsg''), (10, ''recvmsg''), (13, ''accept''), (16, ''connect''), (18, ''openat''),
     (19, ''close''), (22, ''read''), (23, ''write''), (26, ''send''), (27, ''recv''), (28, ''openat2''),
     (30, ''splice''), (34, ''shutdown''), (35, ''renameat''), (36, ''unlinkat''), (37, ''mkdirat''),
     (38, ''symlinkat''), (39, ''linkat''), (40, ''msg_ring''), (46, ''socket'')]"

definition ioUringOpName :: "s64 \<Rightarrow> string" where
  "ioUringOpName opcode =
     (case if sint opcode < 0 then None else map_of ioUringOpNames (nat (sint opcode)) of
        Some n \<Rightarrow> n
      | None \<Rightarrow> ''op_'' @ dec_int (sint opcode))"

section \<open>Mapping\<close>

text \<open>The open flags read from \<open>RetVal\<close>: \<open>O_WRONLY\<close>, \<open>O_RDWR\<close>, \<open>O_CREAT\<close> (octal 0100).\<close>

definition write_flags :: "s64 \<Rightarrow> bool" where
  "write_flags rv \<longleftrightarrow> rv AND 0x1 \<noteq> 0 \<or> rv AND 0x2 \<noteq> 0 \<or> rv AND 0x40 \<noteq> 0"

definition MapSyscall :: "Frame \<Rightarrow> SyscallEvent option" where
  "MapSyscall f =
     (let h = Hd f; (name, cat, op) = classify (SyscallID h);
          ev = \<lparr>ev_header = h, ev_Name = name, ev_Category = cat, ev_Operation = op,
                ev_Resource = Text [], ev_ExePath = [], ev_DNS = None\<rparr>
      in do {
        ev1 \<leftarrow>
          (if SyscallID h = AK_PSEUDO_IO_URING then
             (let r = ioUringOpName (RetVal h)
              in Some (ev\<lparr>ev_Resource := Text (chars r), ev_Operation := ''io_uring:'' @ r\<rparr>))
           else if SyscallID h = AK_PSEUDO_DNS_QUERY then do {
             qname \<leftarrow> parseDNSQName (Payload f);
             Some (if qname \<noteq> [] then ev\<lparr>ev_Resource := Text qname, ev_DNS := Some \<lparr>QName = qname, Answers = []\<rparr>\<rparr>
                   else ev\<lparr>ev_Resource := Text qname\<rparr>)
           }
           else if SyscallID h = AK_PSEUDO_DNS_ANSWER then do {
             dns \<leftarrow> parseDNSAnswer (Payload f);
             Some (case dns of
                     None \<Rightarrow> ev
                   | Some d \<Rightarrow> ev\<lparr>ev_DNS := Some d, ev_Resource := Text (QName d)\<rparr>)
           }
           else if cat = CategoryNetwork then Some (ev\<lparr>ev_Resource := Address (decodeSockaddr (Payload f))\<rparr>)
           else (let str = cstr (Payload f)
                 in Some (if str \<noteq> [] then ev\<lparr>ev_Resource := Text str, ev_ExePath := str\<rparr> else ev)));
        Some (if cat = CategoryFile
              then ev1\<lparr>ev_ExePath := [], ev_Resource := Text (cstr (Payload f)),
                       ev_Operation := (if write_flags (RetVal h) then ''write'' else ''read'')\<rparr>
              else ev1)
      })"

datatype direction = DirOutbound | DirInbound

record SemanticChunk =
  ch_TimestampNS :: u64
  ch_HostTID :: s32
  ch_HostPID :: s32
  ch_CgroupID :: u64
  ch_Direction :: direction
  ch_ConnID :: u64
  ch_Bytes :: bytes

definition MapSemantic :: "Frame \<Rightarrow> SemanticChunk" where
  "MapSemantic f =
     (let h = Hd f in
      \<lparr>ch_TimestampNS = Timestamp h, ch_HostTID = HostTID h, ch_HostPID = HostPID h,
       ch_CgroupID = CgroupID h,
       ch_Direction = (if SyscallID h = AK_PSEUDO_TLS_READ \<or> Category h = 1 then DirInbound else DirOutbound),
       ch_ConnID = RetVal h, ch_Bytes = Payload f\<rparr>)"

section \<open>Every frame becomes an event\<close>

lemma MapSyscall_total: "\<exists>ev. MapSyscall f = Some ev"
  using parseDNSQName_total [of "Payload f"] parseDNSAnswer_total [of "Payload f"]
  by (auto simp: MapSyscall_def Let_def split: prod.split)

section \<open>Opcodes\<close>

definition upper_char :: "char \<Rightarrow> char" where
  "upper_char c =
     (if (97 :: nat) \<le> of_char c \<and> of_char c \<le> (122 :: nat) then char_of (of_char c - 32 :: nat) else c)"

text \<open>
  The table of opcode names against the kernel's enumeration: every entry gives the
  opcode's \<open>IORING_OP_\<close> name except one. The opcode of \<open>IORING_OP_SOCKET\<close> is 45, the table has it
  at 46, which is \<open>IORING_OP_URING_CMD\<close>; so a socket creation is reported as \<open>op_45\<close> and a
  pass-through command as \<open>socket\<close>.
\<close>

lemma io_uring_name_off_by_one:
  "filter (\<lambda>(v, n). io_uring_op ! v \<noteq> (''IORING_OP_'' @ map upper_char n, v)) ioUringOpNames
     = [(46, ''socket'')]
   \<and> io_uring_op ! 45 = (''IORING_OP_SOCKET'', 45) \<and> io_uring_op ! 46 = (''IORING_OP_URING_CMD'', 46)
   \<and> ioUringOpName 45 = ''op_45'' \<and> ioUringOpName 46 = ''socket''"
  by code_simp

section \<open>From the recording programs to events\<close>

lemma fit_same: "length b = n \<Longrightarrow> fit n b = b"
  by (simp add: fit_def)

lemma emit_decoded:
  assumes "k_reserve_events k (length (ak_events s)) = Some r" "res \<noteq> 0"
    and "k_read_user_str k res AK_MAX_STR = (n, b)" "0 < sint n" "sint n \<le> 256"
  shows "\<exists>e f. ak_events (ak_emit k cgid sid cat ret res s) = ak_events s @ [e]
     \<and> Decode (rec_bytes e) = Inr f \<and> SyscallID (Hd f) = sid \<and> RetVal (Hd f) = ret
     \<and> HostPID (Hd f) = ak_tgid k \<and> Payload f = take (nat (sint n)) (fit AK_MAX_STR b)"
proof -
  let ?h = "(ak_fill_header k cgid sid cat (hdr r))\<lparr>h_retval := ret, h_data_len := ucast n\<rparr>"
  have n: "unat (ucast n :: u32) = nat (sint n)"
  proof -
    have "nat (sint n) = unat n" using assms(4) by (simp add: unat_of_sint_pos)
    moreover from this have "unat n \<le> 256" using assms(5) by simp
    ultimately show ?thesis by (simp add: unsigned_ucast_eq take_bit_nat_eq_self)
  qed
  have "Decode (rec_bytes (r\<lparr>hdr := ?h, data := fit AK_MAX_STR b\<rparr>))
      = Inr \<lparr>Hd = header_of ?h, Payload = take (nat (sint n)) (fit AK_MAX_STR b)\<rparr>"
    using Decode_event [of ?h "fit AK_MAX_STR b"] n assms(5) fit_same [of "fit AK_MAX_STR b"]
    by (simp add: rec_bytes_def ak_fill_header_def Let_def AK_MAX_STR_def)
  then show ?thesis
    using assms by (auto simp: ak_emit_def emit_rec_def Let_def header_of_def ak_fill_header_def ak_tgid_def)
qed

text \<open>The programs that record a change of a path, with syscall number and path argument.\<close>

definition mutation_programs :: "((kenv \<Rightarrow> sys_enter_ctx \<Rightarrow> kstate \<Rightarrow> kstate) \<times> s32 \<times> nat) list" where
  "mutation_programs = [(ak_unlinkat, 263, 1), (ak_unlink, 87, 0), (ak_renameat2, 316, 1),
     (ak_rename, 82, 0), (ak_mkdirat, 258, 1), (ak_fchmodat, 268, 1), (ak_fchownat, 260, 1)]"

lemma mutation_emits:
  assumes "(prog, nr, i) \<in> set mutation_programs" "has (ak_session_flags k s) AK_SESS_MONITOR"
    and "ucast (se_id ctx) = nr"
  shows "prog k ctx s = ak_emit k (k_cgroup_id k) nr AK_CAT_FILE 0 (se_args ctx i) s"
  using assms
  by (auto simp: mutation_programs_def ak_unlinkat_def ak_unlink_def ak_renameat2_def ak_rename_def
      ak_mkdirat_def ak_fchmodat_def ak_fchownat_def)

lemma mutation_classes:
  "(prog, nr, i) \<in> set mutation_programs \<Longrightarrow>
     \<exists>name op. classify nr = (name, CategoryFile, op) \<and> op \<in> {''delete'', ''rename'', ''mkdir'', ''chmod'', ''chown''}"
  by (auto simp: mutation_programs_def classify_def classify_table_def ak_const)

lemma MapSyscall_file:
  assumes "classify (SyscallID (Hd f)) = (name, CategoryFile, op)"
  shows "\<exists>ev. MapSyscall f = Some ev \<and> ev_Category ev = CategoryFile
     \<and> ev_Operation ev = (if write_flags (RetVal (Hd f)) then ''write'' else ''read'')
     \<and> ev_Resource ev = Text (cstr (Payload f))"
proof -
  have "SyscallID (Hd f) \<notin> {AK_PSEUDO_IO_URING, AK_PSEUDO_DNS_QUERY, AK_PSEUDO_DNS_ANSWER}"
    using assms by (auto simp: classify_def classify_table_def ak_const)
  then show ?thesis using assms by (auto simp: MapSyscall_def Let_def)
qed

text \<open>
  Changes of files are reported as reads: the record of an unlink, rename, mkdir, chmod or
  chown, decoded and mapped, is a file event on the right path whose operation is \<open>read\<close>, although
  the syscall is classified as delete, rename, mkdir, chmod or chown. (The recorded return value
  is 0, and for every file event the mapping derives the operation from it as open flags.)
\<close>

lemma mutation_reported_as_read:
  assumes "(prog, nr, i) \<in> set mutation_programs" "ucast (se_id ctx) = nr"
    and "has (ak_session_flags k s) AK_SESS_MONITOR"
    and "k_reserve_events k (length (ak_events s)) = Some r" "se_args ctx i \<noteq> 0"
    and "k_read_user_str k (se_args ctx i) AK_MAX_STR = (n, b)" "0 < sint n" "sint n \<le> 256"
  shows "\<exists>e f ev. ak_events (prog k ctx s) = ak_events s @ [e] \<and> Decode (rec_bytes e) = Inr f
     \<and> MapSyscall f = Some ev \<and> ev_Category ev = CategoryFile
     \<and> ev_Resource ev = Text (cstr (take (nat (sint n)) (fit AK_MAX_STR b)))
     \<and> ev_Operation ev = ''read''
     \<and> snd (snd (classify nr)) \<in> {''delete'', ''rename'', ''mkdir'', ''chmod'', ''chown''}"
proof -
  obtain e f where ef: "ak_events (prog k ctx s) = ak_events s @ [e]" "Decode (rec_bytes e) = Inr f"
    "SyscallID (Hd f) = nr" "RetVal (Hd f) = 0" "Payload f = take (nat (sint n)) (fit AK_MAX_STR b)"
    using emit_decoded [OF assms(4-8), of "k_cgroup_id k" nr AK_CAT_FILE 0]
      mutation_emits [OF assms(1,3,2)] by auto
  obtain name op where op: "classify nr = (name, CategoryFile, op)"
    "op \<in> {''delete'', ''rename'', ''mkdir'', ''chmod'', ''chown''}"
    using mutation_classes [OF assms(1)] by blast
  then show ?thesis
    using ef MapSyscall_file [of f name op] by (auto simp: write_flags_def)
qed

text \<open>A chmod of \<open>b\<close> by the sample member.\<close>

definition chmod_ctx :: sys_enter_ctx where
  "chmod_ctx = \<lparr>se_id = 268, se_args = (\<lambda>_. 0x1000)\<rparr>"

lemma mutation_reported_as_read_example:
  "\<exists>e f ev. ak_events (ak_fchmodat sample_env chmod_ctx (member_state 1)) = [e] \<and> Decode (rec_bytes e) = Inr f
     \<and> MapSyscall f = Some ev \<and> ev_Operation ev = ''read'' \<and> ev_Resource ev = Text (chars ''b'')"
proof -
  have m: "has (ak_session_flags sample_env (member_state 1)) AK_SESS_MONITOR" "ak_events (member_state 1) = []"
    by (simp_all add: member_flags member_state_def init_kstate_def has_def ak_const)
  have s: "k_read_user_str sample_env (se_args chmod_ctx 1) AK_MAX_STR = (2, chars ''b'')"
    by (simp add: sample_env_def)
  have b: "cstr (take (nat (sint (2 :: 64 word))) (fit AK_MAX_STR (chars ''b''))) = chars ''b''"
    by (simp add: fit_def chars_def AK_MAX_STR_def take_Cons')
  obtain r where r: "k_reserve_events sample_env 0 = Some r" by (simp add: sample_env_def)
  show ?thesis
    using mutation_reported_as_read [of ak_fchmodat 268 1 chmod_ctx sample_env "member_state 1" r 2 "chars ''b''"] m s b r
    by (auto simp: mutation_programs_def chmod_ctx_def)
qed

section \<open>DNS from the wire to the event\<close>

lemma dns_record_decoded:
  assumes "dns_record k sid b r" "length (h_comm (hdr r)) = AK_TASK_COMM_LEN"
  shows "\<exists>f. Decode (rec_bytes r) = Inr f \<and> SyscallID (Hd f) = sid \<and> HostPID (Hd f) = ak_tgid k \<and> Payload f = b"
proof -
  have "unat (h_data_len (hdr r)) \<le> length (data r)"
    using assms(1) by (metis dns_record_def le_cases length_take min.absorb_iff2 order.refl take_all_iff)
  then show ?thesis
    using assms Decode_event [of "hdr r" "data r"]
    by (auto simp: dns_record_def rec_bytes_def fit_same header_of_def)
qed

lemma emit_dns_comm:
  "ak_events (emit_dns k cgid sid buf len s) = ak_events s @ [r] \<Longrightarrow> length (h_comm (hdr r)) = AK_TASK_COMM_LEN"
  by (auto simp: emit_dns_def Let_def ak_fill_header_def split: option.splits prod.splits)

text \<open>
  A DNS query is reported with its name: when a monitored process sends to port 53 over IPv4
  a message whose question (at most 16 labels) lies within the first 255 bytes, one record is
  appended, and its sample decodes and maps to a DNS event of that process whose resource is the
  queried name.
\<close>

lemma dns_query_reported:
  assumes "has (ak_session_flags k s) AK_SESS_MONITOR" "se_args ctx 4 \<noteq> 0"
    and "dst_family k (se_args ctx 4) = 2" "dst_port k (se_args ctx 4) = 53"
    and "0 < sint (ucast (se_args ctx 2) :: s32)"
    and "k_reserve_events k (length (ak_events s)) = Some r"
    and "k_read_user k (se_args ctx 1) (unat (dns_len (ucast (se_args ctx 2)))) = (0, h @ enc_name ls @ rest)"
    and "length (h @ enc_name ls @ rest) = unat (dns_len (ucast (se_args ctx 2)))"
    and "length h = 12" "ls \<noteq> []" "\<forall>l \<in> set ls. valid_label l" "length ls \<le> 16"
  shows "\<exists>e f ev. ak_events (ak_sendto k ctx s) = ak_events s @ [e] \<and> Decode (rec_bytes e) = Inr f
     \<and> MapSyscall f = Some ev \<and> ev_Category ev = CategoryDNS \<and> HostPID (ev_header ev) = ak_tgid k
     \<and> ev_Resource ev = Text (join_labels ls) \<and> ev_DNS ev = Some \<lparr>QName = join_labels ls, Answers = []\<rparr>"
proof -
  define s1 where "s1 = s\<lparr>ak_dns_fds := lru_update k M_dns_fds (fd_key k (se_args ctx 0)) 1 (ak_dns_fds s)\<rparr>"
  have send: "ak_sendto k ctx s
      = emit_dns k (k_cgroup_id k) AK_PSEUDO_DNS_QUERY (se_args ctx 1) (ucast (se_args ctx 2)) s1"
    using assms(1-5) by (simp add: ak_sendto_def s1_def dst_family_def dst_port_def Let_def)
  obtain e where e: "ak_events (ak_sendto k ctx s) = ak_events s @ [e]"
    "dns_record k AK_PSEUDO_DNS_QUERY (h @ enc_name ls @ rest) e"
    using emit_dns_record [OF assms(5), of k s1 r "se_args ctx 1" "h @ enc_name ls @ rest" "k_cgroup_id k"
        AK_PSEUDO_DNS_QUERY] assms(6-8)
    by (auto simp: send s1_def)
  have "length (h_comm (hdr e)) = AK_TASK_COMM_LEN"
    using emit_dns_comm [of k "k_cgroup_id k" AK_PSEUDO_DNS_QUERY "se_args ctx 1" "ucast (se_args ctx 2)" s1 e] e(1)
    by (simp add: send s1_def)
  then obtain f where f: "Decode (rec_bytes e) = Inr f" "SyscallID (Hd f) = AK_PSEUDO_DNS_QUERY"
    "HostPID (Hd f) = ak_tgid k" "Payload f = h @ enc_name ls @ rest"
    using dns_record_decoded [OF e(2)] by blast
  have "join_labels ls \<noteq> []"
    using assms(10,11) by (cases ls rule: join_labels.cases) (auto simp: valid_label_def)
  moreover have "classify AK_PSEUDO_DNS_QUERY = (''dns_query'', CategoryDNS, ''resolve'')"
    by (simp add: classify_def classify_table_def ak_const)
  moreover have "AK_PSEUDO_DNS_QUERY \<noteq> AK_PSEUDO_IO_URING" by (simp add: ak_const)
  ultimately show ?thesis
    using e f parseDNSQName_enc [OF assms(9,11,12), of rest] by (simp add: MapSyscall_def)
qed

text \<open>A query for \<open>api\<close> to a server on port 53.\<close>

definition query_payload :: bytes where
  "query_payload = replicate 12 0 @ enc_name [chars ''api''] @ []"

definition dns_env :: kenv where
  "dns_env = sample_env\<lparr>k_read_user := (\<lambda>a n. (0,
     if a = 0x1000 then take n query_payload else take n [2, 0, 0, 53, 8, 8, 8, 8, 0, 0, 0, 0, 0, 0, 0, 0]))\<rparr>"

definition dns_ctx :: sys_enter_ctx where
  "dns_ctx = \<lparr>se_id = 44, se_args = (\<lambda>i. if i = 1 then 0x1000 else if i = 2 then 17 else if i = 4 then 0x2000 else 5)\<rparr>"

lemma dns_query_reported_example:
  "\<exists>e f ev. ak_events (ak_sendto dns_env dns_ctx (member_state 1)) = [e] \<and> Decode (rec_bytes e) = Inr f
     \<and> MapSyscall f = Some ev \<and> ev_Resource ev = Text (chars ''api'')"
proof -
  have m: "has (ak_session_flags dns_env (member_state 1)) AK_SESS_MONITOR" "ak_events (member_state 1) = []"
    by (simp_all add: dns_env_def ak_session_flags_def ak_tgid_def sample_env_def member_state_def init_kstate_def
        has_def ak_const)
  have a: "dst_family dns_env 0x2000 = 2" "dst_port dns_env 0x2000 = 53"
    by (simp_all add: dst_family_def dst_port_def dns_env_def fit_def field_def ntohs_def)
  have len: "length query_payload = 17" "dns_len 17 = 17"
    by (simp_all add: query_payload_def enc_name_def chars_def dns_len_def ak_const)
  have rd: "k_read_user dns_env 0x1000 17 = (0, query_payload)"
    using len by (simp add: dns_env_def)
  obtain r where r: "k_reserve_events dns_env 0 = Some r" by (simp add: dns_env_def sample_env_def)
  show ?thesis
    using dns_query_reported [of dns_env "member_state 1" dns_ctx r "replicate 12 0" "[chars ''api'']" "[]"] m a len rd r
    by (auto simp: dns_ctx_def valid_label_def query_payload_def [symmetric]) (auto simp: query_payload_def chars_def)
qed

section \<open>Plaintext from the probe to the chunk\<close>

lemma emit_tls_comm:
  assumes "ak_semantic (ak_emit_tls k cgid dir buf len conn s) = ak_semantic s @ [c]"
    and "k_reserve_semantic k (length (ak_semantic s)) = Some r"
  shows "h_comm (tls_hdr c) = h_comm (tls_hdr r)"
  using assms by (auto simp: ak_emit_tls_def Let_def split: if_splits prod.splits)

lemma chunk_decoded:
  assumes "chunk_of k cgid dir conn b c" "length (h_comm (tls_hdr c)) = AK_TASK_COMM_LEN" "length b \<le> AK_TLS_MAX"
  shows "\<exists>f. Decode (tls_rec_bytes c) = Inr f \<and> ch_Bytes (MapSemantic f) = b \<and> ch_ConnID (MapSemantic f) = conn
     \<and> ch_CgroupID (MapSemantic f) = cgid \<and> ch_HostPID (MapSemantic f) = ak_tgid k
     \<and> ch_Direction (MapSemantic f) = (if dir = 0 then DirOutbound else DirInbound)"
  using assms Decode_event [of "tls_hdr c" "tls_data c"]
  by (auto simp: chunk_of_def tls_rec_bytes_def fit_same header_of_def MapSemantic_def ak_const)

text \<open>
  What a process sends over TLS is what the daemon sees: when the semantic ring has room and
  the buffer can be read, an \<open>SSL_write\<close> of a monitored process appends one record whose sample
  decodes and maps to an outbound chunk of that process and connection with exactly the first
  \<open>min num 16383\<close> bytes written; the header bytes the probe leaves unset do not matter.
\<close>

lemma ssl_write_reported:
  assumes "monitored k s" "0 < sint num"
    and "k_reserve_semantic k (length (ak_semantic s)) = Some r" "length (h_comm (tls_hdr r)) = AK_TASK_COMM_LEN"
    and "k_read_user k buf (min (nat (sint num)) 16383) = (0, b)" "length b = min (nat (sint num)) 16383"
  shows "\<exists>c f. ak_semantic (ak_ssl_write k ssl buf num s) = ak_semantic s @ [c] \<and> Decode (tls_rec_bytes c) = Inr f
     \<and> ch_Bytes (MapSemantic f) = b \<and> ch_ConnID (MapSemantic f) = ssl \<and> ch_Direction (MapSemantic f) = DirOutbound
     \<and> ch_HostPID (MapSemantic f) = ak_tgid k \<and> ch_CgroupID (MapSemantic f) = k_cgroup_id k"
proof -
  obtain c where c: "ak_semantic (ak_ssl_write k ssl buf num s) = ak_semantic s @ [c]"
    "chunk_of k (k_cgroup_id k) 0 ssl b c"
    using ssl_write_captured [OF assms(1-3,5,6)] by blast
  have "length (h_comm (tls_hdr c)) = AK_TASK_COMM_LEN"
    using c(1) assms(1,3,4) emit_tls_comm [of k "k_cgroup_id k" 0 buf num ssl s c r] by (simp add: ak_ssl_write_def)
  then show ?thesis
    using c chunk_decoded [OF c(2)] assms(6) by (fastforce simp: AK_TLS_MAX_def)
qed

lemma ssl_write_reported_example:
  "\<exists>c f. ak_semantic (ak_ssl_write sample_env 0x77 0x1000 3 (member_state 1)) = [c] \<and> Decode (tls_rec_bytes c) = Inr f
     \<and> ch_Bytes (MapSemantic f) = [1, 1, 1] \<and> ch_ConnID (MapSemantic f) = 0x77"
proof -
  have "monitored sample_env (member_state 1)" "ak_semantic (member_state 1) = []"
    by (simp_all add: monitored_def member_flags member_state_def init_kstate_def has_def ak_const)
  moreover have "k_read_user sample_env 0x1000 3 = (0, [1, 1, 1])"
    by (simp add: sample_env_def numeral_eq_Suc)
  moreover obtain r where "k_reserve_semantic sample_env 0 = Some r" "length (h_comm (tls_hdr r)) = AK_TASK_COMM_LEN"
    by (simp add: sample_env_def blank_event_def)
  ultimately show ?thesis
    using ssl_write_reported [of sample_env "member_state 1" 3 r "0x1000" "[1, 1, 1]" "0x77"] by auto
qed

end
