(* ===== verification/AK_Process.thy ===== *)
theory AK_Process
  imports AK_Frames AK_PathRules
begin

text \<open>
  \<open>bpf/process.bpf.c\<close>: execution, fork, task creation and exit. The programs are tracepoints
  and a kprobe: they cannot refuse, they always return 0, so a program is its effect on the
  maps. \<open>ak_session_pids\<close> is the session membership they maintain.
\<close>

section \<open>Programs\<close>

text \<open>
  The membership write every arming path makes, with its fault count. The result of the write
  is \<open>k_update k M_session_pids\<close>.
\<close>

definition arm_pid :: "kenv \<Rightarrow> u32 \<Rightarrow> u32 \<Rightarrow> kstate \<Rightarrow> kstate" where
  "arm_pid k tgid sv s =
     (let s' = s\<lparr>ak_session_pids := map_update k M_session_pids tgid sv (ak_session_pids s)\<rparr>
      in if k_update k M_session_pids (ucast tgid) \<noteq> 0
         then ak_bump_err k AK_ERR_ARM_SESSION s' else s')"

text \<open>
  The loop over \<open>argv[0..3]\<close>: the flags of the first entry whose basename is a signature.
\<close>

fun argv_scan :: "kenv \<Rightarrow> u64 \<Rightarrow> (u64 \<rightharpoonup> u32) \<Rightarrow> nat list \<Rightarrow> u32 option" where
  "argv_scan k argv sigs [] = None"
| "argv_scan k argv sigs (i # is) =
     (let (r, pb) = k_read_user k (argv + 8 * of_nat i) 8;
          ap = (from_le (fit 8 pb) :: u64)
      in if r \<noteq> 0 \<or> ap = 0 then argv_scan k argv sigs is
         else let (n, nb) = k_read_user_str k ap AK_MAX_STR
              in if sint n \<le> 0 then argv_scan k argv sigs is
                 else case sigs (ak_fnv1a_basename (fit AK_MAX_STR nb)) of
                        Some sv \<Rightarrow> Some sv
                      | None \<Rightarrow> argv_scan k argv sigs is)"

definition ak_execve :: "kenv \<Rightarrow> sys_enter_ctx \<Rightarrow> kstate \<Rightarrow> kstate" where
  "ak_execve k ctx s =
     (if ak_is_self k s then s
      else let cgid = k_cgroup_id k;
               s1 = ak_emit k cgid (ucast (se_id ctx)) AK_CAT_PROCESS 0 (se_args ctx 0) s;
               tgid = ak_tgid k
           in if ak_session_pids s1 tgid \<noteq> None then s1
              else let argv = se_args ctx 1
                   in if argv = 0 then s1
                      else case argv_scan k argv (ak_agent_sigs s1) [0, 1, 2, 3] of
                             Some sv \<Rightarrow> arm_pid k tgid sv s1
                           | None \<Rightarrow>
                               (case ak_sessions s1 cgid of
                                  Some sv \<Rightarrow> arm_pid k tgid sv s1
                                | None \<Rightarrow>
                                    (case ak_session_pids s1 (t_tgid (k_parent k)) of
                                       Some sv \<Rightarrow> arm_pid k tgid sv s1
                                     | None \<Rightarrow> s1)))"

definition ak_execveat :: "kenv \<Rightarrow> sys_enter_ctx \<Rightarrow> kstate \<Rightarrow> kstate" where
  "ak_execveat k ctx s =
     (if ak_is_self k s then s
      else ak_emit k (k_cgroup_id k) (ucast (se_id ctx)) AK_CAT_PROCESS 0 (se_args ctx 1) s)"

definition ak_proc_fork :: "kenv \<Rightarrow> sched_fork_ctx \<Rightarrow> kstate \<Rightarrow> kstate" where
  "ak_proc_fork k ctx s =
     (if ak_is_self k s then s
      else case ak_session_pids s (ak_tgid k) of
             None \<Rightarrow> s
           | Some flags \<Rightarrow> arm_pid k (child_pid ctx) flags s)"

definition ak_new_task :: "kenv \<Rightarrow> struct_task \<Rightarrow> kstate \<Rightarrow> kstate" where
  "ak_new_task k p s =
     (if ak_is_self k s then s
      else case ak_session_pids s (ak_tgid k) of
             None \<Rightarrow> s
           | Some flags \<Rightarrow>
               if t_tgid p = ak_tgid k then s else arm_pid k (t_tgid p) flags s)"

definition ak_proc_exit :: "kenv \<Rightarrow> kstate \<Rightarrow> kstate" where
  "ak_proc_exit k s =
     (if ak_is_self k s then s
      else if \<not> has (ak_session_flags k s) AK_SESS_MONITOR then s
      else let s1 = ak_emit k (k_cgroup_id k) AK_PSEUDO_SCHED_EXIT AK_CAT_PROCESS 0 0 s
           in s1\<lparr>ak_session_pids := (ak_session_pids s1)(ucast (k_pid_tgid k) := None)\<rparr>)"

section \<open>What the programs do to the membership map\<close>

lemma arm_pid_pids [simp]:
  "ak_session_pids (arm_pid k tgid sv s) = map_update k M_session_pids tgid sv (ak_session_pids s)"
  by (simp add: arm_pid_def Let_def)

lemma arm_pid_frame [simp, ak_frame]:
  "ak_self (arm_pid k tgid sv s) = ak_self s"
  "ak_sessions (arm_pid k tgid sv s) = ak_sessions s"
  "ak_posture (arm_pid k tgid sv s) = ak_posture s"
  "ak_taint_files (arm_pid k tgid sv s) = ak_taint_files s"
  "ak_taint_inode (arm_pid k tgid sv s) = ak_taint_inode s"
  "ak_enforce_file (arm_pid k tgid sv s) = ak_enforce_file s"
  "ak_enforce_dir (arm_pid k tgid sv s) = ak_enforce_dir s"
  "ak_enforce_net (arm_pid k tgid sv s) = ak_enforce_net s"
  "ak_enforce_net6 (arm_pid k tgid sv s) = ak_enforce_net6 s"
  "ak_agent_sigs (arm_pid k tgid sv s) = ak_agent_sigs s"
  "ak_sensitive_files (arm_pid k tgid sv s) = ak_sensitive_files s"
  "ak_db_deny_tables (arm_pid k tgid sv s) = ak_db_deny_tables s"
  "ak_semantic (arm_pid k tgid sv s) = ak_semantic s"
  "ak_events (arm_pid k tgid sv s) = ak_events s"
  by (simp_all add: arm_pid_def Let_def)

lemma proc_fork_child:
  assumes "ak_self s (ak_tgid k) = None"
    and "ak_session_pids s (ak_tgid k) = Some f"
    and "k_update k M_session_pids (ucast (child_pid ctx)) = 0"
  shows "ak_session_pids (ak_proc_fork k ctx s) (child_pid ctx) = Some f"
  using assms by (simp add: ak_proc_fork_def ak_is_self_def map_update_same)

lemma proc_fork_self [simp]: "ak_self (ak_proc_fork k ctx s) = ak_self s"
  by (simp add: ak_proc_fork_def split: option.split)

lemma proc_exit_self [simp]: "ak_self (ak_proc_exit k s) = ak_self s"
  by (simp add: ak_proc_exit_def Let_def)

lemma proc_exit_pids:
  "ak_session_pids (ak_proc_exit k s) x =
     (if \<not> ak_is_self k s \<and> has (ak_session_flags k s) AK_SESS_MONITOR \<and> x = ucast (k_pid_tgid k)
      then None else ak_session_pids s x)"
  by (simp add: ak_proc_exit_def Let_def)

section \<open>Double fork\<close>

text \<open>
  A daemonizing chain: each process forks and, once the child exists, exits. A link carries the
  kernel's answers during the fork, the fork's context and the answers during the exit.
\<close>

record fork_link =
  at_fork :: kenv
  forked :: sched_fork_ctx
  at_exit :: kenv

definition fork_then_exit :: "fork_link \<Rightarrow> kstate \<Rightarrow> kstate" where
  "fork_then_exit l s = ak_proc_exit (at_exit l) (ak_proc_fork (at_fork l) (forked l) s)"

fun daemon_chain :: "kstate \<Rightarrow> fork_link list \<Rightarrow> u32 \<Rightarrow> bool" where
  "daemon_chain s [] tgid = True"
| "daemon_chain s (l # ls) tgid =
     (ak_tgid (at_fork l) = tgid \<and> ucast (k_pid_tgid (at_exit l)) = tgid
      \<and> ak_self s tgid = None
      \<and> k_update (at_fork l) M_session_pids (ucast (child_pid (forked l))) = 0
      \<and> child_pid (forked l) \<noteq> tgid
      \<and> daemon_chain s ls (child_pid (forked l)))"

fun chain_end :: "fork_link list \<Rightarrow> u32 \<Rightarrow> u32" where
  "chain_end [] tgid = tgid"
| "chain_end (l # ls) tgid = chain_end ls (child_pid (forked l))"

lemma daemon_chain_cong: "ak_self s' = ak_self s \<Longrightarrow> daemon_chain s' ls t = daemon_chain s ls t"
  by (induction ls arbitrary: t) auto

lemma fork_then_exit_self [simp]: "ak_self (fork_then_exit l s) = ak_self s"
  by (simp add: fork_then_exit_def)

lemma fork_then_exit_child:
  assumes "daemon_chain s (l # ls) tgid" "ak_session_pids s tgid = Some f"
  shows "ak_session_pids (fork_then_exit l s) (child_pid (forked l)) = Some f"
  using assms by (auto simp: fork_then_exit_def proc_exit_pids proc_fork_child)

text \<open>
  A double fork, or a daemonizing chain of any length in which every intermediate process
  exits as soon as its child exists, does not shed session membership: the last process of the
  chain carries the flags of the first. Assumed of the kernel: the membership writes succeed,
  a child's pid differs from its parent's, and none of the processes is AgentKnox itself.
\<close>

lemma daemonize_keeps_membership:
  assumes "daemon_chain s ls tgid" "ak_session_pids s tgid = Some f"
  shows "ak_session_pids (fold fork_then_exit ls s) (chain_end ls tgid) = Some f"
  using assms
proof (induction ls arbitrary: s tgid)
  case Nil
  then show ?case by simp
next
  case (Cons l ls)
  have "daemon_chain (fork_then_exit l s) ls (child_pid (forked l))"
    using Cons.prems(1) by (simp cong: daemon_chain_cong)
  with Cons.IH fork_then_exit_child [OF Cons.prems] show ?case by simp
qed

text \<open>A double fork 100, 101, 102 of an enforced member.\<close>

definition pid_env :: "u64 \<Rightarrow> kenv" where
  "pid_env p = sample_env\<lparr>k_pid_tgid := push_bit 32 p OR p\<rparr>"

lemma daemonize_keeps_membership_example:
  "ak_session_pids
     (fold fork_then_exit
        [\<lparr>at_fork = pid_env 100, forked = \<lparr>child_pid = 101\<rparr>, at_exit = pid_env 100\<rparr>,
         \<lparr>at_fork = pid_env 101, forked = \<lparr>child_pid = 102\<rparr>, at_exit = pid_env 101\<rparr>]
        (init_kstate\<lparr>ak_session_pids := [100 \<mapsto> 3]\<rparr>)) 102 = Some 3"
  using daemonize_keeps_membership [of "init_kstate\<lparr>ak_session_pids := [100 \<mapsto> 3]\<rparr>"
      "[\<lparr>at_fork = pid_env 100, forked = \<lparr>child_pid = 101\<rparr>, at_exit = pid_env 100\<rparr>,
        \<lparr>at_fork = pid_env 101, forked = \<lparr>child_pid = 102\<rparr>, at_exit = pid_env 101\<rparr>]" 100 3]
  by (simp add: pid_env_def sample_env_def init_kstate_def ak_tgid_def)

section \<open>Task creation\<close>

text \<open>
  \<open>wake_up_new_task\<close> covers every clone flavour: when the creating process is a member and
  the write succeeds, the new task's process is a member with the same flags afterwards, whether
  it is a new process or a thread of the creator, and no other process's entry changes.
\<close>

lemma new_task_inherits:
  assumes "ak_self s (ak_tgid k) = None"
    and "ak_session_pids s (ak_tgid k) = Some f"
    and "k_update k M_session_pids (ucast (t_tgid p)) = 0"
  shows "ak_session_pids (ak_new_task k p s) = (ak_session_pids s)(t_tgid p \<mapsto> f)"
  using assms by (auto simp: ak_new_task_def ak_is_self_def map_update_def)

section \<open>Exit\<close>

text \<open>
  The exit of a thread other than the leader changes the session flags of no process: every
  task whose process id differs from the exiting thread's id is attributed as before.
\<close>

lemma thread_exit_keeps_processes:
  assumes "ucast (k_pid_tgid k) \<noteq> ak_tgid k'"
  shows "ak_session_flags k' (ak_proc_exit k s) = ak_session_flags k' s"
proof -
  have "ak_session_pids (ak_proc_exit k s) (ak_tgid k') = ak_session_pids s (ak_tgid k')"
    and "ak_sessions (ak_proc_exit k s) = ak_sessions s"
    using assms by (auto simp: ak_proc_exit_def Let_def)
  then show ?thesis by (simp add: ak_session_flags_def split: option.split)
qed

text \<open>
  The exit of a thread-group leader drops the whole process: the key deleted is the exiting
  task's id, which for the leader is the process id, so every other thread of the process that
  lives on (\<open>k'\<close>) has no session flags any more unless its cgroup is registered.
\<close>

lemma leader_exit_drops_process:
  assumes "ak_self s (ak_tgid k) = None"
    and "has (ak_session_flags k s) AK_SESS_MONITOR"
    and "ucast (k_pid_tgid k) = ak_tgid k"
    and "ak_tgid k' = ak_tgid k"
    and "ak_sessions s (k_cgroup_id k') = None"
  shows "ak_session_flags k' (ak_proc_exit k s) = 0"
  using assms by (simp add: ak_proc_exit_def ak_is_self_def Let_def ak_session_flags_def)

lemma leader_exit_drops_process_example:
  "ak_session_flags (sample_env\<lparr>k_pid_tgid := 0x6400000065\<rparr>)
     (init_kstate\<lparr>ak_session_pids := [100 \<mapsto> 3]\<rparr>) = 3 \<and>
   ak_session_flags (sample_env\<lparr>k_pid_tgid := 0x6400000065\<rparr>)
     (ak_proc_exit sample_env (init_kstate\<lparr>ak_session_pids := [100 \<mapsto> 3]\<rparr>)) = 0"
  using leader_exit_drops_process [of "init_kstate\<lparr>ak_session_pids := [100 \<mapsto> 3]\<rparr>" sample_env
      "sample_env\<lparr>k_pid_tgid := 0x6400000065\<rparr>"]
  by (simp add: sample_env_def init_kstate_def ak_tgid_def ak_session_flags_def has_def ak_const)

section \<open>Arming at execve\<close>

text \<open>The string of argument \<open>i\<close>, when both the pointer and the string can be read.\<close>

definition argv_name :: "kenv \<Rightarrow> u64 \<Rightarrow> nat \<Rightarrow> bytes option" where
  "argv_name k argv i =
     (let ap = (from_le (fit 8 (snd (k_read_user k (argv + 8 * of_nat i) 8))) :: u64)
      in if fst (k_read_user k (argv + 8 * of_nat i) 8) \<noteq> 0 \<or> ap = 0
            \<or> sint (fst (k_read_user_str k ap AK_MAX_STR)) \<le> 0 then None
         else Some (cstr (fit AK_MAX_STR (snd (k_read_user_str k ap AK_MAX_STR)))))"

definition sig_of :: "(u64 \<rightharpoonup> u32) \<Rightarrow> bytes \<Rightarrow> u32 option" where
  "sig_of sigs name = sigs (fnv1a (map lc (basename name)))"

lemma sig_of_basename:
  "length buf = AK_MAX_STR \<Longrightarrow> sigs (ak_fnv1a_basename buf) = sig_of sigs (cstr buf)"
  by (simp add: sig_of_def ak_fnv1a_basename_eq AK_BASENAME_MAX_def)

lemma argv_scan_Cons:
  "argv_scan k argv sigs (i # is) =
     (case Option.bind (argv_name k argv i) (sig_of sigs) of
        Some sv \<Rightarrow> Some sv | None \<Rightarrow> argv_scan k argv sigs is)"
  by (simp add: argv_name_def Let_def sig_of_basename split: prod.split)

text \<open>The flags of the first name that is a signature.\<close>

definition first_sig :: "(u64 \<rightharpoonup> u32) \<Rightarrow> bytes list \<Rightarrow> u32 option" where
  "first_sig sigs names =
     Option.bind (List.find (\<lambda>n. sig_of sigs n \<noteq> None) names) (sig_of sigs)"

lemma first_sig_simps [simp]:
  "first_sig sigs [] = None"
  "first_sig sigs (n # ns) = (case sig_of sigs n of Some sv \<Rightarrow> Some sv | None \<Rightarrow> first_sig sigs ns)"
  by (auto simp: first_sig_def split: option.split)

lemma argv_scan_eq:
  "argv_scan k argv sigs is = first_sig sigs (List.map_filter (argv_name k argv) is)"
  by (induction "is") (auto simp: argv_scan_Cons List.map_filter_simps simp del: argv_scan.simps(2)
      split: option.split)

text \<open>
  Arming at execve, as one priority rule: an already armed process keeps its flags;
  otherwise the flags of the first of the four leading arguments whose lower-cased basename
  hashes to a signature; otherwise those of the registered cgroup; otherwise those of the parent
  process. (Hypotheses: not AgentKnox itself, an argument vector, a successful write.)
\<close>

lemma execve_arming:
  assumes "ak_self s (ak_tgid k) = None"
    and "se_args ctx 1 \<noteq> 0"
    and "k_update k M_session_pids (ucast (ak_tgid k)) = 0"
  shows "ak_session_pids (ak_execve k ctx s) (ak_tgid k) =
     (case ak_session_pids s (ak_tgid k) of Some f \<Rightarrow> Some f
      | None \<Rightarrow>
          case first_sig (ak_agent_sigs s)
                 (List.map_filter (argv_name k (se_args ctx 1)) [0, 1, 2, 3]) of Some sv \<Rightarrow> Some sv
        | None \<Rightarrow> case ak_sessions s (k_cgroup_id k) of Some sv \<Rightarrow> Some sv
          | None \<Rightarrow> ak_session_pids s (t_tgid (k_parent k)))"
  using assms
  by (auto simp: ak_execve_def ak_is_self_def Let_def map_update_same argv_scan_eq
      simp del: argv_scan.simps split: option.split)

text \<open>A process outside every session runs \<open>node /usr/bin/Gemini\<close>; \<open>gemini\<close> is a signature.\<close>

definition argv_env :: kenv where
  "argv_env = sample_env\<lparr>
     k_read_user := (\<lambda>p n. (0, if p = 0x1008 then [0x50] else [0x40])),
     k_read_user_str := (\<lambda>p n. if p = 0x50 then (16, chars ''/usr/bin/Gemini'') else (5, chars ''node''))\<rparr>"

definition argv_state :: kstate where
  "argv_state = init_kstate\<lparr>ak_agent_sigs := [fnv1a (chars ''gemini'') \<mapsto> 3]\<rparr>"

lemma execve_arming_example:
  "ak_session_pids (ak_execve argv_env \<lparr>se_id = 59, se_args = (\<lambda>_. 0x1000)\<rparr> argv_state) 100 = Some 3"
proof -
  have "first_sig (ak_agent_sigs argv_state) (List.map_filter (argv_name argv_env 0x1000) [0, 1, 2, 3]) = Some 3"
  proof -
    have "argv_name argv_env 0x1000 0 = Some (chars ''node'')"
      "argv_name argv_env 0x1000 1 = Some (chars ''/usr/bin/Gemini'')"
      by (simp_all add: argv_name_def argv_env_def chars_def Let_def cstr_fit AK_MAX_STR_def fit_def [of 8])
    moreover have "fnv1a (map lc (basename (chars ''node''))) \<noteq> fnv1a (chars ''gemini'')"
      "map lc (basename (chars ''/usr/bin/Gemini'')) = chars ''gemini''"
      by code_simp+
    ultimately show ?thesis
      by (simp add: argv_state_def init_kstate_def sig_of_def List.map_filter_simps)
  qed
  moreover have "ak_self argv_state (ak_tgid argv_env) = None" "ak_tgid argv_env = 100"
    "k_update argv_env M_session_pids (ucast (ak_tgid argv_env)) = 0" "ak_session_pids argv_state 100 = None"
    by (simp_all add: argv_state_def argv_env_def sample_env_def init_kstate_def ak_tgid_def)
  ultimately show ?thesis
    using execve_arming [of argv_state argv_env "\<lparr>se_id = 59, se_args = (\<lambda>_. 0x1000)\<rparr>"] by simp
qed

end
