(* ===== verification/AK_DbBlock.thy ===== *)
theory AK_DbBlock
  imports AK_Stdio AK_Egress
begin

text \<open>
  The pre-operation block of a database query, across two programs: the syscall tracepoint marks
  the process (\<open>bpf/stdio.bpf.c\<close>), the \<open>socket_sendmsg\<close> hook that runs later in the same call
  consumes the mark and refuses (\<open>bpf/enforcer.bpf.c\<close>).
\<close>

text \<open>
  One \<open>sendto\<close> call: both \<open>sys_enter_sendto\<close> programs, then the LSM hook. One \<open>write\<close> call on a
  socket: the \<open>sys_enter_write\<close> program, then the hook.
\<close>

definition send_call :: "kenv \<Rightarrow> sys_enter_ctx \<Rightarrow> kstate \<Rightarrow> s32 \<times> kstate" where
  "send_call k ctx s = ak_lsm_socket_sendmsg k () 0 (ak_db_sendto k ctx (ak_sendto k ctx s))"

definition write_call :: "kenv \<Rightarrow> sys_enter_ctx \<Rightarrow> kstate \<Rightarrow> s32 \<times> kstate" where
  "write_call k ctx s = ak_lsm_socket_sendmsg k () 0 (ak_stdio_write k ctx s)"

lemma ak_sendto_frame [simp]:
  "ak_flags (ak_sendto k ctx s) = ak_flags s"
  "ak_self (ak_sendto k ctx s) = ak_self s"
  "ak_session_pids (ak_sendto k ctx s) = ak_session_pids s"
  "ak_sessions (ak_sendto k ctx s) = ak_sessions s"
  "ak_db_fds (ak_sendto k ctx s) = ak_db_fds s"
  "ak_db_scratch (ak_sendto k ctx s) = ak_db_scratch s"
  "ak_db_deny_tables (ak_sendto k ctx s) = ak_db_deny_tables s"
  "ak_db_deny_pending (ak_sendto k ctx s) = ak_db_deny_pending s"
  "ak_session_flags k' (ak_sendto k ctx s) = ak_session_flags k' s"
  by (simp_all add: ak_sendto_def emit_dns_def Let_def split: option.split prod.split)

lemma query_check_frame [simp]:
  "ak_flags (ak_db_query_check k tgid buf len s) = ak_flags s"
  "ak_session_flags k' (ak_db_query_check k tgid buf len s) = ak_session_flags k' s"
  by (simp_all add: ak_db_query_check_def Let_def split: option.split prod.split)

text \<open>A descriptor of an enforced member on which the block applies.\<close>

definition db_guarded :: "kenv \<Rightarrow> u64 \<Rightarrow> kstate \<Rightarrow> bool" where
  "db_guarded k fd s \<longleftrightarrow>
     enforced k s \<and> has (ak_flags_get s) AK_FLAG_DB_ARMED \<and> has (ak_flags_get s) AK_FLAG_DB_BLOCK_ARMED
     \<and> ak_db_fd s (ak_tgid k) fd \<and> wf_tables s \<and> ak_db_scratch s (k_cpu k) 0 \<noteq> None
     \<and> ak_db_deny_pending s (ak_tgid k) = None
     \<and> k_update k M_db_deny_pending (ucast (ak_tgid k)) = 0"

lemma enforced_not_self: "enforced k s \<Longrightarrow> \<not> ak_is_self k s"
  by (auto simp: enforced_def ak_session_flags_def ak_is_self_def split: if_splits)

lemma sendmsg_after_check:
  assumes "db_guarded k fd s"
    and "6 \<le> sint len" "k_read_user k buf (db_read_len len) = (0, b)" "length b = db_read_len len"
  shows "fst (ak_lsm_socket_sendmsg k () 0 (ak_db_query_check k (ak_tgid k) buf len s)) =
      (if denied_query s (db_window b) len then EPERM else 0)
    \<and> ak_db_deny_pending (snd (ak_lsm_socket_sendmsg k () 0 (ak_db_query_check k (ak_tgid k) buf len s)))
        (ak_tgid k) = None"
  using assms query_check_pending [of len s k buf b "ak_tgid k"]
  by (simp add: db_guarded_def enforced_def ak_lsm_socket_sendmsg_def Let_def ak_flags_get_def)

lemma db_guarded_cong:
  assumes "db_guarded k fd s"
    and "ak_flags s' = ak_flags s" "\<And>k. ak_session_flags k s' = ak_session_flags k s"
    and "ak_db_fds s' = ak_db_fds s" "ak_db_deny_tables s' = ak_db_deny_tables s"
    and "ak_db_scratch s' = ak_db_scratch s" "ak_db_deny_pending s' = ak_db_deny_pending s"
  shows "db_guarded k fd s' \<and> (denied_query s' w len = denied_query s w len)"
  using assms
  by (simp add: db_guarded_def enforced_def ak_flags_get_def ak_db_fd_def wf_tables_def denied_query_def)

lemma db_calls_verdict:
  fixes ctx :: sys_enter_ctx
  defines "buf \<equiv> se_args ctx 1" and "len \<equiv> (ucast (se_args ctx 2) :: s32)"
  assumes "db_guarded k (se_args ctx 0) s"
    and "6 \<le> sint len" "k_read_user k buf (db_read_len len) = (0, b)" "length b = db_read_len len"
  shows "fst (send_call k ctx s) = (if denied_query s (db_window b) len then EPERM else 0)
    \<and> ak_db_deny_pending (snd (send_call k ctx s)) (ak_tgid k) = None
    \<and> fst (write_call k ctx s) = (if denied_query s (db_window b) len then EPERM else 0)
    \<and> ak_db_deny_pending (snd (write_call k ctx s)) (ak_tgid k) = None"
proof -
  let ?e = "\<lambda>s. ak_emit_tls k (k_cgroup_id k) 0 buf len 0 s"
  have "db_guarded k (se_args ctx 0) (?e (ak_sendto k ctx s)) \<and>
      (denied_query (?e (ak_sendto k ctx s)) (db_window b) len = denied_query s (db_window b) len)"
    using assms(3) by (rule db_guarded_cong) simp_all
  moreover have "ak_db_sendto k ctx (ak_sendto k ctx s)
      = ak_db_query_check k (ak_tgid k) buf len (?e (ak_sendto k ctx s))"
    using assms(3) enforced_not_self [of k s]
    by (auto simp: db_guarded_def ak_db_sendto_def Let_def buf_def len_def ak_flags_get_def
        ak_is_self_def ak_db_fd_def)
  moreover have "db_guarded k (se_args ctx 0) (?e s) \<and>
      (denied_query (?e s) (db_window b) len = denied_query s (db_window b) len)"
    using assms(3) by (rule db_guarded_cong) simp_all
  moreover have "ak_stdio_write k ctx s = ak_db_query_check k (ak_tgid k) buf len (?e s)"
    using assms(3) enforced_not_self [of k s]
    by (auto simp: db_guarded_def ak_stdio_write_def Let_def buf_def len_def has_def
        bit.conj_disj_distrib or_eq_zero)
  ultimately show ?thesis
    using sendmsg_after_check [where fd = "se_args ctx 0", OF _ assms(4-6)]
    by (simp add: send_call_def write_call_def)
qed

text \<open>
  A denied query never reaches the server: on a registered database descriptor of an enforced
  member, with the block armed, a \<open>sendto\<close> and equally a \<open>write\<close> of a readable payload of at
  least 6 bytes is refused exactly when the payload names a denied table, and in both cases no
  mark is left behind, so the verdict of one send never affects the next.
\<close>

lemma db_send_verdict:
  fixes ctx :: sys_enter_ctx
  defines "buf \<equiv> se_args ctx 1" and "len \<equiv> (ucast (se_args ctx 2) :: s32)"
  assumes "db_guarded k (se_args ctx 0) s"
    and "6 \<le> sint len" "k_read_user k buf (db_read_len len) = (0, b)" "length b = db_read_len len"
  shows "fst (send_call k ctx s) = (if denied_query s (db_window b) len then EPERM else 0)
    \<and> ak_db_deny_pending (snd (send_call k ctx s)) (ak_tgid k) = None
    \<and> fst (write_call k ctx s) = (if denied_query s (db_window b) len then EPERM else 0)
    \<and> ak_db_deny_pending (snd (write_call k ctx s)) (ak_tgid k) = None"
  using assms(3-6) unfolding buf_def len_def by (rule db_calls_verdict)

definition db_state :: kstate where
  "db_state = users_state\<lparr>ak_session_pids := [100 \<mapsto> 3], ak_flags := [0 \<mapsto> 0xc],
     ak_db_fds := [fd_key32 100 5 \<mapsto> 1]\<rparr>"

definition query_ctx :: sys_enter_ctx where
  "query_ctx = \<lparr>se_id = 44, se_args = (\<lambda>i. if i = 0 then 5 else if i = 1 then 0x1000 else if i = 2 then 24 else 0)\<rparr>"

lemma db_send_verdict_example:
  "fst (send_call query_env query_ctx db_state) = EPERM \<and> fst (write_call query_env query_ctx db_state) = EPERM"
proof -
  have t: "ak_tgid query_env = 100" "k_cpu query_env = 0" "k_update query_env M x = 0" for M x
    by (simp_all add: query_env_def sample_env_def ak_tgid_def)
  have "db_guarded query_env (se_args query_ctx 0) db_state"
    using users_tables
    by (simp add: db_guarded_def t enforced_def ak_session_flags_def ak_flags_get_def ak_db_fd_def wf_tables_def
        db_state_def query_ctx_def users_state_def init_kstate_def has_def ak_const)
  moreover have "denied_query db_state (db_window users_query) 24"
    using users_denied by (simp add: denied_query_def db_state_def)
  moreover have "length users_query = 24" by (simp add: users_query_def chars_def)
  ultimately show ?thesis
    using db_send_verdict [of query_env query_ctx db_state users_query]
    by (simp add: query_ctx_def query_env_def db_read_len_def)
qed

end
