(* ===== verification/AK_Evolves.thy ===== *)
theory AK_Evolves
  imports AK_Process AK_Trace AK_DbBlock
begin

text \<open>
  What no BPF program ever does to the shared maps. \<open>evolves s t\<close> says that \<open>t\<close> can follow \<open>s\<close>:
  the policy tables the daemon installs are the same, the rings only grew, no provenance bit, no
  posture bit and no control flag was cleared, and the array maps still have their slots. It is a preorder, every
  helper respects it, and so does every program.
\<close>

section \<open>The relation\<close>

definition policy where
  "policy s = (ak_enforce_file s, ak_enforce_dir s, ak_enforce_net s, ak_enforce_net6 s,
     ak_agent_sigs s, ak_sensitive_files s, ak_db_deny_tables s, ak_self s, ak_sessions s, ak_mcp_fds s)"

definition wf_arrays :: "kstate \<Rightarrow> bool" where
  "wf_arrays s \<longleftrightarrow>
     (\<forall>cpu. \<exists>b. ak_path_scratch s cpu 0 = Some b \<and> length b = AK_PATH_MAX)
     \<and> (\<forall>cpu. \<exists>b. ak_db_scratch s cpu 0 = Some b \<and> length b = AK_DB_SCAN)
     \<and> (\<forall>cpu slot. slot < AK_ERR_SLOTS \<longrightarrow> ak_errors s cpu slot \<noteq> None)
     \<and> ak_flags s 0 \<noteq> None"

text \<open>Every bit set in the first map is set in the second.\<close>

definition bits_le :: "('k \<rightharpoonup> u32) \<Rightarrow> ('k \<rightharpoonup> u32) \<Rightarrow> bool" where
  "bits_le m m' \<longleftrightarrow> (\<forall>x b. opt_has (m x) b \<longrightarrow> opt_has (m' x) b)"

definition evolves :: "kstate \<Rightarrow> kstate \<Rightarrow> bool" where
  "evolves s t \<longleftrightarrow> policy t = policy s
     \<and> prefix (ak_events s) (ak_events t) \<and> prefix (ak_semantic s) (ak_semantic t)
     \<and> bits_le (ak_taint_inode s) (ak_taint_inode t) \<and> bits_le (ak_posture s) (ak_posture t)
     \<and> bits_le (ak_flags s) (ak_flags t)
     \<and> (wf_arrays s \<longrightarrow> wf_arrays t)"

named_theorems ak_evolves \<open>steps that respect \<open>evolves\<close>\<close>

lemma bits_le_refl [simp]: "bits_le m m"
  by (simp add: bits_le_def)

lemma evolves_refl [simp, ak_evolves]: "evolves s s"
  by (simp add: evolves_def)

lemma evolves_trans: "evolves s t \<Longrightarrow> evolves t u \<Longrightarrow> evolves s u"
  unfolding evolves_def bits_le_def by (metis prefix_order.trans)

text \<open>Branches of a program.\<close>

lemma evolves_if [ak_evolves]: "evolves s t \<Longrightarrow> evolves s u \<Longrightarrow> evolves s (if P then t else u)"
  by simp

lemma evolves_option [ak_evolves]:
  "evolves s t \<Longrightarrow> (\<And>x. evolves s (u x)) \<Longrightarrow> evolves s (case p of None \<Rightarrow> t | Some x \<Rightarrow> u x)"
  by (simp split: option.split)

lemma evolves_prod [ak_evolves]:
  "(\<And>x y. evolves s (u x y)) \<Longrightarrow> evolves s (case p of (x, y) \<Rightarrow> u x y)"
  by (simp split: prod.split)

text \<open>Maps that \<open>evolves\<close> does not speak of.\<close>

lemma evolves_update [ak_evolves]:
  "evolves s t \<Longrightarrow> evolves s (t\<lparr>ak_session_pids := m1\<rparr>)"
  "evolves s t \<Longrightarrow> evolves s (t\<lparr>ak_taint_files := m2\<rparr>)"
  "evolves s t \<Longrightarrow> evolves s (t\<lparr>ak_pipe_read_args := m3\<rparr>)"
  "evolves s t \<Longrightarrow> evolves s (t\<lparr>ak_dns_fds := m4\<rparr>)"
  "evolves s t \<Longrightarrow> evolves s (t\<lparr>ak_dns_read_args := m3\<rparr>)"
  "evolves s t \<Longrightarrow> evolves s (t\<lparr>ak_db_fds := m4\<rparr>)"
  "evolves s t \<Longrightarrow> evolves s (t\<lparr>ak_db_deny_pending := m5\<rparr>)"
  "evolves s t \<Longrightarrow> evolves s (t\<lparr>ak_ssl_read_args := m6\<rparr>)"
  "evolves s t \<Longrightarrow> evolves s (t\<lparr>ak_go_read_args := m6\<rparr>)"
  "evolves s t \<Longrightarrow> evolves s (t\<lparr>ak_aead_open_args := m7\<rparr>)"
  "evolves s t \<Longrightarrow> evolves s (t\<lparr>ak_asm_out_args := m8\<rparr>)"
  by (simp_all add: evolves_def policy_def wf_arrays_def)

lemma evolves_events [ak_evolves]:
  "evolves s t \<Longrightarrow> evolves s (t\<lparr>ak_events := ak_events t @ rs\<rparr>)"
  "evolves s t \<Longrightarrow> evolves s (t\<lparr>ak_semantic := ak_semantic t @ rs'\<rparr>)"
  by (auto simp: evolves_def policy_def wf_arrays_def intro: prefix_order.trans)

section \<open>Helpers\<close>

lemma evolves_step: "evolves t t' \<Longrightarrow> evolves s t \<Longrightarrow> evolves s t'"
  by (rule evolves_trans)

lemma emit_rec_evolves: "evolves t (emit_rec k cgid sid cat ret str t)"
  by (auto simp: emit_rec_def Let_def intro!: ak_evolves split: option.split)

lemma bump_err_evolves: "evolves t (ak_bump_err k slot t)"
  by (auto simp: ak_bump_err_def evolves_def policy_def wf_arrays_def split: option.split)

lemma path_resolve_evolves: "evolves t (snd (ak_path_resolve k p t))"
proof -
  have "evolves t (t\<lparr>ak_path_scratch := (ak_path_scratch t)
      (c := (ak_path_scratch t c)(0 \<mapsto> fit AK_PATH_MAX b))\<rparr>)" for c b
    by (auto simp: evolves_def policy_def wf_arrays_def)
  then show ?thesis
    by (auto simp: ak_path_resolve_def Let_def intro: evolves_step [OF bump_err_evolves]
        split: option.split prod.split)
qed

lemma flags_or_bit_evolves: "evolves t (ak_flags_or_bit k b t)"
  by (auto simp: ak_flags_or_bit_def evolves_def policy_def wf_arrays_def map_update_def bits_le_def has_or
      split: option.split)

lemma emit_tls_evolves: "evolves t (ak_emit_tls k cgid dir buf len conn t)"
  by (auto simp: ak_emit_tls_def Let_def intro!: ak_evolves split: option.split prod.split)

lemma emit_dns_evolves: "evolves t (emit_dns k cgid sid buf len t)"
  by (auto simp: emit_dns_def Let_def intro!: ak_evolves split: option.split prod.split)

lemma query_check_evolves: "evolves t (ak_db_query_check k tgid buf len t)"
proof -
  have put: "evolves t (t\<lparr>ak_db_scratch := (ak_db_scratch t)(c := (ak_db_scratch t c)(0 \<mapsto> w))\<rparr>)"
    if "length w = AK_DB_SCAN" for c w
    using that by (auto simp: evolves_def policy_def wf_arrays_def)
  show ?thesis
    unfolding ak_db_query_check_def Let_def
    by (intro ak_evolves evolves_step [OF bump_err_evolves] put) simp_all
qed

lemmas evolves_helpers [ak_evolves] =
  emit_rec_evolves [THEN evolves_step] bump_err_evolves [THEN evolves_step]
  path_resolve_evolves [THEN evolves_step] flags_or_bit_evolves [THEN evolves_step]
  emit_tls_evolves [THEN evolves_step] emit_dns_evolves [THEN evolves_step]
  query_check_evolves [THEN evolves_step]

lemma evolves_emit [ak_evolves]:
  "evolves s t \<Longrightarrow> evolves s (ak_emit k cgid sid cat ret res t)"
  "evolves s t \<Longrightarrow> evolves s (ak_emit_kstr k cgid sid cat ret res' t)"
  "evolves s t \<Longrightarrow> evolves s (ak_emit_unresolved k cgid sid cat t)"
  "evolves s t \<Longrightarrow> evolves s (ak_emit_arm_fault k cgid t)"
  "evolves s t \<Longrightarrow> evolves s (arm_pid k tgid sv t)"
  by (auto simp: ak_emit_def ak_emit_kstr_def ak_emit_unresolved_def ak_emit_arm_fault_def arm_pid_def
      Let_def intro!: ak_evolves)

section \<open>Programs\<close>

lemma process_evolves:
  "evolves s (ak_execve k c s)" "evolves s (ak_execveat k c s)" "evolves s (ak_proc_fork k fc s)"
  "evolves s (ak_new_task k p s)" "evolves s (ak_proc_exit k s)"
  unfolding ak_execve_def ak_execveat_def ak_proc_fork_def ak_new_task_def ak_proc_exit_def Let_def
  by (intro ak_evolves)+

lemma observers_evolve:
  "evolves s (ak_openat k c s)" "evolves s (ak_openat2 k c s)" "evolves s (ak_unlinkat k c s)"
  "evolves s (ak_unlink k c s)" "evolves s (ak_renameat2 k c s)" "evolves s (ak_rename k c s)"
  "evolves s (ak_mkdirat k c s)" "evolves s (ak_fchmodat k c s)" "evolves s (ak_fchownat k c s)"
  "evolves s (ak_ptrace k c s)" "evolves s (ak_kill k c s)" "evolves s (ak_setuid k c s)"
  "evolves s (ak_setreuid k c s)" "evolves s (ak_io_uring_submit k ic s)"
proof -
  have ob: "evolves s (prog k c s)" if o: "observer prog" for prog :: "kenv \<Rightarrow> 'c \<Rightarrow> kstate \<Rightarrow> kstate" and c
  proof -
    obtain rs where "ak_events (prog k c s) = ak_events s @ rs" using observer.appends [OF o] by blast
    then have "prog k c s = s\<lparr>ak_events := ak_events s @ rs\<rparr>" using observer.only_events [OF o] by metis
    then show ?thesis by (simp add: ak_evolves)
  qed
  show "evolves s (ak_openat k c s)" "evolves s (ak_openat2 k c s)" "evolves s (ak_unlinkat k c s)"
    "evolves s (ak_unlink k c s)" "evolves s (ak_renameat2 k c s)" "evolves s (ak_rename k c s)"
    "evolves s (ak_mkdirat k c s)" "evolves s (ak_fchmodat k c s)" "evolves s (ak_fchownat k c s)"
    "evolves s (ak_ptrace k c s)" "evolves s (ak_kill k c s)" "evolves s (ak_setuid k c s)"
    "evolves s (ak_setreuid k c s)" "evolves s (ak_io_uring_submit k ic s)"
    by (intro ob; unfold_locales)+
qed

lemma network_evolves:
  "evolves s (ak_connect k c s)" "evolves s (ak_sendto k c s)"
  "evolves s (ak_recvfrom_enter k c s)" "evolves s (ak_recvfrom_exit k x s)"
  "evolves s (ak_recvmsg_enter k c s)" "evolves s (ak_recvmsg_exit k x s)"
  unfolding ak_connect_def ak_sendto_def ak_recvfrom_enter_def ak_recvfrom_exit_def
    ak_recvmsg_enter_def ak_recvmsg_exit_def Let_def
  by (intro ak_evolves)+

lemma semantic_evolves:
  "evolves s (ak_ssl_write k ssl buf num s)" "evolves s (ak_ssl_read_enter k a s)"
  "evolves s (ak_ssl_read_exit k ret s)" "evolves s (ak_gotls_write k rg s)"
  "evolves s (ak_gotls_read_enter k rg s)" "evolves s (ak_gotls_read_ret k rg s)"
  "evolves s (ak_aead_open_enter k a s)" "evolves s (ak_aead_open_exit k ret s)"
  "evolves s (ak_aead_seal k rg s)"
  unfolding ak_ssl_write_def ak_ssl_read_enter_def ak_ssl_read_exit_def ak_gotls_write_def
    ak_gotls_read_enter_def ak_gotls_read_ret_def ak_aead_open_enter_def ak_aead_open_exit_def
    ak_aead_seal_def Let_def split_def
  by (intro ak_evolves)+

lemma asm_evolves:
  "evolves s (ak_chacha_open_enter k b s)" "evolves s (ak_chacha_open_exit k u s)"
  "evolves s (ak_chacha_seal k inp n dat s)"
  "evolves s (ak_aesgcm_dec_enter k b s)" "evolves s (ak_aesgcm_dec_exit k ret s)"
  "evolves s (ak_aesgcm_enc k inp n key s)" "evolves s (ak_aesgcm512_enc k key inp n s)"
  "evolves s (ak_aesgcm512_dec_enter k b s)" "evolves s (ak_aesgcm512_dec_exit k u s)"
  unfolding asm_defs ak_chacha_seal_def ak_aesgcm_enc_def ak_aesgcm512_enc_def Let_def split_def
  by (intro ak_evolves)+

lemma stdio_evolves:
  "evolves s (ak_stdio_write k c s)" "evolves s (ak_db_sendto k c s)"
  "evolves s (ak_stdio_read_enter k c s)" "evolves s (ak_stdio_read_exit k x s)"
  unfolding ak_stdio_write_def ak_db_sendto_def ak_stdio_read_enter_def ak_stdio_read_exit_def Let_def
  by (intro ak_evolves)+

section \<open>Hooks\<close>

lemma evolves_snd [ak_evolves]:
  "evolves s (snd x) \<Longrightarrow> evolves s (snd y) \<Longrightarrow> evolves s (snd (if P then x else y))"
  "evolves s (snd x) \<Longrightarrow> (\<And>v. evolves s (snd (f v))) \<Longrightarrow> evolves s (snd (case p of None \<Rightarrow> x | Some v \<Rightarrow> f v))"
  "evolves s t \<Longrightarrow> evolves s (snd (v, t))"
  by (simp_all split: option.split)

lemma bits_le_or: "m x \<in> {None, Some v} \<Longrightarrow> bits_le m (m(x \<mapsto> v OR w))"
  by (auto simp: bits_le_def has_or)

lemma inode_create_old: "inode_storage_get_create k s ino = Some iv \<Longrightarrow> ak_taint_inode s ino \<in> {None, Some iv}"
  by (auto simp: inode_storage_get_create_def split: option.splits)

lemma set_inode_evolves [ak_evolves]:
  assumes "evolves s t"
  shows "evolves s (case inode_storage_get_create k t ino of None \<Rightarrow> t
      | Some iv \<Rightarrow> t\<lparr>ak_taint_inode := (ak_taint_inode t)(ino \<mapsto> iv OR w)\<rparr>)"
proof (cases "inode_storage_get_create k t ino")
  case (Some iv)
  have "bits_le (ak_taint_inode t) ((ak_taint_inode t)(ino \<mapsto> iv OR w))"
    using Some by (intro bits_le_or inode_create_old)
  then have "evolves t (t\<lparr>ak_taint_inode := (ak_taint_inode t)(ino \<mapsto> iv OR w)\<rparr>)"
    by (simp add: evolves_def policy_def wf_arrays_def)
  with assms Some show ?thesis by (auto intro: evolves_trans)
qed (use assms in simp)

lemma taint_write_evolves: "evolves t (ak_taint_write k buf flags cgid file t)"
  unfolding ak_taint_write_def Let_def
  by (intro evolves_refl evolves_if set_inode_evolves evolves_update bump_err_evolves [THEN evolves_step])

lemma set_posture_evolves:
  "evolves t (t\<lparr>ak_posture := map_update k M_posture cg
     ((case ak_posture t cg of None \<Rightarrow> 0 | Some v \<Rightarrow> v) OR w) (ak_posture t)\<rparr>)"
proof -
  have "bits_le m (m(cg \<mapsto> (case m cg of None \<Rightarrow> 0 | Some v \<Rightarrow> v) OR w))" for m :: "u64 \<rightharpoonup> u32"
    by (auto simp: bits_le_def has_or elim!: opt_hasE)
  then show ?thesis by (simp add: evolves_def policy_def wf_arrays_def map_update_def)
qed

lemma arm_egress_evolves: "evolves t (snd (arm_egress k flags t))"
  unfolding arm_egress_def Let_def
  by (intro ak_evolves set_posture_evolves [THEN evolves_step])

lemmas evolves_hook_helpers [ak_evolves] =
  taint_write_evolves [THEN evolves_step] arm_egress_evolves [THEN evolves_step]

lemma enforce_helpers_evolve [ak_evolves]:
  "evolves s t \<Longrightarrow> evolves s (snd (ak_enforce_path k p opn t))"
  "evolves s t \<Longrightarrow> evolves s (snd (ak_enforce_dentry k dir de opn t))"
  "evolves s t \<Longrightarrow> evolves s (rename_taint k od oe nd ne t)"
  unfolding ak_enforce_path_def ak_enforce_dentry_def rename_taint_def resolve_simps Let_def
  by (intro ak_evolves; assumption)+

lemma bprm_evolves: "evolves s (snd (ak_lsm_bprm k bprm ret s))"
proof -
  have arm: "evolves t (snd (bprm_arm k sv flags t))" for sv flags t
    unfolding bprm_arm_def Let_def by (intro ak_evolves)
  have a1: "evolves t (snd (bprm_arm_sig k bprm flags t))" for flags t
    unfolding bprm_arm_sig_def Let_def split_def by (intro ak_evolves arm)
  have a2: "evolves t (snd (bprm_arm_parent k flags t))" for flags t
    unfolding bprm_arm_parent_def by (intro ak_evolves arm)
  have m: "evolves t (snd (bprm_mediate k bprm armed flags t))" for armed flags t
    unfolding bprm_mediate_def Let_def resolve_simps by (intro ak_evolves)
  show ?thesis
  proof (cases "bprm_arm_sig k bprm (ak_session_flags k s) s")
    case (Pair o1 s1)
    have s1: "evolves s s1" using a1 [where t = s] Pair by (metis snd_conv)
    then have "evolves s (snd (case bprm_arm_parent k f s1 of
        (None, s2) \<Rightarrow> (EPERM, s2) | (Some f2, s2) \<Rightarrow> bprm_mediate k bprm armed f2 s2))" for f armed
    proof (cases "bprm_arm_parent k f s1")
      case (Pair o2 s2)
      have "evolves s s2" using a2 [of s1 f] Pair s1 by (auto intro: evolves_trans)
      with Pair m show ?thesis by (auto intro: evolves_trans split: option.split)
    qed
    with Pair s1 show ?thesis by (simp add: ak_lsm_bprm_def Let_def split: option.split)
  qed
qed

lemma hooks_evolve:
  "evolves s (snd (ak_lsm_file_open k file ret s))" "evolves s (snd (ak_lsm_path_chmod k p ret s))"
  "evolves s (snd (ak_lsm_path_chown k p ret s))" "evolves s (snd (ak_lsm_path_truncate k p ret s))"
  "evolves s (snd (ak_lsm_path_unlink k e ret s))" "evolves s (snd (ak_lsm_path_rmdir k e ret s))"
  "evolves s (snd (ak_lsm_path_rename k a ret s))" "evolves s (snd (ak_lsm_socket_connect k addr ret s))"
  "evolves s (snd (ak_lsm_socket_sendmsg k u ret s))" "evolves s (snd (ak_lsm_task_kill k tk ret s))"
  "evolves s (snd (ak_lsm_ptrace k tsk ret s))"
  unfolding ak_lsm_file_open_def ak_lsm_path_chmod_def ak_lsm_path_chown_def ak_lsm_path_truncate_def
    ak_lsm_path_unlink_def ak_lsm_path_rmdir_def ak_lsm_path_rename_def ak_lsm_socket_connect_def
    ak_lsm_socket_sendmsg_def ak_lsm_task_kill_def ak_lsm_ptrace_def Let_def resolve_simps
  by (intro ak_evolves)+

end
