(* ===== verification/AK_ProcTree.thy ===== *)
theory AK_ProcTree
  imports AK_Prelude
begin

text \<open>
  The process tree as the daemon reads it from \<open>/proc\<close> (\<open>internal/enforce/enforce.go\<close>:
  \<open>ppidOf\<close>, \<open>descendantsOf\<close>, \<open>sessionPids\<close>): parsing a status file, the walk over the parent
  links, and the pids of a session. The walk keeps an explicit stack; it is a function whose
  termination is proved, and it yields exactly the descendants, each once.
\<close>

section \<open>Reading a status file\<close>

text \<open>\<open>strings.Split(s, "\n")\<close> and \<open>strings.Fields\<close> on ASCII bytes.\<close>

definition newline :: u8 where "newline = 0x0a"

fun split_lines :: "bytes \<Rightarrow> bytes list" where
  "split_lines [] = [[]]"
| "split_lines (c # cs) =
     (if c = newline then [] # split_lines cs
      else case split_lines cs of [] \<Rightarrow> [[c]] | l # ls \<Rightarrow> (c # l) # ls)"

definition go_space :: "u8 \<Rightarrow> bool" where
  "go_space c \<longleftrightarrow> c \<in> {0x20, 0x09, 0x0a, 0x0b, 0x0c, 0x0d}"

text \<open>\<open>acc\<close> is the field being read, in reverse.\<close>

fun fields_loop :: "bytes \<Rightarrow> bytes \<Rightarrow> bytes list" where
  "fields_loop acc [] = (if acc = [] then [] else [rev acc])"
| "fields_loop acc (c # cs) =
     (if go_space c then (if acc = [] then fields_loop [] cs else rev acc # fields_loop [] cs)
      else fields_loop (c # acc) cs)"

definition Fields :: "bytes \<Rightarrow> bytes list" where
  "Fields s = fields_loop [] s"

text \<open>\<open>strconv.Atoi\<close> on a 64-bit platform: an optional sign, digits, and the range of \<open>int\<close>.\<close>

definition digit :: "u8 \<Rightarrow> bool" where
  "digit c \<longleftrightarrow> 0x30 \<le> c \<and> c \<le> 0x39"

fun digits_val :: "int \<Rightarrow> bytes \<Rightarrow> int option" where
  "digits_val acc [] = Some acc"
| "digits_val acc (c # cs) = (if digit c then digits_val (acc * 10 + (uint c - 0x30)) cs else None)"

definition Atoi :: "bytes \<Rightarrow> int option" where
  "Atoi s =
     (let neg = s \<noteq> [] \<and> hd s = 0x2d;
          ds = (if s \<noteq> [] \<and> hd s \<in> {0x2b, 0x2d} then tl s else s)
      in if ds = [] then None
         else case digits_val 0 ds of
           None \<Rightarrow> None
         | Some v \<Rightarrow>
             let n = (if neg then - v else v)
             in if - (2 ^ 63) \<le> n \<and> n < 2 ^ 63 then Some n else None)"

definition ppid_line :: "bytes \<Rightarrow> bool" where
  "ppid_line l \<longleftrightarrow> take 5 l = chars ''PPid:''"

text \<open>The first line with the prefix decides; \<open>int32(v)\<close> keeps the low 32 bits.\<close>

fun ppid_scan :: "bytes list \<Rightarrow> s32" where
  "ppid_scan [] = 0"
| "ppid_scan (l # ls) =
     (if ppid_line l then
        (let f = Fields l
         in if length f = 2 then (case Atoi (f ! 1) of Some v \<Rightarrow> of_int v | None \<Rightarrow> 0) else 0)
      else ppid_scan ls)"

definition ppidOf :: "(s32 \<Rightarrow> bytes option) \<Rightarrow> s32 \<Rightarrow> s32" where
  "ppidOf status pid = (case status pid of None \<Rightarrow> 0 | Some b \<Rightarrow> ppid_scan (split_lines b))"

section \<open>The walk\<close>

text \<open>
  What \<open>/proc\<close> holds: the entries of the directory in the order read (\<open>None\<close> when it cannot be
  read), each a name and whether it is a directory, and the contents of the status files.
\<close>

record procfs =
  proc_entries :: "(bytes \<times> bool) list option"
  proc_status :: "s32 \<Rightarrow> bytes option"

definition proc_pids :: "procfs \<Rightarrow> s32 list" where
  "proc_pids pf =
     (case proc_entries pf of
        None \<Rightarrow> []
      | Some es \<Rightarrow> List.map_filter (\<lambda>(name, dir). if dir then map_option of_int (Atoi name) else None) es)"

definition children :: "procfs \<Rightarrow> s32 \<Rightarrow> s32 list" where
  "children pf p = filter (\<lambda>c. 0 <s ppidOf (proc_status pf) c \<and> ppidOf (proc_status pf) c = p) (proc_pids pf)"

text \<open>One child is seen or pushed. The stack's head is the end of the Go slice.\<close>

record walk =
  w_stack :: "s32 list"
  w_seen :: "s32 set"
  w_out :: "s32 list"

definition visit :: "s32 \<Rightarrow> walk \<Rightarrow> walk" where
  "visit c w = (if c \<in> w_seen w then w
     else \<lparr>w_stack = c # w_stack w, w_seen = insert c (w_seen w), w_out = w_out w @ [c]\<rparr>)"

definition pop_visit :: "procfs \<Rightarrow> walk \<Rightarrow> walk" where
  "pop_visit pf w = fold visit (children pf (hd (w_stack w))) (w\<lparr>w_stack := tl (w_stack w)\<rparr>)"

text \<open>Each turn pops one pid and pushes only pids not seen before.\<close>

definition walk_left :: "procfs \<Rightarrow> walk \<Rightarrow> nat" where
  "walk_left pf w = length (w_stack w) + card (set (proc_pids pf) - w_seen w)"

lemma visit_left:
  assumes "c \<in> set (proc_pids pf)"
  shows "walk_left pf (visit c w) = walk_left pf w"
proof (cases "c \<in> w_seen w")
  case False
  have "set (proc_pids pf) - w_seen w = insert c (set (proc_pids pf) - insert c (w_seen w))"
    using assms False by auto
  then have "card (set (proc_pids pf) - w_seen w) = Suc (card (set (proc_pids pf) - insert c (w_seen w)))"
    by (metis Diff_iff List.finite_set card_insert_disjoint finite_Diff insertI1)
  with False show ?thesis by (simp add: visit_def walk_left_def)
qed (simp add: visit_def)

lemma visits_left:
  "set cs \<subseteq> set (proc_pids pf) \<Longrightarrow> walk_left pf (fold visit cs w) = walk_left pf w"
  by (induction cs arbitrary: w) (simp_all add: visit_left)

lemma children_pids: "set (children pf p) \<subseteq> set (proc_pids pf)"
  by (auto simp: children_def)

lemma pop_visit_left: "w_stack w \<noteq> [] \<Longrightarrow> walk_left pf (pop_visit pf w) < walk_left pf w"
  by (cases "w_stack w") (simp_all add: pop_visit_def visits_left children_pids, simp add: walk_left_def)

function walk_loop :: "procfs \<Rightarrow> walk \<Rightarrow> s32 list" where
  "walk_loop pf w = (if w_stack w = [] then w_out w else walk_loop pf (pop_visit pf w))"
  by pat_completeness auto
termination
  by (relation "measure (\<lambda>(pf, w). walk_left pf w)") (simp_all add: pop_visit_left)

declare walk_loop.simps [simp del]

definition descendantsOf :: "procfs \<Rightarrow> s32 \<Rightarrow> s32 list" where
  "descendantsOf pf root =
     (if proc_entries pf = None then []
      else walk_loop pf \<lparr>w_stack = [root], w_seen = {root}, w_out = []\<rparr>)"

section \<open>The pids of a session\<close>

definition add_pid :: "s32 \<Rightarrow> s32 list \<Rightarrow> s32 list" where
  "add_pid p out = (if 1 <s p \<and> p \<notin> set out then out @ [p] else out)"

definition sessionPids :: "procfs \<Rightarrow> s32 \<Rightarrow> s32 list \<Rightarrow> s32 list" where
  "sessionPids pf root members =
     fold add_pid (descendantsOf pf root) (fold add_pid members (add_pid root []))"

section \<open>The walk finds the descendants\<close>

definition child_rel :: "procfs \<Rightarrow> (s32 \<times> s32) set" where
  "child_rel pf = {(p, c). c \<in> set (children pf p)}"

lemma visits:
  "w_seen (fold visit cs w) = w_seen w \<union> set cs"
  "set (w_stack (fold visit cs w)) = set (w_stack w) \<union> (set cs - w_seen w)"
  by (induction cs arbitrary: w) (auto simp: visit_def)

lemma visits_out:
  assumes "set (w_out w) = w_seen w - {r}" "distinct (w_out w)" "r \<in> w_seen w"
  shows "set (w_out (fold visit cs w)) = w_seen (fold visit cs w) - {r} \<and> distinct (w_out (fold visit cs w))"
  using assms
proof (induction cs arbitrary: w)
  case (Cons c cs)
  have "set (w_out (visit c w)) = w_seen (visit c w) - {r}" "distinct (w_out (visit c w))" "r \<in> w_seen (visit c w)"
    using Cons.prems by (auto simp: visit_def)
  with Cons.IH [of "visit c w"] show ?case by simp
qed simp

text \<open>
  The invariant: what was put out is what was seen but the root, without repetition; everything
  seen descends from the root; and the children of a pid that left the stack have been seen.
\<close>

definition walk_inv :: "procfs \<Rightarrow> s32 \<Rightarrow> walk \<Rightarrow> bool" where
  "walk_inv pf r w \<longleftrightarrow>
     r \<in> w_seen w \<and> set (w_out w) = w_seen w - {r} \<and> distinct (w_out w)
     \<and> w_seen w \<subseteq> (child_rel pf)\<^sup>* `` {r} \<and> set (w_stack w) \<subseteq> w_seen w
     \<and> (\<forall>p \<in> w_seen w - set (w_stack w). set (children pf p) \<subseteq> w_seen w)"

lemma pop_visit_inv:
  assumes "walk_inv pf r w" "w_stack w = p # st"
  shows "walk_inv pf r (pop_visit pf w)"
proof -
  let ?w = "w\<lparr>w_stack := st\<rparr>" and ?cs = "children pf p"
  have w: "pop_visit pf w = fold visit ?cs ?w" by (simp add: pop_visit_def assms(2))
  have p: "p \<in> w_seen w" using assms by (auto simp: walk_inv_def)
  have "set ?cs \<subseteq> (child_rel pf)\<^sup>* `` {r}"
  proof
    fix c assume "c \<in> set ?cs"
    then have "(p, c) \<in> child_rel pf" by (simp add: child_rel_def)
    moreover have "(r, p) \<in> (child_rel pf)\<^sup>*" using assms(1) p by (auto simp: walk_inv_def)
    ultimately show "c \<in> (child_rel pf)\<^sup>* `` {r}" by (simp add: rtrancl.rtrancl_into_rtrancl)
  qed
  moreover have "set (w_out (fold visit ?cs ?w)) = w_seen (fold visit ?cs ?w) - {r} \<and> distinct (w_out (fold visit ?cs ?w))"
    using assms(1) by (intro visits_out) (auto simp: walk_inv_def)
  moreover have "\<forall>q \<in> (w_seen w \<union> set ?cs) - (set st \<union> (set ?cs - w_seen w)). set (children pf q) \<subseteq> w_seen w \<union> set ?cs"
    using assms by (auto simp: walk_inv_def)
  ultimately show ?thesis
    unfolding w using assms by (auto simp: walk_inv_def visits)
qed

lemma walk_loop_inv:
  assumes "walk_inv pf r w"
  shows "set (walk_loop pf w) = (child_rel pf)\<^sup>* `` {r} - {r} \<and> distinct (walk_loop pf w)"
  using assms
proof (induction pf w rule: walk_loop.induct)
  case (1 pf w)
  show ?case
  proof (cases "w_stack w")
    case Nil
    have "(child_rel pf) `` w_seen w \<subseteq> w_seen w"
      using 1(2) Nil by (auto simp: walk_inv_def child_rel_def)
    then have "(child_rel pf)\<^sup>* `` w_seen w = w_seen w" by (rule Image_closed_trancl)
    moreover have "r \<in> w_seen w" using 1(2) by (simp add: walk_inv_def)
    ultimately have "(child_rel pf)\<^sup>* `` {r} \<subseteq> w_seen w" by blast
    with 1(2) Nil show ?thesis by (subst (1 2) walk_loop.simps) (auto simp: walk_inv_def)
  next
    case (Cons p st)
    with 1 pop_visit_inv show ?thesis by (subst (1 2) walk_loop.simps) simp
  qed
qed

lemma descendants_closure:
  assumes "proc_entries pf \<noteq> None"
  shows "set (descendantsOf pf root) = {c. (root, c) \<in> (child_rel pf)\<^sup>+ \<and> c \<noteq> root}
    \<and> distinct (descendantsOf pf root)"
proof -
  have "walk_inv pf root \<lparr>w_stack = [root], w_seen = {root}, w_out = []\<rparr>"
    by (auto simp: walk_inv_def)
  moreover have "(child_rel pf)\<^sup>* `` {root} - {root} = {c. (root, c) \<in> (child_rel pf)\<^sup>+ \<and> c \<noteq> root}"
    by (auto dest: rtranclD trancl_into_rtrancl)
  ultimately show ?thesis
    using walk_loop_inv [of pf root] assms by (auto simp: descendantsOf_def simp del: not_None_eq)
qed

text \<open>
  C26. The walk over \<open>/proc\<close> terminates, whatever the parent links say (a cycle included), and
  returns exactly the descendants of the root in the listing, each once, the root itself never.
\<close>

theorem descendants_exact:
  assumes "proc_entries pf \<noteq> None"
  shows "set (descendantsOf pf root) = {c. (root, c) \<in> (child_rel pf)\<^sup>+ \<and> c \<noteq> root}
    \<and> distinct (descendantsOf pf root)"
  using assms by (rule descendants_closure)

text \<open>Pid 2 with the child 3, whose child is 4; one entry is no process.\<close>

definition status_of :: "string \<Rightarrow> bytes" where
  "status_of p = chars ''N:'' @ [newline] @ chars ''PPid:'' @ [0x09] @ chars p"

definition small_proc :: procfs where
  "small_proc = \<lparr>proc_entries = Some [(chars ''4'', True), (chars ''2'', True), (chars ''fs'', True), (chars ''3'', True)],
     proc_status = [2 \<mapsto> status_of ''1'', 3 \<mapsto> status_of ''2'', 4 \<mapsto> status_of ''3'']\<rparr>"

lemma small_descendants: "descendantsOf small_proc 2 = [3, 4]"
  by code_simp

theorem descendants_exact_witness: "distinct (descendantsOf small_proc 2) \<and> (2, 4) \<in> (child_rel small_proc)\<^sup>+"
proof -
  have "proc_entries small_proc \<noteq> None" by (simp add: small_proc_def)
  moreover have "4 \<in> set (descendantsOf small_proc 2)" by (simp add: small_descendants)
  ultimately show ?thesis using descendants_exact [of small_proc 2] by blast
qed

lemma add_pids:
  "set (fold add_pid ps out) = set out \<union> {p \<in> set ps. 1 <s p}"
  "distinct (fold add_pid ps out) = distinct out"
  by (induction ps arbitrary: out) (auto simp: add_pid_def)

lemma sessionPids_set:
  "set (sessionPids pf root members) = {p. 1 <s p \<and> p \<in> {root} \<union> set members \<union> set (descendantsOf pf root)}"
  by (auto simp: sessionPids_def add_pids) (auto simp: add_pid_def split: if_splits)

lemma sessionPids_distinct: "distinct (sessionPids pf root members)"
  by (simp add: sessionPids_def add_pids add_pid_def)

end
