(* ===== verification/AK_Rules.thy ===== *)
theory AK_Rules
  imports AK_Events AK_Evolves AK_ProcTree
begin

text \<open>
  The daemon's writer of the rule maps, \<open>internal/enforce/enforce.go\<close>: installing the policy's
  kernel rules, clearing them for a hot reload, self-protection. A daemon operation works on the
  enforcer's own bookkeeping and on the shared maps. Whether the kernel accepts a \<open>Put\<close> is an
  answer of the environment \<open>denv\<close>; a delete always succeeds. The maps are those the sensor
  loaded, so the tests for a nil map are left out. Names and paths are ASCII byte strings, and a
  rule carries the result of Go's \<open>net.ParseCIDR\<close> on its prefix instead of the text.
\<close>

section \<open>State\<close>

datatype dmap =
    D_enforce_file | D_enforce_dir | D_enforce_net | D_enforce_net6 | D_db_deny_tables
  | D_sessions | D_session_pids | D_posture | D_taint_files | D_sensitive_files | D_flags | D_agent_sigs | D_mcp_fds

text \<open>
  \<open>d_put m h\<close>: the kernel accepts a write of key \<open>h\<close> to the map; \<open>d_put_net\<close> the same for the two
  tries. \<open>d_evicted\<close>: entries an accepted write to the LRU map of taints drops.
\<close>

record denv =
  d_put :: "dmap \<Rightarrow> u64 \<Rightarrow> bool"
  d_put_net :: "ak_lpm_key \<Rightarrow> bool"
  d_evicted :: "u64 \<Rightarrow> bool"

text \<open>The bookkeeping of \<open>BPFEnforcer\<close>; a Go \<open>map[uint64]struct{}\<close> is a set.\<close>

record enforcer =
  e_dryRun :: bool
  e_denyCode :: bool
  e_installed :: "u64 set"
  e_instDir :: "u64 set"
  e_instTaint :: "u64 set"
  e_instSelf :: "u64 set"

type_synonym daemon = "enforcer \<times> kstate"

section \<open>Rules\<close>

datatype effect = EffectAllow | EffectAudit | EffectAlert | EffectBlock | EffectKill

record KernelRule =
  r_PolicyName :: bytes
  r_Selector :: "bytes list"
  r_Category :: category
  r_Operation :: string
  r_PathPrefix :: bytes
  r_CIDR :: "(bytes \<times> nat) option option"   \<comment> \<open>\<open>None\<close>: empty; \<open>Some None\<close>: malformed; address and ones\<close>
  r_DBEngine :: bytes
  r_DBTable :: bytes
  r_Effect :: effect

definition selfProtectOps :: u32 where
  "selfProtectOps = AK_OP_WRITE OR AK_OP_DELETE OR AK_OP_RENAME OR AK_OP_CHMOD OR AK_OP_CHOWN"

definition netBlock :: u32 where "netBlock = 1"

definition dbDenyTableSlots :: nat where "dbDenyTableSlots = 4"

definition opBit :: "string \<Rightarrow> u32" where
  "opBit operation =
     (if operation = ''exec'' then AK_OP_EXEC
      else if operation = ''delete'' then AK_OP_DELETE
      else if operation = ''rename'' then AK_OP_RENAME
      else if operation = ''chmod'' then AK_OP_CHMOD
      else if operation = ''chown'' then AK_OP_CHOWN
      else AK_OP_OPEN)"

definition isExactPath :: "bytes \<Rightarrow> bool" where
  "isExactPath p \<longleftrightarrow>
     p \<noteq> [] \<and> hd p = slash \<and> last p \<noteq> slash \<and> set p \<inter> {0x2a, 0x3f, 0x5b} = {}"

text \<open>\<open>strings.TrimRight(path, "/")\<close>, \<open>strings.TrimSpace\<close>, \<open>strings.ToLower\<close>.\<close>

definition trim_slashes :: "bytes \<Rightarrow> bytes" where
  "trim_slashes p = rev (dropWhile (\<lambda>c. c = slash) (rev p))"

definition TrimSpace :: "bytes \<Rightarrow> bytes" where
  "TrimSpace p = rev (dropWhile go_space (rev (dropWhile go_space p)))"

definition ToLower :: "bytes \<Rightarrow> bytes" where
  "ToLower p = map lc p"

section \<open>Writing the tables\<close>

definition word_at :: "('k \<rightharpoonup> u32) \<Rightarrow> 'k \<Rightarrow> u32" where
  "word_at m k = (case m k of None \<Rightarrow> 0 | Some v \<Rightarrow> v)"

datatype install_error =
  PutRejected | NoTable | TableTooLong | TablesFull | NoCIDR | BadCIDR

definition addFileOp :: "denv \<Rightarrow> u64 \<Rightarrow> u32 \<Rightarrow> daemon \<Rightarrow> install_error option \<times> daemon" where
  "addFileOp d h opn = (\<lambda>(e, s).
     if d_put d D_enforce_file h
     then (None, e\<lparr>e_installed := insert h (e_installed e)\<rparr>,
           s\<lparr>ak_enforce_file := (ak_enforce_file s)(h \<mapsto> word_at (ak_enforce_file s) h OR opn)\<rparr>)
     else (Some PutRejected, e, s))"

definition addDirOp :: "denv \<Rightarrow> u64 \<Rightarrow> u32 \<Rightarrow> daemon \<Rightarrow> install_error option \<times> daemon" where
  "addDirOp d h opn = (\<lambda>(e, s).
     if d_put d D_enforce_dir h
     then (None, e\<lparr>e_instDir := insert h (e_instDir e)\<rparr>,
           s\<lparr>ak_enforce_dir := (ak_enforce_dir s)(h \<mapsto> word_at (ak_enforce_dir s) h OR opn)\<rparr>)
     else (Some PutRejected, e, s))"

text \<open>The word of the flags array is written only when it changes, and an error is ignored.\<close>

definition armFlag :: "denv \<Rightarrow> u32 \<Rightarrow> kstate \<Rightarrow> kstate" where
  "armFlag d b s =
     (let cur = word_at (ak_flags s) 0
      in if cur OR b \<noteq> cur \<and> d_put d D_flags 0 then s\<lparr>ak_flags := (ak_flags s)(0 \<mapsto> cur OR b)\<rparr> else s)"

definition db_pat_of :: "bytes \<Rightarrow> ak_db_pat" where
  "db_pat_of name = \<lparr>pat_len = of_nat (length name), pat = fit 32 name\<rparr>"

definition installDBRule ::
  "denv \<Rightarrow> KernelRule \<Rightarrow> nat \<Rightarrow> kstate \<Rightarrow> (install_error + nat) \<times> kstate" where
  "installDBRule d r slot s =
     (let name = ToLower (TrimSpace (r_DBTable r))
      in if name = [] then (Inl NoTable, s)
         else if 16 < length name then (Inl TableTooLong, s)
         else if dbDenyTableSlots \<le> slot then (Inl TablesFull, s)
         else if \<not> d_put d D_db_deny_tables (of_nat slot) then (Inl PutRejected, s)
         else (Inr (slot + 1),
               armFlag d AK_FLAG_DB_BLOCK_ARMED
                 (s\<lparr>ak_db_deny_tables := (ak_db_deny_tables s)(of_nat slot \<mapsto> db_pat_of name)\<rparr>)))"

text \<open>\<open>net.IP.To4\<close>: four bytes, or an IPv4-mapped sixteen.\<close>

definition To4 :: "bytes \<Rightarrow> bytes option" where
  "To4 ip =
     (if length ip = 4 then Some ip
      else if length ip = 16 \<and> take 12 ip = replicate 10 0 @ [0xff, 0xff] then Some (drop 12 ip)
      else None)"

definition installNetRule :: "denv \<Rightarrow> KernelRule \<Rightarrow> kstate \<Rightarrow> install_error option \<times> kstate" where
  "installNetRule d r s =
     (case r_CIDR r of
        None \<Rightarrow> (Some NoCIDR, s)
      | Some None \<Rightarrow> (Some BadCIDR, s)
      | Some (Some (ip, ones)) \<Rightarrow>
          (case To4 ip of
             Some ip4 \<Rightarrow>
               let key = (of_nat ones, ip4)
               in if d_put_net d key then (None, s\<lparr>ak_enforce_net := (ak_enforce_net s)(key \<mapsto> netBlock)\<rparr>)
                  else (Some PutRejected, s)
           | None \<Rightarrow>
               let key = (of_nat ones, ip)
               in if d_put_net d key then (None, s\<lparr>ak_enforce_net6 := (ak_enforce_net6 s)(key \<mapsto> netBlock)\<rparr>)
                  else (Some PutRejected, s)))"

section \<open>Installing a rule set\<close>

text \<open>
  The loop's variables: the next table slot, the number of rules installed and skipped, the
  errors of dropped rules, and the daemon.
\<close>

record install_run =
  i_slot :: nat
  i_installed :: nat
  i_skipped :: nat
  i_dropped :: "(string \<times> install_error) list"
  i_daemon :: daemon

definition note_result :: "string \<Rightarrow> install_error option \<times> daemon \<Rightarrow> install_run \<Rightarrow> install_run" where
  "note_result m res x =
     (case res of
        (None, dm) \<Rightarrow> x\<lparr>i_installed := i_installed x + 1, i_daemon := dm\<rparr>
      | (Some err, dm) \<Rightarrow> x\<lparr>i_dropped := i_dropped x @ [(m, err)], i_daemon := dm\<rparr>)"

text \<open>Directory rules end in a slash; the root alone is not one.\<close>

definition dir_rule :: "bytes \<Rightarrow> bool" where
  "dir_rule p \<longleftrightarrow> 1 < length p \<and> last p = slash"

definition path_category :: "KernelRule \<Rightarrow> bool" where
  "path_category r \<longleftrightarrow>
     r_Category r = CategoryFile \<or> r_Category r = CategoryProcess \<and> r_Operation r = ''exec''"

definition install_rule :: "denv \<Rightarrow> KernelRule \<Rightarrow> install_run \<Rightarrow> install_run" where
  "install_rule d r x =
     (let (e, s) = i_daemon x
      in if r_Effect r \<noteq> EffectBlock then x
         else if r_Category r = CategoryDatabase then
           (case installDBRule d r (i_slot x) s of
              (Inl err, s') \<Rightarrow> note_result ''ak_db_deny_tables'' (Some err, e, s') x
            | (Inr slot, s') \<Rightarrow> note_result ''ak_db_deny_tables'' (None, e, s') (x\<lparr>i_slot := slot\<rparr>))
         else if r_Category r = CategoryNetwork then
           (case installNetRule d r s of
              (res, s') \<Rightarrow> note_result ''ak_enforce_net'' (res, e, s') x)
         else if \<not> path_category r then x\<lparr>i_skipped := i_skipped x + 1\<rparr>
         else
           let path = r_PathPrefix r; opn = opBit (r_Operation r)
           in if dir_rule path then
                note_result ''ak_enforce_dir'' (addDirOp d (HashString (trim_slashes path)) opn (e, s)) x
              else if \<not> isExactPath path then x\<lparr>i_skipped := i_skipped x + 1\<rparr>
              else note_result ''ak_enforce_file'' (addFileOp d (HashString path) opn (e, s)) x)"

text \<open>\<open>InstallRules\<close> fails exactly when a rule was dropped.\<close>

definition InstallRules ::
  "denv \<Rightarrow> KernelRule list \<Rightarrow> daemon \<Rightarrow> (string \<times> install_error) list \<times> daemon" where
  "InstallRules d rules dm =
     (let x = fold (install_rule d) rules
                \<lparr>i_slot = 0, i_installed = 0, i_skipped = 0, i_dropped = [], i_daemon = dm\<rparr>
      in (i_dropped x, i_daemon x))"

section \<open>Clearing\<close>

definition delete_keys :: "'k set \<Rightarrow> ('k \<rightharpoonup> 'v) \<Rightarrow> ('k \<rightharpoonup> 'v)" where
  "delete_keys ks m = (\<lambda>k. if k \<in> ks then None else m k)"

text \<open>The table slots are overwritten with the empty pattern one by one; errors are ignored.\<close>

definition clear_slot :: "denv \<Rightarrow> nat \<Rightarrow> (u32 \<rightharpoonup> ak_db_pat) \<Rightarrow> (u32 \<rightharpoonup> ak_db_pat)" where
  "clear_slot d i m =
     (if d_put d D_db_deny_tables (of_nat i) then m(of_nat i \<mapsto> \<lparr>pat_len = 0, pat = replicate 32 0\<rparr>) else m)"

definition ClearRules :: "denv \<Rightarrow> daemon \<Rightarrow> daemon" where
  "ClearRules d = (\<lambda>(e, s).
     (e\<lparr>e_installed := {}, e_instDir := {}\<rparr>,
      s\<lparr>ak_enforce_file := delete_keys (e_installed e) (ak_enforce_file s),
        ak_enforce_dir := delete_keys (e_instDir e) (ak_enforce_dir s),
        ak_enforce_net := Map.empty, ak_enforce_net6 := Map.empty,
        ak_db_deny_tables := fold (clear_slot d) [0..<dbDenyTableSlots] (ak_db_deny_tables s)\<rparr>))"

section \<open>Self-protection\<close>

definition addSelfFileOp :: "denv \<Rightarrow> u64 \<Rightarrow> daemon \<Rightarrow> daemon" where
  "addSelfFileOp d h = (\<lambda>(e, s).
     if d_put d D_enforce_file h
     then (e\<lparr>e_instSelf := insert h (e_instSelf e)\<rparr>,
           s\<lparr>ak_enforce_file := (ak_enforce_file s)(h \<mapsto> word_at (ak_enforce_file s) h OR selfProtectOps)\<rparr>)
     else (e, s))"

definition self_protect_file :: "denv \<Rightarrow> bytes \<Rightarrow> daemon \<Rightarrow> daemon" where
  "self_protect_file d f dm = (if \<not> isExactPath f then dm else addSelfFileOp d (HashString f) dm)"

definition self_protect_dir :: "denv \<Rightarrow> bytes \<Rightarrow> daemon \<Rightarrow> daemon" where
  "self_protect_dir d f = (\<lambda>(e, s).
     let p = trim_slashes f; h = HashString p
     in if p = [] \<or> hd p \<noteq> slash then (e, s)
        else if \<not> d_put d D_enforce_dir h then (e, s)
        else addSelfFileOp d h
               (e, s\<lparr>ak_enforce_dir := (ak_enforce_dir s)(h \<mapsto> word_at (ak_enforce_dir s) h OR selfProtectOps)\<rparr>))"

definition InstallSelfProtection :: "denv \<Rightarrow> bytes list \<Rightarrow> bytes list \<Rightarrow> daemon \<Rightarrow> daemon" where
  "InstallSelfProtection d files dirs dm =
     fold (self_protect_dir d) dirs (fold (self_protect_file d) files dm)"

section \<open>Closing\<close>

definition Close :: "daemon \<Rightarrow> daemon" where
  "Close = (\<lambda>(e, s).
     (e\<lparr>e_installed := {}, e_instDir := {}, e_instTaint := {}, e_instSelf := {}\<rparr>,
      s\<lparr>ak_enforce_file := delete_keys (e_instSelf e) (delete_keys (e_installed e) (ak_enforce_file s)),
        ak_enforce_dir := delete_keys (e_instSelf e) (delete_keys (e_instDir e) (ak_enforce_dir s)),
        ak_taint_files := delete_keys (e_instTaint e) (ak_taint_files s)\<rparr>))"

section \<open>One rule on one table\<close>

text \<open>The entry a rule asks for in the table of exact paths and in the table of trees.\<close>

definition file_key :: "KernelRule \<Rightarrow> (u64 \<times> u32) option" where
  "file_key r =
     (if r_Effect r = EffectBlock \<and> path_category r \<and> isExactPath (r_PathPrefix r)
      then Some (HashString (r_PathPrefix r), opBit (r_Operation r)) else None)"

definition dir_key :: "KernelRule \<Rightarrow> (u64 \<times> u32) option" where
  "dir_key r =
     (if r_Effect r = EffectBlock \<and> path_category r \<and> dir_rule (r_PathPrefix r)
      then Some (HashString (trim_slashes (r_PathPrefix r)), opBit (r_Operation r)) else None)"

definition or_entry :: "(u64 \<times> u32) option \<Rightarrow> (u64 \<rightharpoonup> u32) \<Rightarrow> (u64 \<rightharpoonup> u32)" where
  "or_entry q m = (case q of None \<Rightarrow> m | Some (h, w) \<Rightarrow> m(h \<mapsto> word_at m h OR w))"

lemma opt_has_word_at: "opt_has (m h) b \<longleftrightarrow> has (word_at m h) b"
  by (simp add: word_at_def split: option.split)

lemma word_at_upd [simp]: "word_at (m(h' \<mapsto> v)) h = (if h = h' then v else word_at m h)"
  by (simp add: word_at_def)

lemma or_entry_has: "opt_has (or_entry q m h) b \<longleftrightarrow> opt_has (m h) b \<or> (\<exists>w. q = Some (h, w) \<and> has w b)"
  by (auto simp: or_entry_def opt_has_word_at has_or word_at_def split: option.split prod.split)

lemma exact_not_dir: "isExactPath p \<Longrightarrow> \<not> dir_rule p"
  by (simp add: isExactPath_def dir_rule_def)

lemma path_category_excl: "path_category r \<Longrightarrow> r_Category r \<noteq> CategoryDatabase \<and> r_Category r \<noteq> CategoryNetwork"
  by (auto simp: path_category_def)

lemma armFlag_frame [simp]:
  "ak_enforce_file (armFlag d b s) = ak_enforce_file s" "ak_enforce_dir (armFlag d b s) = ak_enforce_dir s"
  "ak_enforce_net (armFlag d b s) = ak_enforce_net s" "ak_enforce_net6 (armFlag d b s) = ak_enforce_net6 s"
  "ak_db_deny_tables (armFlag d b s) = ak_db_deny_tables s"
  by (simp_all add: armFlag_def Let_def)

lemma installDBRule_frame:
  assumes "installDBRule d r n s = (res, s')"
  shows "ak_enforce_file s' = ak_enforce_file s" "ak_enforce_dir s' = ak_enforce_dir s"
    "ak_enforce_net s' = ak_enforce_net s" "ak_enforce_net6 s' = ak_enforce_net6 s"
  using assms by (auto simp: installDBRule_def Let_def split: if_splits)

lemma installNetRule_frame:
  assumes "installNetRule d r s = (res, s')"
  shows "ak_enforce_file s' = ak_enforce_file s" "ak_enforce_dir s' = ak_enforce_dir s"
    "ak_db_deny_tables s' = ak_db_deny_tables s" "ak_flags s' = ak_flags s"
  using assms by (auto simp: installNetRule_def Let_def split: if_splits option.splits)

text \<open>A rule is dropped, or everything it asks for is written.\<close>

lemma note_result_dropped: "i_dropped (note_result m res x) =
    (case fst res of None \<Rightarrow> i_dropped x | Some err \<Rightarrow> i_dropped x @ [(m, err)])"
  by (simp add: note_result_def split: option.split prod.split)

lemma note_result_daemon [simp]: "i_daemon (note_result m res x) = snd res"
  by (simp add: note_result_def split: option.split prod.split)

lemma note_result_slot [simp]: "i_slot (note_result m res x) = i_slot x"
  by (simp add: note_result_def split: option.split prod.split)

lemma install_rule_grows: "\<exists>es. i_dropped (install_rule d r x) = i_dropped x @ es"
  by (auto simp: install_rule_def Let_def note_result_dropped
      split: prod.split sum.split option.split if_splits)

lemma install_fold_grows: "\<exists>es. i_dropped (fold (install_rule d) rs x) = i_dropped x @ es"
proof (induction rs arbitrary: x)
  case (Cons r rs)
  obtain es where "i_dropped (install_rule d r x) = i_dropped x @ es"
    using install_rule_grows by blast
  with Cons [of "install_rule d r x"] show ?case by auto
qed simp

text \<open>So when nothing was dropped by the whole loop, nothing was dropped by any of its rules.\<close>

lemma install_fold_clean:
  assumes "i_dropped (fold (install_rule d) (r # rs) x) = i_dropped x"
  shows "i_dropped (install_rule d r x) = i_dropped x"
    "i_dropped (fold (install_rule d) rs (install_rule d r x)) = i_dropped (install_rule d r x)"
proof -
  obtain es fs where "i_dropped (install_rule d r x) = i_dropped x @ es"
    "i_dropped (fold (install_rule d) rs (install_rule d r x)) = i_dropped (install_rule d r x) @ fs"
    using install_rule_grows install_fold_grows by blast
  then show "i_dropped (install_rule d r x) = i_dropped x"
    "i_dropped (fold (install_rule d) rs (install_rule d r x)) = i_dropped (install_rule d r x)"
    using assms by simp_all
qed

section \<open>The contract of a rule table\<close>

text \<open>
  Two tables, of exact paths and of trees, are written, tracked and cleared in the same way: a rule
  that is not dropped ORs its bits into its entry and its key is tracked, and clearing deletes the
  tracked keys.
\<close>

definition asked :: "(KernelRule \<Rightarrow> (u64 \<times> u32) option) \<Rightarrow> KernelRule list \<Rightarrow> u64 \<Rightarrow> u32 \<Rightarrow> bool" where
  "asked key rules h b \<longleftrightarrow> (\<exists>r\<in>set rules. case key r of None \<Rightarrow> False | Some (h', w) \<Rightarrow> h' = h \<and> has w b)"

lemma asked_simps [simp]:
  "asked key [] h b = False"
  "asked key (r # rules) h b \<longleftrightarrow> (\<exists>w. key r = Some (h, w) \<and> has w b) \<or> asked key rules h b"
  by (auto simp: asked_def split: option.splits)

locale rule_table =
  fixes table :: "kstate \<Rightarrow> u64 \<rightharpoonup> u32"
    and tracked :: "enforcer \<Rightarrow> u64 set"
    and key :: "KernelRule \<Rightarrow> (u64 \<times> u32) option"
  assumes install: "i_dropped (install_rule d r x) = i_dropped x \<Longrightarrow>
      table (snd (i_daemon (install_rule d r x))) = or_entry (key r) (table (snd (i_daemon x)))"
    and track: "i_dropped (install_rule d r x) = i_dropped x \<Longrightarrow>
      tracked (fst (i_daemon (install_rule d r x))) = tracked (fst (i_daemon x)) \<union> fst ` set_option (key r)"
    and clear: "table (snd (ClearRules d dm)) = delete_keys (tracked (fst dm)) (table (snd dm))"
    and clear_tracked: "tracked (fst (ClearRules d dm)) = {}"
begin

lemma install_fold:
  assumes "i_dropped (fold (install_rule d) rules x) = i_dropped x"
  shows "opt_has (table (snd (i_daemon (fold (install_rule d) rules x))) h) b \<longleftrightarrow>
      opt_has (table (snd (i_daemon x)) h) b \<or> asked key rules h b"
  using assms
proof (induction rules arbitrary: x)
  case (Cons r rules)
  from Cons.IH [OF install_fold_clean(2) [OF Cons.prems]] install [OF install_fold_clean(1) [OF Cons.prems]]
  show ?case by (auto simp: or_entry_has)
qed simp

lemma tracked_fold:
  assumes "i_dropped (fold (install_rule d) rules x) = i_dropped x"
  shows "tracked (fst (i_daemon (fold (install_rule d) rules x))) =
      tracked (fst (i_daemon x)) \<union> {h. \<exists>r\<in>set rules. \<exists>w. key r = Some (h, w)}"
  using assms
proof (induction rules arbitrary: x)
  case (Cons r rules)
  from Cons.IH [OF install_fold_clean(2) [OF Cons.prems]] track [OF install_fold_clean(1) [OF Cons.prems]]
  show ?case by (force simp: image_iff)
qed simp

lemma installed:
  assumes "fst (InstallRules d rules dm) = []"
  shows "opt_has (table (snd (snd (InstallRules d rules dm))) h) b \<longleftrightarrow>
      opt_has (table (snd dm) h) b \<or> asked key rules h b"
  using install_fold [of d rules "\<lparr>i_slot = 0, i_installed = 0, i_skipped = 0, i_dropped = [], i_daemon = dm\<rparr>"]
    assms by (simp add: InstallRules_def Let_def)

lemma installed_tracked:
  assumes "fst (InstallRules d rules dm) = []"
  shows "tracked (fst (snd (InstallRules d rules dm))) =
      tracked (fst dm) \<union> {h. \<exists>r\<in>set rules. \<exists>w. key r = Some (h, w)}"
  using tracked_fold [of d rules "\<lparr>i_slot = 0, i_installed = 0, i_skipped = 0, i_dropped = [], i_daemon = dm\<rparr>"]
    assms by (simp add: InstallRules_def Let_def)

lemma reloaded:
  assumes "fst (InstallRules d rules (ClearRules d dm)) = []"
  shows "opt_has (table (snd (snd (InstallRules d rules (ClearRules d dm)))) h) b \<longleftrightarrow>
      (h \<notin> tracked (fst dm) \<and> opt_has (table (snd dm) h) b) \<or> asked key rules h b"
  using installed [OF assms] by (simp add: clear delete_keys_def)

end

text \<open>A path rule, when it is not dropped.\<close>

lemma install_rule_path:
  assumes "i_dropped (install_rule d r x) = i_dropped x"
  shows "ak_enforce_file (snd (i_daemon (install_rule d r x))) = or_entry (file_key r) (ak_enforce_file (snd (i_daemon x)))"
    "ak_enforce_dir (snd (i_daemon (install_rule d r x))) = or_entry (dir_key r) (ak_enforce_dir (snd (i_daemon x)))"
    "e_installed (fst (i_daemon (install_rule d r x))) = e_installed (fst (i_daemon x)) \<union> fst ` set_option (file_key r)"
    "e_instDir (fst (i_daemon (install_rule d r x))) = e_instDir (fst (i_daemon x)) \<union> fst ` set_option (dir_key r)"
proof -
  obtain e s where dm: "i_daemon x = (e, s)" by (cases "i_daemon x")
  consider "r_Effect r \<noteq> EffectBlock \<or> \<not> path_category r"
    | "r_Effect r = EffectBlock" "path_category r" "dir_rule (r_PathPrefix r)"
    | "r_Effect r = EffectBlock" "path_category r" "\<not> dir_rule (r_PathPrefix r)" by blast
  then have "ak_enforce_file (snd (i_daemon (install_rule d r x))) = or_entry (file_key r) (ak_enforce_file s)
    \<and> ak_enforce_dir (snd (i_daemon (install_rule d r x))) = or_entry (dir_key r) (ak_enforce_dir s)
    \<and> e_installed (fst (i_daemon (install_rule d r x))) = e_installed e \<union> fst ` set_option (file_key r)
    \<and> e_instDir (fst (i_daemon (install_rule d r x))) = e_instDir e \<union> fst ` set_option (dir_key r)"
  proof cases
    case 1
    then have "file_key r = None" "dir_key r = None" by (auto simp: file_key_def dir_key_def)
    moreover have "\<not> path_category r \<or> r_Effect r \<noteq> EffectBlock" using 1 by blast
    ultimately show ?thesis
      using path_category_excl [of r]
      by (auto simp: install_rule_def dm Let_def or_entry_def
          dest: installDBRule_frame installNetRule_frame split: prod.split sum.split)
  next
    case 2
    then have "file_key r = None" using exact_not_dir by (auto simp: file_key_def)
    with 2 assms path_category_excl [of r] show ?thesis
      by (auto simp: install_rule_def dm Let_def or_entry_def dir_key_def addDirOp_def note_result_dropped
          split: if_splits)
  next
    case 3
    then have "dir_key r = None" by (simp add: dir_key_def)
    with 3 assms path_category_excl [of r] show ?thesis
      by (auto simp: install_rule_def dm Let_def or_entry_def file_key_def addFileOp_def note_result_dropped
          split: if_splits)
  qed
  then show "ak_enforce_file (snd (i_daemon (install_rule d r x))) = or_entry (file_key r) (ak_enforce_file (snd (i_daemon x)))"
    "ak_enforce_dir (snd (i_daemon (install_rule d r x))) = or_entry (dir_key r) (ak_enforce_dir (snd (i_daemon x)))"
    "e_installed (fst (i_daemon (install_rule d r x))) = e_installed (fst (i_daemon x)) \<union> fst ` set_option (file_key r)"
    "e_instDir (fst (i_daemon (install_rule d r x))) = e_instDir (fst (i_daemon x)) \<union> fst ` set_option (dir_key r)"
    by (simp_all add: dm)
qed

interpretation file_table: rule_table ak_enforce_file e_installed file_key
  by unfold_locales (simp_all add: install_rule_path, simp_all add: ClearRules_def split_def)

interpretation dir_table: rule_table ak_enforce_dir e_instDir dir_key
  by unfold_locales (simp_all add: install_rule_path, simp_all add: ClearRules_def split_def)

section \<open>Rules on paths\<close>

text \<open>What a rule means of a path, without hashes: its own path, or a path below its tree.\<close>

definition rule_covers :: "KernelRule \<Rightarrow> u32 \<Rightarrow> bytes \<Rightarrow> bool" where
  "rule_covers r opn q \<longleftrightarrow>
     r_Effect r = EffectBlock \<and> path_category r \<and> has (opBit (r_Operation r)) opn \<and>
     (isExactPath (r_PathPrefix r) \<and> r_PathPrefix r = q
      \<or> dir_rule (r_PathPrefix r) \<and> ancestor_of (trim_slashes (r_PathPrefix r)) q)"

text \<open>The paths of the rules are C strings that the two hash functions agree on.\<close>

definition hashable :: "bytes \<Rightarrow> bool" where
  "hashable p \<longleftrightarrow> 0 \<notin> set p \<and> length p \<le> 256"

lemma HashString_hashable: "hashable p \<Longrightarrow> HashString p = fnv1a p"
  by (simp add: hashable_def HashString_eq)

lemma trim_slashes_split: "\<exists>t. p = trim_slashes p @ t"
proof -
  have "p = rev (takeWhile (\<lambda>c. c = slash) (rev p) @ dropWhile (\<lambda>c. c = slash) (rev p))" by simp
  then show ?thesis unfolding trim_slashes_def rev_append by blast
qed

lemma hashable_trim: "hashable p \<Longrightarrow> hashable (trim_slashes p)"
  using trim_slashes_split [of p]
  by (auto simp: hashable_def) (metis UnI1 set_append, metis add_leE length_append)

text \<open>The strings whose hashes the decision on \<open>q\<close> compares.\<close>

definition rule_strings :: "KernelRule list \<Rightarrow> bytes \<Rightarrow> bytes list" where
  "rule_strings rules q = map r_PathPrefix rules @ map (\<lambda>r. trim_slashes (r_PathPrefix r)) rules @ prefixes q"

lemma asked_file:
  assumes "\<forall>r \<in> set rules. hashable (r_PathPrefix r)" "inj_on fnv1a (set (rule_strings rules q))"
  shows "asked file_key rules (fnv1a q) opn \<longleftrightarrow>
    (\<exists>r \<in> set rules. r_Effect r = EffectBlock \<and> path_category r \<and> has (opBit (r_Operation r)) opn
       \<and> isExactPath (r_PathPrefix r) \<and> r_PathPrefix r = q)"
proof -
  have "HashString (r_PathPrefix r) = fnv1a q \<longleftrightarrow> r_PathPrefix r = q" if "r \<in> set rules" for r
    using assms that HashString_hashable inj_on_eq_iff [OF assms(2), of "r_PathPrefix r" q]
    by (simp add: rule_strings_def)
  then show ?thesis by (auto simp: asked_def file_key_def split: if_splits)
qed

lemma asked_dir:
  assumes "\<forall>r \<in> set rules. hashable (r_PathPrefix r)" "inj_on fnv1a (set (rule_strings rules q))"
    and "ancestor_of p q"
  shows "asked dir_key rules (fnv1a p) opn \<longleftrightarrow>
    (\<exists>r \<in> set rules. r_Effect r = EffectBlock \<and> path_category r \<and> has (opBit (r_Operation r)) opn
       \<and> dir_rule (r_PathPrefix r) \<and> trim_slashes (r_PathPrefix r) = p)"
proof -
  have "p \<in> set (prefixes q)" using assms(3) by (auto simp: ancestor_of_def)
  then have "HashString (trim_slashes (r_PathPrefix r)) = fnv1a p \<longleftrightarrow> trim_slashes (r_PathPrefix r) = p"
    if "r \<in> set rules" for r
    using assms(1) that HashString_hashable hashable_trim
      inj_on_eq_iff [OF assms(2), of "trim_slashes (r_PathPrefix r)" p]
    by (simp add: rule_strings_def)
  then show ?thesis by (auto simp: asked_def dir_key_def split: if_splits)
qed

lemma asked_covers:
  assumes "\<forall>r \<in> set rules. hashable (r_PathPrefix r)" "inj_on fnv1a (set (rule_strings rules q))"
  shows "asked file_key rules (fnv1a q) opn \<or> (\<exists>p. ancestor_of p q \<and> asked dir_key rules (fnv1a p) opn)
    \<longleftrightarrow> (\<exists>r \<in> set rules. rule_covers r opn q)"
  unfolding asked_file [OF assms] using asked_dir [OF assms] by (auto simp: rule_covers_def)

text \<open>What is left of the tables once the tracked keys are deleted.\<close>

definition untracked :: "daemon \<Rightarrow> kstate" where
  "untracked = (\<lambda>(e, s). s\<lparr>ak_enforce_file := delete_keys (e_installed e) (ak_enforce_file s),
     ak_enforce_dir := delete_keys (e_instDir e) (ak_enforce_dir s)\<rparr>)"

lemma opt_has_delete: "opt_has (delete_keys ks m h) b \<longleftrightarrow> h \<notin> ks \<and> opt_has (m h) b"
  by (simp add: delete_keys_def)

lemma reload_spec:
  assumes "fst (InstallRules d rules (ClearRules d dm)) = []"
    and "\<forall>r \<in> set rules. hashable (r_PathPrefix r)" "inj_on fnv1a (set (rule_strings rules q))"
  shows "forbidden_spec (snd (snd (InstallRules d rules (ClearRules d dm)))) q opn \<longleftrightarrow>
    (\<exists>r \<in> set rules. rule_covers r opn q) \<or> forbidden_spec (untracked dm) q opn"
proof -
  obtain e s where dm: "dm = (e, s)" by (cases dm)
  show ?thesis
    using asked_covers [OF assms(2,3), of opn]
    unfolding forbidden_spec_def file_table.reloaded [OF assms(1)] dir_table.reloaded [OF assms(1)]
    by (auto simp: dm untracked_def opt_has_delete)
qed

text \<open>
  C8. A hot reload puts exactly the new policy in force. When clearing and installing reports no
  dropped rule, an operation on a path is forbidden by the tables the kernel matches against
  exactly when a rule of the new set covers the path, or an entry forbids it that the old rule
  set did not own (self-protection): nothing of the old policy survives, no new rule is missing,
  whatever their order. Assumed: the strings whose hashes are compared do not collide, and the
  paths of the rules have at most 256 bytes.
\<close>

theorem reload_exact:
  assumes "fst (InstallRules d rules (ClearRules d dm)) = []"
    and "\<forall>r \<in> set rules. hashable (r_PathPrefix r)" "inj_on fnv1a (set (rule_strings rules q))"
  shows "forbidden_spec (snd (snd (InstallRules d rules (ClearRules d dm)))) q opn \<longleftrightarrow>
    (\<exists>r \<in> set rules. rule_covers r opn q) \<or> forbidden_spec (untracked dm) q opn"
  using assms by (rule reload_spec)

text \<open>An accepting kernel, and a policy that forbids to open \<open>/a\<close>.\<close>

definition accepting :: denv where
  "accepting = \<lparr>d_put = (\<lambda>_ _. True), d_put_net = (\<lambda>_. True), d_evicted = (\<lambda>_. False)\<rparr>"

definition fresh_enforcer :: enforcer where
  "fresh_enforcer = \<lparr>e_dryRun = False, e_denyCode = False, e_installed = {}, e_instDir = {},
     e_instTaint = {}, e_instSelf = {}\<rparr>"

definition file_rule :: "string \<Rightarrow> string \<Rightarrow> KernelRule" where
  "file_rule opn p = \<lparr>r_PolicyName = [], r_Selector = [], r_Category = CategoryFile, r_Operation = opn, r_PathPrefix = chars p,
     r_CIDR = None, r_DBEngine = [], r_DBTable = [], r_Effect = EffectBlock\<rparr>"

theorem reload_exact_witness:
  "forbidden_spec (snd (snd (InstallRules accepting [file_rule ''open'' ''/a'']
      (ClearRules accepting (fresh_enforcer, init_kstate))))) (chars ''/a'') AK_OP_OPEN"
proof -
  let ?r = "file_rule ''open'' ''/a''"
  have "fst (InstallRules accepting [?r] (ClearRules accepting (fresh_enforcer, init_kstate))) = []"
    by (simp add: InstallRules_def ClearRules_def install_rule_def Let_def file_rule_def path_category_def
        dir_rule_def isExactPath_def addFileOp_def accepting_def note_result_def chars_def)
  moreover have "hashable (r_PathPrefix ?r)" "rule_covers ?r AK_OP_OPEN (chars ''/a'')"
    by (simp_all add: hashable_def rule_covers_def file_rule_def path_category_def opBit_def
        isExactPath_def chars_def has_def ak_const)
  moreover have "inj_on fnv1a (set (rule_strings [?r] (chars ''/a'')))"
    by code_simp
  ultimately show ?thesis
    using reload_exact [of accepting "[?r]" "(fresh_enforcer, init_kstate)" "chars ''/a''" AK_OP_OPEN] by simp
qed

section \<open>Self-protection\<close>

lemma self_file_grows:
  "opt_has (ak_enforce_file (snd dm) h) b \<Longrightarrow> opt_has (ak_enforce_file (snd (addSelfFileOp d h' dm)) h) b"
  by (auto simp: addSelfFileOp_def opt_has_word_at has_or split_def)

lemma self_tracked [simp]:
  "e_installed (fst (addSelfFileOp d h dm)) = e_installed (fst dm)"
  "e_installed (fst (self_protect_file d f dm)) = e_installed (fst dm)"
  "e_installed (fst (self_protect_dir d f dm)) = e_installed (fst dm)"
  by (simp_all add: addSelfFileOp_def self_protect_file_def self_protect_dir_def split_def Let_def)

lemma protect_file_grows:
  "opt_has (ak_enforce_file (snd dm) h) b \<Longrightarrow> opt_has (ak_enforce_file (snd (self_protect_file d f dm)) h) b"
  by (simp add: self_protect_file_def self_file_grows)

lemma protect_dir_grows:
  "opt_has (ak_enforce_file (snd dm) h) b \<Longrightarrow> opt_has (ak_enforce_file (snd (self_protect_dir d f dm)) h) b"
  by (auto simp: self_protect_dir_def Let_def split_def intro: self_file_grows)

lemma fold_keeps: "(\<And>x y. P y \<Longrightarrow> P (f x y)) \<Longrightarrow> P y \<Longrightarrow> P (fold f xs y)"
  by (induction xs arbitrary: y) auto

lemma fold_reaches:
  assumes "\<And>x y. P y \<Longrightarrow> P (f x y)" "x \<in> set xs" "\<And>y. P (f x y)"
  shows "P (fold f xs y)"
  using assms(2)
proof (induction xs arbitrary: y)
  case (Cons x' xs)
  then show ?case using assms(1,3) fold_keeps [of P f] by (cases "x' = x") auto
qed simp

lemma self_installed: "e_installed (fst (InstallSelfProtection d files dirs dm)) = e_installed (fst dm)"
  unfolding InstallSelfProtection_def
  by (rule fold_keeps [where P = "\<lambda>x. e_installed (fst x) = e_installed (fst dm)"], simp,
      rule fold_keeps [where P = "\<lambda>x. e_installed (fst x) = e_installed (fst dm)"]) simp_all

lemma self_protected:
  assumes "f \<in> set files" "isExactPath f" "d_put d D_enforce_file (HashString f)" "has selfProtectOps b"
  shows "opt_has (ak_enforce_file (snd (InstallSelfProtection d files dirs dm)) (HashString f)) b"
  unfolding InstallSelfProtection_def
  by (rule fold_keeps [where P = "\<lambda>x. opt_has (ak_enforce_file (snd x) (HashString f)) b", OF protect_dir_grows],
      assumption,
      rule fold_reaches [where P = "\<lambda>x. opt_has (ak_enforce_file (snd x) (HashString f)) b", OF protect_file_grows])
    (use assms in \<open>auto simp: self_protect_file_def addSelfFileOp_def has_or split_def\<close>)

text \<open>
  When self-protection survives a hot reload. A protected file of the daemon loses its
  protection in \<open>ClearRules\<close> exactly when some rule of the policy being cleared has the same key:
  the entry is shared, the rule's key is tracked, and clearing deletes the whole entry, the
  protection bits with it. (Nothing installs them again before the daemon restarts.)
\<close>

lemma reload_self_protection:
  assumes "f \<in> set files" "isExactPath f" "d_put d D_enforce_file (HashString f)"
    and "HashString f \<notin> e_installed (fst dm)"
    and "fst (InstallRules d rules (InstallSelfProtection d files dirs dm)) = []"
    and "opn \<in> {AK_OP_WRITE, AK_OP_DELETE, AK_OP_RENAME, AK_OP_CHMOD, AK_OP_CHOWN}"
  shows "opt_has (ak_enforce_file
      (snd (ClearRules d (snd (InstallRules d rules (InstallSelfProtection d files dirs dm))))) (HashString f)) opn
    \<longleftrightarrow> \<not> (\<exists>r \<in> set rules. \<exists>w. file_key r = Some (HashString f, w))"
proof -
  have "has selfProtectOps opn" using assms(6) by (auto simp: selfProtectOps_def has_def ak_const)
  then have "opt_has (ak_enforce_file (snd (InstallSelfProtection d files dirs dm)) (HashString f)) opn"
    using assms(1-3) by (intro self_protected)
  then show ?thesis
    using assms(4)
    by (simp add: file_table.clear opt_has_delete file_table.installed_tracked [OF assms(5)]
        file_table.installed [OF assms(5)] self_installed)
qed

lemma reload_self_protection_example:
  "opt_has (ak_enforce_file (snd (ClearRules accepting (snd (InstallRules accepting []
     (InstallSelfProtection accepting [chars ''/a''] [] (fresh_enforcer, init_kstate)))))) (HashString (chars ''/a''))) AK_OP_WRITE
   \<and> \<not> opt_has (ak_enforce_file (snd (ClearRules accepting (snd (InstallRules accepting [file_rule ''open'' ''/a'']
     (InstallSelfProtection accepting [chars ''/a''] [] (fresh_enforcer, init_kstate)))))) (HashString (chars ''/a''))) AK_OP_WRITE"
proof -
  let ?r = "file_rule ''open'' ''/a''"
  let ?dm = "InstallSelfProtection accepting [chars ''/a''] [] (fresh_enforcer, init_kstate)"
  have "isExactPath (chars ''/a'')" "d_put accepting m h" "e_installed fresh_enforcer = {}" for m h
    by (simp_all add: isExactPath_def chars_def accepting_def fresh_enforcer_def)
  moreover have "fst (InstallRules accepting [] ?dm) = []" "fst (InstallRules accepting [?r] ?dm) = []"
    by (simp_all add: InstallRules_def install_rule_def Let_def file_rule_def path_category_def
        dir_rule_def isExactPath_def addFileOp_def accepting_def note_result_def chars_def split_def)
  moreover have "file_key ?r = Some (HashString (chars ''/a''), opBit ''open'')"
    by (simp add: file_key_def file_rule_def path_category_def isExactPath_def chars_def)
  ultimately show ?thesis
    using reload_self_protection [of "chars ''/a''" "[chars ''/a'']" accepting "(fresh_enforcer, init_kstate)" "[]" "[]" AK_OP_WRITE]
      reload_self_protection [of "chars ''/a''" "[chars ''/a'']" accepting "(fresh_enforcer, init_kstate)" "[?r]" "[]" AK_OP_WRITE]
    by simp
qed

end
