(* ===== verification/AK_Arming.thy ===== *)
theory AK_Arming
  imports AK_Rules AK_ProcTree
begin

text \<open>
  The daemon's writer of sessions, postures, provenance and blocked addresses,
  \<open>internal/enforce/enforce.go\<close>: arming a session and its processes, egress and posture bits,
  taints, agent signatures, runtime decisions. The state is that of \<open>AK_Rules\<close>. What \<open>/proc\<close>
  holds is an argument; a pid is an \<open>int32\<close>, and \<open>uint32(pid)\<close> is the same 32-bit word.
\<close>

section \<open>Arming\<close>

definition session_flags :: "enforcer \<Rightarrow> u32" where
  "session_flags e =
     (if e_dryRun e then AK_SESS_MONITOR
      else if e_denyCode e then AK_SESS_MONITOR OR AK_SESS_ENFORCE OR AK_SESS_DENY_CODE
      else AK_SESS_MONITOR OR AK_SESS_ENFORCE)"

text \<open>
  The write of \<open>armKey\<close> once the current value is read, so that the two halves can be told
  apart: \<open>None\<close> when there is nothing to write.
\<close>

definition armKey_next :: "enforcer \<Rightarrow> u32 \<Rightarrow> u32 option \<Rightarrow> u32 option" where
  "armKey_next e want cur =
     (case cur of
        None \<Rightarrow> Some want
      | Some c \<Rightarrow>
          let nxt = c OR want; nxt' = (if e_denyCode e then nxt else nxt AND NOT AK_SESS_DENY_CODE)
          in if nxt' = c then None else Some nxt')"

definition put_word :: "bool \<Rightarrow> 'k \<Rightarrow> u32 option \<Rightarrow> ('k \<rightharpoonup> u32) \<Rightarrow> install_error option \<times> ('k \<rightharpoonup> u32)" where
  "put_word ok key w m =
     (case w of
        None \<Rightarrow> (None, m)
      | Some v \<Rightarrow> if ok then (None, m(key \<mapsto> v)) else (Some PutRejected, m))"

definition armKey :: "enforcer \<Rightarrow> bool \<Rightarrow> 'k \<Rightarrow> u32 \<Rightarrow> ('k \<rightharpoonup> u32) \<Rightarrow> install_error option \<times> ('k \<rightharpoonup> u32)" where
  "armKey e ok key want m = put_word ok key (armKey_next e want (m key)) m"

record AgentSession =
  sess_CgroupID :: u64
  sess_RootPID :: s32
  sess_Members :: "s32 list"

text \<open>A pid that cannot be armed is logged and skipped.\<close>

definition arm_member :: "denv \<Rightarrow> enforcer \<Rightarrow> s32 \<Rightarrow> kstate \<Rightarrow> kstate" where
  "arm_member d e pid s =
     s\<lparr>ak_session_pids :=
         snd (armKey e (d_put d D_session_pids (ucast pid)) pid (session_flags e) (ak_session_pids s))\<rparr>"

definition EnforceSession :: "denv \<Rightarrow> procfs \<Rightarrow> AgentSession \<Rightarrow> daemon \<Rightarrow> install_error option \<times> daemon" where
  "EnforceSession d pf sess = (\<lambda>(e, s).
     let (err, m) =
       (if sess_CgroupID sess \<noteq> 0
        then armKey e (d_put d D_sessions (sess_CgroupID sess)) (sess_CgroupID sess) (session_flags e) (ak_sessions s)
        else (None, ak_sessions s))
     in if err \<noteq> None then (err, e, s)
        else (None, e, fold (arm_member d e) (sessionPids pf (sess_RootPID sess) (sess_Members sess))
                         (s\<lparr>ak_sessions := m\<rparr>)))"

definition EnforcePID :: "denv \<Rightarrow> s32 \<Rightarrow> daemon \<Rightarrow> daemon" where
  "EnforcePID d pid = (\<lambda>(e, s). if pid \<le>s 0 then (e, s) else (e, arm_member d e pid s))"

definition SetPidEgressDeny :: "denv \<Rightarrow> s32 \<Rightarrow> daemon \<Rightarrow> daemon" where
  "SetPidEgressDeny d pid = (\<lambda>(e, s).
     if pid \<le>s 0 \<or> e_dryRun e then (e, s)
     else case ak_session_pids s pid of
       None \<Rightarrow> (e, s)
     | Some cur \<Rightarrow>
         if has cur AK_SESS_DENY_EGRESS \<or> \<not> d_put d D_session_pids (ucast pid) then (e, s)
         else (e, s\<lparr>ak_session_pids := (ak_session_pids s)(pid \<mapsto> cur OR AK_SESS_DENY_EGRESS)\<rparr>))"

section \<open>Postures\<close>

definition setPostureBit :: "denv \<Rightarrow> u64 \<Rightarrow> u32 \<Rightarrow> bool \<Rightarrow> daemon \<Rightarrow> bool \<times> daemon" where
  "setPostureBit d cg b enable = (\<lambda>(e, s).
     if cg = 0 \<or> e_dryRun e then (False, e, s)
     else
       let cur = word_at (ak_posture s) cg;
           nxt = (if enable then cur OR b else cur AND NOT b)
       in if nxt = cur then (True, e, s)
          else if nxt = 0 then (True, e, s\<lparr>ak_posture := (ak_posture s)(cg := None)\<rparr>)
          else if \<not> d_put d D_posture cg then (False, e, s)
          else (True, e, s\<lparr>ak_posture := (ak_posture s)(cg \<mapsto> nxt)\<rparr>))"

definition SetNetPosture :: "denv \<Rightarrow> u64 \<Rightarrow> bool \<Rightarrow> daemon \<Rightarrow> daemon" where
  "SetNetPosture d cg denyEgress dm = snd (setPostureBit d cg AK_POSTURE_DENY_EGRESS denyEgress dm)"

definition SetTaintedCodePosture :: "denv \<Rightarrow> u64 \<Rightarrow> bool \<Rightarrow> daemon \<Rightarrow> daemon" where
  "SetTaintedCodePosture d cg enable dm = snd (setPostureBit d cg AK_POSTURE_DENY_TAINTED_CODE enable dm)"

definition SetDenyCode :: "bool \<Rightarrow> daemon \<Rightarrow> daemon" where
  "SetDenyCode enable = (\<lambda>(e, s). (e\<lparr>e_denyCode := enable\<rparr>, s))"

section \<open>Provenance and signatures\<close>

text \<open>A write to the LRU map of taints may drop other entries.\<close>

definition put_taint :: "denv \<Rightarrow> u64 \<Rightarrow> u32 \<Rightarrow> (u64 \<rightharpoonup> u32) \<Rightarrow> (u64 \<rightharpoonup> u32)" where
  "put_taint d h v m = (\<lambda>x. if x = h then Some v else if d_evicted d x then None else m x)"

definition add_taint :: "denv \<Rightarrow> u64 \<Rightarrow> u32 \<Rightarrow> daemon \<Rightarrow> install_error option \<times> daemon" where
  "add_taint d h bits = (\<lambda>(e, s).
     let cur = word_at (ak_taint_files s) h; nxt = cur OR bits
     in if nxt = cur then (None, e, s)
        else if \<not> d_put d D_taint_files h then (Some PutRejected, e, s)
        else (None, e\<lparr>e_instTaint := insert h (e_instTaint e)\<rparr>,
              s\<lparr>ak_taint_files := put_taint d h nxt (ak_taint_files s)\<rparr>))"

definition TaintFile :: "denv \<Rightarrow> bytes \<Rightarrow> bool \<Rightarrow> daemon \<Rightarrow> daemon" where
  "TaintFile d path code dm =
     (if \<not> isExactPath path then dm
      else snd (add_taint d (HashString path)
                  (if code then AK_TAINT_WRITTEN OR AK_TAINT_CODE else AK_TAINT_WRITTEN) dm))"

definition MarkSensitivePath :: "denv \<Rightarrow> bytes \<Rightarrow> daemon \<Rightarrow> daemon" where
  "MarkSensitivePath d path = (\<lambda>(e, s).
     if e_dryRun e \<or> \<not> isExactPath path \<or> \<not> d_put d D_sensitive_files (HashString path) then (e, s)
     else (e, s\<lparr>ak_sensitive_files := (ak_sensitive_files s)(HashString path \<mapsto> 1)\<rparr>))"

definition TaintPersist :: "denv \<Rightarrow> bytes \<Rightarrow> daemon \<Rightarrow> daemon" where
  "TaintPersist d path dm =
     (if \<not> isExactPath path then dm
      else case add_taint d (HashString path) AK_TAINT_PERSIST dm of
        (Some _, dm') \<Rightarrow> dm'
      | (None, e, s) \<Rightarrow> (e, armFlag d AK_FLAG_PERSIST_ARMED s))"

definition IsTaintedWritten :: "bytes \<Rightarrow> kstate \<Rightarrow> bool" where
  "IsTaintedWritten path s \<longleftrightarrow>
     isExactPath path \<and> opt_has (ak_taint_files s (HashString path)) AK_TAINT_WRITTEN"

definition put_sig :: "denv \<Rightarrow> u64 \<Rightarrow> daemon \<Rightarrow> daemon" where
  "put_sig d h = (\<lambda>(e, s).
     if d_put d D_agent_sigs h
     then (e, s\<lparr>ak_agent_sigs := (ak_agent_sigs s)(h \<mapsto> session_flags e)\<rparr>) else (e, s))"

definition PopulateAgentSigs :: "denv \<Rightarrow> bytes list \<Rightarrow> daemon \<Rightarrow> daemon" where
  "PopulateAgentSigs d signatures dm =
     fold (\<lambda>sg dm. let t = ToLower (TrimSpace sg) in if t = [] then dm else put_sig d (HashString t) dm)
       signatures dm"

definition RegisterAgentBinary :: "denv \<Rightarrow> bytes \<Rightarrow> daemon \<Rightarrow> daemon" where
  "RegisterAgentBinary d name dm = (if name = [] then dm else put_sig d (HashString (ToLower name)) dm)"

section \<open>Runtime decisions\<close>

definition setIP :: "denv \<Rightarrow> bytes \<Rightarrow> bool \<Rightarrow> kstate \<Rightarrow> install_error option \<times> kstate" where
  "setIP d ip block s =
     (case To4 ip of
        Some ip4 \<Rightarrow>
          let key = (32, ip4)
          in if block
             then if d_put_net d key then (None, s\<lparr>ak_enforce_net := (ak_enforce_net s)(key \<mapsto> netBlock)\<rparr>)
                  else (Some PutRejected, s)
             else (None, s\<lparr>ak_enforce_net := (ak_enforce_net s)(key := None)\<rparr>)
      | None \<Rightarrow>
          let key = (128, ip)
          in if block
             then if d_put_net d key then (None, s\<lparr>ak_enforce_net6 := (ak_enforce_net6 s)(key \<mapsto> netBlock)\<rparr>)
                  else (Some PutRejected, s)
             else (None, s\<lparr>ak_enforce_net6 := (ak_enforce_net6 s)(key := None)\<rparr>))"

definition BlockIP :: "denv \<Rightarrow> bytes \<Rightarrow> kstate \<Rightarrow> install_error option \<times> kstate" where
  "BlockIP d ip s = setIP d ip True s"

definition UnblockIP :: "denv \<Rightarrow> bytes \<Rightarrow> kstate \<Rightarrow> install_error option \<times> kstate" where
  "UnblockIP d ip s = setIP d ip False s"

text \<open>
  The address in a rendered destination, as \<open>net.SplitHostPort\<close> and \<open>net.ParseIP\<close> read it back;
  a resource that is not an address of either family gives none.
\<close>

definition ipFromResource :: "resource \<Rightarrow> bytes option" where
  "ipFromResource res =
     (case res of Address (Inet a p) \<Rightarrow> Some a | Address (Inet6 a p) \<Rightarrow> Some a | _ \<Rightarrow> None)"

text \<open>\<open>applyBlock\<close> never fails: a rejected write is only logged.\<close>

definition applyBlock :: "denv \<Rightarrow> SyscallEvent option \<Rightarrow> daemon \<Rightarrow> daemon" where
  "applyBlock d ev dm =
     (case ev of
        None \<Rightarrow> dm
      | Some v \<Rightarrow>
          if ev_Category v = CategoryFile then
            (case ev_Resource v of
               Text path \<Rightarrow>
                 if isExactPath path then snd (addFileOp d (HashString path) (opBit (ev_Operation v)) dm) else dm
             | Address _ \<Rightarrow> dm)
          else if ev_Category v = CategoryNetwork then
            (case ipFromResource (ev_Resource v) of
               None \<Rightarrow> dm
             | Some ip \<Rightarrow> (fst dm, snd (BlockIP d ip (snd dm))))
          else dm)"

text \<open>The result of \<open>syscall.Kill\<close> on a pid; a process that is already gone is no error.\<close>

datatype kill_result = Killed | Gone | KillFailed

datatype apply_error = NilSession | NoTarget s32 | KillError s32

definition kill_targets :: "AgentSession \<Rightarrow> s32 list" where
  "kill_targets sess = fold add_pid (sess_RootPID sess # sess_Members sess) []"

text \<open>The pids signalled, in order, and the first failure.\<close>

definition applyKill ::
  "(s32 \<Rightarrow> kill_result) \<Rightarrow> AgentSession option \<Rightarrow> enforcer \<Rightarrow> apply_error option \<times> s32 list" where
  "applyKill kill sess e =
     (case sess of
        None \<Rightarrow> (Some NilSession, [])
      | Some ss \<Rightarrow>
          let targets = kill_targets ss
          in if targets = [] then (Some (NoTarget (sess_RootPID ss)), [])
             else if e_dryRun e then (None, [])
             else (map_option KillError (List.find (\<lambda>p. kill p = KillFailed) targets), targets))"

definition Apply ::
  "denv \<Rightarrow> (s32 \<Rightarrow> kill_result) \<Rightarrow> AgentSession option \<Rightarrow> effect \<Rightarrow> SyscallEvent option \<Rightarrow> daemon
     \<Rightarrow> (apply_error option \<times> s32 list) \<times> daemon" where
  "Apply d kill sess eff ev dm =
     (case eff of
        EffectBlock \<Rightarrow> ((None, []), applyBlock d ev dm)
      | EffectKill \<Rightarrow> (applyKill kill sess (fst dm), dm)
      | _ \<Rightarrow> ((None, []), dm))"

section \<open>Arming keeps what is in force\<close>

text \<open>Every bit but deny-tainted-code.\<close>

definition lasting :: "u32 \<Rightarrow> bool" where
  "lasting b \<longleftrightarrow> b AND AK_SESS_DENY_CODE = 0"

lemma has_and_not:
  assumes "lasting b"
  shows "has (v AND NOT AK_SESS_DENY_CODE) b \<longleftrightarrow> has v b"
proof -
  have "\<not> (bit b n \<and> bit AK_SESS_DENY_CODE n)" for n
    using assms bit_and_iff [of b AK_SESS_DENY_CODE n] by (simp add: lasting_def)
  then have "NOT AK_SESS_DENY_CODE AND b = b"
    by (intro bit_word_eqI) (auto simp: bit_and_iff bit_not_iff)
  then show ?thesis by (simp add: has_def and.assoc)
qed

text \<open>The value read decides what is in force after the write.\<close>

lemma armKey_next_has:
  assumes "lasting b"
  shows "opt_has (case armKey_next e want cur of None \<Rightarrow> cur | Some v \<Rightarrow> Some v) b \<longleftrightarrow> opt_has cur b \<or> has want b"
proof (cases cur)
  case (Some c)
  let ?n = "if e_denyCode e then c OR want else (c OR want) AND NOT AK_SESS_DENY_CODE"
  have "has ?n b \<longleftrightarrow> has c b \<or> has want b" using assms by (simp add: has_and_not has_or)
  then show ?thesis unfolding Some armKey_next_def Let_def option.case by (cases "?n = c") simp_all
qed (simp add: armKey_next_def)

lemma armKey_apply: "snd (armKey e ok key want m) x =
   (if ok \<and> x = key then case armKey_next e want (m key) of None \<Rightarrow> m key | Some v \<Rightarrow> Some v else m x)"
  by (simp add: armKey_def put_word_def split: option.split)

lemma armKey_arms:
  assumes "lasting b" "has want b" "ok"
  shows "opt_has (snd (armKey e ok key want m) key) b"
  using assms by (simp add: armKey_apply armKey_next_has)

lemma armKey_keeps:
  assumes "lasting b" "opt_has (m x) b"
  shows "opt_has (snd (armKey e ok key want m) x) b"
  using assms by (auto simp: armKey_apply armKey_next_has)

lemma arm_member_keeps:
  "lasting b \<Longrightarrow> opt_has (ak_session_pids s x) b \<Longrightarrow> opt_has (ak_session_pids (arm_member d e p s) x) b"
  by (simp add: arm_member_def armKey_keeps)

lemma arm_member_arms:
  assumes "d_put d D_session_pids (ucast p)" "lasting b" "has (session_flags e) b"
  shows "opt_has (ak_session_pids (arm_member d e p s) p) b"
  using assms by (simp add: arm_member_def armKey_arms)

lemma arm_members:
  assumes "\<forall>p \<in> set ps. d_put d D_session_pids (ucast p)" "lasting b" "has (session_flags e) b" "p \<in> set ps"
  shows "opt_has (ak_session_pids (fold (arm_member d e) ps s) p) b"
  using assms(1,4)
proof (induction ps arbitrary: s)
  case (Cons q ps)
  have "opt_has (ak_session_pids (arm_member d e q s) q) b" using Cons.prems assms(2,3) by (simp add: arm_member_arms)
  then have "opt_has (ak_session_pids (fold (arm_member d e) ps (arm_member d e q s)) q) b"
    using fold_keeps [where P = "\<lambda>s. opt_has (ak_session_pids s q) b" and f = "arm_member d e"]
      arm_member_keeps [OF assms(2)] by blast
  with Cons show ?case by auto
qed simp

lemma arm_member_frame [simp]:
  "ak_self (fold (arm_member d e) ps s) = ak_self s" "ak_sessions (fold (arm_member d e) ps s) = ak_sessions s"
  by (induction ps arbitrary: s) (simp_all add: arm_member_def)

lemma session_flags_enforce:
  assumes "\<not> e_dryRun e"
  shows "has (session_flags e) AK_SESS_MONITOR" "has (session_flags e) AK_SESS_ENFORCE"
    "lasting AK_SESS_MONITOR" "lasting AK_SESS_ENFORCE" "lasting AK_SESS_DENY_EGRESS"
  using assms by (simp_all add: session_flags_def lasting_def has_def ak_const)

text \<open>The root, the members and the descendants in \<open>/proc\<close> get the flags of the session.\<close>

lemma tree_flags:
  assumes "EnforceSession d pf sess (e, s) = (None, e', s')" "\<not> e_dryRun e"
    and "\<forall>p. d_put d D_session_pids p" "proc_entries pf \<noteq> None"
    and "pid = sess_RootPID sess \<or> pid \<in> set (sess_Members sess) \<or> (sess_RootPID sess, pid) \<in> (child_rel pf)\<^sup>+"
    and "1 <s pid"
  shows "opt_has (ak_session_pids s' pid) AK_SESS_MONITOR \<and> opt_has (ak_session_pids s' pid) AK_SESS_ENFORCE \<and> ak_self s' = ak_self s"
proof -
  let ?ps = "sessionPids pf (sess_RootPID sess) (sess_Members sess)"
  have s': "\<exists>s1. s' = fold (arm_member d e) ?ps s1 \<and> ak_self s1 = ak_self s"
    using assms(1) by (auto simp: EnforceSession_def Let_def split: prod.splits if_splits)
  have "pid \<in> set ?ps"
    using assms(5,6) descendants_closure [OF assms(4), of "sess_RootPID sess"] by (auto simp: sessionPids_set)
  then have "opt_has (ak_session_pids s' pid) b" if "lasting b" "has (session_flags e) b" for b
    using arm_members [of ?ps d b e pid] that assms(3) s' by auto
  moreover have "ak_self s' = ak_self s" using s' by auto
  ultimately show ?thesis using session_flags_enforce [OF assms(2)] by blast
qed

lemma flags_enforced:
  "opt_has (ak_session_pids s (ak_tgid k)) AK_SESS_MONITOR \<Longrightarrow> opt_has (ak_session_pids s (ak_tgid k)) AK_SESS_ENFORCE
   \<Longrightarrow> ak_self s (ak_tgid k) = None \<Longrightarrow> enforced k s"
  by (auto simp: enforced_def ak_session_flags_def elim!: opt_hasE)

text \<open>
  C25. Arming a session reaches its whole tree: unless the daemon runs dry, when \<open>EnforceSession\<close>
  returns without an error and the map of pids has room, every process that is the session's
  root, one of its recorded members, or a descendant of the root in \<open>/proc\<close> (a worker forked
  before the session was recognised) is from then on an enforced member, whichever cgroup it is
  in. Pids 0 and 1 and the daemon itself are never armed.
\<close>

theorem session_tree_armed:
  assumes "EnforceSession d pf sess (e, s) = (None, e', s')" "\<not> e_dryRun e"
    and "\<forall>p. d_put d D_session_pids p" "proc_entries pf \<noteq> None"
    and "pid = sess_RootPID sess \<or> pid \<in> set (sess_Members sess) \<or> (sess_RootPID sess, pid) \<in> (child_rel pf)\<^sup>+"
    and "1 <s pid" "ak_tgid k = pid" "ak_self s pid = None"
  shows "enforced k s'"
  using tree_flags [OF assms(1-6)] assms(7,8) by (intro flags_enforced) simp_all

definition small_session :: AgentSession where
  "small_session = \<lparr>sess_CgroupID = 7, sess_RootPID = 2, sess_Members = []\<rparr>"

theorem session_tree_armed_witness:
  "enforced (sample_env\<lparr>k_pid_tgid := 4 * 2 ^ 32 + 4\<rparr>)
     (snd (snd (EnforceSession accepting small_proc small_session (fresh_enforcer, init_kstate))))"
proof -
  let ?r = "EnforceSession accepting small_proc small_session (fresh_enforcer, init_kstate)"
  have acc: "d_put accepting m h" for m h by (simp add: accepting_def)
  have "fst ?r = None" "fst (snd ?r) = fresh_enforcer"
    by (simp_all add: EnforceSession_def Let_def armKey_def armKey_next_def put_word_def init_kstate_def acc)
  then have r: "?r = (None, fresh_enforcer, snd (snd ?r))" by (metis prod.collapse)
  have "(2, 4) \<in> (child_rel small_proc)\<^sup>+"
    using descendants_closure [of small_proc 2] small_descendants by (auto simp: small_proc_def)
  moreover have "ak_tgid (sample_env\<lparr>k_pid_tgid := 4 * 2 ^ 32 + 4\<rparr>) = 4" "(1 :: s32) <s 4"
    by (simp_all add: ak_tgid_def word_sless_alt)
  ultimately show ?thesis
    using session_tree_armed [OF r, of 4 "sample_env\<lparr>k_pid_tgid := 4 * 2 ^ 32 + 4\<rparr>"]
    by (simp add: fresh_enforcer_def acc small_session_def init_kstate_def small_proc_def)
qed

end
