(* ===== verification/AK_System.thy ===== *)
theory AK_System
  imports AK_Evolves AK_Userspace
begin

text \<open>
  The loaded object as a transition system. A \<open>bpf_call\<close> is one program with its context; a
  step runs one call of any program by any task, with whatever the kernel answers. Programs run
  to completion (the BPF verifier rules out unbounded loops, and the scratch maps are per CPU), so
  a step is atomic; concurrency is the interleaving of steps.
\<close>

text \<open>Process programs (\<open>process.bpf.c\<close>).\<close>

datatype proc_call =
    C_execve sys_enter_ctx
  | C_execveat sys_enter_ctx
  | C_proc_fork sched_fork_ctx
  | C_new_task struct_task
  | C_proc_exit

fun run_proc :: "kenv \<Rightarrow> proc_call \<Rightarrow> kstate \<Rightarrow> kstate" where
  "run_proc k (C_execve c) s = ak_execve k c s"
| "run_proc k (C_execveat c) s = ak_execveat k c s"
| "run_proc k (C_proc_fork c) s = ak_proc_fork k c s"
| "run_proc k (C_new_task p) s = ak_new_task k p s"
| "run_proc k C_proc_exit s = ak_proc_exit k s"

text \<open>Observers (\<open>file_io.bpf.c\<close>, \<open>file_meta.bpf.c\<close>, \<open>creds.bpf.c\<close>).\<close>

datatype obs_call =
    C_openat sys_enter_ctx
  | C_openat2 sys_enter_ctx
  | C_unlinkat sys_enter_ctx
  | C_unlink sys_enter_ctx
  | C_renameat2 sys_enter_ctx
  | C_rename sys_enter_ctx
  | C_mkdirat sys_enter_ctx
  | C_fchmodat sys_enter_ctx
  | C_fchownat sys_enter_ctx
  | C_ptrace sys_enter_ctx
  | C_kill sys_enter_ctx
  | C_setuid sys_enter_ctx
  | C_setreuid sys_enter_ctx
  | C_io_uring_submit io_uring_ctx

fun run_obs :: "kenv \<Rightarrow> obs_call \<Rightarrow> kstate \<Rightarrow> kstate" where
  "run_obs k (C_openat c) s = ak_openat k c s"
| "run_obs k (C_openat2 c) s = ak_openat2 k c s"
| "run_obs k (C_unlinkat c) s = ak_unlinkat k c s"
| "run_obs k (C_unlink c) s = ak_unlink k c s"
| "run_obs k (C_renameat2 c) s = ak_renameat2 k c s"
| "run_obs k (C_rename c) s = ak_rename k c s"
| "run_obs k (C_mkdirat c) s = ak_mkdirat k c s"
| "run_obs k (C_fchmodat c) s = ak_fchmodat k c s"
| "run_obs k (C_fchownat c) s = ak_fchownat k c s"
| "run_obs k (C_ptrace c) s = ak_ptrace k c s"
| "run_obs k (C_kill c) s = ak_kill k c s"
| "run_obs k (C_setuid c) s = ak_setuid k c s"
| "run_obs k (C_setreuid c) s = ak_setreuid k c s"
| "run_obs k (C_io_uring_submit c) s = ak_io_uring_submit k c s"

text \<open>Network programs (\<open>network.bpf.c\<close>).\<close>

datatype net_call =
    C_connect sys_enter_ctx
  | C_sendto sys_enter_ctx
  | C_recvfrom_enter sys_enter_ctx
  | C_recvfrom_exit sys_exit_ctx
  | C_recvmsg_enter sys_enter_ctx
  | C_recvmsg_exit sys_exit_ctx

fun run_net :: "kenv \<Rightarrow> net_call \<Rightarrow> kstate \<Rightarrow> kstate" where
  "run_net k (C_connect c) s = ak_connect k c s"
| "run_net k (C_sendto c) s = ak_sendto k c s"
| "run_net k (C_recvfrom_enter c) s = ak_recvfrom_enter k c s"
| "run_net k (C_recvfrom_exit x) s = ak_recvfrom_exit k x s"
| "run_net k (C_recvmsg_enter c) s = ak_recvmsg_enter k c s"
| "run_net k (C_recvmsg_exit x) s = ak_recvmsg_exit k x s"

text \<open>TLS library probes (\<open>semantic.bpf.c\<close>).\<close>

datatype tls_call =
    C_ssl_write u64 kptr s32
  | C_ssl_read_enter "u64 \<times> kptr"
  | C_ssl_read_exit s32
  | C_gotls_write pt_regs
  | C_gotls_read_enter pt_regs
  | C_gotls_read_ret pt_regs
  | C_aead_open_enter "kptr \<times> kptr"
  | C_aead_open_exit s32
  | C_aead_seal pt_regs

fun run_tls :: "kenv \<Rightarrow> tls_call \<Rightarrow> kstate \<Rightarrow> kstate" where
  "run_tls k (C_ssl_write ssl buf num) s = ak_ssl_write k ssl buf num s"
| "run_tls k (C_ssl_read_enter a) s = ak_ssl_read_enter k a s"
| "run_tls k (C_ssl_read_exit ret) s = ak_ssl_read_exit k ret s"
| "run_tls k (C_gotls_write r) s = ak_gotls_write k r s"
| "run_tls k (C_gotls_read_enter r) s = ak_gotls_read_enter k r s"
| "run_tls k (C_gotls_read_ret r) s = ak_gotls_read_ret k r s"
| "run_tls k (C_aead_open_enter a) s = ak_aead_open_enter k a s"
| "run_tls k (C_aead_open_exit ret) s = ak_aead_open_exit k ret s"
| "run_tls k (C_aead_seal r) s = ak_aead_seal k r s"

text \<open>Assembly AEAD probes (\<open>semantic.bpf.c\<close>).\<close>

datatype asm_call =
    C_chacha_open_enter "kptr \<times> u64 \<times> u64"
  | C_chacha_open_exit
  | C_chacha_seal kptr u64 u64
  | C_aesgcm_dec_enter "kptr \<times> u64 \<times> u64"
  | C_aesgcm_dec_exit u64
  | C_aesgcm_enc kptr u64 u64
  | C_aesgcm512_enc u64 kptr u64
  | C_aesgcm512_dec_enter "kptr \<times> u64 \<times> u64"
  | C_aesgcm512_dec_exit

fun run_asm :: "kenv \<Rightarrow> asm_call \<Rightarrow> kstate \<Rightarrow> kstate" where
  "run_asm k (C_chacha_open_enter a) s = ak_chacha_open_enter k a s"
| "run_asm k C_chacha_open_exit s = ak_chacha_open_exit k () s"
| "run_asm k (C_chacha_seal i n d) s = ak_chacha_seal k i n d s"
| "run_asm k (C_aesgcm_dec_enter a) s = ak_aesgcm_dec_enter k a s"
| "run_asm k (C_aesgcm_dec_exit ret') s = ak_aesgcm_dec_exit k ret' s"
| "run_asm k (C_aesgcm_enc i n key) s = ak_aesgcm_enc k i n key s"
| "run_asm k (C_aesgcm512_enc key i n) s = ak_aesgcm512_enc k key i n s"
| "run_asm k (C_aesgcm512_dec_enter a) s = ak_aesgcm512_dec_enter k a s"
| "run_asm k C_aesgcm512_dec_exit s = ak_aesgcm512_dec_exit k () s"

text \<open>Pipe and database programs (\<open>stdio.bpf.c\<close>).\<close>

datatype stdio_call =
    C_stdio_write sys_enter_ctx
  | C_db_sendto sys_enter_ctx
  | C_stdio_read_enter sys_enter_ctx
  | C_stdio_read_exit sys_exit_ctx

fun run_stdio :: "kenv \<Rightarrow> stdio_call \<Rightarrow> kstate \<Rightarrow> kstate" where
  "run_stdio k (C_stdio_write c) s = ak_stdio_write k c s"
| "run_stdio k (C_db_sendto c) s = ak_db_sendto k c s"
| "run_stdio k (C_stdio_read_enter c) s = ak_stdio_read_enter k c s"
| "run_stdio k (C_stdio_read_exit x) s = ak_stdio_read_exit k x s"

text \<open>LSM hooks (\<open>enforcer.bpf.c\<close>), with the verdict of the modules before them.\<close>

datatype lsm_call =
    C_lsm_file_open struct_file s32
  | C_lsm_bprm struct_linux_binprm s32
  | C_lsm_path_chmod struct_path s32
  | C_lsm_path_chown struct_path s32
  | C_lsm_path_truncate struct_path s32
  | C_lsm_path_unlink "struct_path \<times> struct_dentry" s32
  | C_lsm_path_rmdir "struct_path \<times> struct_dentry" s32
  | C_lsm_path_rename rename_args s32
  | C_lsm_socket_connect kptr s32
  | C_lsm_socket_sendmsg s32
  | C_lsm_task_kill "struct_task \<times> s32" s32
  | C_lsm_ptrace struct_task s32

fun run_lsm :: "kenv \<Rightarrow> lsm_call \<Rightarrow> kstate \<Rightarrow> s32 \<times> kstate" where
  "run_lsm k (C_lsm_file_open f ret) s = ak_lsm_file_open k f ret s"
| "run_lsm k (C_lsm_bprm b ret) s = ak_lsm_bprm k b ret s"
| "run_lsm k (C_lsm_path_chmod p ret) s = ak_lsm_path_chmod k p ret s"
| "run_lsm k (C_lsm_path_chown p ret) s = ak_lsm_path_chown k p ret s"
| "run_lsm k (C_lsm_path_truncate p ret) s = ak_lsm_path_truncate k p ret s"
| "run_lsm k (C_lsm_path_unlink a ret) s = ak_lsm_path_unlink k a ret s"
| "run_lsm k (C_lsm_path_rmdir a ret) s = ak_lsm_path_rmdir k a ret s"
| "run_lsm k (C_lsm_path_rename a ret) s = ak_lsm_path_rename k a ret s"
| "run_lsm k (C_lsm_socket_connect a ret) s = ak_lsm_socket_connect k a ret s"
| "run_lsm k (C_lsm_socket_sendmsg ret) s = ak_lsm_socket_sendmsg k () ret s"
| "run_lsm k (C_lsm_task_kill a ret) s = ak_lsm_task_kill k a ret s"
| "run_lsm k (C_lsm_ptrace p ret) s = ak_lsm_ptrace k p ret s"

text \<open>The verdict a hook is handed.\<close>

fun lsm_prior :: "lsm_call \<Rightarrow> s32" where
  "lsm_prior (C_lsm_file_open f ret) = ret"
| "lsm_prior (C_lsm_bprm b ret) = ret"
| "lsm_prior (C_lsm_path_chmod p ret) = ret"
| "lsm_prior (C_lsm_path_chown p ret) = ret"
| "lsm_prior (C_lsm_path_truncate p ret) = ret"
| "lsm_prior (C_lsm_path_unlink a ret) = ret"
| "lsm_prior (C_lsm_path_rmdir a ret) = ret"
| "lsm_prior (C_lsm_path_rename r ret) = ret"
| "lsm_prior (C_lsm_socket_connect a ret) = ret"
| "lsm_prior (C_lsm_socket_sendmsg ret) = ret"
| "lsm_prior (C_lsm_task_kill a ret) = ret"
| "lsm_prior (C_lsm_ptrace p ret) = ret"

text \<open>The whole object. A tracepoint or probe always returns 0; a hook returns its verdict.\<close>

datatype bpf_call =
    Proc proc_call
  | Obs obs_call
  | Net net_call
  | Tls tls_call
  | Asm asm_call
  | Stdio stdio_call
  | Lsm lsm_call

fun run_bpf :: "kenv \<Rightarrow> bpf_call \<Rightarrow> kstate \<Rightarrow> s32 \<times> kstate" where
  "run_bpf k (Proc c) s = (0, run_proc k c s)"
| "run_bpf k (Obs c) s = (0, run_obs k c s)"
| "run_bpf k (Net c) s = (0, run_net k c s)"
| "run_bpf k (Tls c) s = (0, run_tls k c s)"
| "run_bpf k (Asm c) s = (0, run_asm k c s)"
| "run_bpf k (Stdio c) s = (0, run_stdio k c s)"
| "run_bpf k (Lsm c) s = run_lsm k c s"

inductive bpf_step :: "kstate \<Rightarrow> kstate \<Rightarrow> bool" where
  step: "bpf_step s (snd (run_bpf k c s))"

inductive_cases bpf_stepE: "bpf_step s t"

abbreviation bpf_run :: "kstate \<Rightarrow> kstate \<Rightarrow> bool" where
  "bpf_run \<equiv> bpf_step\<^sup>*\<^sup>*"

lemma run_proc_evolves: "evolves s (run_proc k c s)"
  by (cases c) (simp_all add: process_evolves)

lemma run_obs_evolves: "evolves s (run_obs k c s)"
  by (cases c) (simp_all add: observers_evolve)

lemma run_net_evolves: "evolves s (run_net k c s)"
  by (cases c) (simp_all add: network_evolves)

lemma run_tls_evolves: "evolves s (run_tls k c s)"
  by (cases c) (simp_all add: semantic_evolves)

lemma run_asm_evolves: "evolves s (run_asm k c s)"
  by (cases c) (simp_all add: asm_evolves)

lemma run_stdio_evolves: "evolves s (run_stdio k c s)"
  by (cases c) (simp_all add: stdio_evolves)

lemma run_lsm_evolves: "evolves s (snd (run_lsm k c s))"
  by (cases c) (simp_all add: hooks_evolve bprm_evolves)

lemma run_bpf_evolves: "evolves s (snd (run_bpf k c s))"
  by (cases c) (simp_all add: run_proc_evolves run_obs_evolves run_net_evolves run_tls_evolves
      run_asm_evolves run_stdio_evolves run_lsm_evolves)

lemma bpf_run_evolves: "bpf_run s t \<Longrightarrow> evolves s t"
proof (induction rule: rtranclp_induct)
  case (step t u)
  then show ?case using run_bpf_evolves evolves_trans by (metis bpf_stepE)
qed simp

text \<open>A finite schedule of calls, for concrete runs.\<close>

definition run_calls :: "(kenv \<times> bpf_call) list \<Rightarrow> kstate \<Rightarrow> kstate" where
  "run_calls cs s = fold (\<lambda>(k, c) s. snd (run_bpf k c s)) cs s"

lemma run_calls_run: "bpf_run s (run_calls cs s)"
proof (induction cs arbitrary: s)
  case (Cons kc cs)
  obtain k c where kc: "kc = (k, c)" by (cases kc)
  have "bpf_step s (snd (run_bpf k c s))" by (rule bpf_step.step)
  with Cons [of "snd (run_bpf k c s)"] show ?case
    by (simp add: run_calls_def kc converse_rtranclp_into_rtranclp)
qed (simp add: run_calls_def)

end
