(* ===== verification/AK_Policy.thy ===== *)
theory AK_Policy
  imports AK_Rules AK_System
begin

text \<open>
  From a policy to the verdicts of the hooks: what \<open>ClearRules\<close> and \<open>InstallRules\<close> write
  (\<open>internal/enforce/enforce.go\<close>) is what the programs of \<open>bpf/\<close> refuse, after any run of
  programs. Paths, network prefixes and database tables.
\<close>

section \<open>A reload\<close>

definition reload :: "denv \<Rightarrow> KernelRule list \<Rightarrow> daemon \<Rightarrow> (string \<times> install_error) list \<times> daemon" where
  "reload d rules dm = InstallRules d rules (ClearRules d dm)"

text \<open>Loop variables at the start.\<close>

definition install_start :: "daemon \<Rightarrow> install_run" where
  "install_start dm = \<lparr>i_slot = 0, i_installed = 0, i_skipped = 0, i_dropped = [], i_daemon = dm\<rparr>"

lemma reload_fold:
  "fst (reload d rules dm) = i_dropped (fold (install_rule d) rules (install_start (ClearRules d dm)))"
  "snd (reload d rules dm) = i_daemon (fold (install_rule d) rules (install_start (ClearRules d dm)))"
  by (simp_all add: reload_def InstallRules_def install_start_def Let_def)

text \<open>Everything but the maps a reload writes.\<close>

definition live_state :: "kstate \<Rightarrow> kstate" where
  "live_state s = s\<lparr>ak_enforce_file := Map.empty, ak_enforce_dir := Map.empty, ak_enforce_net := Map.empty,
     ak_enforce_net6 := Map.empty, ak_db_deny_tables := Map.empty, ak_flags := Map.empty\<rparr>"

lemma live_update [simp]:
  "live_state (s\<lparr>ak_enforce_file := m1\<rparr>) = live_state s" "live_state (s\<lparr>ak_enforce_dir := m1\<rparr>) = live_state s"
  "live_state (s\<lparr>ak_enforce_net := m2\<rparr>) = live_state s" "live_state (s\<lparr>ak_enforce_net6 := m2\<rparr>) = live_state s"
  "live_state (s\<lparr>ak_db_deny_tables := m3\<rparr>) = live_state s" "live_state (s\<lparr>ak_flags := m4\<rparr>) = live_state s"
  by (simp_all add: live_state_def)

lemma install_live:
  "live_state (snd (snd (addFileOp d h opn dm))) = live_state (snd dm)"
  "live_state (snd (snd (addDirOp d h opn dm))) = live_state (snd dm)"
  "live_state (armFlag d b s) = live_state s"
  by (simp_all add: addFileOp_def addDirOp_def armFlag_def Let_def split_def)

lemma install_rules_live:
  "live_state (snd (installDBRule d r n s)) = live_state s"
  "live_state (snd (installNetRule d r s)) = live_state s"
  by (simp_all add: installDBRule_def installNetRule_def Let_def install_live split: option.split prod.split)

lemma install_rule_live:
  "live_state (snd (i_daemon (install_rule d r x))) = live_state (snd (i_daemon x))"
  by (simp add: install_rule_def Let_def split_def install_live install_rules_live split: sum.split)

lemma reload_live: "live_state (snd (snd (reload d rules dm))) = live_state (snd dm)"
proof -
  have "live_state (snd (i_daemon (fold (install_rule d) rules x))) = live_state (snd (i_daemon x))" for x
    by (induction rules arbitrary: x) (simp_all add: install_rule_live)
  then show ?thesis
    by (simp add: reload_fold install_start_def) (simp add: ClearRules_def live_state_def split_def)
qed

lemma live_fields:
  "ak_session_pids (live_state s) = ak_session_pids s"
  "ak_sessions (live_state s) = ak_sessions s"
  "ak_self (live_state s) = ak_self s"
  "ak_posture (live_state s) = ak_posture s"
  "ak_path_scratch (live_state s) = ak_path_scratch s"
  "ak_db_scratch (live_state s) = ak_db_scratch s"
  "ak_db_fds (live_state s) = ak_db_fds s"
  "ak_db_deny_pending (live_state s) = ak_db_deny_pending s"
  "ak_agent_sigs (live_state s) = ak_agent_sigs s"
  "ak_sensitive_files (live_state s) = ak_sensitive_files s"
  "ak_mcp_fds (live_state s) = ak_mcp_fds s"
  "ak_taint_files (live_state s) = ak_taint_files s"
  "ak_taint_inode (live_state s) = ak_taint_inode s"
  by (simp_all add: live_state_def)

text \<open>In particular sessions, postures and provenance are live state that a reload keeps.\<close>

lemma live_cong:
  assumes "live_state s = live_state t"
  shows "ak_session_pids s = ak_session_pids t"
    "ak_sessions s = ak_sessions t"
    "ak_self s = ak_self t"
    "ak_posture s = ak_posture t"
    "ak_path_scratch s = ak_path_scratch t"
    "ak_db_scratch s = ak_db_scratch t"
    "ak_db_fds s = ak_db_fds t"
    "ak_db_deny_pending s = ak_db_deny_pending t"
    "ak_agent_sigs s = ak_agent_sigs t"
    "ak_sensitive_files s = ak_sensitive_files t"
    "ak_mcp_fds s = ak_mcp_fds t"
    "ak_taint_files s = ak_taint_files t"
    "ak_taint_inode s = ak_taint_inode t"
  using assms live_fields by metis+

lemmas reload_frame = live_cong [OF reload_live]

section \<open>Paths\<close>

lemma covers_forbidden:
  assumes "fst (reload d rules dm) = []" "\<forall>r \<in> set rules. hashable (r_PathPrefix r)"
    and "r \<in> set rules" "rule_covers r opn q"
  shows "forbidden_spec (snd (snd (reload d rules dm))) q opn"
proof -
  have h: "HashString (r_PathPrefix r) = fnv1a (r_PathPrefix r)"
    "HashString (trim_slashes (r_PathPrefix r)) = fnv1a (trim_slashes (r_PathPrefix r))"
    using assms(2,3) by (simp_all add: HashString_hashable hashable_trim)
  consider "isExactPath (r_PathPrefix r)" "r_PathPrefix r = q"
    | "dir_rule (r_PathPrefix r)" "ancestor_of (trim_slashes (r_PathPrefix r)) q"
    using assms(4) by (auto simp: rule_covers_def)
  then show ?thesis
  proof cases
    case 1
    then have "asked file_key rules (fnv1a q) opn"
      using assms(3,4) h by (auto simp: asked_def file_key_def rule_covers_def intro!: bexI [of _ r])
    then show ?thesis
      using file_table.reloaded [OF assms(1) [unfolded reload_def]] by (simp add: forbidden_spec_def reload_def)
  next
    case 2
    then have "asked dir_key rules (fnv1a (trim_slashes (r_PathPrefix r))) opn"
      using assms(3,4) h by (auto simp: asked_def dir_key_def rule_covers_def intro!: bexI [of _ r])
    then show ?thesis
      using dir_table.reloaded [OF assms(1) [unfolded reload_def]] 2
      by (auto simp: forbidden_spec_def reload_def)
  qed
qed

lemma run_forbidden: "bpf_run s t \<Longrightarrow> forbidden_spec t q opn = forbidden_spec s q opn"
  using bpf_run_evolves [of s t] by (simp add: evolves_def policy_def forbidden_spec_def)

text \<open>
  The hook that mediates an operation refuses it on a path, whoever names the path and how. The path of an entry is that of
  its directory, a separator unless the directory is the root, and its name.
\<close>

definition refuses :: "kenv \<Rightarrow> kstate \<Rightarrow> u32 \<Rightarrow> bytes \<Rightarrow> bool" where
  "refuses k t opn q \<longleftrightarrow>
     (\<forall>file. opn = AK_OP_OPEN \<and> names k (f_path file) t q \<longrightarrow> fst (ak_lsm_file_open k file 0 t) = EPERM)
     \<and> (\<forall>bprm. opn = AK_OP_EXEC \<and> names k (f_path (bprm_file bprm)) t q \<longrightarrow> fst (ak_lsm_bprm k bprm 0 t) = EPERM)
     \<and> (\<forall>p. opn = AK_OP_CHMOD \<and> names k p t q \<longrightarrow> fst (ak_lsm_path_chmod k p 0 t) = EPERM)
     \<and> (\<forall>p. opn = AK_OP_CHOWN \<and> names k p t q \<longrightarrow> fst (ak_lsm_path_chown k p 0 t) = EPERM)
     \<and> (\<forall>dn n dir de. q = (if dn = [slash] then slash # n else dn @ slash # n) \<and> names k dir t dn
          \<and> dn \<noteq> [] \<and> (dn = [slash] \<or> last dn \<noteq> slash) \<and> entry_name k de n \<and> length q < AK_PATH_MAX \<longrightarrow>
          (opn = AK_OP_DELETE \<longrightarrow> fst (ak_lsm_path_unlink k (dir, de) 0 t) = EPERM
             \<and> fst (ak_lsm_path_rmdir k (dir, de) 0 t) = EPERM)
          \<and> (\<forall>ra. opn = AK_OP_RENAME \<and> old_dir ra = dir \<and> old_dentry ra = de \<longrightarrow>
             fst (ak_lsm_path_rename k ra 0 t) = EPERM))"

lemma forbidden_refused:
  assumes "forbidden_spec t q opn" "enforced k t"
  shows "refuses k t opn q"
proof -
  have "ak_forbidden_split t (fit AK_PATH_MAX dn) (dentry_name k de) opn"
    if "q = (if dn = [slash] then slash # n else dn @ slash # n)" "names k dir t dn" "dn \<noteq> []"
      "dn = [slash] \<or> last dn \<noteq> slash" "entry_name k de n" "length q < AK_PATH_MAX" for dn n dir de
    using that assms(1) forbidden_split_entry [of dn n q t opn] by (auto simp: names_def entry_name_def split: if_splits)
  with assms show ?thesis
    by (auto simp: refuses_def p_file_open.refused_iff p_bprm.refused_iff p_chmod.refused_iff p_chown.refused_iff
        p_unlink.refused_iff p_rmdir.refused_iff p_rename.refused_iff open_blocked_def exec_blocked_def
        entry_blocked_def names_simps)
qed

text \<open>
  C3. A policy whose paths have at most 256 bytes and that was loaded without an error is enforced:
  for every rule of it, after any run of programs, an enforced member is refused the rule's
  operation on every path the rule covers, by the hook that mediates the operation: open, exec,
  chmod and chown of the path, and unlink, rmdir and rename of the entry, also of the root
  directory, when its name has fewer than 128 bytes and its path fewer than 1024. (Longer rules
  load and never match, \<open>long_path_rule_misses\<close>; longer names are cut off by the hooks.)
\<close>

theorem policy_enforced:
  assumes "fst (reload d rules dm) = []" "\<forall>r \<in> set rules. hashable (r_PathPrefix r)"
    and "bpf_run (snd (snd (reload d rules dm))) t" "enforced k t"
    and "r \<in> set rules" "rule_covers r opn q"
  shows "(opn = AK_OP_OPEN \<and> names k (f_path file) t q \<longrightarrow> fst (ak_lsm_file_open k file 0 t) = EPERM)
    \<and> (opn = AK_OP_EXEC \<and> names k (f_path (bprm_file bprm)) t q \<longrightarrow> fst (ak_lsm_bprm k bprm 0 t) = EPERM)
    \<and> (opn = AK_OP_CHMOD \<and> names k p t q \<longrightarrow> fst (ak_lsm_path_chmod k p 0 t) = EPERM)
    \<and> (opn = AK_OP_CHOWN \<and> names k p t q \<longrightarrow> fst (ak_lsm_path_chown k p 0 t) = EPERM)
    \<and> (q = (if dn = [slash] then slash # n else dn @ slash # n) \<and> names k dir t dn
         \<and> dn \<noteq> [] \<and> (dn = [slash] \<or> last dn \<noteq> slash) \<and> entry_name k de n \<and> length q < AK_PATH_MAX \<longrightarrow>
         (opn = AK_OP_DELETE \<longrightarrow> fst (ak_lsm_path_unlink k (dir, de) 0 t) = EPERM
            \<and> fst (ak_lsm_path_rmdir k (dir, de) 0 t) = EPERM)
         \<and> (opn = AK_OP_RENAME \<and> old_dir ra = dir \<and> old_dentry ra = de \<longrightarrow>
            fst (ak_lsm_path_rename k ra 0 t) = EPERM))"
proof -
  have "forbidden_spec t q opn"
    using covers_forbidden [OF assms(1,2,5,6)] run_forbidden [OF assms(3)] by simp
  from forbidden_refused [OF this assms(4)] show ?thesis unfolding refuses_def by blast
qed

text \<open>The member forks after the daemon installed a rule for the tree \<open>/a/\<close>.\<close>

definition forked :: "kstate \<Rightarrow> kstate" where
  "forked s = run_calls [(sample_env, Proc (C_proc_fork \<lparr>child_pid = 101\<rparr>))] s"

lemma forked_flags: "ak_session_flags sample_env (forked s) = ak_session_flags sample_env s"
  by (auto simp: forked_def run_calls_def ak_session_flags_def ak_proc_fork_def map_update_def
      sample_env_def ak_tgid_def split: option.split)

lemma forked_scratch: "ak_path_scratch (forked s) = ak_path_scratch s"
  by (auto simp: forked_def run_calls_def ak_proc_fork_def arm_pid_def Let_def split: option.split)

theorem policy_enforced_witness:
  "fst (ak_lsm_file_open sample_env (some_file 1) 0
     (forked (snd (snd (reload accepting [file_rule ''read'' ''/a/''] (fresh_enforcer, member_state 3)))))) = EPERM"
proof -
  let ?r = "file_rule ''read'' ''/a/''"
  let ?s = "snd (snd (reload accepting [?r] (fresh_enforcer, member_state 3)))"
  have "trim_slashes (chars ''/a/'') = chars ''/a''" by (simp add: trim_slashes_def chars_def)
  then have "rule_covers ?r AK_OP_OPEN (chars ''/a/b'')"
    by (simp add: rule_covers_def file_rule_def path_category_def opBit_def dir_rule_def ancestor_of_def
        chars_def has_def ak_const)
  moreover have "fst (reload accepting [?r] (fresh_enforcer, member_state 3)) = []" "hashable (r_PathPrefix ?r)"
    by (simp_all add: reload_def InstallRules_def ClearRules_def install_rule_def Let_def file_rule_def path_category_def
        dir_rule_def addDirOp_def accepting_def note_result_def chars_def hashable_def)
  moreover have "enforced sample_env (forked ?s)"
    using sample_enforced [of ?s 3] by (simp add: enforced_def forked_flags reload_frame sample_simps)
  moreover have "names sample_env (f_path (some_file 1)) (forked ?s) (chars ''/a/b'')"
    by (rule sample_names) (simp add: forked_scratch reload_frame sample_simps)
  moreover have "bpf_run ?s (forked ?s)" unfolding forked_def by (rule run_calls_run)
  ultimately show ?thesis
    using policy_enforced [of accepting "[?r]" "(fresh_enforcer, member_state 3)" "forked ?s" sample_env ?r AK_OP_OPEN
        "chars ''/a/b''" "some_file 1"]
    by simp
qed

section \<open>Network prefixes\<close>

definition net_key :: "KernelRule \<Rightarrow> ak_lpm_key option" where
  "net_key r =
     (if r_Effect r = EffectBlock \<and> r_Category r = CategoryNetwork
      then case r_CIDR r of
          Some (Some (ip, ones)) \<Rightarrow> Some (of_nat ones, case To4 ip of Some ip4 \<Rightarrow> ip4 | None \<Rightarrow> ip)
        | _ \<Rightarrow> None
      else None)"

definition net_keys :: "KernelRule list \<Rightarrow> ak_lpm_key set" where
  "net_keys rules = {key. \<exists>r \<in> set rules. net_key r = Some key}"

text \<open>The entry of a rule, in the trie of addresses with \<open>n\<close> bytes.\<close>

definition net_entry :: "(nat \<Rightarrow> bool) \<Rightarrow> KernelRule \<Rightarrow> (ak_lpm_key \<rightharpoonup> u32) \<Rightarrow> (ak_lpm_key \<rightharpoonup> u32)" where
  "net_entry sel r m =
     (case net_key r of None \<Rightarrow> m | Some key \<Rightarrow> if sel (length (snd key)) then m(key \<mapsto> netBlock) else m)"

lemma add_op_net [simp]:
  "ak_enforce_net (snd (snd (addFileOp d h opn dm))) = ak_enforce_net (snd dm)"
  "ak_enforce_net (snd (snd (addDirOp d h opn dm))) = ak_enforce_net (snd dm)"
  "ak_enforce_net6 (snd (snd (addFileOp d h opn dm))) = ak_enforce_net6 (snd dm)"
  "ak_enforce_net6 (snd (snd (addDirOp d h opn dm))) = ak_enforce_net6 (snd dm)"
  "ak_db_deny_tables (snd (snd (addFileOp d h opn dm))) = ak_db_deny_tables (snd dm)"
  "ak_db_deny_tables (snd (snd (addDirOp d h opn dm))) = ak_db_deny_tables (snd dm)"
  "ak_flags (snd (snd (addFileOp d h opn dm))) = ak_flags (snd dm)"
  "ak_flags (snd (snd (addDirOp d h opn dm))) = ak_flags (snd dm)"
  by (simp_all add: addFileOp_def addDirOp_def split_def)

lemma install_net_rule:
  assumes "fst (installNetRule d r s) = None" "r_Effect r = EffectBlock" "r_Category r = CategoryNetwork"
  shows "ak_enforce_net (snd (installNetRule d r s)) = net_entry (\<lambda>n. n = 4) r (ak_enforce_net s)"
    "ak_enforce_net6 (snd (installNetRule d r s)) = net_entry (\<lambda>n. n \<noteq> 4) r (ak_enforce_net6 s)"
  using assms
  by (auto simp: installNetRule_def net_entry_def net_key_def Let_def To4_def split: option.splits if_splits)

lemma installDBRule_net [simp]:
  "ak_enforce_net (snd (installDBRule d r n s)) = ak_enforce_net s"
  "ak_enforce_net6 (snd (installDBRule d r n s)) = ak_enforce_net6 s"
  by (simp_all add: installDBRule_def Let_def)

lemma install_rule_net:
  assumes "i_dropped (install_rule d r x) = i_dropped x"
  shows "ak_enforce_net (snd (i_daemon (install_rule d r x))) = net_entry (\<lambda>n. n = 4) r (ak_enforce_net (snd (i_daemon x)))"
    "ak_enforce_net6 (snd (i_daemon (install_rule d r x))) = net_entry (\<lambda>n. n \<noteq> 4) r (ak_enforce_net6 (snd (i_daemon x)))"
proof -
  have "ak_enforce_net (snd (i_daemon (install_rule d r x))) = net_entry (\<lambda>n. n = 4) r (ak_enforce_net (snd (i_daemon x)))
    \<and> ak_enforce_net6 (snd (i_daemon (install_rule d r x))) = net_entry (\<lambda>n. n \<noteq> 4) r (ak_enforce_net6 (snd (i_daemon x)))"
  proof (cases "r_Effect r = EffectBlock \<and> r_Category r = CategoryNetwork")
    case True
    with assms have "fst (installNetRule d r (snd (i_daemon x))) = None"
      by (simp add: install_rule_def Let_def split_def note_result_dropped split: option.splits)
    with True show ?thesis
      by (simp add: install_rule_def Let_def split_def install_net_rule)
  next
    case False
    then have "net_key r = None" by (auto simp: net_key_def)
    with False show ?thesis
      by (simp add: install_rule_def Let_def split_def net_entry_def split: sum.split)
  qed
  then show "ak_enforce_net (snd (i_daemon (install_rule d r x))) = net_entry (\<lambda>n. n = 4) r (ak_enforce_net (snd (i_daemon x)))"
    "ak_enforce_net6 (snd (i_daemon (install_rule d r x))) = net_entry (\<lambda>n. n \<noteq> 4) r (ak_enforce_net6 (snd (i_daemon x)))"
    by blast+
qed

lemma net_entries:
  "fold (net_entry sel) rules m key =
     (if sel (length (snd key)) \<and> key \<in> net_keys rules then Some netBlock else m key)"
  by (induction rules arbitrary: m) (auto simp: net_keys_def net_entry_def split: option.split)

lemma reload_net:
  assumes "fst (reload d rules dm) = []"
  shows "ak_enforce_net (snd (snd (reload d rules dm))) =
      (\<lambda>key. if length (snd key) = 4 \<and> key \<in> net_keys rules then Some netBlock else None)"
    "ak_enforce_net6 (snd (snd (reload d rules dm))) =
      (\<lambda>key. if length (snd key) \<noteq> 4 \<and> key \<in> net_keys rules then Some netBlock else None)"
proof -
  have *: "ak_enforce_net (snd (i_daemon (fold (install_rule d) rs x))) = fold (net_entry (\<lambda>n. n = 4)) rs (ak_enforce_net (snd (i_daemon x)))
    \<and> ak_enforce_net6 (snd (i_daemon (fold (install_rule d) rs x))) = fold (net_entry (\<lambda>n. n \<noteq> 4)) rs (ak_enforce_net6 (snd (i_daemon x)))"
    if "i_dropped (fold (install_rule d) rs x) = i_dropped x" for rs x
    using that
  proof (induction rs arbitrary: x)
    case (Cons r rs)
    with install_fold_clean [OF Cons.prems] show ?case by (simp add: install_rule_net)
  qed simp
  let ?x = "install_start (ClearRules d dm)"
  have x: "i_dropped ?x = []" "ak_enforce_net (snd (i_daemon ?x)) = Map.empty" "ak_enforce_net6 (snd (i_daemon ?x)) = Map.empty"
    by (simp_all add: install_start_def ClearRules_def split_def)
  with * [of rules ?x] assms
  show "ak_enforce_net (snd (snd (reload d rules dm))) =
      (\<lambda>key. if length (snd key) = 4 \<and> key \<in> net_keys rules then Some netBlock else None)"
    "ak_enforce_net6 (snd (snd (reload d rules dm))) =
      (\<lambda>key. if length (snd key) \<noteq> 4 \<and> key \<in> net_keys rules then Some netBlock else None)"
    by (simp_all add: reload_fold net_entries fun_eq_iff)
qed

lemma net_blocked:
  assumes "fst (reload d rules dm) = []" "bpf_run (snd (snd (reload d rules dm))) t" "enforced k t"
    and "lpm_ok k (ak_enforce_net t) 32 (sock_addr4 k address)" "lpm_ok k (ak_enforce_net6 t) 128 (sock_addr6 k address)"
  shows "fst (ak_lsm_socket_connect k address 0 t) = EPERM \<longleftrightarrow>
     (sock_family k address = 2 \<or> sock_family k address = 10) \<and> egress_barred k t \<and> sock_port k address \<noteq> 53
     \<or> sock_family k address = 2 \<and> (\<exists>key \<in> net_keys rules. length (snd key) = 4 \<and> covers key (sock_addr4 k address))
     \<or> sock_family k address = 10 \<and> (\<exists>key \<in> net_keys rules. length (snd key) \<noteq> 4 \<and> covers key (sock_addr6 k address))"
proof -
  have t: "ak_enforce_net t = (\<lambda>key. if length (snd key) = 4 \<and> key \<in> net_keys rules then Some netBlock else None)"
    "ak_enforce_net6 t = (\<lambda>key. if length (snd key) \<noteq> 4 \<and> key \<in> net_keys rules then Some netBlock else None)"
    using bpf_run_evolves [OF assms(2)] reload_net [OF assms(1)] by (simp_all add: evolves_def policy_def)
  have nz: "\<forall>v \<in> ran (ak_enforce_net t). v \<noteq> 0" "\<forall>v \<in> ran (ak_enforce_net6 t). v \<noteq> 0"
    unfolding t by (auto simp: ran_def netBlock_def split: if_splits)
  have dom: "dom (ak_enforce_net t) = {key \<in> net_keys rules. length (snd key) = 4}"
    "dom (ak_enforce_net6 t) = {key \<in> net_keys rules. length (snd key) \<noteq> 4}"
    unfolding t by (auto simp: dom_def)
  show ?thesis
    unfolding connect_refused_iff [OF assms(3)] lpm_ok_hit [OF assms(4) nz(1)] lpm_ok_hit [OF assms(5) nz(2)] dom
    by blast
qed

text \<open>
  C20. The network rules of a policy that was loaded without an error are enforced, and no others:
  after any run of programs an enforced member's connect is refused exactly when deny-egress is
  on and the port is not 53, or when a prefix of the rules covers the address in its family.
  Whatever the tries held before the reload, blocked observed addresses included, is gone. The
  trie lookup is the kernel's longest-prefix match.
\<close>

theorem net_policy_enforced:
  assumes "fst (reload d rules dm) = []" "bpf_run (snd (snd (reload d rules dm))) t" "enforced k t"
    and "lpm_ok k (ak_enforce_net t) 32 (sock_addr4 k address)" "lpm_ok k (ak_enforce_net6 t) 128 (sock_addr6 k address)"
  shows "fst (ak_lsm_socket_connect k address 0 t) = EPERM \<longleftrightarrow>
     (sock_family k address = 2 \<or> sock_family k address = 10) \<and> egress_barred k t \<and> sock_port k address \<noteq> 53
     \<or> sock_family k address = 2 \<and> (\<exists>key \<in> net_keys rules. length (snd key) = 4 \<and> covers key (sock_addr4 k address))
     \<or> sock_family k address = 10 \<and> (\<exists>key \<in> net_keys rules. length (snd key) \<noteq> 4 \<and> covers key (sock_addr6 k address))"
  using assms by (rule net_blocked)

text \<open>A policy with the one prefix 10.0.0.0/8.\<close>

definition net_rule :: KernelRule where
  "net_rule = \<lparr>r_PolicyName = [], r_Selector = [], r_Category = CategoryNetwork, r_Operation = ''connect'', r_PathPrefix = [],
     r_CIDR = Some (Some ([10, 0, 0, 0], 8)), r_DBEngine = [], r_DBTable = [], r_Effect = EffectBlock\<rparr>"

lemma reload_member: "ak_session_flags sample_env (snd (snd (reload d rules (e, member_state 3)))) = 3"
  by (simp add: member_flags reload_frame sample_simps)

lemma net_rule_loads: "fst (reload accepting [net_rule] dm) = []"
  by (simp add: reload_def InstallRules_def ClearRules_def install_rule_def Let_def net_rule_def
      installNetRule_def To4_def accepting_def note_result_def split_def)

lemma net_rule_keys: "net_keys [net_rule] = {net10}"
  by (auto simp: net_keys_def net_key_def To4_def net_rule_def net10_def)

lemma net10_covers: "covers net10 [10, 1, 2, 3]"
  by code_simp

lemma net10_installed:
  assumes "fst (reload accepting rules (fresh_enforcer, member_state 3)) = []" "net_keys rules = {net10}"
    and "s = snd (snd (reload accepting rules (fresh_enforcer, member_state 3)))"
  shows "enforced connect_env s" "lpm_ok connect_env (ak_enforce_net s) 32 [10, 1, 2, 3]"
    "lpm_ok connect_env (ak_enforce_net6 s) 128 a"
proof -
  show "enforced connect_env s"
    using sample_enforced [of s 3] by (simp add: enforced_def assms(3) reload_frame sample_simps)
  have "ak_enforce_net s = [net10 \<mapsto> netBlock]" "ak_enforce_net6 s = Map.empty"
    by (rule ext, auto simp: assms(3) reload_net [OF assms(1)] assms(2) net10_def)+
  then show "lpm_ok connect_env (ak_enforce_net s) 32 [10, 1, 2, 3]" "lpm_ok connect_env (ak_enforce_net6 s) 128 a"
    using net10_covers by (auto simp: lpm_ok_def connect_env_def intro!: exI [of _ "fst net10"] exI [of _ "snd net10"])
qed

theorem net_policy_enforced_witness:
  "fst (ak_lsm_socket_connect connect_env 0 0
     (snd (snd (reload accepting [net_rule] (fresh_enforcer, member_state 3))))) = EPERM"
proof -
  note i = net10_installed [OF net_rule_loads net_rule_keys refl]
  show ?thesis
    using net_policy_enforced [OF net_rule_loads rtranclp.rtrancl_refl i(1), of 0] i(2,3) net10_covers
    by (simp add: net_rule_keys net10_def)
qed

text \<open>
  Denied IPv4 prefixes do not bind IPv6 sockets: the connect hook consults only the trie of the
  address's family, so with IPv4 prefixes alone an enforced member that is refused a connect to
  \<open>a.b.c.d\<close> is let through to the same host by its IPv4-mapped IPv6 address.
\<close>

lemma mapped_address_bypass:
  assumes "fst (reload d rules dm) = []" "bpf_run (snd (snd (reload d rules dm))) t"
    and "enforced k t" "\<not> egress_barred k t"
    and "\<forall>key \<in> net_keys rules. length (snd key) = 4" "key \<in> net_keys rules" "covers key addr"
    and "sock_family k a4 = 2" "sock_addr4 k a4 = addr" "lpm_ok k (ak_enforce_net t) 32 addr"
    and "sock_family k a6 = 10" "sock_addr6 k a6 = replicate 10 0 @ [0xff, 0xff] @ addr"
    and "lpm_ok k (ak_enforce_net6 t) 128 (sock_addr6 k a6)"
  shows "fst (ak_lsm_socket_connect k a4 0 t) = EPERM \<and> fst (ak_lsm_socket_connect k a6 0 t) \<noteq> EPERM"
proof -
  have t: "ak_enforce_net t = (\<lambda>key. if length (snd key) = 4 \<and> key \<in> net_keys rules then Some netBlock else None)"
    "ak_enforce_net6 t = (\<lambda>key. if length (snd key) \<noteq> 4 \<and> key \<in> net_keys rules then Some netBlock else None)"
    using bpf_run_evolves [OF assms(2)] reload_net [OF assms(1)] by (simp_all add: evolves_def policy_def)
  have "ak_enforce_net6 t = Map.empty" unfolding t by (rule ext) (use assms(5) in auto)
  moreover have "\<forall>v \<in> ran (ak_enforce_net t). v \<noteq> 0" "key \<in> dom (ak_enforce_net t)"
    unfolding t using assms(5,6) by (auto simp: ran_def netBlock_def split: if_splits)
  ultimately show ?thesis
    using assms(4,7-13) lpm_ok_hit [OF assms(10)]
    by (auto simp: connect_refused_iff [OF assms(3)] lpm_ok_def split: option.splits)
qed

text \<open>The same destination as an \<open>AF_INET\<close> address at 0 and as an \<open>AF_INET6\<close> address at 100.\<close>

definition mapped_env :: kenv where
  "mapped_env = connect_env\<lparr>
     k_read_kernel := (\<lambda>p n. (0, take n (drop (unat p mod 100)
        (if p < 100 then [2, 0, 1, 0xbb, 10, 1, 2, 3, 0, 0, 0, 0, 0, 0, 0, 0]
         else [10, 0, 1, 0xbb, 0, 0, 0, 0, 0, 0, 0, 0, 0, 0, 0, 0, 0, 0, 0xff, 0xff, 10, 1, 2, 3, 0, 0, 0, 0]))))\<rparr>"

lemma mapped_address_bypass_example:
  "fst (ak_lsm_socket_connect mapped_env 0 0 (snd (snd (reload accepting [net_rule] (fresh_enforcer, member_state 3))))) = EPERM
   \<and> fst (ak_lsm_socket_connect mapped_env 100 0 (snd (snd (reload accepting [net_rule] (fresh_enforcer, member_state 3))))) \<noteq> EPERM"
proof -
  let ?s = "snd (snd (reload accepting [net_rule] (fresh_enforcer, member_state 3)))"
  have ok: "fst (reload accepting [net_rule] (fresh_enforcer, member_state 3)) = []" by (rule net_rule_loads)
  have fl: "ak_session_flags mapped_env ?s = ak_session_flags sample_env ?s"
    by (rule ak_session_flags_task; simp add: mapped_env_def connect_env_def ak_tgid_def)
  have e: "enforced mapped_env ?s"
    by (simp add: enforced_def fl reload_member has_def ak_const)
  have "ak_posture ?s = Map.empty" by (simp add: reload_frame sample_simps)
  then have b: "\<not> egress_barred mapped_env ?s"
    by (simp add: egress_barred_def fl reload_member has_def ak_const)
  have c: "covers net10 [10, 1, 2, 3]" by code_simp
  have m: "ak_enforce_net ?s = [net10 \<mapsto> netBlock]" "ak_enforce_net6 ?s = Map.empty"
    by (rule ext, auto simp: reload_net [OF ok] net_rule_keys net10_def)+
  have rep10: "replicate 10 x = [x, x, x, x, x, x, x, x, x, x]" for x :: u8 by (simp add: numeral_eq_Suc)
  have a: "sock_family mapped_env 0 = 2" "sock_addr4 mapped_env 0 = [10, 1, 2, 3]" "sock_family mapped_env 100 = 10"
    "sock_addr6 mapped_env 100 = replicate 10 0 @ [0xff, 0xff] @ [10, 1, 2, 3]"
    by (simp_all add: sock_family_def sock_addr4_def sock_addr6_def mapped_env_def fit_def rep10)
  have "lpm_ok mapped_env (ak_enforce_net ?s) 32 [10, 1, 2, 3]"
    using c by (auto simp: lpm_ok_def mapped_env_def connect_env_def m(1) intro!: exI [of _ "fst net10"] exI [of _ "snd net10"])
  moreover have "lpm_ok mapped_env (ak_enforce_net6 ?s) 128 x" for x
    by (simp add: lpm_ok_def mapped_env_def connect_env_def m(2))
  ultimately show ?thesis
    using mapped_address_bypass [OF ok rtranclp.rtrancl_refl e b _ _ c a(1,2) _ a(3,4)]
    by (simp add: net_rule_keys net10_def)
qed

section \<open>Database tables\<close>

text \<open>The names a rule set denies, as installed.\<close>

definition db_rule :: "KernelRule \<Rightarrow> bool" where
  "db_rule r \<longleftrightarrow> r_Effect r = EffectBlock \<and> r_Category r = CategoryDatabase"

definition db_name :: "KernelRule \<Rightarrow> bytes" where
  "db_name r = ToLower (TrimSpace (r_DBTable r))"

definition db_names :: "KernelRule list \<Rightarrow> bytes list" where
  "db_names rules = map db_name (filter db_rule rules)"

fun fill_slots :: "nat \<Rightarrow> bytes list \<Rightarrow> (u32 \<rightharpoonup> ak_db_pat) \<Rightarrow> (u32 \<rightharpoonup> ak_db_pat)" where
  "fill_slots n [] m = m"
| "fill_slots n (x # xs) m = fill_slots (n + 1) xs (m(of_nat n \<mapsto> db_pat_of x))"

lemma install_rule_db:
  assumes "i_dropped (install_rule d r x) = i_dropped x"
  shows "if db_rule r
    then i_slot x < 4 \<and> i_slot (install_rule d r x) = i_slot x + 1 \<and> db_name r \<noteq> [] \<and> length (db_name r) \<le> 16
      \<and> ak_db_deny_tables (snd (i_daemon (install_rule d r x)))
        = (ak_db_deny_tables (snd (i_daemon x)))(of_nat (i_slot x) \<mapsto> db_pat_of (db_name r))
    else i_slot (install_rule d r x) = i_slot x
      \<and> ak_db_deny_tables (snd (i_daemon (install_rule d r x))) = ak_db_deny_tables (snd (i_daemon x))"
proof (cases "db_rule r")
  case True
  then have "install_rule d r x = (case installDBRule d r (i_slot x) (snd (i_daemon x)) of
      (Inl err, s') \<Rightarrow> note_result ''ak_db_deny_tables'' (Some err, fst (i_daemon x), s') x
    | (Inr slot, s') \<Rightarrow> note_result ''ak_db_deny_tables'' (None, fst (i_daemon x), s') (x\<lparr>i_slot := slot\<rparr>))"
    by (simp add: install_rule_def db_rule_def Let_def split_def)
  with assms True show ?thesis
    by (auto simp: installDBRule_def Let_def note_result_dropped db_name_def dbDenyTableSlots_def
        split: if_splits)
next
  case False
  have "ak_db_deny_tables (snd (installNetRule d r s)) = ak_db_deny_tables s" for s
    using installNetRule_frame(3) [of d r s] by (cases "installNetRule d r s") simp
  with False show ?thesis
    by (simp add: install_rule_def db_rule_def Let_def split_def)
qed

lemma install_fold_db:
  assumes "i_dropped (fold (install_rule d) rules x) = i_dropped x" "i_slot x \<le> 4"
  shows "i_slot x + length (db_names rules) \<le> 4 \<and> (\<forall>n \<in> set (db_names rules). n \<noteq> [] \<and> length n \<le> 16)
    \<and> ak_db_deny_tables (snd (i_daemon (fold (install_rule d) rules x)))
      = fill_slots (i_slot x) (db_names rules) (ak_db_deny_tables (snd (i_daemon x)))"
  using assms
proof (induction rules arbitrary: x)
  case Nil
  then show ?case by (simp add: db_names_def)
next
  case (Cons r rules)
  note c = install_fold_clean [OF Cons.prems(1)]
  from install_rule_db [OF c(1)] Cons.IH [OF c(2)] Cons.prems(2) show ?case
    by (auto simp: db_names_def simp del: fun_upd_apply split: if_splits)
qed

lemma fill_slots_nth:
  assumes "n + length xs \<le> 4" "i < 4"
  shows "fill_slots n xs m (of_nat i) =
    (if n \<le> i \<and> i < n + length xs then Some (db_pat_of (xs ! (i - n))) else m (of_nat i))"
  using assms(1)
proof (induction xs arbitrary: n m)
  case (Cons x xs)
  have "(of_nat i = (of_nat n :: u32)) \<longleftrightarrow> i = n"
    using assms(2) Cons.prems by (simp add: word_of_nat_eq_iff take_bit_nat_eq_self)
  then show ?case
    unfolding fill_slots.simps using Cons.prems
    by (subst Cons.IH) (auto simp: nth_Cons')
qed auto

text \<open>The block is armed by the first table rule.\<close>

lemma armFlag_arms: "d_put d D_flags 0 \<Longrightarrow> has b c \<Longrightarrow> opt_has (ak_flags (armFlag d b s) 0) c"
  by (auto simp: armFlag_def Let_def opt_has_word_at has_or) (metis has_or)

lemma armFlag_keeps: "opt_has (ak_flags s 0) c \<Longrightarrow> opt_has (ak_flags (armFlag d b s) 0) c"
  by (auto simp: armFlag_def Let_def opt_has_word_at has_or)

lemma install_rule_flags:
  assumes "i_dropped (install_rule d r x) = i_dropped x" "d_put d D_flags 0"
    and "opt_has (ak_flags (snd (i_daemon x)) 0) AK_FLAG_DB_BLOCK_ARMED \<or> db_rule r"
  shows "opt_has (ak_flags (snd (i_daemon (install_rule d r x))) 0) AK_FLAG_DB_BLOCK_ARMED"
proof (cases "db_rule r")
  case True
  have b: "has AK_FLAG_DB_BLOCK_ARMED AK_FLAG_DB_BLOCK_ARMED" by (simp add: has_def ak_const)
  have "install_rule d r x = (case installDBRule d r (i_slot x) (snd (i_daemon x)) of
      (Inl err, s') \<Rightarrow> note_result ''ak_db_deny_tables'' (Some err, fst (i_daemon x), s') x
    | (Inr slot, s') \<Rightarrow> note_result ''ak_db_deny_tables'' (None, fst (i_daemon x), s') (x\<lparr>i_slot := slot\<rparr>))"
    using True by (simp add: install_rule_def db_rule_def Let_def split_def)
  with assms(1,2) b show ?thesis
    by (auto simp: installDBRule_def Let_def note_result_dropped armFlag_arms split: if_splits)
next
  case False
  have "ak_flags (snd (installNetRule d r s)) = ak_flags s" for s
    using installNetRule_frame(4) [of d r s] by (cases "installNetRule d r s") simp
  moreover have "opt_has (ak_flags (snd (i_daemon x)) 0) AK_FLAG_DB_BLOCK_ARMED" using False assms(3) by blast
  ultimately show ?thesis
    using False by (simp add: install_rule_def db_rule_def Let_def split_def)
qed

lemma reload_arms_block:
  assumes "fst (reload d rules dm) = []" "d_put d D_flags 0" "db_names rules \<noteq> []"
  shows "opt_has (ak_flags (snd (snd (reload d rules dm))) 0) AK_FLAG_DB_BLOCK_ARMED"
proof -
  have "opt_has (ak_flags (snd (i_daemon (fold (install_rule d) rs x))) 0) AK_FLAG_DB_BLOCK_ARMED"
    if "i_dropped (fold (install_rule d) rs x) = i_dropped x"
      "opt_has (ak_flags (snd (i_daemon x)) 0) AK_FLAG_DB_BLOCK_ARMED \<or> (\<exists>r \<in> set rs. db_rule r)" for rs x
    using that
  proof (induction rs arbitrary: x)
    case (Cons r rs)
    note c = install_fold_clean [OF Cons.prems(1)]
    from Cons.prems(2) have "opt_has (ak_flags (snd (i_daemon (install_rule d r x))) 0) AK_FLAG_DB_BLOCK_ARMED
        \<or> (\<exists>r \<in> set rs. db_rule r)"
      using install_rule_flags [OF c(1) assms(2)] by auto
    with Cons.IH [OF c(2)] show ?case by simp
  qed simp
  from this [of rules "install_start (ClearRules d dm)"] assms(1,3) show ?thesis
    by (auto simp: reload_fold install_start_def db_names_def filter_empty_conv)
qed

section \<open>Queries that name a denied table\<close>

definition table_named :: "bytes \<Rightarrow> s32 \<Rightarrow> bytes \<Rightarrow> bool" where
  "table_named w len n \<longleftrightarrow>
     (if is_op_msg w then mongo_names w len (db_pat_of n) else w ! 4 = 0x03 \<and> sql_names w (db_pat_of n))"

lemma clear_slots:
  assumes "\<forall>i < 4. d_put d D_db_deny_tables (of_nat i)" "i < 4"
  shows "fold (clear_slot d) [0..<dbDenyTableSlots] m (of_nat i) = Some \<lparr>pat_len = 0, pat = replicate 32 0\<rparr>"
proof -
  have "i \<in> {0, 1, 2, 3}" using assms(2) by auto
  moreover have "[0..<dbDenyTableSlots] = [0, 1, 2, 3]" by (simp add: dbDenyTableSlots_def upt_rec)
  moreover have "d_put d D_db_deny_tables 0" "d_put d D_db_deny_tables 1" "d_put d D_db_deny_tables 2"
    "d_put d D_db_deny_tables 3"
    using assms(1) [rule_format, of 0] assms(1) [rule_format, of 1] assms(1) [rule_format, of 2]
      assms(1) [rule_format, of 3] by simp_all
  ultimately show ?thesis by (auto simp: clear_slot_def)
qed

lemma reload_tables:
  assumes "fst (reload d rules dm) = []" "\<forall>i < 4. d_put d D_db_deny_tables (of_nat i)" "i < 4"
  shows "length (db_names rules) \<le> 4 \<and> ak_db_deny_tables (snd (snd (reload d rules dm))) (of_nat i) =
    Some (if i < length (db_names rules) then db_pat_of (db_names rules ! i) else \<lparr>pat_len = 0, pat = replicate 32 0\<rparr>)"
proof -
  let ?x = "install_start (ClearRules d dm)"
  have "i_dropped (fold (install_rule d) rules ?x) = i_dropped ?x" "i_slot ?x \<le> 4" "i_slot ?x = 0"
    "ak_db_deny_tables (snd (i_daemon ?x)) = fold (clear_slot d) [0..<dbDenyTableSlots] (ak_db_deny_tables (snd dm))"
    using assms(1) by (simp_all add: reload_fold install_start_def ClearRules_def split_def)
  with install_fold_db [of d rules ?x] fill_slots_nth [OF _ assms(3), of 0] clear_slots [OF assms(2,3)]
  show ?thesis by (simp add: reload_fold)
qed

lemma denied_after_reload:
  assumes "fst (reload d rules dm) = []" "\<forall>i < 4. d_put d D_db_deny_tables (of_nat i)"
    and "ak_db_deny_tables t = ak_db_deny_tables (snd (snd (reload d rules dm)))"
  shows "wf_tables t \<and> (denied_query t w len \<longleftrightarrow> (\<exists>n \<in> set (db_names rules). table_named w len n))"
proof -
  let ?ns = "db_names rules" and ?no = "\<lparr>pat_len = 0, pat = replicate 32 0\<rparr> :: ak_db_pat"
  have slots: "{0, 1, 2, 3} = (of_nat ` {..<4 :: nat} :: u32 set)"
  proof -
    have "{..<4 :: nat} = {0, 1, 2, 3}" by auto
    then show ?thesis by simp
  qed
  have tab: "length ?ns \<le> 4" "i < 4 \<Longrightarrow> ak_db_deny_tables t (of_nat i) = Some (if i < length ?ns then db_pat_of (?ns ! i) else ?no)" for i
    using reload_tables [OF assms(1,2), of 0] reload_tables [OF assms(1,2), of i] assms(3) by simp_all
  have no: "\<not> usable_pat ?no" by (simp add: usable_pat_def)
  have "wf_tables t" unfolding wf_tables_def slots by (auto simp: tab db_pat_of_def)
  moreover have "denied_query t w len \<longleftrightarrow> (\<exists>i < 4. i < length ?ns \<and> table_named w len (?ns ! i))"
    unfolding denied_query_def slots using no
    by (auto simp: tab table_named_def mongo_names_def sql_names_def Bex_def)
  then have "denied_query t w len \<longleftrightarrow> (\<exists>n \<in> set ?ns. table_named w len n)"
    using tab(1) by (auto simp: in_set_conv_nth Bex_def)
  ultimately show ?thesis by simp
qed

lemma flags_get_has: "has (ak_flags_get s) b \<longleftrightarrow> opt_has (ak_flags s 0) b"
  by (simp add: ak_flags_get_def split: option.split)

text \<open>
  A member on a registered database descriptor, with the capture armed: what is left of
  \<open>db_guarded\<close> when the reload supplies the tables and the block flag.
\<close>

definition db_member :: "kenv \<Rightarrow> u64 \<Rightarrow> kstate \<Rightarrow> bool" where
  "db_member k fd s \<longleftrightarrow>
     enforced k s \<and> has (ak_flags_get s) AK_FLAG_DB_ARMED \<and> ak_db_fd s (ak_tgid k) fd
     \<and> ak_db_scratch s (k_cpu k) 0 \<noteq> None \<and> ak_db_deny_pending s (ak_tgid k) = None
     \<and> k_update k M_db_deny_pending (ucast (ak_tgid k)) = 0"

text \<open>
  C21. The table rules of a policy that was loaded without an error are enforced, and no others:
  after any run of programs, a send (or write) of at least six bytes by an enforced member on a
  registered database descriptor, with the capture armed, no verdict pending and a payload the
  program could read, is refused exactly when its first 64 bytes name a table of the rules. A
  table that is named only behind the 64th byte is not seen. At most four rules can be
  installed that way, of names of 1 to 16 bytes, or the load reports an error.
\<close>

theorem db_policy_enforced:
  fixes ctx :: sys_enter_ctx
  defines "len \<equiv> (ucast (se_args ctx 2) :: s32)"
  assumes "fst (reload d rules dm) = []" "db_names rules \<noteq> []"
    and "\<forall>i < 4. d_put d D_db_deny_tables (of_nat i)" "d_put d D_flags 0"
    and "bpf_run (snd (snd (reload d rules dm))) t" "db_member k (se_args ctx 0) t"
    and "6 \<le> sint len" "k_read_user k (se_args ctx 1) (db_read_len len) = (0, b)" "length b = db_read_len len"
  shows "(fst (send_call k ctx t) = EPERM \<longleftrightarrow> (\<exists>n \<in> set (db_names rules). table_named (db_window b) len n))
    \<and> (fst (write_call k ctx t) = EPERM \<longleftrightarrow> (\<exists>n \<in> set (db_names rules). table_named (db_window b) len n))"
proof -
  note ev = bpf_run_evolves [OF assms(6)]
  have "ak_db_deny_tables t = ak_db_deny_tables (snd (snd (reload d rules dm)))"
    using ev by (simp add: evolves_def policy_def)
  note tab = denied_after_reload [OF assms(2,4) this]
  have "has (ak_flags_get t) AK_FLAG_DB_BLOCK_ARMED"
    using ev reload_arms_block [OF assms(2,5,3)] by (simp add: evolves_def bits_le_def flags_get_has)
  then have "db_guarded k (se_args ctx 0) t"
    using assms(7) tab by (simp add: db_guarded_def db_member_def)
  then show ?thesis
    using db_calls_verdict [of k ctx t b] assms(8-10) tab [of "db_window b" len] unfolding len_def by simp
qed

definition users_rule :: KernelRule where
  "users_rule = \<lparr>r_PolicyName = [], r_Selector = [], r_Category = CategoryDatabase, r_Operation = ''query'', r_PathPrefix = [], r_CIDR = None,
     r_DBEngine = [], r_DBTable = chars '' Users'', r_Effect = EffectBlock\<rparr>"

definition client_state :: kstate where
  "client_state = (member_state 3)\<lparr>ak_flags := [0 \<mapsto> AK_FLAG_DB_ARMED], ak_db_fds := [fd_key32 100 5 \<mapsto> 1]\<rparr>"

lemma users_rule_names: "db_names [users_rule] = [chars ''users'']"
proof -
  have "ToLower (TrimSpace (chars '' Users'')) = chars ''users''" by code_simp
  then show ?thesis by (simp add: db_names_def db_rule_def db_name_def users_rule_def)
qed

lemma users_rule_reload:
  "reload accepting [users_rule] dm =
     ([], fst (ClearRules accepting dm), armFlag accepting AK_FLAG_DB_BLOCK_ARMED
        ((snd (ClearRules accepting dm))\<lparr>ak_db_deny_tables :=
           (ak_db_deny_tables (snd (ClearRules accepting dm)))(0 \<mapsto> db_pat_of (chars ''users''))\<rparr>))"
proof -
  have "ToLower (TrimSpace (chars '' Users'')) = chars ''users''" by code_simp
  moreover have "d_put accepting m h" for m h by (simp add: accepting_def)
  ultimately show ?thesis
    by (simp add: reload_def InstallRules_def install_rule_def Let_def users_rule_def installDBRule_def
        note_result_def dbDenyTableSlots_def split_def) (simp add: chars_def)
qed

theorem db_policy_enforced_witness:
  "fst (send_call query_env query_ctx
     (snd (snd (reload accepting [users_rule] (fresh_enforcer, client_state))))) = EPERM"
proof -
  let ?s = "snd (snd (reload accepting [users_rule] (fresh_enforcer, client_state)))"
  have put: "d_put accepting m h" for m h by (simp add: accepting_def)
  have "has AK_FLAG_DB_ARMED AK_FLAG_DB_ARMED" by (simp add: has_def ak_const)
  then have "opt_has (ak_flags ?s 0) AK_FLAG_DB_ARMED"
    unfolding users_rule_reload by (simp, intro armFlag_keeps) (simp add: ClearRules_def client_state_def)
  moreover have "ak_session_flags query_env ?s = ak_session_flags sample_env ?s"
    by (rule ak_session_flags_task; simp add: query_env_def ak_tgid_def)
  then have "enforced query_env ?s"
    using sample_enforced [of ?s 3] by (simp add: enforced_def reload_frame client_state_def sample_simps)
  moreover have "ak_tgid query_env = 100" "k_cpu query_env = 0" "k_update query_env M x = 0" for M x
    by (simp_all add: query_env_def sample_env_def ak_tgid_def)
  moreover have "ak_db_fd ?s 100 5" "ak_db_scratch ?s 0 0 \<noteq> None" "ak_db_deny_pending ?s 100 = None"
    by (simp_all add: ak_db_fd_def reload_frame client_state_def sample_simps)
  ultimately have "db_member query_env (se_args query_ctx 0) ?s"
    by (simp add: db_member_def flags_get_has query_ctx_def)
  moreover have "table_named (db_window users_query) 24 (chars ''users'')"
  proof -
    have "names_at (db_window users_query) 19 (db_pat_of (chars ''users''))" "ak_sql_delim (db_window users_query ! 18)"
      "\<not> is_op_msg (db_window users_query)" "db_window users_query ! 4 = 3" "usable_pat (db_pat_of (chars ''users''))"
      "unat (pat_len (db_pat_of (chars ''users''))) = 5"
      by code_simp+
    then show ?thesis
      unfolding table_named_def sql_names_def by (auto intro!: bexI [of _ 19])
  qed
  moreover have "length users_query = 24" by (simp add: users_query_def chars_def)
  ultimately show ?thesis
    using db_policy_enforced [of accepting "[users_rule]" "(fresh_enforcer, client_state)" ?s query_env query_ctx users_query]
      users_rule_names users_rule_reload [of "(fresh_enforcer, client_state)"]
    by (simp add: query_ctx_def query_env_def db_read_len_def put)
qed

end
