(* ===== verification/AK_Races.thy ===== *)
theory AK_Races
  imports AK_Arming AK_Policy
begin

text \<open>
  Read-modify-write on shared maps. Programs and daemon update the same words (control flags,
  session flags) by a lookup followed by an update, and neither holds a lock against the other.
  Each operation is cut here into its read and its write, the cut is shown to be the operation,
  and the interleavings in which one write overwrites the other are followed to the verdicts.
\<close>

section \<open>The two halves\<close>

text \<open>\<open>ak_flags_or_bit\<close> once \<open>bpf_map_lookup_elem\<close> has returned the word (or nothing).\<close>

definition flags_or_write :: "kenv \<Rightarrow> u32 \<Rightarrow> u32 option \<Rightarrow> kstate \<Rightarrow> kstate" where
  "flags_or_write k b v s =
     (case v of
        Some f \<Rightarrow> if \<not> has f b then s\<lparr>ak_flags := map_update k M_flags 0 (f OR b) (ak_flags s)\<rparr> else s
      | None \<Rightarrow> s\<lparr>ak_flags := map_update k M_flags 0 b (ak_flags s)\<rparr>)"

lemma flags_or_split: "ak_flags_or_bit k b s = flags_or_write k b (ak_flags s 0) s"
  by (simp add: ak_flags_or_bit_def flags_or_write_def split: option.split)

text \<open>\<open>armKey\<close> on the pid map once \<open>Lookup\<close> has returned the value (or an error).\<close>

definition arm_member_write :: "denv \<Rightarrow> enforcer \<Rightarrow> s32 \<Rightarrow> u32 option \<Rightarrow> kstate \<Rightarrow> kstate" where
  "arm_member_write d e pid v s =
     s\<lparr>ak_session_pids := snd (put_word (d_put d D_session_pids (ucast pid)) pid
         (armKey_next e (session_flags e) v) (ak_session_pids s))\<rparr>"

lemma arm_member_split: "arm_member d e pid s = arm_member_write d e pid (ak_session_pids s pid) s"
  by (simp add: arm_member_def arm_member_write_def armKey_def)

section \<open>A lost control flag\<close>

lemma unarmed_send:
  assumes "\<not> has (ak_flags_get s) AK_FLAG_DB_BLOCK_ARMED"
  shows "fst (send_call k ctx s) = 0" "fst (write_call k ctx s) = 0"
proof -
  have "ak_flags_get (ak_db_sendto k ctx (ak_sendto k ctx s)) = ak_flags_get s"
    "ak_flags_get (ak_stdio_write k ctx s) = ak_flags_get s"
    by (simp_all add: ak_flags_get_def ak_db_sendto_def ak_stdio_write_def Let_def)
  with assms show "fst (send_call k ctx s) = 0" "fst (write_call k ctx s) = 0"
    by (simp_all add: send_call_def write_call_def ak_lsm_socket_sendmsg_def)
qed

text \<open>
  A lost update of the control word disables the database policy. A monitored task's first
  database connect has read the control word when the daemon loads a policy with table rules; the
  load reports no error, then the connect writes back the word it read with its own bit. The
  block flag is gone, and every send and write passes, whatever table it names.
\<close>

lemma flag_lost_update:
  assumes "ak_flags (snd dm) 0 = Some f" "\<not> has f AK_FLAG_DB_ARMED" "\<not> has f AK_FLAG_DB_BLOCK_ARMED"
    and "fst (reload d rules dm) = []" "db_names rules \<noteq> []" "d_put d D_flags 0"
    and "k_update k M_flags 0 = 0"
    and "s = flags_or_write k AK_FLAG_DB_ARMED (ak_flags (snd dm) 0) (snd (snd (reload d rules dm)))"
  shows "opt_has (ak_flags (snd (snd (reload d rules dm))) 0) AK_FLAG_DB_BLOCK_ARMED
    \<and> \<not> has (ak_flags_get s) AK_FLAG_DB_BLOCK_ARMED
    \<and> fst (send_call k' ctx s) = 0 \<and> fst (write_call k' ctx s) = 0"
proof -
  have "\<not> has AK_FLAG_DB_ARMED AK_FLAG_DB_BLOCK_ARMED" by (simp add: has_def ak_const)
  then have "\<not> has (ak_flags_get s) AK_FLAG_DB_BLOCK_ARMED"
    using assms(1-3,7) unfolding assms(8) by (simp add: flags_or_write_def ak_flags_get_def map_update_def has_or)
  then show ?thesis
    using reload_arms_block [OF assms(4,6,5)] unarmed_send by blast
qed

lemma flag_lost_update_example:
  "fst (send_call query_env query_ctx (flags_or_write sample_env AK_FLAG_DB_ARMED (Some 0)
     (snd (snd (reload accepting [users_rule] (fresh_enforcer, member_state 3)))))) = 0"
proof -
  have "k_update sample_env M_flags 0 = 0" "ak_flags (member_state 3) 0 = Some 0" "d_put accepting D_flags 0"
    "\<not> has 0 b" for b
    by (simp_all add: sample_env_def sample_simps accepting_def)
  moreover have "fst (reload accepting [users_rule] (fresh_enforcer, member_state 3)) = []"
    by (simp add: users_rule_reload)
  ultimately show ?thesis
    using flag_lost_update [of "(fresh_enforcer, member_state 3)" 0 accepting "[users_rule]" sample_env _ query_env query_ctx]
    by (simp add: users_rule_names)
qed

section \<open>A lost deny-egress flag\<close>

text \<open>
  The union in \<open>armKey\<close> does not protect a deny-egress flag the kernel sets at the same time.
  The daemon has read the flags of an enforced pid when the pid opens a sensitive file (the open
  is allowed because the flag is recorded); then the daemon writes its union of the old value.
  Whenever there is something to write (a reload turned deny-tainted-code on or off), the flag is
  lost, and a task of that process whose cgroup has no deny-egress posture is no longer barred.
\<close>

lemma rearm_race:
  assumes "ak_session_pids s (ak_tgid k) = Some cur" "\<not> has cur AK_SESS_DENY_EGRESS"
    and "armKey_next e (session_flags e) (Some cur) = Some w" "d_put d D_session_pids (ucast (ak_tgid k))"
    and "k_update k M_session_pids (ucast (ak_tgid k)) = 0"
    and "s1 = snd (arm_egress k cur s)" "s2 = arm_member_write d e (ak_tgid k) (Some cur) s1"
  shows "opt_has (ak_session_pids s1 (ak_tgid k)) AK_SESS_DENY_EGRESS
    \<and> ak_session_pids s2 (ak_tgid k) = Some w \<and> \<not> has w AK_SESS_DENY_EGRESS
    \<and> (ak_tgid k' = ak_tgid k \<and> \<not> opt_has (ak_posture s2 (k_cgroup_id k')) AK_POSTURE_DENY_EGRESS
         \<longrightarrow> \<not> egress_barred k' s2)"
proof -
  have l: "lasting AK_SESS_DENY_EGRESS" "\<not> has (session_flags e) AK_SESS_DENY_EGRESS"
    by (simp_all add: lasting_def session_flags_def has_def ak_const)
  then have w: "\<not> has w AK_SESS_DENY_EGRESS"
    using armKey_next_has [OF l(1), where e = e and want = "session_flags e" and cur = "Some cur"] assms(2,3) by simp
  have "ak_session_pids s1 (ak_tgid k) = Some (cur OR AK_SESS_DENY_EGRESS)"
    using assms(5,6) by (simp add: arm_egress_def Let_def map_update_def)
  moreover have "has AK_SESS_DENY_EGRESS AK_SESS_DENY_EGRESS" by (simp add: has_def ak_const)
  moreover have p: "ak_session_pids s2 (ak_tgid k) = Some w"
    using assms(3,4,7) by (simp add: arm_member_write_def put_word_def)
  moreover have "\<not> egress_barred k' s2"
    if "ak_tgid k' = ak_tgid k" "\<not> opt_has (ak_posture s2 (k_cgroup_id k')) AK_POSTURE_DENY_EGRESS"
    using that p w by (auto simp: egress_barred_def ak_session_flags_def)
  ultimately show ?thesis using w by (simp add: has_or)
qed

text \<open>A reload turns deny-tainted-code on while pid 100 reads a secret; a thread of it is in cgroup 8.\<close>

lemma rearm_race_example:
  "\<not> egress_barred (sample_env\<lparr>k_cgroup_id := 8\<rparr>)
     (arm_member_write accepting (fresh_enforcer\<lparr>e_denyCode := True\<rparr>) 100 (Some 3)
        (snd (arm_egress sample_env 3 (member_state 3))))"
proof -
  let ?e = "fresh_enforcer\<lparr>e_denyCode := True\<rparr>"
  let ?s1 = "snd (arm_egress sample_env 3 (member_state 3))"
  let ?s2 = "arm_member_write accepting ?e 100 (Some 3) ?s1"
  have "ak_tgid sample_env = 100" "ak_tgid (sample_env\<lparr>k_cgroup_id := 8\<rparr>) = 100"
    "k_update sample_env M x = 0" "k_cgroup_id sample_env = 7" for M x
    by (simp_all add: sample_env_def ak_tgid_def)
  moreover have "armKey_next ?e (session_flags ?e) (Some 3) = Some 7" "d_put accepting m h" for m h
    by (simp_all add: armKey_next_def session_flags_def fresh_enforcer_def accepting_def ak_const)
  moreover have "ak_posture ?s2 8 = None"
    by (simp add: arm_member_write_def arm_egress_def Let_def map_update_def sample_simps sample_env_def)
  ultimately show ?thesis
    using rearm_race [of "member_state 3" sample_env 3 ?e 7 accepting ?s1 ?s2 "sample_env\<lparr>k_cgroup_id := 8\<rparr>"]
    by (simp add: sample_simps)
qed

end
