(* ===== verification/AK_GoText.thy ===== *)
theory AK_GoText
  imports AK_Rules
begin

text \<open>
  What the daemon uses of Go's standard library on text: \<open>strings\<close> and \<open>path.Match\<close>. Text is ASCII
  bytes, so a rune is a byte. The functions that are the daemon's own are \<open>globOrEq\<close>
  (\<open>internal/policy/engine.go\<close>) and its callers elsewhere.
\<close>

section \<open>Strings\<close>

definition dot :: u8 where "dot = 0x2e"

definition colon :: u8 where "colon = 0x3a"

definition HasSuffix :: "bytes \<Rightarrow> bytes \<Rightarrow> bool" where
  "HasSuffix s t \<longleftrightarrow> length t \<le> length s \<and> drop (length s - length t) s = t"

definition HasPrefix :: "bytes \<Rightarrow> bytes \<Rightarrow> bool" where
  "HasPrefix s t \<longleftrightarrow> take (length t) s = t"

fun Contains :: "bytes \<Rightarrow> bytes \<Rightarrow> bool" where
  "Contains [] t \<longleftrightarrow> t = []"
| "Contains (c # cs) t \<longleftrightarrow> HasPrefix (c # cs) t \<or> Contains cs t"

definition EqualFold :: "bytes \<Rightarrow> bytes \<Rightarrow> bool" where
  "EqualFold s t \<longleftrightarrow> ToLower s = ToLower t"

text \<open>What follows the last slash, and the whole when there is none.\<close>

definition after_slash :: "bytes \<Rightarrow> bytes" where
  "after_slash p = rev (takeWhile (\<lambda>c. c \<noteq> slash) (rev p))"

lemma HasPrefix_append [simp]: "HasPrefix (t @ u) t"
  by (simp add: HasPrefix_def)

lemma HasPrefix_iff: "HasPrefix s t \<longleftrightarrow> (\<exists>u. s = t @ u)"
  by (metis HasPrefix_append HasPrefix_def append_take_drop_id)

lemma HasSuffix_iff: "HasSuffix s t \<longleftrightarrow> (\<exists>u. s = u @ t)"
proof
  assume "HasSuffix s t"
  then show "\<exists>u. s = u @ t" unfolding HasSuffix_def by (metis append_take_drop_id)
qed (auto simp: HasSuffix_def)

lemma Contains_iff: "Contains s t \<longleftrightarrow> (\<exists>u v. s = u @ t @ v)"
proof (induction s)
  case (Cons c s)
  have "(\<exists>u v. c # s = u @ t @ v) \<longleftrightarrow> (\<exists>v. c # s = t @ v) \<or> (\<exists>u v. s = u @ t @ v)"
    by (metis append_Cons append_Nil list.inject neq_Nil_conv)
  with Cons show ?case by (auto simp: HasPrefix_iff)
qed auto

section \<open>Patterns\<close>

text \<open>
  \<open>path.Match\<close>. A chunk is a part of the pattern without a star outside brackets. After a failure
  the rest of the chunk is still checked for its form.
\<close>

datatype chunk_result = BadPattern | NoMatch | Rest bytes

definition getEsc :: "bytes \<Rightarrow> (u8 \<times> bytes) option" where
  "getEsc chunk =
     (if chunk = [] \<or> hd chunk = 0x2d \<or> hd chunk = 0x5d then None
      else
        let chunk' = (if hd chunk = 0x5c then tl chunk else chunk)
        in if length chunk' \<le> 1 then None else Some (hd chunk', tl chunk'))"

lemma getEsc_shorter [termination_simp]: "getEsc c = Some (r, c') \<Longrightarrow> length c' < length c"
  by (auto simp: getEsc_def Let_def split: if_splits)

lemma getEsc_more: "getEsc c = Some (r, c') \<Longrightarrow> c' \<noteq> []"
  by (auto simp: getEsc_def Let_def not_le length_Suc_conv Suc_less_eq2 less_eq_Suc_le [symmetric] Suc_le_length_iff split: if_splits)

text \<open>The ranges of a class: \<open>hit\<close> whether one contained \<open>r\<close>, \<open>any\<close> whether one was read.\<close>

function class_ranges :: "u8 \<Rightarrow> bool \<Rightarrow> bool \<Rightarrow> bytes \<Rightarrow> (bool \<times> bytes) option" where
  "class_ranges r hit any chunk =
     (if chunk \<noteq> [] \<and> hd chunk = 0x5d \<and> any then Some (hit, tl chunk)
      else case getEsc chunk of
        None \<Rightarrow> None
      | Some (lo, c1) \<Rightarrow>
          if hd c1 = 0x2d
          then case getEsc (tl c1) of
                 None \<Rightarrow> None
               | Some (hi, c2) \<Rightarrow> class_ranges r (hit \<or> lo \<le> r \<and> r \<le> hi) True c2
          else class_ranges r (hit \<or> lo = r) True c1)"
  by pat_completeness auto
termination
proof (relation "measure (\<lambda>(r, hit, any, chunk). length chunk)"; clarsimp)
  fix c lo c1 hi c2
  assume "getEsc c = Some (lo, c1)" "getEsc (tl c1) = Some (hi, c2)"
  then have "length c1 < length c" "length c2 < length (tl c1)" by (simp_all only: getEsc_shorter)
  then show "length c2 < length c" by simp
next
  fix c lo c1
  assume "getEsc c = Some (lo, c1)"
  then show "length c1 < length c" by (rule getEsc_shorter)
qed

declare class_ranges.simps [simp del]

lemma class_ranges_shorter [termination_simp]:
  "class_ranges r hit any c = Some (m, c') \<Longrightarrow> length c' < length c"
proof (induction r hit any c rule: class_ranges.induct)
  case (1 r hit any chunk)
  note e = 1(3) [unfolded class_ranges.simps [of r hit any chunk]]
  show ?case
  proof (cases "chunk \<noteq> [] \<and> hd chunk = 0x5d \<and> any")
    case True
    with e show ?thesis by (cases chunk) auto
  next
    case False
    then obtain lo c1 where g: "getEsc chunk = Some (lo, c1)" using e by (auto split: option.splits)
    show ?thesis
    proof (cases "hd c1 = 0x2d")
      case True
      then obtain hi c2 where g2: "getEsc (tl c1) = Some (hi, c2)" using e False g by (auto split: option.splits)
      have "length c' < length c2" using 1(1) [OF False g refl True g2 refl] e False g True g2 by simp
      with getEsc_shorter [OF g] getEsc_shorter [OF g2] show ?thesis by simp
    next
      case dash: False
      have "length c' < length c1" using 1(2) [OF False g refl dash] e False g dash by simp
      with getEsc_shorter [OF g] show ?thesis by simp
    qed
  qed
qed

function matchChunk :: "bool \<Rightarrow> bytes \<Rightarrow> bytes \<Rightarrow> chunk_result" where
  "matchChunk failed [] s = (if failed then NoMatch else Rest s)"
| "matchChunk failed (c # cs) s =
     (let f = failed \<or> s = []; s' = (if f then s else tl s)
      in if c = 0x5b then
           (let neg = (cs \<noteq> [] \<and> hd cs = 0x5e); cs' = (if neg then tl cs else cs)
            in case class_ranges (if f then 0 else hd s) False False cs' of
                 None \<Rightarrow> BadPattern
               | Some (hit, rest) \<Rightarrow> matchChunk (f \<or> hit = neg) rest s')
         else if c = 0x3f then matchChunk (f \<or> hd s = slash) cs s'
         else if c = 0x5c then
           (case cs of [] \<Rightarrow> BadPattern | e # es \<Rightarrow> matchChunk (f \<or> e \<noteq> hd s) es s')
         else matchChunk (f \<or> c \<noteq> hd s) cs s')"
  by pat_completeness auto
termination
proof (relation "measure (\<lambda>(failed, chunk, s). length chunk)"; clarsimp)
  fix cs rest and r :: u8 and neg hit
  assume "class_ranges r False False (if neg then tl cs else cs) = Some (hit, rest)"
  then have "length rest < length (if neg then tl cs else cs)" by (rule class_ranges_shorter)
  then show "length rest < Suc (length cs)" by (simp split: if_splits)
qed

declare matchChunk.simps(2) [simp del]

text \<open>Length of the first chunk.\<close>

fun chunk_len :: "bool \<Rightarrow> bytes \<Rightarrow> nat" where
  "chunk_len inrange [] = 0"
| "chunk_len inrange (c # cs) =
     (if c = 0x5c then (case cs of [] \<Rightarrow> 1 | e # es \<Rightarrow> 2 + chunk_len inrange es)
      else if c = 0x5b then 1 + chunk_len True cs
      else if c = 0x5d then 1 + chunk_len False cs
      else if c = 0x2a \<and> \<not> inrange then 0
      else 1 + chunk_len inrange cs)"

definition scanChunk :: "bytes \<Rightarrow> bool \<times> bytes \<times> bytes" where
  "scanChunk pattern =
     (let p = dropWhile (\<lambda>c. c = 0x2a) pattern; n = chunk_len False p
      in (pattern \<noteq> [] \<and> hd pattern = 0x2a, take n p, drop n p))"

lemma scanChunk_shorter:
  assumes "scanChunk p = (star, chunk, rest)" "p \<noteq> []"
  shows "length rest < length p"
proof (cases "hd p = 0x2a")
  case True
  then have "length (dropWhile (\<lambda>c. c = 0x2a) p) < length p"
    using assms(2) by (cases p) (auto simp: le_imp_less_Suc length_dropWhile_le)
  then show ?thesis using assms(1) by (auto simp: scanChunk_def Let_def)
next
  case False
  then obtain c cs where p: "p = c # cs" "c \<noteq> 0x2a" using assms(2) by (cases p) auto
  then have "0 < chunk_len False (dropWhile (\<lambda>c. c = 0x2a) p)" by (auto split: list.split)
  with p assms(1) show ?thesis by (auto simp: scanChunk_def Let_def)
qed

text \<open>The rest of a pattern that did not match is checked for its form.\<close>

function well_formed :: "bytes \<Rightarrow> bool" where
  "well_formed p \<longleftrightarrow>
     (if p = [] then True
      else case scanChunk p of (star, chunk, rest) \<Rightarrow> matchChunk False chunk [] \<noteq> BadPattern \<and> well_formed rest)"
  by pat_completeness auto
termination
  by (relation "measure length") (auto dest!: scanChunk_shorter [OF sym])

text \<open>
  The first position at or after which a star lets the chunk match; \<open>final\<close>: it is the last chunk,
  which must use up the name.
\<close>

fun skip_star :: "bool \<Rightarrow> bytes \<Rightarrow> bytes \<Rightarrow> chunk_result" where
  "skip_star final chunk [] = NoMatch"
| "skip_star final chunk (c # name) =
     (if c = slash then NoMatch
      else case matchChunk False chunk name of
        BadPattern \<Rightarrow> BadPattern
      | Rest t \<Rightarrow> if final \<and> t \<noteq> [] then skip_star final chunk name else Rest t
      | NoMatch \<Rightarrow> skip_star final chunk name)"

text \<open>\<open>None\<close>: \<open>ErrBadPattern\<close>.\<close>

function path_Match :: "bytes \<Rightarrow> bytes \<Rightarrow> bool option" where
  "path_Match pattern name =
     (if pattern = [] then Some (name = [])
      else case scanChunk pattern of (star, chunk, rest) \<Rightarrow>
        if star \<and> chunk = [] then Some (slash \<notin> set name)
        else
          case (case matchChunk False chunk name of
                  BadPattern \<Rightarrow> BadPattern
                | Rest t \<Rightarrow>
                    if t = [] \<or> rest \<noteq> [] then Rest t
                    else if star then skip_star (rest = []) chunk name else NoMatch
                | NoMatch \<Rightarrow> if star then skip_star (rest = []) chunk name else NoMatch) of
            BadPattern \<Rightarrow> None
          | Rest t \<Rightarrow> path_Match rest t
          | NoMatch \<Rightarrow> if well_formed rest then Some False else None)"
  by pat_completeness auto
termination
  by (relation "measure (\<lambda>(p, n). length p)") (auto dest!: scanChunk_shorter [OF sym])

declare well_formed.simps [simp del] path_Match.simps [simp del]

definition globOrEq :: "bytes \<Rightarrow> bytes \<Rightarrow> bool" where
  "globOrEq pattern s \<longleftrightarrow>
     pattern = s \<or> set pattern \<inter> {0x2a, 0x3f, 0x5b} \<noteq> {} \<and> path_Match pattern s = Some True"

section \<open>A pattern without metacharacters matches itself only\<close>

definition literal :: "bytes \<Rightarrow> bool" where
  "literal p \<longleftrightarrow> set p \<inter> {0x2a, 0x3f, 0x5b, 0x5c} = {}"

lemma chunk_len_literal: "literal p \<Longrightarrow> chunk_len False p = length p"
proof (induction p)
  case (Cons c p)
  then show ?case by (cases "c = 0x5d") (auto simp: literal_def)
qed simp

lemma scanChunk_literal: "literal p \<Longrightarrow> scanChunk p = (False, p, [])"
  by (cases p) (auto simp: scanChunk_def chunk_len_literal Let_def literal_def)

lemma matchChunk_literal:
  "literal p \<Longrightarrow> matchChunk failed p s =
     (if \<not> failed \<and> HasPrefix s p then Rest (drop (length p) s) else NoMatch)"
proof (induction p arbitrary: failed s)
  case Nil
  then show ?case by (simp add: HasPrefix_def)
next
  case (Cons c p)
  then show ?case by (cases s) (auto simp: matchChunk.simps(2) literal_def Let_def HasPrefix_def)
qed

lemma well_formed_Nil [simp]: "well_formed []"
  by (simp add: well_formed.simps)

lemma path_Match_Nil [simp]: "path_Match [] s = Some (s = [])"
  by (subst path_Match.simps) simp

lemma path_Match_literal: "literal p \<Longrightarrow> path_Match p s = Some (s = p)"
  by (subst path_Match.simps) (auto simp: scanChunk_literal matchChunk_literal HasPrefix_iff)

end
