(* ===== verification/AK_AddrText.thy ===== *)
theory AK_AddrText
  imports AK_GoText
begin

text \<open>
  Socket addresses as text: the rendering that \<open>decodeSockaddr\<close> (\<open>internal/bpf2frame\<close>) gives an
  event, the parser \<open>resourceIP\<close> (\<open>internal/policy/engine.go\<close>) that reads it back, and under them
  Go's \<open>net.IP.String\<close>, \<open>net.SplitHostPort\<close> and \<open>net.ParseIP\<close>. An address that was rendered is read
  back unchanged, in both families.
\<close>

section \<open>Addresses as text\<close>

text \<open>A number in base \<open>b\<close>, most significant digit first, as \<open>%d\<close> and \<open>%x\<close> print it.\<close>

definition digit_char :: "nat \<Rightarrow> u8" where
  "digit_char d = (if d < 10 then of_nat (48 + d) else of_nat (87 + d))"

fun base_text :: "nat \<Rightarrow> nat \<Rightarrow> bytes" where
  "base_text b n = (if n < b \<or> b < 2 then [digit_char n] else base_text b (n div b) @ [digit_char (n mod b)])"

declare base_text.simps [simp del]

fun join :: "bytes \<Rightarrow> bytes list \<Rightarrow> bytes" where
  "join sep [] = []"
| "join sep [x] = x"
| "join sep (x # y # xs) = x @ sep @ join sep (y # xs)"

definition ip4_text :: "bytes \<Rightarrow> bytes" where
  "ip4_text a = join [dot] (map (\<lambda>b. base_text 10 (unat b)) a)"

text \<open>The eight groups of an IPv6 address, and the longest run of at least two zero groups.\<close>

fun groups :: "bytes \<Rightarrow> nat list" where
  "groups (h # l # bs) = (256 * unat h + unat l) # groups bs"
| "groups bs = []"

definition zeros_at :: "nat list \<Rightarrow> nat \<Rightarrow> nat" where
  "zeros_at gs i = length (takeWhile (\<lambda>g. g = 0) (drop i gs))"

definition zero_run :: "nat list \<Rightarrow> nat \<times> nat" where
  "zero_run gs =
     fold (\<lambda>i (start, n). if 2 \<le> zeros_at gs i \<and> n < zeros_at gs i then (i, zeros_at gs i) else (start, n)) [0..<8] (255, 0)"

definition ip6_text :: "bytes \<Rightarrow> bytes" where
  "ip6_text a =
     (let gs = groups a; (start, n) = zero_run gs; h = (\<lambda>xs. join [colon] (map (base_text 16) xs))
      in if n = 0 then h gs else h (take start gs) @ [colon, colon] @ h (drop (start + n) gs))"

text \<open>\<open>net.IP.String\<close>: an IPv4-mapped address is printed as the IPv4 address.\<close>

definition v4_prefix :: bytes where
  "v4_prefix = replicate 10 0 @ [0xff, 0xff]"

definition IP_String :: "bytes \<Rightarrow> bytes" where
  "IP_String a =
     (if length a = 16 \<and> take 12 a = v4_prefix then ip4_text (drop 12 a)
      else if length a = 4 then ip4_text a else ip6_text a)"

text \<open>The text that \<open>decodeSockaddr\<close> returns, and a resource as text.\<close>

definition dest_text :: "destination \<Rightarrow> bytes" where
  "dest_text dst =
     (case dst of
        NoAddr \<Rightarrow> []
      | UnixAbstract \<Rightarrow> chars ''unix:<abstract>''
      | UnixPath p \<Rightarrow> chars ''unix:'' @ p
      | Inet a port \<Rightarrow> IP_String a @ [colon] @ base_text 10 (unat port)
      | Inet6 a port \<Rightarrow> [0x5b] @ IP_String a @ [0x5d, colon] @ base_text 10 (unat port)
      | Family f \<Rightarrow> chars ''family_'' @ base_text 10 (unat f))"

definition res_text :: "resource \<Rightarrow> bytes" where
  "res_text r = (case r of Text t \<Rightarrow> t | Address dst \<Rightarrow> dest_text dst)"

section \<open>Reading an address back\<close>

definition hex_val :: "u8 \<Rightarrow> nat option" where
  "hex_val c =
     (if 0x30 \<le> c \<and> c \<le> 0x39 then Some (unat c - 48)
      else if 0x61 \<le> c \<and> c \<le> 0x66 then Some (unat c - 87)
      else if 0x41 \<le> c \<and> c \<le> 0x46 then Some (unat c - 55)
      else None)"

definition is_hex :: "u8 \<Rightarrow> bool" where
  "is_hex c \<longleftrightarrow> hex_val c \<noteq> None"

definition is_digit :: "u8 \<Rightarrow> bool" where
  "is_digit c \<longleftrightarrow> 0x30 \<le> c \<and> c \<le> 0x39"

definition base_val :: "nat \<Rightarrow> bytes \<Rightarrow> nat" where
  "base_val b ds = fold (\<lambda>c n. b * n + (case hex_val c of None \<Rightarrow> 0 | Some d \<Rightarrow> d)) ds 0"

fun split_on :: "u8 \<Rightarrow> bytes \<Rightarrow> bytes list" where
  "split_on c [] = [[]]"
| "split_on c (x # xs) =
     (if x = c then [] # split_on c xs
      else case split_on c xs of [] \<Rightarrow> [[x]] | f # fs \<Rightarrow> (x # f) # fs)"

text \<open>A field of a dotted address: digits, no leading zero, at most 255.\<close>

definition v4_field :: "bytes \<Rightarrow> bool" where
  "v4_field f \<longleftrightarrow>
     f \<noteq> [] \<and> list_all is_digit f \<and> (hd f = 0x30 \<longrightarrow> length f = 1) \<and> base_val 10 f \<le> 255"

definition parseIPv4 :: "bytes \<Rightarrow> bytes option" where
  "parseIPv4 s =
     (let fs = split_on dot s
      in if length fs = 4 \<and> list_all v4_field fs then Some (map (\<lambda>f. of_nat (base_val 10 f)) fs) else None)"

text \<open>
  The loop of \<open>parseIPv6\<close>, at most eight turns: the bytes so far, the position of the ellipsis, the
  rest of the text.
\<close>

fun parse6_loop :: "nat \<Rightarrow> bytes \<Rightarrow> nat option \<Rightarrow> bytes \<Rightarrow> (bytes \<times> nat option \<times> bytes) option" where
  "parse6_loop 0 ip ell s = Some (ip, ell, s)"
| "parse6_loop (Suc n) ip ell s =
     (let ds = takeWhile is_hex s; rest = drop (length ds) s; v = base_val 16 ds;
          ip' = ip @ [of_nat (v div 256), of_nat (v mod 256)]
      in if ds = [] \<or> 4 < length ds then None
         else case rest of
           [] \<Rightarrow> Some (ip', ell, [])
         | c # cs \<Rightarrow>
             if c = dot then
               (if ell = None \<and> length ip \<noteq> 12 \<or> 16 < length ip + 4 then None
                else case parseIPv4 s of None \<Rightarrow> None | Some b \<Rightarrow> Some (ip @ b, ell, []))
             else if c \<noteq> colon then None
             else case cs of
               [] \<Rightarrow> None
             | e # es \<Rightarrow>
                 if e \<noteq> colon then parse6_loop n ip' ell cs
                 else if ell \<noteq> None then None
                 else if es = [] then Some (ip', Some (length ip'), [])
                 else parse6_loop n ip' (Some (length ip')) es)"

definition parse6_end :: "(bytes \<times> nat option \<times> bytes) option \<Rightarrow> bytes option" where
  "parse6_end res =
     (case res of
        None \<Rightarrow> None
      | Some (ip, ell, s) \<Rightarrow>
          if s \<noteq> [] then None
          else case ell of
            None \<Rightarrow> if length ip < 16 then None else Some ip
          | Some e \<Rightarrow>
              if length ip < 16 then Some (take e ip @ replicate (16 - length ip) 0 @ drop e ip) else None)"

definition parseIPv6 :: "bytes \<Rightarrow> bytes option" where
  "parseIPv6 s =
     (if 0x25 \<in> set s then None
      else if 2 \<le> length s \<and> s ! 0 = colon \<and> s ! 1 = colon then
        (if length s = 2 then Some (replicate 16 0) else parse6_end (parse6_loop 8 [] (Some 0) (drop 2 s)))
      else parse6_end (parse6_loop 8 [] None s))"

text \<open>\<open>net.ParseIP\<close>: sixteen bytes; a zone is refused.\<close>

definition ParseIP :: "bytes \<Rightarrow> bytes option" where
  "ParseIP s =
     (case List.find (\<lambda>c. c \<in> {dot, colon, 0x25}) s of
        None \<Rightarrow> None
      | Some c \<Rightarrow>
          if c = dot then map_option (\<lambda>b. v4_prefix @ b) (parseIPv4 s)
          else if c = colon then parseIPv6 s else None)"

text \<open>The host of \<open>net.SplitHostPort\<close>; the port is not used.\<close>

definition split_last :: "u8 \<Rightarrow> bytes \<Rightarrow> (bytes \<times> bytes) option" where
  "split_last c s =
     (if c \<notin> set s then None
      else let after = rev (takeWhile (\<lambda>x. x \<noteq> c) (rev s))
           in Some (take (length s - length after - 1) s, after))"

definition SplitHostPort :: "bytes \<Rightarrow> bytes option" where
  "SplitHostPort hp =
     (case split_last colon hp of
        None \<Rightarrow> None
      | Some (front, port) \<Rightarrow>
          if hd hp = 0x5b then
            (let host = takeWhile (\<lambda>c. c \<noteq> 0x5d) (tl hp)
             in if 0x5d \<in> set hp \<and> front = [0x5b] @ host @ [0x5d]
                   \<and> 0x5b \<notin> set (tl hp) \<and> 0x5d \<notin> set port then Some host else None)
          else if colon \<in> set front \<or> 0x5b \<in> set hp \<or> 0x5d \<in> set hp then None
          else Some front)"

definition resourceIP :: "bytes \<Rightarrow> bytes option" where
  "resourceIP res = ParseIP (case SplitHostPort res of Some h \<Rightarrow> h | None \<Rightarrow> res)"

section \<open>Numbers\<close>

lemma hex_val_digit: "d < 16 \<Longrightarrow> hex_val (digit_char d) = Some d"
proof -
  have "\<forall>d \<in> set [0..<16]. hex_val (digit_char d) = Some d" by code_simp
  then show "d < 16 \<Longrightarrow> hex_val (digit_char d) = Some d" by simp
qed

lemma is_digit_digit: "d < 10 \<Longrightarrow> is_digit (digit_char d)"
proof -
  have "\<forall>d \<in> set [0..<10]. is_digit (digit_char d)" by code_simp
  then show "d < 10 \<Longrightarrow> is_digit (digit_char d)" by simp
qed

lemma digit_eq_0: "d < 16 \<Longrightarrow> digit_char d = 0x30 \<Longrightarrow> d = 0"
  using hex_val_digit [of d] by (simp add: hex_val_def)

lemma base_text_small: "n < b \<Longrightarrow> base_text b n = [digit_char n]"
  by (subst base_text.simps) simp

lemma base_text_big: "2 \<le> b \<Longrightarrow> \<not> n < b \<Longrightarrow> base_text b n = base_text b (n div b) @ [digit_char (n mod b)]"
  by (subst base_text.simps) simp

lemma base_text_digits: "2 \<le> b \<Longrightarrow> c \<in> set (base_text b n) \<Longrightarrow> \<exists>d<b. c = digit_char d"
proof (induction b n rule: base_text.induct)
  case (1 b n)
  then have "\<exists>d<b. digit_char (n mod b) = digit_char d" by (intro exI [of _ "n mod b"]) simp
  with 1 show ?case by (cases "n < b") (auto simp: base_text_small base_text_big)
qed

lemma base_text_val: "2 \<le> b \<Longrightarrow> b \<le> 16 \<Longrightarrow> base_val b (base_text b n) = n"
proof (induction b n rule: base_text.induct)
  case (1 b n)
  then show ?case
    by (cases "n < b") (simp_all add: base_text_small base_text_big base_val_def hex_val_digit less_le_trans [of "n mod b" b])
qed

lemma base_text_ne [simp]: "base_text b n \<noteq> []"
  by (subst base_text.simps) simp

lemma base_text_length: "2 \<le> b \<Longrightarrow> n < b ^ k \<Longrightarrow> 0 < k \<Longrightarrow> length (base_text b n) \<le> k"
proof (induction k arbitrary: n)
  case (Suc k)
  show ?case
  proof (cases "n < b")
    case True
    then show ?thesis by (simp add: base_text_small)
  next
    case False
    have "n div b < b ^ k" using Suc.prems by (simp add: less_mult_imp_div_less mult.commute)
    moreover have "0 < k" using False Suc.prems by (cases k) auto
    ultimately show ?thesis using Suc False by (simp add: base_text_big)
  qed
qed simp

lemma base_text_lead: "2 \<le> b \<Longrightarrow> b \<le> 16 \<Longrightarrow> 0 < n \<Longrightarrow> hd (base_text b n) \<noteq> 0x30"
proof (induction b n rule: base_text.induct)
  case (1 b n)
  show ?case
  proof (cases "n < b")
    case True
    then show ?thesis using 1(2-4) digit_eq_0 [of n] by (auto simp: base_text_small)
  next
    case False
    then have "0 < n div b" using 1(2) by (simp add: div_greater_zero_iff)
    with False 1 show ?thesis by (simp add: base_text_big)
  qed
qed

lemma dec_no: "c \<in> set (base_text 10 n) \<Longrightarrow> is_digit c"
  using base_text_digits [of 10 c n] is_digit_digit by auto

lemma hex_no: "c \<in> set (base_text 16 n) \<Longrightarrow> is_hex c"
  using base_text_digits [of 16 c n] hex_val_digit by (auto simp: is_hex_def)

lemma byte_less: "unat (b :: u8) < 256"
proof -
  have "unat b < 2 ^ LENGTH(8)" by (rule unsigned_less)
  then show ?thesis by simp
qed

lemma separators:
  "\<not> is_digit dot" "\<not> is_digit colon" "\<not> is_digit 0x5b" "\<not> is_digit 0x5d" "\<not> is_digit 0x25"
  "\<not> is_hex dot" "\<not> is_hex colon" "\<not> is_hex 0x5b" "\<not> is_hex 0x5d" "\<not> is_hex 0x25"
  by code_simp+

section \<open>IPv4\<close>

lemma split_on_none: "c \<notin> set xs \<Longrightarrow> split_on c xs = [xs]"
  by (induction xs) auto

lemma split_on_first: "c \<notin> set xs \<Longrightarrow> split_on c (xs @ c # ys) = xs # split_on c ys"
  by (induction xs) auto

lemma split_on_join: "xs \<noteq> [] \<Longrightarrow> \<forall>x \<in> set xs. c \<notin> set x \<Longrightarrow> split_on c (join [c] xs) = xs"
  by (induction "[c]" xs rule: join.induct) (simp_all add: split_on_none split_on_first)

lemma set_join: "set (join sep xs) \<subseteq> set sep \<union> (\<Union>x \<in> set xs. set x)"
  by (induction sep xs rule: join.induct) auto

lemma v4_field_text: "v4_field (base_text 10 (unat (b :: u8)))"
proof -
  have "unat b \<le> 255" using byte_less [of b] by simp
  moreover have "length (base_text 10 (unat b)) = 1" if "hd (base_text 10 (unat b)) = 0x30"
    using that base_text_lead [of 10 "unat b"] by (cases "unat b = 0") (simp_all add: base_text_small)
  ultimately show ?thesis
    by (auto simp: v4_field_def list_all_iff base_text_val intro: dec_no)
qed

lemma parseIPv4_text: "length a = 4 \<Longrightarrow> parseIPv4 (ip4_text a) = Some a"
proof -
  assume a: "length a = 4"
  have "split_on dot (ip4_text a) = map (\<lambda>b. base_text 10 (unat b)) a"
    unfolding ip4_text_def using a separators(1) by (intro split_on_join) (auto dest: dec_no)
  then show ?thesis
    using a v4_field_text by (simp add: parseIPv4_def list_all_iff base_text_val comp_def)
qed

lemma ip4_text_chars: "c \<in> set (ip4_text a) \<Longrightarrow> is_digit c \<or> c = dot"
  using set_join [of "[dot]" "map (\<lambda>b. base_text 10 (unat b)) a"] by (auto simp: ip4_text_def dest: dec_no)

lemma ip4_text_dot: "length a = 4 \<Longrightarrow> dot \<in> set (ip4_text a)"
  by (auto simp: ip4_text_def length_Suc_conv numeral_eq_Suc)

section \<open>IPv6\<close>

definition group_bytes :: "nat list \<Rightarrow> bytes" where
  "group_bytes gs = concat (map (\<lambda>v. [of_nat (v div 256), of_nat (v mod 256)]) gs)"

lemma group_bytes_simps [simp]:
  "group_bytes [] = []" "group_bytes (xs @ ys) = group_bytes xs @ group_bytes ys"
  "group_bytes (v # xs) = of_nat (v div 256) # of_nat (v mod 256) # group_bytes xs"
  "length (group_bytes xs) = 2 * length xs"
  by (simp_all add: group_bytes_def length_concat comp_def sum_list_triv)

lemma groups_bytes: "even (length a) \<Longrightarrow> group_bytes (groups a) = a"
proof (induction a rule: groups.induct)
  case (1 h l bs)
  have "unat l < 256" "unat h < 256" by (rule byte_less)+
  then have "(256 * unat h + unat l) div 256 = unat h" "(256 * unat h + unat l) mod 256 = unat l" by simp_all
  with 1 show ?case by simp
qed auto

lemma groups_length: "even (length a) \<Longrightarrow> length (groups a) = length a div 2"
  using groups_bytes [of a] group_bytes_simps(4) [of "groups a"] by simp

lemma groups_bound: "g \<in> set (groups a) \<Longrightarrow> g < 65536"
proof (induction a rule: groups.induct)
  case (1 h l bs)
  have "unat l < 256" "unat h < 256" by (rule byte_less)+
  with 1 show ?case by auto
qed auto

definition hex_groups :: "nat list \<Rightarrow> bytes" where
  "hex_groups gs = join [colon] (map (base_text 16) gs)"

lemma hex_groups_simps:
  "hex_groups [g] = base_text 16 g" "xs \<noteq> [] \<Longrightarrow> hex_groups (g # xs) = base_text 16 g @ colon # hex_groups xs"
  by (simp_all add: hex_groups_def neq_Nil_conv) auto

lemma hex_groups_ne: "xs \<noteq> [] \<Longrightarrow> hex_groups xs \<noteq> [] \<and> hd (hex_groups xs) \<noteq> colon"
proof (cases xs)
  case (Cons g ys)
  have "hd (base_text 16 g) \<noteq> colon"
    using hex_no [of "hd (base_text 16 g)" g] separators by (metis base_text_ne hd_in_set)
  then show ?thesis using Cons hex_groups_simps by (cases "ys = []") auto
qed simp

lemma hex_scan:
  assumes "g < 65536" "rest = [] \<or> hd rest = colon"
  shows "takeWhile is_hex (base_text 16 g @ rest) = base_text 16 g"
    and "length (base_text 16 g) \<le> 4" "base_val 16 (base_text 16 g) = g"
proof -
  have "takeWhile is_hex rest = []" using assms(2) separators by (cases rest) auto
  then show "takeWhile is_hex (base_text 16 g @ rest) = base_text 16 g"
    using hex_no by (simp add: takeWhile_append2)
  show "length (base_text 16 g) \<le> 4" "base_val 16 (base_text 16 g) = g"
    using assms(1) by (simp_all add: base_text_length base_text_val)
qed

lemma colon_dot: "colon \<noteq> dot"
  by (simp add: colon_def dot_def)

lemma parse6_step:
  assumes "g < 65536" "rest = [] \<or> hd rest = colon"
  shows "parse6_loop (Suc n) ip ell (base_text 16 g @ rest) =
     (case rest of
        [] \<Rightarrow> Some (ip @ group_bytes [g], ell, [])
      | c # cs \<Rightarrow>
          (case cs of
             [] \<Rightarrow> None
           | e # es \<Rightarrow>
               if e \<noteq> colon then parse6_loop n (ip @ group_bytes [g]) ell cs
               else if ell \<noteq> None then None
               else if es = [] then Some (ip @ group_bytes [g], Some (length ip + 2), [])
               else parse6_loop n (ip @ group_bytes [g]) (Some (length ip + 2)) es))"
  unfolding parse6_loop.simps(2) hex_scan(1,3) [OF assms] Let_def
  using hex_scan(2) [OF assms] assms(2) colon_dot by (cases rest) (simp_all del: parse6_loop.simps split: list.split)

lemma parse6_next:
  assumes "g < 65536" "rest \<noteq> []" "hd rest \<noteq> colon"
  shows "parse6_loop (Suc n) ip ell (base_text 16 g @ colon # rest) = parse6_loop n (ip @ group_bytes [g]) ell rest"
  using assms parse6_step [of g "colon # rest"] by (cases rest) simp_all

lemma parse6_groups:
  assumes "gs \<noteq> []" "length gs \<le> n" "\<forall>g \<in> set gs. g < 65536"
  shows "parse6_loop n ip ell (hex_groups gs) = Some (ip @ group_bytes gs, ell, [])"
  using assms
proof (induction gs arbitrary: n ip)
  case (Cons g gs)
  then obtain m where n: "n = Suc m" by (cases n) auto
  show ?case
  proof (cases "gs = []")
    case True
    then show ?thesis using n Cons.prems parse6_step [of g "[]" m ip ell] by (simp add: hex_groups_simps)
  next
    case False
    then show ?thesis
      using n Cons hex_groups_ne [OF False] by (simp add: hex_groups_simps parse6_next del: parse6_loop.simps)
  qed
qed simp

lemma parse6_ellipsis:
  assumes "gs \<noteq> []" "length gs \<le> n" "\<forall>g \<in> set gs. g < 65536"
  shows "parse6_loop n ip None (hex_groups gs @ colon # colon # t) =
     (if t = [] then Some (ip @ group_bytes gs, Some (length ip + 2 * length gs), [])
      else parse6_loop (n - length gs) (ip @ group_bytes gs) (Some (length ip + 2 * length gs)) t)"
  using assms
proof (induction gs arbitrary: n ip)
  case (Cons g gs)
  then obtain m where n: "n = Suc m" by (cases n) auto
  show ?case
  proof (cases "gs = []")
    case True
    then show ?thesis
      using n Cons.prems parse6_step [of g "colon # colon # t" m ip None] by (simp add: hex_groups_simps del: parse6_loop.simps)
  next
    case False
    then show ?thesis
      using n Cons hex_groups_ne [OF False] by (simp add: hex_groups_simps parse6_next del: parse6_loop.simps)
  qed
qed simp

text \<open>The run of zeros that is left out.\<close>

lemma zeros_replicate: "take (zeros_at gs i) (drop i gs) = replicate (zeros_at gs i) 0"
  unfolding zeros_at_def using replicate_length_filter
  by (metis (mono_tags, lifting) set_takeWhileD replicate_eqI takeWhile_eq_take length_takeWhile_le)

lemma zero_run_spec:
  assumes "zero_run gs = (start, n)" "0 < n"
  shows "gs = take start gs @ replicate n 0 @ drop (start + n) gs" "start + n \<le> length gs"
proof -
  have n: "n = zeros_at gs start"
    using fold_keeps [where P = "\<lambda>(i, n). n = 0 \<or> n = zeros_at gs i" and xs = "[0..<8]" and y = "(255, 0)"
        and f = "\<lambda>i (start, n). if 2 \<le> zeros_at gs i \<and> n < zeros_at gs i then (i, zeros_at gs i) else (start, n)"] assms
    by (auto simp: zero_run_def)
  have "n \<le> length gs - start" unfolding n zeros_at_def using length_takeWhile_le [of _ "drop start gs"] by simp
  with assms(2) show "start + n \<le> length gs" by simp
  have "drop start gs = replicate n 0 @ drop (start + n) gs"
    unfolding n by (metis append_take_drop_id drop_drop add.commute zeros_replicate)
  then show "gs = take start gs @ replicate n 0 @ drop (start + n) gs" by (metis append_take_drop_id)
qed

lemma group_zeros: "group_bytes (replicate n 0) = replicate (2 * n) 0"
  by (induction n) simp_all

lemma hex_groups_chars: "c \<in> set (hex_groups gs) \<Longrightarrow> is_hex c \<or> c = colon"
  using set_join [of "[colon]" "map (base_text 16) gs"] by (auto simp: hex_groups_def dest: hex_no)

lemma ip6_text_groups:
  "ip6_text a = (case zero_run (groups a) of (start, n) \<Rightarrow>
     if n = 0 then hex_groups (groups a)
     else hex_groups (take start (groups a)) @ [colon, colon] @ hex_groups (drop (start + n) (groups a)))"
  by (simp add: ip6_text_def hex_groups_def Let_def split: prod.split)

lemma parse6_tail:
  assumes "length pre + 2 * length gs < 16" "\<forall>g \<in> set gs. g < 65536" "length gs \<le> n" "gs \<noteq> []"
  shows "parse6_end (parse6_loop n pre (Some (length pre)) (hex_groups gs)) =
     Some (pre @ replicate (16 - length pre - 2 * length gs) 0 @ group_bytes gs)"
  using assms by (simp add: parse6_groups parse6_end_def)

lemma parseIPv6_plain:
  "s \<noteq> [] \<Longrightarrow> hd s \<noteq> colon \<Longrightarrow> 0x25 \<notin> set s \<Longrightarrow> parseIPv6 s = parse6_end (parse6_loop 8 [] None s)"
  by (cases s) (simp_all add: parseIPv6_def)

lemma parseIPv6_gap:
  assumes "length x + length y < 8" "\<forall>g \<in> set x. g < 65536" "\<forall>g \<in> set y. g < 65536"
  shows "parseIPv6 (hex_groups x @ colon # colon # hex_groups y) =
     Some (group_bytes x @ replicate (16 - 2 * length x - 2 * length y) 0 @ group_bytes y)"
proof -
  let ?s = "hex_groups x @ colon # colon # hex_groups y"
  have nz: "0x25 \<notin> set ?s" using separators by (auto simp: colon_def dest!: hex_groups_chars)
  have e: "hex_groups [] = []" by (simp add: hex_groups_def)
  have y: "parse6_end (parse6_loop n (group_bytes x) (Some (2 * length x)) (hex_groups y)) =
      Some (group_bytes x @ replicate (16 - 2 * length x - 2 * length y) 0 @ group_bytes y)"
    if "y \<noteq> []" "length y \<le> n" for n
    using parse6_tail [of "group_bytes x" y n] assms that by simp
  show ?thesis
  proof (cases "x = []")
    case True
    then show ?thesis using nz y [of 8] hex_groups_ne [of y] assms(1) by (cases "y = []") (simp_all add: parseIPv6_def e)
  next
    case False
    then have "parseIPv6 ?s = parse6_end (parse6_loop 8 [] None ?s)"
      using nz hex_groups_ne [OF False] by (intro parseIPv6_plain) auto
    with False show ?thesis
      using parse6_ellipsis [OF False _ assms(2), of 8 "[]" "hex_groups y"] hex_groups_ne [of y] y [of "8 - length x"] assms(1)
      by (cases "y = []") (simp_all add: parse6_end_def e)
  qed
qed

lemma parseIPv6_text:
  assumes a: "length a = 16"
  shows "parseIPv6 (ip6_text a) = Some a"
proof -
  let ?gs = "groups a"
  have gs: "group_bytes ?gs = a" "length ?gs = 8" "\<forall>g \<in> set ?gs. g < 65536"
    using a groups_bytes [of a] groups_length [of a] groups_bound by auto
  then have ne: "?gs \<noteq> []" by auto
  obtain start n where r: "zero_run ?gs = (start, n)" by fastforce
  show ?thesis
  proof (cases "n = 0")
    case True
    have "0x25 \<notin> set (hex_groups ?gs)" using separators by (auto simp: colon_def dest!: hex_groups_chars)
    then have "parseIPv6 (ip6_text a) = parse6_end (parse6_loop 8 [] None (hex_groups ?gs))"
      using hex_groups_ne [OF ne] True by (simp add: parseIPv6_plain ip6_text_groups r)
    also have "\<dots> = Some a" using parse6_groups [OF ne, of 8 "[]" None] gs a by (simp add: parse6_end_def)
    finally show ?thesis .
  next
    case False
    let ?x = "take start ?gs" and ?y = "drop (start + n) ?gs"
    have s: "?gs = ?x @ replicate n 0 @ ?y" "start + n \<le> 8" using zero_run_spec [OF r] False gs(2) by auto
    have b: "group_bytes ?x @ replicate (2 * n) 0 @ group_bytes ?y = a"
      using gs(1) s(1) by (metis group_bytes_simps(2) group_zeros)
    have "16 - 2 * start - 2 * (8 - (start + n)) = 2 * n" using s(2) by simp
    then show ?thesis
      using parseIPv6_gap [of ?x ?y] gs(2,3) s(2) b False
      by (auto simp: ip6_text_groups r dest: in_set_takeD in_set_dropD)
  qed
qed

section \<open>Rendered addresses\<close>

lemma split_last_append: "c \<notin> set t \<Longrightarrow> split_last c (s @ c # t) = Some (s, t)"
proof -
  assume "c \<notin> set t"
  then have "takeWhile (\<lambda>x. x \<noteq> c) (rev t @ c # rev s) = rev t" by (subst takeWhile_append2) auto
  then show ?thesis by (simp add: split_last_def Let_def)
qed

lemma find_unique: "x \<in> set xs \<Longrightarrow> P x \<Longrightarrow> \<forall>y \<in> set xs. P y \<longrightarrow> y = x \<Longrightarrow> List.find P xs = Some x"
proof -
  assume x: "x \<in> set xs" "P x" "\<forall>y \<in> set xs. P y \<longrightarrow> y = x"
  then obtain y where y: "List.find P xs = Some y" by (metis find_None_iff not_None_eq)
  then have "P y" "y \<in> set xs" by (auto simp: find_Some_iff)
  with x y show ?thesis by simp
qed

lemma ParseIP_v4: "length a = 4 \<Longrightarrow> ParseIP (ip4_text a) = Some (v4_prefix @ a)"
proof -
  assume a: "length a = 4"
  have "List.find (\<lambda>c. c \<in> {dot, colon, 0x25}) (ip4_text a) = Some dot"
    using ip4_text_dot [OF a] separators by (intro find_unique) (auto dest!: ip4_text_chars)
  then show ?thesis using parseIPv4_text [OF a] by (simp add: ParseIP_def)
qed

lemma ip6_text_chars: "c \<in> set (ip6_text a) \<Longrightarrow> is_hex c \<or> c = colon"
  by (auto simp: ip6_text_groups dest!: hex_groups_chars split: prod.splits if_splits)

lemma ip6_text_colon:
  assumes "length a = 16"
  shows "colon \<in> set (ip6_text a)"
proof -
  have "2 \<le> length (groups a)" using assms groups_length [of a] by simp
  then obtain g g' gs where "groups a = g # g' # gs" by (metis Suc_le_length_iff numeral_2_eq_2)
  moreover obtain start n where "zero_run (groups a) = (start, n)" by fastforce
  ultimately show ?thesis by (cases "n = 0") (simp_all add: ip6_text_groups hex_groups_def)
qed

lemma ParseIP_v6: "length a = 16 \<Longrightarrow> ParseIP (ip6_text a) = Some a"
proof -
  assume a: "length a = 16"
  have "List.find (\<lambda>c. c \<in> {dot, colon, 0x25}) (ip6_text a) = Some colon"
    using ip6_text_colon [OF a] separators by (intro find_unique) (auto dest!: ip6_text_chars)
  then show ?thesis using parseIPv6_text [OF a] colon_dot by (simp add: ParseIP_def)
qed

definition To16 :: "bytes \<Rightarrow> bytes" where
  "To16 a = (if length a = 4 then v4_prefix @ a else a)"

lemma ParseIP_String: "length a \<in> {4, 16} \<Longrightarrow> ParseIP (IP_String a) = Some (To16 a)"
proof -
  assume a: "length a \<in> {4, 16}"
  consider "length a = 4" | "length a = 16" "take 12 a = v4_prefix" | "length a = 16" "take 12 a \<noteq> v4_prefix"
    using a by auto
  then show ?thesis
  proof cases
    case 2
    then have "v4_prefix @ drop 12 a = a" by (metis append_take_drop_id)
    with 2 show ?thesis by (simp add: IP_String_def ParseIP_v4 To16_def)
  qed (simp_all add: IP_String_def ParseIP_v4 ParseIP_v6 To16_def)
qed

lemma IP_String_brackets: "0x5b \<notin> set (IP_String a)" "0x5d \<notin> set (IP_String a)"
  using separators
  by (auto simp: IP_String_def colon_def dot_def dest!: ip4_text_chars ip6_text_chars split: if_splits)

lemma port_text: "colon \<notin> set (base_text 10 n)" "0x5b \<notin> set (base_text 10 n)" "0x5d \<notin> set (base_text 10 n)"
  using separators by (auto dest!: dec_no)

text \<open>
  An event's destination is rendered and read back without loss: the policy engine's \<open>resourceIP\<close>
  on the text that \<open>decodeSockaddr\<close> gave finds the address of the socket, for both families and
  with the shortened forms of IPv6; an IPv4 address comes back as its sixteen byte form.
\<close>

lemma resource_address_roundtrip:
  assumes "dst = Inet a port \<and> length a = 4 \<or> dst = Inet6 a port \<and> length a = 16"
  shows "resourceIP (res_text (Address dst)) = Some (To16 a)"
  using assms
proof
  assume d: "dst = Inet a port \<and> length a = 4"
  have ne: "ip4_text a \<noteq> []" using ip4_text_dot [of a] d by auto
  have "hd (ip4_text a) \<noteq> 0x5b" using IP_String_brackets(1) [of a] d hd_in_set [OF ne] by (auto simp: IP_String_def)
  moreover have "colon \<notin> set (ip4_text a)" using separators(2) colon_dot ip4_text_chars by metis
  moreover note ne
  ultimately have "SplitHostPort (IP_String a @ colon # base_text 10 (unat port)) = Some (IP_String a)"
    using d IP_String_brackets [of a] port_text [of "unat port"] split_last_append [OF port_text(1), of "IP_String a"]
    by (simp add: SplitHostPort_def IP_String_def colon_def)
  then show ?thesis using d ParseIP_String [of a] by (simp add: res_text_def dest_text_def resourceIP_def)
next
  assume d: "dst = Inet6 a port \<and> length a = 16"
  have "takeWhile (\<lambda>c. c \<noteq> 0x5d) (IP_String a @ 0x5d # colon # base_text 10 (unat port)) = IP_String a"
    using IP_String_brackets(2) [of a] by (subst takeWhile_append2) auto
  then have "SplitHostPort (0x5b # IP_String a @ 0x5d # colon # base_text 10 (unat port)) = Some (IP_String a)"
    using IP_String_brackets [of a] port_text [of "unat port"]
      split_last_append [OF port_text(1), of "0x5b # IP_String a @ [0x5d]" "unat port"]
    by (simp add: SplitHostPort_def Let_def colon_def)
  then show ?thesis using d ParseIP_String [of a] by (simp add: res_text_def dest_text_def resourceIP_def)
qed

end
