(* ===== verification/AK_PolicySpec.thy ===== *)
theory AK_PolicySpec
  imports AK_AddrText AK_Arming
begin

text \<open>
  The policy language and the session as the policy sees it: \<open>pkg/policyspec/policyspec.go\<close> with
  its validation, \<open>pkg/types/session.go\<close>, \<open>pkg/types/policy.go\<close>. A policy is the value the YAML
  decoder delivers; the effect of a rule is still text there. Where the engine hands a text to a
  parser of the standard library the field holds the result of that parser: a prefix as in
  \<open>KernelRule\<close>, and a duration in nanoseconds (\<open>None\<close> for the empty text, \<open>Some None\<close> for one that
  does not parse). The version and the status of a document are not read.
\<close>

section \<open>Sessions\<close>

datatype AgentKind =
  AgentClaudeCode | AgentCodex | AgentCrush | AgentGemini | AgentCopilot | AgentUnknown

fun agent_name :: "AgentKind \<Rightarrow> bytes" where
  "agent_name AgentClaudeCode = chars ''claude-code''"
| "agent_name AgentCodex = chars ''codex''"
| "agent_name AgentCrush = chars ''crush''"
| "agent_name AgentGemini = chars ''gemini''"
| "agent_name AgentCopilot = chars ''copilot''"
| "agent_name AgentUnknown = chars ''unknown''"

datatype SessionState = SessionActive | SessionEnded

fun state_name :: "SessionState \<Rightarrow> bytes" where
  "state_name SessionActive = chars ''active''"
| "state_name SessionEnded = chars ''ended''"

datatype SemanticCoverage = CoverageFull | CoverageDegraded | CoverageNone

fun coverage_name :: "SemanticCoverage \<Rightarrow> bytes" where
  "coverage_name CoverageFull = chars ''full''"
| "coverage_name CoverageDegraded = chars ''degraded''"
| "coverage_name CoverageNone = chars ''none''"

text \<open>The session of the enforcer with what the manager and the policy engine add.\<close>

record session = AgentSession +
  ss_ID :: bytes
  ss_Agent :: AgentKind
  ss_CgroupPath :: bytes
  ss_StartTime :: int
  ss_State :: SessionState
  ss_Coverage :: SemanticCoverage
  ss_WireIntents :: nat
  ss_Tampered :: bool

abbreviation to_enforce :: "session \<Rightarrow> AgentSession" where
  "to_enforce \<equiv> AgentSession.truncate"

text \<open>The session of the examples.\<close>

definition running :: session where
  "running = \<lparr>sess_CgroupID = 7, sess_RootPID = 2, sess_Members = [], ss_ID = chars ''s1'', ss_Agent = AgentCodex,
     ss_CgroupPath = [], ss_StartTime = 0, ss_State = SessionActive, ss_Coverage = CoverageNone, ss_WireIntents = 0, ss_Tampered = False\<rparr>"

section \<open>Policies\<close>

record SemanticPred =
  sm_Tool :: bytes
  sm_MCPMethod :: bytes
  sm_Provider :: bytes
  sm_Taint :: bytes
  sm_Provenance :: bytes
  sm_IntentClass :: bytes
  sm_DBEngine :: bytes
  sm_DBTable :: bytes
  sm_DBOp :: bytes

record SystemPred =
  sy_Op :: string
  sy_Path :: bytes
  sy_Dir :: bytes
  sy_CIDR :: "(bytes \<times> nat) option option"
  sy_FQDN :: bytes

text \<open>Predicates that ask for nothing.\<close>

definition no_sem :: SemanticPred where
  "no_sem = \<lparr>sm_Tool = [], sm_MCPMethod = [], sm_Provider = [], sm_Taint = [], sm_Provenance = [], sm_IntentClass = [],
     sm_DBEngine = [], sm_DBTable = [], sm_DBOp = []\<rparr>"

definition no_sys :: SystemPred where
  "no_sys = \<lparr>sy_Op = [], sy_Path = [], sy_Dir = [], sy_CIDR = None, sy_FQDN = []\<rparr>"

record ConditionPred =
  cd_After :: bytes
  cd_Within :: "int option option"
  cd_SessionState :: bytes
  cd_Coverage :: bytes
  cd_Tampered :: "bool option"

record When =
  Semantic :: "SemanticPred option"
  System :: "SystemPred option"
  Condition :: "ConditionPred option"

record Rule =
  ru_Name :: bytes
  ru_When :: When
  ru_Effect :: string

record Policy =
  po_Kind :: string
  po_Name :: bytes
  po_Selector :: "bytes list"
  po_Rules :: "Rule list"
  po_DefaultEffect :: string

definition validEffects :: "(string \<times> effect) list" where
  "validEffects = [(''Allow'', EffectAllow), (''Audit'', EffectAudit), (''Alert'', EffectAlert),
     (''Block'', EffectBlock), (''Kill'', EffectKill)]"

definition provenanceLabels :: "bytes list" where
  "provenanceLabels = [chars ''agent-written'', chars ''agent-code'']"

section \<open>Validation\<close>

datatype policy_error =
    BadKind string
  | NameRequired
  | SelectorRequired
  | BadDefaultEffect string
  | RuleNameRequired nat
  | BadEffect bytes string
  | PredicateRequired bytes
  | TaintIsProvenance bytes bytes
  | BadProvenance bytes bytes
  | BadRuleCIDR bytes bytes

definition check_labels :: "bytes \<Rightarrow> SemanticPred \<Rightarrow> policy_error option" where
  "check_labels name s =
     (if sm_Taint s \<in> set provenanceLabels then Some (TaintIsProvenance name (sm_Taint s))
      else if sm_Provenance s \<noteq> [] \<and> sm_Provenance s \<notin> set provenanceLabels
      then Some (BadProvenance name (sm_Provenance s))
      else None)"

definition check_rule :: "nat \<Rightarrow> Rule \<Rightarrow> policy_error option" where
  "check_rule i r =
     (if ru_Name r = [] then Some (RuleNameRequired i)
      else if map_of validEffects (ru_Effect r) = None then Some (BadEffect (ru_Name r) (ru_Effect r))
      else if Semantic (ru_When r) = None \<and> System (ru_When r) = None then Some (PredicateRequired (ru_Name r))
      else case Semantic (ru_When r) of None \<Rightarrow> None | Some s \<Rightarrow> check_labels (ru_Name r) s)"

fun check_rules :: "nat \<Rightarrow> Rule list \<Rightarrow> policy_error option" where
  "check_rules i [] = None"
| "check_rules i (r # rs) = (case check_rule i r of Some err \<Rightarrow> Some err | None \<Rightarrow> check_rules (i + 1) rs)"

definition Validate :: "Policy \<Rightarrow> policy_error option" where
  "Validate p =
     (if po_Kind p \<noteq> ''AgentKnoxPolicy'' then Some (BadKind (po_Kind p))
      else if po_Name p = [] then Some NameRequired
      else if po_Selector p = [] then Some SelectorRequired
      else if po_DefaultEffect p \<noteq> '''' \<and> map_of validEffects (po_DefaultEffect p) = None
      then Some (BadDefaultEffect (po_DefaultEffect p))
      else check_rules 0 (po_Rules p))"

text \<open>A policy that passes has only rules with a name, an effect, a predicate and proper labels.\<close>

definition rule_valid :: "Rule \<Rightarrow> bool" where
  "rule_valid r \<longleftrightarrow>
     ru_Name r \<noteq> [] \<and> ru_Effect r \<in> fst ` set validEffects
     \<and> (Semantic (ru_When r) \<noteq> None \<or> System (ru_When r) \<noteq> None)
     \<and> (\<forall>s. Semantic (ru_When r) = Some s \<longrightarrow>
          sm_Taint s \<notin> set provenanceLabels \<and> (sm_Provenance s = [] \<or> sm_Provenance s \<in> set provenanceLabels))"

lemma check_rule_valid: "check_rule i r = None \<longleftrightarrow> rule_valid r"
  by (auto simp: check_rule_def rule_valid_def check_labels_def map_of_eq_None_iff split: option.split if_splits)

lemma check_rules_valid: "check_rules i rs = None \<longleftrightarrow> (\<forall>r \<in> set rs. rule_valid r)"
proof (induction rs arbitrary: i)
  case (Cons r rs)
  then show ?case using check_rule_valid [of i r] by (auto split: option.split)
qed simp

lemma Validate_rules: "Validate p = None \<Longrightarrow> r \<in> set (po_Rules p) \<Longrightarrow> rule_valid r"
  by (simp add: Validate_def check_rules_valid split: if_splits)

end
