(* ===== verification/AK_Engine.thy ===== *)
theory AK_Engine
  imports AK_PolicySpec AK_Egress "HOL-Library.AList"
begin

text \<open>
  The policy engine, \<open>internal/policy/engine.go\<close>: compiling policies (\<open>Load\<close>), the push-down to
  kernel rules (\<open>deriveKernelRules\<close>), the evaluation of syscalls, semantic events and correlated
  actions, the timeline of markers behind \<open>after\<close> and \<open>within\<close>. Time is in nanoseconds; the time
  stamp of a decision is left out, and its reason is a term instead of a formatted text. The locks
  make each operation atomic.
\<close>

section \<open>State\<close>

record compiledRule =
  cr_policyName :: bytes
  cr_selector :: "bytes list"
  cr_ruleName :: bytes
  cr_rule :: Rule
  cr_effect :: effect
  cr_normDir :: bytes
  cr_cidr :: "(bytes \<times> nat) option"

abbreviation cr_Semantic :: "compiledRule \<Rightarrow> SemanticPred option" where
  "cr_Semantic cr \<equiv> Semantic (ru_When (cr_rule cr))"

abbreviation cr_System :: "compiledRule \<Rightarrow> SystemPred option" where
  "cr_System cr \<equiv> System (ru_When (cr_rule cr))"

abbreviation cr_Condition :: "compiledRule \<Rightarrow> ConditionPred option" where
  "cr_Condition cr \<equiv> Condition (ru_When (cr_rule cr))"

text \<open>Per session, the last time each marker was seen.\<close>

type_synonym timeline = "(bytes \<times> (bytes \<rightharpoonup> int)) list"

record engine =
  en_rules :: "compiledRule list"
  en_kernelRules :: "KernelRule list"
  en_defaultEffect :: effect
  en_hasTemporal :: bool
  en_timeline :: timeline

definition maxTimelineSessions :: nat where "maxTimelineSessions = 2048"

definition New_engine :: engine where
  "New_engine = \<lparr>en_rules = [], en_kernelRules = [], en_defaultEffect = EffectAllow, en_hasTemporal = False, en_timeline = []\<rparr>"

section \<open>The timeline\<close>

text \<open>The session that makes room is any; \<open>pick\<close> chooses it.\<close>

definition evict_one :: "nat \<Rightarrow> timeline \<Rightarrow> timeline" where
  "evict_one pick tm = (let i = pick mod length tm in take i tm @ drop (Suc i) tm)"

definition recordMarker :: "nat \<Rightarrow> bytes \<Rightarrow> bytes \<Rightarrow> int \<Rightarrow> engine \<Rightarrow> engine" where
  "recordMarker pick sessID marker t en =
     (if \<not> en_hasTemporal en \<or> sessID = [] \<or> marker = [] then en
      else case map_of (en_timeline en) sessID of
        Some m \<Rightarrow> en\<lparr>en_timeline := AList.update sessID (m(marker \<mapsto> t)) (en_timeline en)\<rparr>
      | None \<Rightarrow>
          let tm = (if maxTimelineSessions \<le> length (en_timeline en) then evict_one pick (en_timeline en) else en_timeline en)
          in en\<lparr>en_timeline := (sessID, [marker \<mapsto> t]) # tm\<rparr>)"

definition markerSeen :: "engine \<Rightarrow> bytes \<Rightarrow> bytes \<Rightarrow> int option" where
  "markerSeen en sessID marker =
     (case map_of (en_timeline en) sessID of None \<Rightarrow> None | Some m \<Rightarrow> m marker)"

definition ForgetSession :: "bytes \<Rightarrow> engine \<Rightarrow> engine" where
  "ForgetSession sessID en = en\<lparr>en_timeline := AList.delete sessID (en_timeline en)\<rparr>"

section \<open>Compilation\<close>

fun effectRank :: "effect \<Rightarrow> nat" where
  "effectRank EffectAllow = 0"
| "effectRank EffectAudit = 1"
| "effectRank EffectAlert = 2"
| "effectRank EffectBlock = 3"
| "effectRank EffectKill = 4"

text \<open>A text that passed validation is one of the five effects.\<close>

definition PolicyEffect :: "string \<Rightarrow> effect" where
  "PolicyEffect s = (case map_of validEffects s of Some e \<Rightarrow> e | None \<Rightarrow> EffectAllow)"

definition normalizeDir :: "bytes \<Rightarrow> bytes" where
  "normalizeDir d = (if d = [] then d else if \<not> HasSuffix d [slash] then d @ [slash] else d)"

definition compile_rule :: "Policy \<Rightarrow> Rule \<Rightarrow> policy_error + compiledRule" where
  "compile_rule p r =
     (let cr = \<lparr>cr_policyName = po_Name p, cr_selector = po_Selector p, cr_ruleName = ru_Name r, cr_rule = r,
                cr_effect = PolicyEffect (ru_Effect r), cr_normDir = [], cr_cidr = None\<rparr>
      in case System (ru_When r) of
           None \<Rightarrow> Inr cr
         | Some sp \<Rightarrow>
             let cr' = (if sy_Dir sp \<noteq> [] then cr\<lparr>cr_normDir := normalizeDir (sy_Dir sp)\<rparr> else cr)
             in case sy_CIDR sp of
                  None \<Rightarrow> Inr cr'
                | Some None \<Rightarrow> Inl (BadRuleCIDR (po_Name p) (ru_Name r))
                | Some (Some c) \<Rightarrow> Inr (cr'\<lparr>cr_cidr := Some c\<rparr>))"

fun compile_rules :: "Policy \<Rightarrow> Rule list \<Rightarrow> policy_error + compiledRule list" where
  "compile_rules p [] = Inr []"
| "compile_rules p (r # rs) =
     (case compile_rule p r of
        Inl err \<Rightarrow> Inl err
      | Inr cr \<Rightarrow> (case compile_rules p rs of Inl err \<Rightarrow> Inl err | Inr crs \<Rightarrow> Inr (cr # crs)))"

definition stronger :: "string \<Rightarrow> effect \<Rightarrow> effect" where
  "stronger s e =
     (if s \<noteq> '''' \<and> effectRank e < effectRank (PolicyEffect s) then PolicyEffect s else e)"

fun compile_policies :: "effect \<Rightarrow> Policy option list \<Rightarrow> policy_error + (compiledRule list \<times> effect)" where
  "compile_policies defEffect [] = Inr ([], defEffect)"
| "compile_policies defEffect (None # ps) = compile_policies defEffect ps"
| "compile_policies defEffect (Some p # ps) =
     (case Validate p of
        Some err \<Rightarrow> Inl err
      | None \<Rightarrow>
          (case compile_rules p (po_Rules p) of
             Inl err \<Rightarrow> Inl err
           | Inr crs \<Rightarrow>
               (case compile_policies (stronger (po_DefaultEffect p) defEffect) ps of
                  Inl err \<Rightarrow> Inl err
                | Inr (crs', d) \<Rightarrow> Inr (crs @ crs', d))))"

section \<open>Push-down\<close>

definition kernelCategory :: "string \<Rightarrow> category" where
  "kernelCategory opn =
     (if opn = ''exec'' then CategoryProcess else if opn = ''connect'' then CategoryNetwork else CategoryFile)"

definition shadowedByAllowDir :: "bytes \<Rightarrow> bytes \<Rightarrow> bytes list \<Rightarrow> bool" where
  "shadowedByAllowDir path dir allowDirs =
     (let target = (if path = [] then dir else path)
      in target \<noteq> [] \<and> list_ex (HasPrefix target) allowDirs)"

definition path_ops :: "string list" where
  "path_ops = [''open'', ''read'', ''write'', ''exec'', ''delete'', ''rename'', ''chmod'', ''chown'']"

text \<open>The kernel rule of one Block rule, after the Allow rules before it.\<close>

definition kernel_rule :: "bytes list \<Rightarrow> bytes list \<Rightarrow> compiledRule \<Rightarrow> KernelRule option" where
  "kernel_rule allowedPaths allowedDirs cr =
     (if cr_effect cr \<noteq> EffectBlock then None
      else if cr_Condition cr \<noteq> None then None
      else
        case cr_Semantic cr of
          Some sem \<Rightarrow>
            if sm_DBTable sem \<noteq> []
            then Some \<lparr>r_PolicyName = cr_policyName cr, r_Selector = cr_selector cr, r_Category = CategoryDatabase,
                       r_Operation = ''query'', r_PathPrefix = [], r_CIDR = None, r_DBEngine = sm_DBEngine sem,
                       r_DBTable = sm_DBTable sem, r_Effect = cr_effect cr\<rparr>
            else None
        | None \<Rightarrow>
            (case cr_System cr of
               None \<Rightarrow> None
             | Some sp \<Rightarrow>
                 if sy_Path sp \<noteq> [] \<and> sy_Path sp \<in> set allowedPaths then None
                 else if shadowedByAllowDir (sy_Path sp) (cr_normDir cr) allowedDirs then None
                 else if sy_Op sp \<notin> set path_ops \<and> \<not> (sy_Op sp = ''connect'' \<and> sy_CIDR sp \<noteq> None) then None
                 else Some \<lparr>r_PolicyName = cr_policyName cr, r_Selector = cr_selector cr,
                            r_Category = kernelCategory (sy_Op sp), r_Operation = sy_Op sp,
                            r_PathPrefix = (if sy_Path sp = [] then cr_normDir cr else sy_Path sp),
                            r_CIDR = sy_CIDR sp, r_DBEngine = [], r_DBTable = [], r_Effect = cr_effect cr\<rparr>))"

definition note_allow :: "compiledRule \<Rightarrow> bytes list \<times> bytes list \<Rightarrow> bytes list \<times> bytes list" where
  "note_allow cr = (\<lambda>(paths, dirs).
     case cr_System cr of
       None \<Rightarrow> (paths, dirs)
     | Some sp \<Rightarrow>
         if cr_effect cr \<noteq> EffectAllow then (paths, dirs)
         else (if sy_Path sp \<noteq> [] then sy_Path sp # paths else paths,
               if cr_normDir cr \<noteq> [] then cr_normDir cr # dirs else dirs))"

fun derive_loop :: "bytes list \<times> bytes list \<Rightarrow> compiledRule list \<Rightarrow> KernelRule list" where
  "derive_loop allowed [] = []"
| "derive_loop allowed (cr # crs) =
     (let allowed' = note_allow cr allowed
      in case kernel_rule (fst allowed') (snd allowed') cr of
           None \<Rightarrow> derive_loop allowed' crs
         | Some r \<Rightarrow> r # derive_loop allowed' crs)"

definition deriveKernelRules :: "compiledRule list \<Rightarrow> KernelRule list" where
  "deriveKernelRules crs = derive_loop ([], []) crs"

definition temporal_rule :: "compiledRule \<Rightarrow> bool" where
  "temporal_rule cr =
     (case cr_Condition cr of None \<Rightarrow> False | Some c \<Rightarrow> cd_After c \<noteq> [] \<or> cd_Within c \<noteq> None)"

definition Load :: "Policy option list \<Rightarrow> engine \<Rightarrow> policy_error option \<times> engine" where
  "Load policies en =
     (case compile_policies EffectAllow policies of
        Inl err \<Rightarrow> (Some err, en)
      | Inr (crs, d) \<Rightarrow>
          (None, en\<lparr>en_rules := crs, en_kernelRules := deriveKernelRules crs, en_defaultEffect := d,
                    en_hasTemporal := list_ex temporal_rule crs\<rparr>))"

section \<open>Matching\<close>

record DBQuery =
  db_Engine :: bytes
  db_Endpoint :: bytes
  db_Table :: bytes
  db_Op :: bytes

record semTarget =
  st_tool :: bytes
  st_mcpMethod :: bytes
  st_provider :: bytes
  st_intentClass :: bytes
  st_taints :: "bytes list"
  st_provenance :: "bytes list"
  st_db :: "DBQuery option"

definition empty_sem :: semTarget where
  "empty_sem = \<lparr>st_tool = [], st_mcpMethod = [], st_provider = [], st_intentClass = [], st_taints = [],
     st_provenance = [], st_db = None\<rparr>"

record sysTarget =
  yt_op :: string
  yt_resource :: bytes

definition empty_sys :: sysTarget where
  "empty_sys = \<lparr>yt_op = '''', yt_resource = []\<rparr>"

definition selectorMatches :: "bytes list \<Rightarrow> AgentKind \<Rightarrow> bool" where
  "selectorMatches sel agent = list_ex (\<lambda>s. s = chars ''*'' \<or> s = agent_name agent) sel"

text \<open>An empty field of a predicate asks for nothing.\<close>

definition asks :: "bytes \<Rightarrow> bool \<Rightarrow> bool" where
  "asks p test \<longleftrightarrow> (p \<noteq> [] \<longrightarrow> test)"

definition on_db :: "semTarget \<Rightarrow> (DBQuery \<Rightarrow> bool) \<Rightarrow> bool" where
  "on_db t test = (case st_db t of None \<Rightarrow> False | Some q \<Rightarrow> test q)"

definition semanticMatch :: "compiledRule \<Rightarrow> semTarget \<Rightarrow> bool" where
  "semanticMatch cr t =
     (case cr_Semantic cr of
        None \<Rightarrow> True
      | Some p \<Rightarrow>
          asks (sm_Tool p) (globOrEq (sm_Tool p) (st_tool t))
          \<and> asks (sm_MCPMethod p) (globOrEq (sm_MCPMethod p) (st_mcpMethod t))
          \<and> asks (sm_Provider p) (EqualFold (sm_Provider p) (st_provider t))
          \<and> asks (sm_IntentClass p) (EqualFold (sm_IntentClass p) (st_intentClass t))
          \<and> asks (sm_Taint p) (sm_Taint p \<in> set (st_taints t))
          \<and> asks (sm_Provenance p) (sm_Provenance p \<in> set (st_provenance t))
          \<and> asks (sm_DBEngine p) (on_db t (\<lambda>q. EqualFold (db_Engine q) (sm_DBEngine p)))
          \<and> asks (sm_DBTable p) (on_db t (\<lambda>q. globOrEq (sm_DBTable p) (db_Table q)))
          \<and> asks (sm_DBOp p) (on_db t (\<lambda>q. EqualFold (db_Op q) (sm_DBOp p))))"

text \<open>
  \<open>net.IPNet.Contains\<close>: both sides in their four byte form when they have one, and the leading bits
  of the prefix equal.
\<close>

definition IPNet_Contains :: "bytes \<times> nat \<Rightarrow> bytes \<Rightarrow> bool" where
  "IPNet_Contains c ip =
     (let (nn, ones) = (case To4 (fst c) of
            Some a \<Rightarrow> (a, if length (fst c) = 16 then snd c - 96 else snd c)
          | None \<Rightarrow> c);
          x = (case To4 ip of Some a \<Rightarrow> a | None \<Rightarrow> ip)
      in length x = length nn
         \<and> take ones (concat (map byte_bits nn)) = take ones (concat (map byte_bits x)))"

definition systemMatch :: "compiledRule \<Rightarrow> sysTarget \<Rightarrow> bool" where
  "systemMatch cr t =
     (case cr_System cr of
        None \<Rightarrow> True
      | Some p \<Rightarrow>
          (sy_Op p \<noteq> '''' \<longrightarrow> sy_Op p = yt_op t)
          \<and> asks (sy_Path p) (path_Match (sy_Path p) (yt_resource t) = Some True)
          \<and> asks (cr_normDir cr) (HasPrefix (yt_resource t) (cr_normDir cr))
          \<and> (case cr_cidr cr of
               None \<Rightarrow> True
             | Some c \<Rightarrow> (case resourceIP (yt_resource t) of None \<Rightarrow> False | Some ip \<Rightarrow> IPNet_Contains c ip))
          \<and> asks (sy_FQDN p) (HasSuffix (yt_resource t) (sy_FQDN p)))"

definition systemMatchAny :: "compiledRule \<Rightarrow> sysTarget list \<Rightarrow> bool" where
  "systemMatchAny cr ts \<longleftrightarrow> cr_System cr = None \<or> list_ex (systemMatch cr) ts"

definition temporalMatch :: "engine \<Rightarrow> ConditionPred \<Rightarrow> session option \<Rightarrow> int \<Rightarrow> bool" where
  "temporalMatch en p sess now =
     (case markerSeen en (case sess of None \<Rightarrow> [] | Some s \<Rightarrow> ss_ID s) (cd_After p) of
        None \<Rightarrow> False
      | Some t \<Rightarrow> (case cd_Within p of Some (Some d) \<Rightarrow> now - t \<le> d | _ \<Rightarrow> True))"

definition conditionMatch :: "engine \<Rightarrow> compiledRule \<Rightarrow> session option \<Rightarrow> int \<Rightarrow> bool" where
  "conditionMatch en cr sess now =
     (case cr_Condition cr of
        None \<Rightarrow> True
      | Some p \<Rightarrow>
          asks (cd_Coverage p) (case sess of None \<Rightarrow> False | Some s \<Rightarrow> coverage_name (ss_Coverage s) = cd_Coverage p)
          \<and> asks (cd_SessionState p) (case sess of None \<Rightarrow> False | Some s \<Rightarrow> state_name (ss_State s) = cd_SessionState p)
          \<and> (case cd_Tampered p of
               None \<Rightarrow> True
             | Some b \<Rightarrow> (case sess of None \<Rightarrow> False | Some s \<Rightarrow> ss_Tampered s = b))
          \<and> asks (cd_After p) (temporalMatch en p sess now))"

definition sessionAgent :: "session option \<Rightarrow> AgentKind" where
  "sessionAgent sess = (case sess of None \<Rightarrow> AgentUnknown | Some s \<Rightarrow> ss_Agent s)"

definition rule_matches ::
  "engine \<Rightarrow> semTarget \<Rightarrow> sysTarget list \<Rightarrow> session option \<Rightarrow> int \<Rightarrow> compiledRule \<Rightarrow> bool" where
  "rule_matches en sem sys sess now cr \<longleftrightarrow>
     selectorMatches (cr_selector cr) (sessionAgent sess) \<and> semanticMatch cr sem
     \<and> systemMatchAny cr sys \<and> conditionMatch en cr sess now"

fun match_loop :: "(compiledRule \<Rightarrow> bool) \<Rightarrow> compiledRule list \<Rightarrow> compiledRule option" where
  "match_loop hit [] = None"
| "match_loop hit (cr # crs) = (if hit cr then Some cr else match_loop hit crs)"

definition match :: "engine \<Rightarrow> semTarget \<Rightarrow> sysTarget list \<Rightarrow> session option \<Rightarrow> int \<Rightarrow> compiledRule option" where
  "match en sem sys sess now = match_loop (rule_matches en sem sys sess now) (en_rules en)"

section \<open>Decisions\<close>

datatype EnforceMode = EnforcePre | EnforcePost

datatype reason = RuleMatched bytes | NoMatchingRule | MismatchOn bytes bytes | AlsoMismatch reason bytes bytes

record Decision =
  de_Effect :: effect
  de_Mode :: EnforceMode
  de_PolicyName :: bytes
  de_Reason :: reason

definition decision :: "compiledRule \<Rightarrow> reason \<Rightarrow> Decision" where
  "decision cr why =
     \<lparr>de_Effect = cr_effect cr,
      de_Mode = (if cr_effect cr = EffectBlock \<and> cr_Semantic cr = None then EnforcePre else EnforcePost),
      de_PolicyName = cr_policyName cr, de_Reason = why\<rparr>"

definition defaultDecision :: "engine \<Rightarrow> Decision" where
  "defaultDecision en =
     \<lparr>de_Effect = en_defaultEffect en, de_Mode = EnforcePost, de_PolicyName = [], de_Reason = NoMatchingRule\<rparr>"

definition evalDecision ::
  "engine \<Rightarrow> semTarget \<Rightarrow> sysTarget list \<Rightarrow> session option \<Rightarrow> int \<Rightarrow> Decision \<times> compiledRule option" where
  "evalDecision en sem sys sess now =
     (case match en sem sys sess now of
        None \<Rightarrow> (defaultDecision en, None)
      | Some cr \<Rightarrow> (decision cr (RuleMatched (cr_ruleName cr)), Some cr))"

definition mapOp :: "string \<Rightarrow> string" where
  "mapOp operation =
     (if operation \<in> set [''exec'', ''execve'', ''execveat''] then ''exec''
      else if operation \<in> set [''open'', ''openat'', ''openat2'', ''creat''] then ''open''
      else if operation \<in> set [''read'', ''pread'', ''pread64'', ''readv'', ''preadv'', ''preadv2''] then ''read''
      else if operation \<in> set [''write'', ''pwrite'', ''pwrite64'', ''writev'', ''pwritev'', ''pwritev2''] then ''write''
      else if operation \<in> set [''connect'', ''sendto'', ''sendmsg''] then ''connect''
      else if operation \<in> set [''query'', ''db_query'', ''db''] then ''query''
      else operation)"

definition mark_session :: "nat \<Rightarrow> session option \<Rightarrow> bytes \<Rightarrow> int \<Rightarrow> engine \<Rightarrow> engine" where
  "mark_session pick sess marker t en =
     (case sess of None \<Rightarrow> en | Some s \<Rightarrow> recordMarker pick (ss_ID s) marker t en)"

definition EvaluateSyscall ::
  "nat \<Rightarrow> SyscallEvent \<Rightarrow> int \<Rightarrow> session option \<Rightarrow> engine \<Rightarrow> Decision \<times> engine" where
  "EvaluateSyscall pick ev t sess en =
     (fst (evalDecision en empty_sem
             [\<lparr>yt_op = mapOp (ev_Operation ev), yt_resource = res_text (ev_Resource ev)\<rparr>] sess t),
      mark_session pick sess (chars (mapOp (ev_Operation ev))) t en)"

datatype SemanticKind =
  SemPrompt | SemAssistant | SemToolUse | SemToolResult | SemMCP | SemDBQuery | SemUsage

record ToolUse =
  tu_ID :: bytes
  tu_Name :: bytes
  tu_IntentClass :: bytes

record SemanticEvent =
  sv_Time :: int
  sv_TimestampNS :: u64
  sv_SessionID :: bytes
  sv_HostPID :: s32
  sv_Kind :: SemanticKind
  sv_Provider :: bytes
  sv_Text :: bytes
  sv_ToolUse :: "ToolUse option"
  sv_MCPMethod :: bytes
  sv_DBQuery :: "DBQuery option"

definition EvaluateSemantic ::
  "nat \<Rightarrow> SemanticEvent \<Rightarrow> session option \<Rightarrow> engine \<Rightarrow> Decision \<times> engine" where
  "EvaluateSemantic pick ev sess en =
     (let sem0 = empty_sem\<lparr>st_provider := sv_Provider ev, st_mcpMethod := sv_MCPMethod ev\<rparr>;
          sem1 = (case sv_ToolUse ev of
                    None \<Rightarrow> sem0
                  | Some u \<Rightarrow> sem0\<lparr>st_tool := tu_Name u, st_intentClass := tu_IntentClass u\<rparr>);
          (sem, sys) = (case sv_DBQuery ev of
                    Some q \<Rightarrow> (sem1\<lparr>st_db := Some q\<rparr>, [\<lparr>yt_op = ''query'', yt_resource = db_Endpoint q\<rparr>])
                  | None \<Rightarrow> (sem1, [empty_sys]))
      in (fst (evalDecision en sem sys sess (sv_Time ev)),
          if st_intentClass sem \<noteq> [] then mark_session pick sess (st_intentClass sem) (sv_Time ev) en else en))"

record Effect =
  ef_Category :: category
  ef_Operation :: string
  ef_Resource :: resource

record CorrelatedAction =
  ca_SessionID :: bytes
  ca_HostPID :: s32
  ca_Time :: int
  ca_ToolUseID :: bytes
  ca_ToolName :: bytes
  ca_IntentClass :: bytes
  ca_Effects :: "Effect list"
  ca_Taint :: "bytes list"
  ca_Mismatch :: bool
  ca_MismatchReason :: bytes

definition ruleUsesIntent :: "compiledRule \<Rightarrow> bool" where
  "ruleUsesIntent cr =
     (case cr_Semantic cr of None \<Rightarrow> False | Some s \<Rightarrow> sm_IntentClass s \<noteq> [] \<or> sm_Taint s \<noteq> [])"

definition escalate :: "CorrelatedAction \<Rightarrow> compiledRule \<Rightarrow> Decision \<Rightarrow> Decision" where
  "escalate a cr d =
     (if effectRank (de_Effect d) < effectRank EffectAlert
      then d\<lparr>de_Effect := EffectAlert, de_Mode := EnforcePost, de_Reason := MismatchOn (cr_ruleName cr) (ca_MismatchReason a)\<rparr>
      else d\<lparr>de_Reason := AlsoMismatch (de_Reason d) (cr_ruleName cr) (ca_MismatchReason a)\<rparr>)"

definition action_targets :: "CorrelatedAction \<Rightarrow> sysTarget list" where
  "action_targets a =
     (let sys = map (\<lambda>ef. \<lparr>yt_op = mapOp (ef_Operation ef), yt_resource = res_text (ef_Resource ef)\<rparr>) (ca_Effects a)
      in if sys = [] then [empty_sys] else sys)"

definition EvaluateAction :: "nat \<Rightarrow> CorrelatedAction \<Rightarrow> session option \<Rightarrow> engine \<Rightarrow> Decision \<times> engine" where
  "EvaluateAction pick a sess en =
     (let sem = empty_sem\<lparr>st_tool := ca_ToolName a, st_intentClass := ca_IntentClass a, st_taints := ca_Taint a\<rparr>;
          (d, cr) = evalDecision en sem (action_targets a) sess (ca_Time a);
          en' = (if st_intentClass sem \<noteq> [] then mark_session pick sess (st_intentClass sem) (ca_Time a) en else en)
      in (case cr of
            None \<Rightarrow> d
          | Some r \<Rightarrow> if ca_Mismatch a \<and> ruleUsesIntent r then escalate a r d else d, en'))"

definition EvaluateProvenance :: "bytes \<Rightarrow> string \<Rightarrow> bytes \<Rightarrow> session option \<Rightarrow> int \<Rightarrow> engine \<Rightarrow> Decision" where
  "EvaluateProvenance label opn res sess now en =
     fst (evalDecision en (empty_sem\<lparr>st_provenance := [label]\<rparr>) [\<lparr>yt_op = opn, yt_resource = res\<rparr>] sess now)"

section \<open>Questions about the rule set\<close>

definition wants_block :: "AgentKind \<Rightarrow> string \<Rightarrow> (SemanticPred \<Rightarrow> bytes) \<Rightarrow> compiledRule \<Rightarrow> bool" where
  "wants_block agent opn label cr \<longleftrightarrow>
     (cr_effect cr = EffectBlock \<or> cr_effect cr = EffectKill) \<and> selectorMatches (cr_selector cr) agent
     \<and> (case (cr_Semantic cr, cr_System cr) of
          (Some s, Some sys) \<Rightarrow> sy_Op sys = opn \<and> label s \<noteq> []
        | _ \<Rightarrow> False)"

definition WantsTaintedCodeBlock :: "engine \<Rightarrow> AgentKind \<Rightarrow> bool" where
  "WantsTaintedCodeBlock en agent = list_ex (wants_block agent ''exec'' sm_Provenance) (en_rules en)"

definition WantsTaintedEgressBlock :: "engine \<Rightarrow> AgentKind \<Rightarrow> bool" where
  "WantsTaintedEgressBlock en agent = list_ex (wants_block agent ''connect'' sm_Taint) (en_rules en)"

definition fqdn_hit :: "bytes \<Rightarrow> compiledRule \<Rightarrow> bool" where
  "fqdn_hit fqdn cr \<longleftrightarrow>
     cr_effect cr = EffectBlock \<and> cr_Semantic cr = None \<and>
     (case cr_System cr of
        None \<Rightarrow> False
      | Some sys \<Rightarrow>
          sy_Op sys = ''connect'' \<and> sy_FQDN sys \<noteq> []
          \<and> (fqdn = sy_FQDN sys \<or> HasSuffix fqdn (dot # sy_FQDN sys)))"

definition MatchFQDNBlock :: "engine \<Rightarrow> bytes \<Rightarrow> bytes option" where
  "MatchFQDNBlock en fqdn =
     (if fqdn = [] then None else map_option cr_policyName (match_loop (fqdn_hit fqdn) (en_rules en)))"

end
