(* ===== verification/AK_DnsGuard.thy ===== *)
theory AK_DnsGuard
  imports AK_Engine AK_Policy
begin

text \<open>
  Blocking by domain name: \<open>cmd/agentknox/dnsguard.go\<close> turns the addresses of an observed DNS
  answer into egress blocks and lifts them when they expire; \<open>internal/policy/engine.go\<close>
  (\<open>MatchFQDNBlock\<close>) decides which names are blocked. Time is in seconds. An address is its
  bytes; Go keys its map by the printed address, which an IPv4-mapped address shares with the
  IPv4 address.
\<close>

section \<open>The guard\<close>

definition dnsMinTTL :: nat where "dnsMinTTL = 30"

definition dnsGrace :: nat where "dnsGrace = 10"

text \<open>The key of the guard's map.\<close>

definition ip_text :: "bytes \<Rightarrow> bytes" where
  "ip_text ip = (case To4 ip of Some a \<Rightarrow> a | None \<Rightarrow> ip)"

type_synonym guard = "bytes \<rightharpoonup> nat"

definition observe_answer :: "denv \<Rightarrow> nat \<Rightarrow> DNSAnswer \<Rightarrow> guard \<times> kstate \<Rightarrow> guard \<times> kstate" where
  "observe_answer d now a = (\<lambda>(g, s).
     let ttl = unat (TTL a);
         ttl' = (if ttl < dnsMinTTL then dnsMinTTL else ttl);
         g' = g(ip_text (IP a) \<mapsto> now + ttl' + dnsGrace)
     in if g (ip_text (IP a)) \<noteq> None then (g', s)
        else (g', snd (BlockIP d (IP a) s)))"

definition observe :: "denv \<Rightarrow> nat \<Rightarrow> engine \<Rightarrow> DNSInfo option \<Rightarrow> guard \<times> kstate \<Rightarrow> guard \<times> kstate" where
  "observe d now en dns gs =
     (case dns of
        None \<Rightarrow> gs
      | Some i \<Rightarrow>
          if Answers i = [] \<or> MatchFQDNBlock en (QName i) = None then gs
          else fold (observe_answer d now) (Answers i) gs)"

text \<open>One turn of the sweep; \<open>order\<close> is the order in which the map is iterated.\<close>

definition expired :: "nat \<Rightarrow> guard \<Rightarrow> bytes \<Rightarrow> bool" where
  "expired now g ip \<longleftrightarrow> (case g ip of None \<Rightarrow> False | Some t \<Rightarrow> t < now)"

text \<open>The part under the guard's lock, which takes the expired addresses out of the map, and the part behind it.\<close>

definition sweep_collect :: "nat \<Rightarrow> bytes list \<Rightarrow> guard \<Rightarrow> bytes list \<times> guard" where
  "sweep_collect now order g =
     (filter (expired now g) order, \<lambda>ip. if ip \<in> set order \<and> expired now g ip then None else g ip)"

definition sweep_unblock :: "denv \<Rightarrow> bytes list \<Rightarrow> kstate \<Rightarrow> kstate" where
  "sweep_unblock d ips s = fold (\<lambda>ip s. snd (UnblockIP d ip s)) ips s"

definition sweep :: "denv \<Rightarrow> nat \<Rightarrow> bytes list \<Rightarrow> guard \<times> kstate \<Rightarrow> guard \<times> kstate" where
  "sweep d now order = (\<lambda>(g, s). let (ips, g') = sweep_collect now order g in (g', sweep_unblock d ips s))"

lemma sweep_eq:
  "sweep d now order (g, s) =
     (\<lambda>ip. if ip \<in> set order \<and> expired now g ip then None else g ip,
      fold (\<lambda>ip s. snd (UnblockIP d ip s)) (filter (expired now g) order) s)"
  by (simp add: sweep_def sweep_collect_def sweep_unblock_def)

section \<open>Blocked addresses\<close>

text \<open>The trie entry of an address.\<close>

definition ip_blocked :: "kstate \<Rightarrow> bytes \<Rightarrow> bool" where
  "ip_blocked s ip =
     (case To4 ip of
        Some a \<Rightarrow> ak_enforce_net s (32, a) = Some netBlock
      | None \<Rightarrow> ak_enforce_net6 s (128, ip) = Some netBlock)"

lemma To4_length: "To4 ip = Some a \<Longrightarrow> length a = 4"
  by (auto simp: To4_def split: if_splits)

lemma To4_text: "To4 (ip_text ip) = To4 ip"
proof (cases "To4 ip")
  case (Some a)
  then show ?thesis using To4_length [OF Some] by (simp add: ip_text_def To4_def)
qed (simp add: ip_text_def)

lemma ip_text_idem [simp]: "ip_text (ip_text ip) = ip_text ip"
  by (simp add: ip_text_def [of "ip_text ip"] To4_text) (simp add: ip_text_def split: option.split)

lemma ip_blocked_text: "ip_blocked s (ip_text ip) = ip_blocked s ip"
  using To4_text [of ip] by (auto simp: ip_blocked_def ip_text_def split: option.splits)

lemma BlockIP_blocks: "\<forall>key. d_put_net d key \<Longrightarrow> ip_blocked (snd (BlockIP d ip s)) ip"
  by (simp add: BlockIP_def setIP_def ip_blocked_def Let_def split: option.split)

lemma BlockIP_keeps: "ip_blocked s x \<Longrightarrow> ip_blocked (snd (BlockIP d ip s)) x"
  by (auto simp: BlockIP_def setIP_def ip_blocked_def Let_def split: option.splits)

lemma UnblockIP_keeps:
  "ip_blocked s x \<Longrightarrow> ip_text x \<noteq> ip_text ip \<Longrightarrow> ip_blocked (snd (UnblockIP d ip s)) x"
  by (auto simp: UnblockIP_def setIP_def ip_blocked_def ip_text_def Let_def split: option.splits)

lemma ip_blocked_evolves: "evolves s t \<Longrightarrow> ip_blocked t ip = ip_blocked s ip"
  by (simp add: evolves_def policy_def ip_blocked_def cong: option.case_cong)

section \<open>The guard keeps its promise\<close>

text \<open>Observed answers, sweeps and programs in any order, in a kernel with room in the tries.\<close>

inductive guard_step :: "guard \<times> kstate \<Rightarrow> guard \<times> kstate \<Rightarrow> bool" where
  observed: "\<forall>key. d_put_net d key \<Longrightarrow> guard_step gs (observe d now en dns gs)"
| swept: "guard_step gs (sweep d now order gs)"
| program: "guard_step (g, s) (g, snd (run_bpf k c s))"

inductive_cases guard_stepE: "guard_step gs gs'"

text \<open>What is tracked is blocked; the tries hold only denials.\<close>

definition denials :: "kstate \<Rightarrow> bool" where
  "denials s \<longleftrightarrow> 0 \<notin> ran (ak_enforce_net s) \<and> 0 \<notin> ran (ak_enforce_net6 s)"

definition guard_inv :: "guard \<times> kstate \<Rightarrow> bool" where
  "guard_inv = (\<lambda>(g, s). denials s \<and> (\<forall>ip \<in> dom g. ip_text ip = ip \<and> ip_blocked s ip))"

lemma denials_upd: "0 \<notin> ran m \<Longrightarrow> 0 \<notin> ran (m(k \<mapsto> netBlock))" "0 \<notin> ran m \<Longrightarrow> 0 \<notin> ran (m(k := None))"
  by (auto simp: ran_def netBlock_def)

lemma setIP_denials: "denials s \<Longrightarrow> denials (snd (setIP d ip b s))"
  by (simp add: denials_def setIP_def Let_def denials_upd split: option.split)

lemma observe_answer_inv:
  assumes "\<forall>key. d_put_net d key" "guard_inv gs"
  shows "guard_inv (observe_answer d now a gs)"
proof -
  obtain g s where gs: "gs = (g, s)" by (cases gs)
  have "ip_blocked s (IP a)" if "g (ip_text (IP a)) = Some t" for t
    using assms(2) that ip_blocked_text [of s "IP a"] by (auto simp: gs guard_inv_def)
  then show ?thesis
    using assms setIP_denials [of s d "IP a" True] BlockIP_blocks [OF assms(1), of "IP a" s]
      BlockIP_keeps [of s _ d "IP a"] ip_blocked_text [of _ "IP a"]
    by (auto simp: gs observe_answer_def guard_inv_def Let_def BlockIP_def)
qed

lemma observe_inv:
  assumes "\<forall>key. d_put_net d key" "guard_inv gs"
  shows "guard_inv (observe d now en dns gs)"
  using assms fold_keeps [where P = guard_inv and f = "observe_answer d now"] observe_answer_inv
  by (auto simp: observe_def split: option.split)

lemma unblock_others:
  assumes "\<forall>ip \<in> set xs. ip_text x \<noteq> ip_text ip" "ip_blocked s x"
  shows "ip_blocked (fold (\<lambda>ip s. snd (UnblockIP d ip s)) xs s) x"
  using assms by (induction xs arbitrary: s) (simp_all add: UnblockIP_keeps)

lemma sweep_inv:
  assumes "guard_inv gs"
  shows "guard_inv (sweep d now order gs)"
proof -
  obtain g s where gs: "gs = (g, s)" by (cases gs)
  let ?xs = "filter (expired now g) order"
  have x: "ip_text ip = ip" if "ip \<in> set ?xs" for ip
    using that assms by (auto simp: gs guard_inv_def expired_def split: option.splits)
  have "denials (fold (\<lambda>ip s. snd (UnblockIP d ip s)) ?xs s)"
    using assms fold_keeps [where P = denials and f = "\<lambda>ip s. snd (UnblockIP d ip s)"] setIP_denials
    by (auto simp: gs guard_inv_def UnblockIP_def)
  moreover have "ip_blocked (fold (\<lambda>ip s. snd (UnblockIP d ip s)) ?xs s) ip"
    if "ip \<in> dom g" "\<not> (ip \<in> set order \<and> expired now g ip)" for ip
    using that assms x by (intro unblock_others) (auto simp: gs guard_inv_def)
  ultimately show ?thesis
    using assms by (auto simp: gs guard_inv_def sweep_eq dom_def split: if_splits)
qed

lemma guard_step_inv: "guard_step gs gs' \<Longrightarrow> guard_inv gs \<Longrightarrow> guard_inv gs'"
proof (induction rule: guard_step.induct)
  case (program g s k c)
  then show ?case
    using run_bpf_evolves [of s k c] ip_blocked_evolves [OF run_bpf_evolves]
    by (simp add: guard_inv_def denials_def evolves_def policy_def)
qed (simp_all add: observe_inv sweep_inv)

lemma guard_run_inv: "guard_step\<^sup>*\<^sup>* gs gs' \<Longrightarrow> guard_inv gs \<Longrightarrow> guard_inv gs'"
  by (induction rule: rtranclp_induct) (simp_all add: guard_step_inv)

lemma covers_self: "covers (n, a) a"
  by (simp add: covers_def)

text \<open>The address a connect goes to.\<close>

definition connects_to :: "kenv \<Rightarrow> kptr \<Rightarrow> bytes \<Rightarrow> bool" where
  "connects_to k address ip \<longleftrightarrow>
     (case To4 ip of
        Some a \<Rightarrow> sock_family k address = 2 \<and> sock_addr4 k address = a
      | None \<Rightarrow> sock_family k address = 10 \<and> sock_addr6 k address = ip)"

lemma blocked_refused:
  assumes "ip_blocked s ip" "denials s" "enforced k s" "connects_to k address ip"
    and "lpm_ok k (ak_enforce_net s) 32 (sock_addr4 k address)" "lpm_ok k (ak_enforce_net6 s) 128 (sock_addr6 k address)"
  shows "fst (ak_lsm_socket_connect k address 0 s) = EPERM"
proof -
  have nz: "\<forall>v \<in> ran (ak_enforce_net s). v \<noteq> 0" "\<forall>v \<in> ran (ak_enforce_net6 s). v \<noteq> 0"
    using assms(2) by (auto simp: denials_def)
  show ?thesis
    unfolding connect_refused_iff [OF assms(3)] lpm_ok_hit [OF assms(5) nz(1)] lpm_ok_hit [OF assms(6) nz(2)]
  proof (cases "To4 ip")
    case None
    then have "(128, ip) \<in> dom (ak_enforce_net6 s)" "sock_family k address = 10" "sock_addr6 k address = ip"
      using assms(1,4) by (auto simp: ip_blocked_def connects_to_def)
    then show "(sock_family k address = 2 \<or> sock_family k address = 10) \<and>
        (egress_barred k s \<and> sock_port k address \<noteq> 53
         \<or> sock_family k address = 2 \<and> (\<exists>key \<in> dom (ak_enforce_net s). covers key (sock_addr4 k address))
         \<or> sock_family k address = 10 \<and> (\<exists>key \<in> dom (ak_enforce_net6 s). covers key (sock_addr6 k address)))"
      using covers_self by blast
  next
    case (Some a)
    then have "(32, a) \<in> dom (ak_enforce_net s)" "sock_family k address = 2" "sock_addr4 k address = a"
      using assms(1,4) by (auto simp: ip_blocked_def connects_to_def)
    then show "(sock_family k address = 2 \<or> sock_family k address = 10) \<and>
        (egress_barred k s \<and> sock_port k address \<noteq> 53
         \<or> sock_family k address = 2 \<and> (\<exists>key \<in> dom (ak_enforce_net s). covers key (sock_addr4 k address))
         \<or> sock_family k address = 10 \<and> (\<exists>key \<in> dom (ak_enforce_net6 s). covers key (sock_addr6 k address)))"
      using covers_self by blast
  qed
qed

lemma observe_tracks:
  assumes "MatchFQDNBlock en (QName i) \<noteq> None" "a \<in> set (Answers i)"
  shows "fst (observe d now en (Some i) gs) (ip_text (IP a)) \<noteq> None"
proof -
  have "fst (fold (observe_answer d now) (Answers i) gs) (ip_text (IP a)) \<noteq> None"
    by (rule fold_reaches [where P = "\<lambda>gs. fst gs (ip_text (IP a)) \<noteq> None", OF _ assms(2)])
      (auto simp: observe_answer_def Let_def split_def)
  then show ?thesis using assms by (auto simp: observe_def)
qed

text \<open>
  C29. Blocking by name: once an answer for a name that a Block rule covers was observed, the
  guard tracks each of its addresses, and as long as it does, through any sequence of further
  answers, sweeps and programs, every enforced member's connect to such an address is refused.
  Assumed: the tries start with denials only and have room, and lookups are longest-prefix.
\<close>

theorem fqdn_enforced:
  assumes "guard_step\<^sup>*\<^sup>* (Map.empty, s0) gs" "denials s0" "\<forall>key. d_put_net d key"
    and "MatchFQDNBlock en (QName i) \<noteq> None" "a \<in> set (Answers i)"
    and "guard_step\<^sup>*\<^sup>* (observe d now en (Some i) gs) (g, s)" "g (ip_text (IP a)) \<noteq> None"
    and "enforced k s" "connects_to k address (IP a)"
    and "lpm_ok k (ak_enforce_net s) 32 (sock_addr4 k address)" "lpm_ok k (ak_enforce_net6 s) 128 (sock_addr6 k address)"
  shows "fst (observe d now en (Some i) gs) (ip_text (IP a)) \<noteq> None
    \<and> fst (ak_lsm_socket_connect k address 0 s) = EPERM"
proof -
  have "guard_inv gs" using guard_run_inv [OF assms(1)] assms(2) by (simp add: guard_inv_def)
  then have "guard_inv (g, s)" using guard_run_inv [OF assms(6)] observe_inv [OF assms(3)] by blast
  then have "ip_blocked s (IP a)" "denials s"
    using assms(7) ip_blocked_text [of s "IP a"] by (auto simp: guard_inv_def)
  then show ?thesis using blocked_refused assms(8-11) observe_tracks [OF assms(4,5)] by blast
qed

text \<open>An answer that says \<open>a.b\<close> is 10.1.2.3, a rule for \<open>b\<close>, and a connect to that address.\<close>

definition answer10 :: DNSAnswer where
  "answer10 = \<lparr>IP = [10, 1, 2, 3], TTL = 60\<rparr>"

definition info_ab :: DNSInfo where
  "info_ab = \<lparr>QName = chars ''a.b'', Answers = [answer10]\<rparr>"

definition rule_b :: Rule where
  "rule_b = \<lparr>ru_Name = chars ''no b'',
     ru_When = \<lparr>Semantic = None, System = Some \<lparr>sy_Op = ''connect'', sy_Path = [], sy_Dir = [], sy_CIDR = None,
       sy_FQDN = chars ''b''\<rparr>, Condition = None\<rparr>, ru_Effect = ''Block''\<rparr>"

definition policy_b :: Policy where
  "policy_b = \<lparr>po_Kind = ''AgentKnoxPolicy'', po_Name = chars ''p'', po_Selector = [chars ''*''], po_Rules = [rule_b],
     po_DefaultEffect = ''''\<rparr>"

definition engine_b :: engine where
  "engine_b = snd (Load [Some policy_b] New_engine)"

definition exact_env :: kenv where
  "exact_env = connect_env\<lparr>k_lpm_lookup := (\<lambda>m. m)\<rparr>"

lemma exact_env_flags [simp]: "ak_session_flags exact_env s = ak_session_flags sample_env s"
  by (rule ak_session_flags_task; simp add: exact_env_def connect_env_def ak_tgid_def)

lemma exact_env_simps [simp]:
  "sock_family exact_env 0 = 2" "sock_addr4 exact_env 0 = [10, 1, 2, 3]"
  "k_lpm_lookup exact_env m = m" "k_cgroup_id exact_env = 7"
  using connect_env_simps(2,4)
  by (simp_all add: exact_env_def sock_family_def sock_addr4_def)

lemma engine_b_loads: "fst (Load [Some policy_b] New_engine) = None"
  by code_simp

lemma rule_b_name: "MatchFQDNBlock engine_b (chars ''a.b'') = Some (chars ''p'')"
  by code_simp

lemma rule_b_matches: "MatchFQDNBlock engine_b (QName info_ab) \<noteq> None"
  by (simp add: info_ab_def rule_b_name)

lemma To4_answer10: "To4 [10, 1, 2, 3] = Some [10, 1, 2, 3]" "ip_text [10, 1, 2, 3] = [10, 1, 2, 3]"
  by (simp_all add: To4_def ip_text_def)

lemma info_answers: "Answers info_ab = [answer10]" "IP answer10 = [10, 1, 2, 3]"
  by (simp_all add: info_ab_def answer10_def)

theorem fqdn_enforced_witness:
  "fst (ak_lsm_socket_connect exact_env 0 0
     (snd (observe accepting 0 engine_b (Some info_ab) (Map.empty, member_state 3)))) = EPERM"
proof -
  let ?s = "(member_state 3)\<lparr>ak_enforce_net := [(32, [10, 1, 2, 3]) \<mapsto> netBlock]\<rparr>"
  let ?o = "observe accepting 0 engine_b (Some info_ab) (Map.empty, member_state 3)"
  have o: "?o = ([[10, 1, 2, 3] \<mapsto> 70], ?s)"
    using rule_b_name
    by (simp add: observe_def observe_answer_def Let_def BlockIP_def setIP_def accepting_def answer10_def info_ab_def
        To4_answer10 dnsMinTTL_def dnsGrace_def sample_simps)
  have "enforced exact_env ?s" "denials (member_state 3)"
    by (simp_all add: enforced_def member_flags denials_def sample_simps)
  moreover have "lpm_ok exact_env (ak_enforce_net ?s) 32 [10, 1, 2, 3]" "lpm_ok exact_env (ak_enforce_net6 ?s) 128 x" for x
    using covers_self [of 32 "[10, 1, 2, 3]"] by (auto simp: lpm_ok_def sample_simps)
  moreover have "connects_to exact_env 0 (IP answer10)" by (simp add: connects_to_def answer10_def To4_answer10)
  moreover have "guard_step\<^sup>*\<^sup>* ?o ([[10, 1, 2, 3] \<mapsto> 70], ?s)" unfolding o by simp
  ultimately have "fst (ak_lsm_socket_connect exact_env 0 0 ?s) = EPERM"
    using fqdn_enforced [OF rtranclp.rtrancl_refl _ _ rule_b_matches, of "member_state 3" accepting answer10 0
        "[[10, 1, 2, 3] \<mapsto> 70]" ?s exact_env 0]
    by (simp add: accepting_def info_ab_def answer10_def To4_answer10)
  then show ?thesis unfolding o by simp
qed

section \<open>Where the guard and the tries part\<close>

lemma not_covered_allowed:
  assumes "enforced k s" "\<not> egress_barred k s" "denials s"
    and "lpm_ok k (ak_enforce_net s) 32 (sock_addr4 k address)" "lpm_ok k (ak_enforce_net6 s) 128 (sock_addr6 k address)"
    and "\<forall>key \<in> dom (ak_enforce_net s). \<not> covers key (sock_addr4 k address)" "sock_family k address = 2"
  shows "fst (ak_lsm_socket_connect k address 0 s) \<noteq> EPERM"
proof -
  have nz: "\<forall>v \<in> ran (ak_enforce_net s). v \<noteq> 0" "\<forall>v \<in> ran (ak_enforce_net6 s). v \<noteq> 0"
    using assms(3) by (auto simp: denials_def)
  show ?thesis
    unfolding connect_refused_iff [OF assms(1)] lpm_ok_hit [OF assms(4) nz(1)] lpm_ok_hit [OF assms(5) nz(2)]
    using assms(2,6,7) by simp
qed

lemma reload_denials: "fst (reload d rules dm) = [] \<Longrightarrow> denials (snd (snd (reload d rules dm)))"
  by (auto simp: reload_net denials_def ran_def netBlock_def split: if_splits)

text \<open>
  A hot reload silently lifts name-based blocks. The reload empties the tries, the guard still
  tracks the address, and a fresh answer for the blocked name then only renews the guard's
  expiry: the address stays tracked and connects to it are allowed, for as long as answers keep
  coming within their lifetime.
\<close>

lemma fqdn_block_lost_on_reload:
  assumes "g (ip_text (IP a)) \<noteq> None" "fst (reload d rules (e, s)) = []"
    and "s' = snd (snd (reload d rules (e, s)))"
    and "MatchFQDNBlock en (QName i) \<noteq> None" "Answers i = [a]"
    and "connects_to k address (IP a)" "To4 (IP a) = Some b" "\<forall>key \<in> net_keys rules. \<not> covers key b"
    and "enforced k s'" "\<not> egress_barred k s'"
    and "lpm_ok k (ak_enforce_net s') 32 b" "lpm_ok k (ak_enforce_net6 s') 128 (sock_addr6 k address)"
  shows "snd (observe d' now en (Some i) (g, s')) = s'
    \<and> fst (observe d' now en (Some i) (g, s')) (ip_text (IP a)) \<noteq> None
    \<and> fst (ak_lsm_socket_connect k address 0 (snd (observe d' now en (Some i) (g, s')))) \<noteq> EPERM"
proof -
  have o: "snd (observe d' now en (Some i) (g, s')) = s'"
    using assms(1,4,5) by (auto simp: observe_def observe_answer_def Let_def)
  have c: "sock_family k address = 2" "sock_addr4 k address = b"
    using assms(6,7) by (simp_all add: connects_to_def)
  have "\<forall>key \<in> dom (ak_enforce_net s'). \<not> covers key b"
    using assms(3,8) reload_net(1) [OF assms(2)] by (auto split: if_splits)
  then have "fst (ak_lsm_socket_connect k address 0 s') \<noteq> EPERM"
    using assms(9-12) reload_denials [OF assms(2)] c by (intro not_covered_allowed) (simp_all add: assms(3))
  with o show ?thesis using observe_tracks [OF assms(4), of a] assms(5) by simp
qed

lemma fqdn_block_lost_on_reload_example:
  "fst (ak_lsm_socket_connect exact_env 0 0 (snd (observe accepting 50 engine_b (Some info_ab)
     ([[10, 1, 2, 3] \<mapsto> 70], snd (snd (reload accepting [] (fresh_enforcer, member_state 3))))))) \<noteq> EPERM"
proof -
  let ?s = "snd (snd (reload accepting [] (fresh_enforcer, member_state 3)))"
  have ok: "fst (reload accepting [] (fresh_enforcer, member_state 3)) = []"
    by (simp add: reload_def InstallRules_def)
  have n: "ak_enforce_net ?s = Map.empty" "ak_enforce_net6 ?s = Map.empty"
    by (rule ext, simp add: reload_net [OF ok] net_keys_def)+
  have "ak_posture ?s = Map.empty" by (simp add: reload_frame sample_simps)
  then have "enforced exact_env ?s" "\<not> egress_barred exact_env ?s"
    by (simp_all add: enforced_def egress_barred_def reload_member has_def ak_const)
  moreover have "lpm_ok exact_env (ak_enforce_net ?s) 32 x" "lpm_ok exact_env (ak_enforce_net6 ?s) 128 x" for x
    by (simp_all add: n lpm_ok_def)
  ultimately show ?thesis
    using fqdn_block_lost_on_reload [of "[[10, 1, 2, 3] \<mapsto> 70]" answer10 accepting "[]" fresh_enforcer "member_state 3" ?s
        "engine_b" info_ab exact_env 0 "[10, 1, 2, 3]" accepting 50] ok rule_b_matches
    by (auto simp: info_answers To4_answer10 connects_to_def net_keys_def)
qed

text \<open>The sweep deletes the exact entry of an expired address whoever installed it, a rule included.\<close>

lemma sweep_drops_policy_prefix:
  assumes "expired now g a" "length a = 4" "a \<in> set order"
  shows "ak_enforce_net (snd (sweep d now order (g, s))) (32, a) = None"
proof -
  have a: "To4 a = Some a" using assms(2) by (simp add: To4_def)
  have "ak_enforce_net (fold (\<lambda>ip s. snd (UnblockIP d ip s)) (filter (expired now g) order) s) (32, a) = None"
    by (rule fold_reaches [where P = "\<lambda>s. ak_enforce_net s (32, a) = None" and x = a])
      (use assms a in \<open>auto simp: UnblockIP_def setIP_def Let_def split: option.split\<close>)
  then show ?thesis by (simp add: sweep_eq)
qed

text \<open>
  The guard's lock is released before the addresses are unblocked. An answer observed in between
  finds the address out of the map, tracks and blocks it again, and the sweep then unblocks it: it is
  tracked, so later answers only renew its expiry, and not blocked. A sweep in one step
  (\<open>guard_step\<close>) has no such state.
\<close>

lemma sweep_race:
  assumes "sweep_collect now order g = (ips, g1)" "observe_answer d' now' a (g1, s) = (g2, s2)"
    and "expired now g (ip_text (IP a))" "ip_text (IP a) \<in> set order"
  shows "g2 (ip_text (IP a)) \<noteq> None \<and> \<not> ip_blocked (sweep_unblock d ips s2) (IP a)"
proof -
  let ?x = "ip_text (IP a)"
  have "g2 ?x \<noteq> None" using assms(2) by (auto simp: observe_answer_def Let_def split: if_splits)
  moreover have x: "?x \<in> set ips" using assms(1,3,4) by (auto simp: sweep_collect_def)
  have "\<not> ip_blocked (sweep_unblock d ips s2) ?x" unfolding sweep_unblock_def
    by (rule fold_reaches [where P = "\<lambda>s. \<not> ip_blocked s ?x" and x = ?x])
      (use x in \<open>auto simp: ip_blocked_def UnblockIP_def setIP_def Let_def split: option.splits\<close>)
  ultimately show ?thesis by (simp add: ip_blocked_text)
qed

text \<open>Names are compared byte by byte: a rule for \<open>b\<close> does not cover \<open>a.B\<close>.\<close>

lemma fqdn_case_sensitive: "MatchFQDNBlock engine_b (chars ''a.b'') \<noteq> None \<and> MatchFQDNBlock engine_b (chars ''a.B'') = None"
  by code_simp

end
