(* ===== verification/AK_Daemon.thy ===== *)
theory AK_Daemon
  imports AK_Races AK_DnsGuard
begin

text \<open>
  Programs and daemon together. The enforcer's operations (\<open>internal/enforce/enforce.go\<close>) as one
  datatype, the reload sequence of \<open>applyPolicies\<close> (\<open>cmd/agentknox/daemon.go\<close>), and a step relation
  in which they interleave with the BPF programs.
\<close>

section \<open>Operations of the enforcer\<close>

text \<open>
  The operations the daemon calls on its enforcer. The sensor's registrations and releases
  (\<open>RegisterSession\<close>, \<open>UnregisterSession\<close>, \<open>UnregisterPID\<close>), which the daemon calls when a session starts
  and ends, are not among them: see \<open>AK_Sensor\<close> and \<open>AK_Onboard\<close>.
\<close>

datatype daemon_op =
    Op_InstallRules "KernelRule list"
  | Op_ClearRules
  | Op_InstallSelfProtection "bytes list" "bytes list"
  | Op_EnforceSession procfs AgentSession
  | Op_EnforcePID s32
  | Op_SetPidEgressDeny s32
  | Op_SetNetPosture u64 bool
  | Op_SetTaintedCodePosture u64 bool
  | Op_SetDenyCode bool
  | Op_TaintFile bytes bool
  | Op_TaintPersist bytes
  | Op_MarkSensitivePath bytes
  | Op_PopulateAgentSigs "bytes list"
  | Op_RegisterAgentBinary bytes
  | Op_Apply "s32 \<Rightarrow> kill_result" "AgentSession option" effect "SyscallEvent option"
  | Op_BlockIP bytes
  | Op_UnblockIP bytes
  | Op_Close

fun run_daemon :: "denv \<Rightarrow> daemon_op \<Rightarrow> daemon \<Rightarrow> daemon" where
  "run_daemon d (Op_InstallRules rules) dm = snd (InstallRules d rules dm)"
| "run_daemon d Op_ClearRules dm = ClearRules d dm"
| "run_daemon d (Op_InstallSelfProtection files dirs) dm = InstallSelfProtection d files dirs dm"
| "run_daemon d (Op_EnforceSession pf sess) dm = snd (EnforceSession d pf sess dm)"
| "run_daemon d (Op_EnforcePID pid) dm = EnforcePID d pid dm"
| "run_daemon d (Op_SetPidEgressDeny pid) dm = SetPidEgressDeny d pid dm"
| "run_daemon d (Op_SetNetPosture cg b) dm = SetNetPosture d cg b dm"
| "run_daemon d (Op_SetTaintedCodePosture cg b) dm = SetTaintedCodePosture d cg b dm"
| "run_daemon d (Op_SetDenyCode b) dm = SetDenyCode b dm"
| "run_daemon d (Op_TaintFile p b) dm = TaintFile d p b dm"
| "run_daemon d (Op_TaintPersist p) dm = TaintPersist d p dm"
| "run_daemon d (Op_MarkSensitivePath p) dm = MarkSensitivePath d p dm"
| "run_daemon d (Op_PopulateAgentSigs sigs) dm = PopulateAgentSigs d sigs dm"
| "run_daemon d (Op_RegisterAgentBinary n) dm = RegisterAgentBinary d n dm"
| "run_daemon d (Op_Apply kill sess eff ev) dm = snd (Apply d kill sess eff ev dm)"
| "run_daemon d (Op_BlockIP ip) dm = (fst dm, snd (BlockIP d ip (snd dm)))"
| "run_daemon d (Op_UnblockIP ip) dm = (fst dm, snd (UnblockIP d ip (snd dm)))"
| "run_daemon d Op_Close dm = Close dm"

text \<open>
  Applying the policy directory: \<open>policies\<close> are the documents that could be read. When they do not
  compile nothing is changed. Otherwise the kernel rules are replaced, deny-tainted-code and the
  signatures follow the new policy, and every active session is armed again.
\<close>

definition withAgentHelpers :: "bytes list \<Rightarrow> bytes list" where
  "withAgentHelpers sigs =
     (if list_ex (\<lambda>x. EqualFold (TrimSpace x) (chars ''codex'')) sigs
      then sigs @ [chars ''codex-linux-sandbox'', chars ''codex-code-mode-host''] else sigs)"

definition anyWantsTaintedCodeBlock :: "engine \<Rightarrow> bool" where
  "anyWantsTaintedCodeBlock en =
     list_ex (WantsTaintedCodeBlock en) [AgentClaudeCode, AgentCodex, AgentCrush, AgentGemini, AgentCopilot]"

definition reapply_session :: "denv \<Rightarrow> procfs \<Rightarrow> AgentSession \<times> bool \<Rightarrow> daemon \<Rightarrow> daemon" where
  "reapply_session d pf sw dm =
     snd (EnforceSession d pf (fst sw) (SetTaintedCodePosture d (sess_CgroupID (fst sw)) (snd sw) dm))"

definition active_sessions :: "engine \<Rightarrow> session list \<Rightarrow> (AgentSession \<times> bool) list" where
  "active_sessions en sessions =
     map (\<lambda>s. (to_enforce s, WantsTaintedCodeBlock en (ss_Agent s))) (filter (\<lambda>s. ss_State s = SessionActive) sessions)"

definition applyPolicies ::
  "denv \<Rightarrow> procfs \<Rightarrow> Policy list \<Rightarrow> bytes list \<Rightarrow> session list \<Rightarrow> engine \<times> daemon \<Rightarrow> engine \<times> daemon" where
  "applyPolicies d pf policies signatures sessions = (\<lambda>(en, dm).
     case Load (map Some policies) en of
       (Some err, en') \<Rightarrow> (en', dm)
     | (None, en') \<Rightarrow>
         (en', fold (reapply_session d pf) (active_sessions en' sessions)
                 (PopulateAgentSigs d (withAgentHelpers signatures)
                   (SetDenyCode (anyWantsTaintedCodeBlock en')
                     (snd (InstallRules d (en_kernelRules en') (ClearRules d dm)))))))"

section \<open>Interleaving\<close>

inductive sys_step :: "daemon \<Rightarrow> daemon \<Rightarrow> bool" where
  program: "sys_step (e, s) (e, snd (run_bpf k c s))"
| operation: "sys_step dm (run_daemon d opn dm)"

abbreviation sys_run :: "daemon \<Rightarrow> daemon \<Rightarrow> bool" where
  "sys_run \<equiv> sys_step\<^sup>*\<^sup>*"

text \<open>The maps of members and the provenance of inodes, which most operations leave alone.\<close>

definition members :: "kstate \<Rightarrow> (kptr \<rightharpoonup> u32) \<times> (u32 \<rightharpoonup> u32) \<times> (u64 \<rightharpoonup> u32)" where
  "members s = (ak_taint_inode s, ak_session_pids s, ak_sessions s)"

lemma members_live: "live_state s = live_state t \<Longrightarrow> members s = members t"
  using live_cong(1,2,13) [of s t] by (simp add: members_def)

lemma rules_members:
  "members (snd (snd (InstallRules d rules dm))) = members (snd dm)"
  "members (snd (ClearRules d dm)) = members (snd dm)"
  "members (snd (snd (addFileOp d h opn dm))) = members (snd dm)"
  "members (snd (Close dm)) = members (snd dm)"
proof -
  have "live_state (snd (i_daemon (fold (install_rule d) rs x))) = live_state (snd (i_daemon x))" for rs x
    by (induction rs arbitrary: x) (simp_all add: install_rule_live)
  then show "members (snd (snd (InstallRules d rules dm))) = members (snd dm)"
    by (intro members_live) (simp add: InstallRules_def Let_def)
  show "members (snd (snd (addFileOp d h opn dm))) = members (snd dm)"
    by (intro members_live) (rule install_live)
  show "members (snd (ClearRules d dm)) = members (snd dm)" "members (snd (Close dm)) = members (snd dm)"
    by (simp_all add: ClearRules_def Close_def members_def split_def)
qed

lemma self_members: "members (snd (InstallSelfProtection d files dirs dm)) = members (snd dm)"
proof -
  have f: "members (snd (addSelfFileOp d h x)) = members (snd x)" for h x
    by (simp add: addSelfFileOp_def members_def split_def)
  have "members (snd (self_protect_file d p x)) = members (snd x)" "members (snd (self_protect_dir d p x)) = members (snd x)" for p x
    by (simp_all add: self_protect_file_def self_protect_dir_def f Let_def split_def) (simp add: members_def)
  then have "members (snd (fold (self_protect_file d) ps x)) = members (snd x)"
    "members (snd (fold (self_protect_dir d) ps x)) = members (snd x)" for ps x
    by (induction ps arbitrary: x) simp_all
  then show ?thesis by (simp add: InstallSelfProtection_def)
qed

lemma state_members:
  "members (snd (SetDenyCode b dm)) = members (snd dm)"
  "members (snd (snd (setPostureBit d cg w b dm))) = members (snd dm)"
  "members (snd (snd (add_taint d h w dm))) = members (snd dm)"
  "members (armFlag d w s) = members s"
  "members (snd (MarkSensitivePath d p dm)) = members (snd dm)"
  "members (snd (put_sig d h dm)) = members (snd dm)"
  "members (snd (setIP d ip b s)) = members s"
  by (simp_all add: SetDenyCode_def setPostureBit_def add_taint_def armFlag_def MarkSensitivePath_def put_sig_def
      setIP_def members_def Let_def split_def split: option.split)

lemma other_members:
  "members (snd (TaintFile d p b dm)) = members (snd dm)"
  "members (snd (TaintPersist d p dm)) = members (snd dm)"
  "members (snd (PopulateAgentSigs d sigs dm)) = members (snd dm)"
  "members (snd (RegisterAgentBinary d n dm)) = members (snd dm)"
  "members (snd (snd (Apply d kill sess eff ev dm))) = members (snd dm)"
proof -
  show "members (snd (TaintFile d p b dm)) = members (snd dm)" "members (snd (RegisterAgentBinary d n dm)) = members (snd dm)"
    by (simp_all add: TaintFile_def RegisterAgentBinary_def state_members)
  show "members (snd (TaintPersist d p dm)) = members (snd dm)"
    using state_members(3) [of d "HashString p" AK_TAINT_PERSIST dm]
    by (auto simp: TaintPersist_def state_members(4) split: prod.split option.split)
  show "members (snd (PopulateAgentSigs d sigs dm)) = members (snd dm)"
    unfolding PopulateAgentSigs_def by (induction sigs arbitrary: dm) (simp_all add: state_members Let_def)
  show "members (snd (snd (Apply d kill sess eff ev dm))) = members (snd dm)"
    by (simp add: Apply_def applyBlock_def rules_members BlockIP_def state_members
        split: effect.split option.split resource.split)
qed

lemma EnforceSession_keeps:
  assumes "lasting b"
  shows "ak_taint_inode (snd (snd (EnforceSession d pf sess dm))) = ak_taint_inode (snd dm)"
    "opt_has (ak_session_pids (snd dm) p) b \<Longrightarrow> opt_has (ak_session_pids (snd (snd (EnforceSession d pf sess dm))) p) b"
    "opt_has (ak_sessions (snd dm) cg) b \<Longrightarrow> opt_has (ak_sessions (snd (snd (EnforceSession d pf sess dm))) cg) b"
proof -
  have a: "ak_taint_inode (fold (arm_member d e) ps s) = ak_taint_inode s" for e ps s
    by (induction ps arbitrary: s) (simp_all add: arm_member_def)
  have m: "opt_has (ak_session_pids (fold (arm_member d e) ps s) p) b" if "opt_has (ak_session_pids s p) b" for e ps s
    using that fold_keeps [where P = "\<lambda>s. opt_has (ak_session_pids s p) b" and f = "arm_member d e"]
      arm_member_keeps [OF assms] by blast
  obtain e s where dm: "dm = (e, s)" by (cases dm)
  show "ak_taint_inode (snd (snd (EnforceSession d pf sess dm))) = ak_taint_inode (snd dm)"
    by (simp add: dm EnforceSession_def Let_def split_def a)
  show "opt_has (ak_session_pids (snd (snd (EnforceSession d pf sess dm))) p) b" if "opt_has (ak_session_pids (snd dm) p) b"
    using that by (simp add: dm EnforceSession_def Let_def split_def m)
  show "opt_has (ak_sessions (snd (snd (EnforceSession d pf sess dm))) cg) b" if "opt_has (ak_sessions (snd dm) cg) b"
    using that armKey_keeps [OF assms, of "ak_sessions s" cg] by (simp add: dm EnforceSession_def Let_def split_def)
qed

lemma EnforcePID_keeps:
  assumes "lasting b"
  shows "ak_taint_inode (snd (EnforcePID d pid dm)) = ak_taint_inode (snd dm)"
    "opt_has (ak_session_pids (snd dm) p) b \<Longrightarrow> opt_has (ak_session_pids (snd (EnforcePID d pid dm)) p) b"
    "ak_sessions (snd (EnforcePID d pid dm)) = ak_sessions (snd dm)"
  using arm_member_keeps [OF assms]
  by (auto simp: EnforcePID_def arm_member_def split_def)

lemma SetPidEgressDeny_keeps:
  "ak_taint_inode (snd (SetPidEgressDeny d pid dm)) = ak_taint_inode (snd dm)"
  "opt_has (ak_session_pids (snd dm) p) b \<Longrightarrow> opt_has (ak_session_pids (snd (SetPidEgressDeny d pid dm)) p) b"
  "ak_sessions (snd (SetPidEgressDeny d pid dm)) = ak_sessions (snd dm)"
  by (auto simp: SetPidEgressDeny_def split_def has_or split: option.split)

lemma run_daemon_keeps:
  assumes "lasting b"
  shows "ak_taint_inode (snd (run_daemon d opn dm)) = ak_taint_inode (snd dm)
    \<and> (opt_has (ak_session_pids (snd dm) p) b \<longrightarrow> opt_has (ak_session_pids (snd (run_daemon d opn dm)) p) b)
    \<and> (opt_has (ak_sessions (snd dm) cg) b \<longrightarrow> opt_has (ak_sessions (snd (run_daemon d opn dm)) cg) b)"
proof -
  consider pf sess where "opn = Op_EnforceSession pf sess" | pid where "opn = Op_EnforcePID pid"
    | pid where "opn = Op_SetPidEgressDeny pid"
    | "\<forall>pf sess pid. opn \<notin> {Op_EnforceSession pf sess, Op_EnforcePID pid, Op_SetPidEgressDeny pid}"
    by blast
  then show ?thesis
  proof cases
    case 1
    then show ?thesis unfolding 1 run_daemon.simps by (intro conjI impI EnforceSession_keeps [OF assms])
  next
    case 2
    then show ?thesis unfolding 2 run_daemon.simps
      by (simp add: EnforcePID_keeps [OF assms])
  next
    case 3
    then show ?thesis unfolding 3 run_daemon.simps by (simp add: SetPidEgressDeny_keeps)
  next
  case 4
  then have "members (snd (run_daemon d opn dm)) = members (snd dm)"
    by (cases opn) (auto simp: rules_members self_members state_members other_members SetNetPosture_def
        SetTaintedCodePosture_def BlockIP_def UnblockIP_def)
  then show ?thesis by (simp add: members_def)
  qed
qed

lemma sys_run_inode: "sys_run dm dm' \<Longrightarrow> bits_le (ak_taint_inode (snd dm)) (ak_taint_inode (snd dm'))"
proof (induction rule: rtranclp_induct)
  case (step dm' dm'')
  have "bits_le (ak_taint_inode (snd dm')) (ak_taint_inode (snd dm''))"
    using step(2)
  proof cases
    case (program e s k c)
    then show ?thesis using run_bpf_evolves [of s k c] by (simp add: evolves_def)
  next
    case (operation d opn)
    have "lasting 0" by (simp add: lasting_def)
    then show ?thesis using run_daemon_keeps [of 0 d opn dm'] by (simp add: operation)
  qed
  with step.IH show ?case by (auto simp: bits_le_def)
qed simp

section \<open>Array maps\<close>

text \<open>
  The array maps keep their slots and sizes through the enforcer's operations: \<open>InstallRules\<close> and
  \<open>ClearRules\<close> write whole 32-byte names, flags are set in the one word there is, nothing else is
  touched.
\<close>

definition formed :: "kstate \<Rightarrow> bool" where
  "formed s \<longleftrightarrow> wf_arrays s \<and> wf_tables s"

lemma formed_update [simp]:
  "formed (s\<lparr>ak_enforce_file := m1\<rparr>) = formed s" "formed (s\<lparr>ak_enforce_dir := m1\<rparr>) = formed s"
  "formed (s\<lparr>ak_enforce_net := m2\<rparr>) = formed s" "formed (s\<lparr>ak_enforce_net6 := m2\<rparr>) = formed s"
  "formed (s\<lparr>ak_taint_files := m3\<rparr>) = formed s" "formed (s\<lparr>ak_posture := m4\<rparr>) = formed s"
  "formed (s\<lparr>ak_session_pids := m5\<rparr>) = formed s" "formed (s\<lparr>ak_sessions := m6\<rparr>) = formed s"
  "formed (s\<lparr>ak_sensitive_files := m7\<rparr>) = formed s" "formed (s\<lparr>ak_agent_sigs := m8\<rparr>) = formed s"
  "formed (s\<lparr>ak_mcp_fds := m9\<rparr>) = formed s"
  by (simp_all add: formed_def wf_arrays_def wf_tables_def)

lemma formed_table: "formed s \<Longrightarrow> length (pat p) = 32 \<Longrightarrow> formed (s\<lparr>ak_db_deny_tables := (ak_db_deny_tables s)(i \<mapsto> p)\<rparr>)"
  by (simp add: formed_def wf_arrays_def wf_tables_def)

lemma formed_flags: "formed s \<Longrightarrow> formed (s\<lparr>ak_flags := (ak_flags s)(0 \<mapsto> w)\<rparr>)"
  by (simp add: formed_def wf_arrays_def wf_tables_def)

lemma formed_armFlag: "formed s \<Longrightarrow> formed (armFlag d b s)"
  by (simp add: armFlag_def formed_flags Let_def)

lemma formed_clear: "formed s \<Longrightarrow> m = ak_db_deny_tables s \<Longrightarrow> formed (s\<lparr>ak_db_deny_tables := fold (clear_slot d) is m\<rparr>)"
proof (induction "is" arbitrary: s m)
  case (Cons i "is")
  have "formed (s\<lparr>ak_db_deny_tables := clear_slot d i (ak_db_deny_tables s)\<rparr>)"
    using Cons.prems formed_table [of s] by (simp add: clear_slot_def)
  from Cons.IH [OF this refl] Cons.prems(2) show ?case by simp
qed simp

lemma formed_rules:
  assumes "formed (snd dm)"
  shows "formed (snd (snd (InstallRules d rules dm)))" "formed (snd (ClearRules d dm))" "formed (snd (Close dm))"
    "formed (snd (snd (addFileOp d x opn dm)))"
proof -
  have db: "formed s \<Longrightarrow> formed (snd (installDBRule d r slot s))" for r slot s
    by (simp add: installDBRule_def formed_armFlag formed_table db_pat_of_def Let_def)
  have net: "formed s \<Longrightarrow> formed (snd (installNetRule d r s))" for r s
    by (simp add: installNetRule_def Let_def split: option.split prod.split)
  have ops: "formed (snd dm) \<Longrightarrow> formed (snd (snd (addFileOp d x opn dm)))" "formed (snd dm) \<Longrightarrow> formed (snd (snd (addDirOp d x opn dm)))" for x opn dm
    by (simp_all add: addFileOp_def addDirOp_def Let_def split_def)
  have res: "i_daemon (note_result m res x) = snd res" for m res x
    by (simp add: note_result_def split: prod.split option.split)
  have rule: "formed (snd (i_daemon x)) \<Longrightarrow> formed (snd (i_daemon (install_rule d r x)))" for r x
    using db [of "snd (i_daemon x)" r "i_slot x"] net [of "snd (i_daemon x)" r] ops [of "i_daemon x"]
    by (auto simp: install_rule_def res Let_def split_def split: prod.split sum.split)
  have "formed (snd (i_daemon x)) \<Longrightarrow> formed (snd (i_daemon (fold (install_rule d) rs x)))" for rs x
    by (induction rs arbitrary: x) (simp_all add: rule)
  then show "formed (snd (snd (InstallRules d rules dm)))" using assms by (simp add: InstallRules_def Let_def)
  show "formed (snd (ClearRules d dm))" using assms by (simp add: ClearRules_def split_def) (rule formed_clear; simp)
  show "formed (snd (Close dm))" using assms by (simp add: Close_def split_def)
  show "formed (snd (snd (addFileOp d x opn dm)))" using ops assms by simp
qed

lemma formed_fold: "(\<And>x dm. formed (snd dm) \<Longrightarrow> formed (snd (f x dm))) \<Longrightarrow> formed (snd dm) \<Longrightarrow> formed (snd (fold f xs dm))"
  using fold_keeps [where P = "\<lambda>dm. formed (snd dm)" and f = f] by blast

lemma formed_single:
  assumes "formed (snd dm)"
  shows "formed (snd (SetDenyCode b dm))" "formed (snd (snd (setPostureBit d cg w b dm)))"
    "formed (snd (snd (add_taint d x w dm)))" "formed (snd (MarkSensitivePath d p dm))" "formed (snd (put_sig d x dm))"
    "formed (snd (setIP d ip b (snd dm)))" "formed (snd (EnforcePID d pid dm))" "formed (snd (SetPidEgressDeny d pid dm))"
    "formed (snd (addSelfFileOp d x dm))"
  using assms
  by (simp_all add: SetDenyCode_def setPostureBit_def add_taint_def MarkSensitivePath_def put_sig_def setIP_def EnforcePID_def
      arm_member_def SetPidEgressDeny_def addSelfFileOp_def Let_def split_def split: option.split)

lemma formed_many:
  assumes "formed (snd dm)"
  shows "formed (snd (InstallSelfProtection d files dirs dm))" "formed (snd (PopulateAgentSigs d sigs dm))"
    "formed (snd (snd (EnforceSession d pf sess dm)))" "formed (snd (TaintPersist d p dm))"
    "formed (snd (snd (Apply d kill sess' eff ev dm)))"
proof -
  have "formed (snd dm) \<Longrightarrow> formed (snd (self_protect_file d f dm))" "formed (snd dm) \<Longrightarrow> formed (snd (self_protect_dir d f dm))" for f dm
    using formed_single(9) [of _ d] by (simp_all add: self_protect_file_def self_protect_dir_def Let_def split_def)
  then show "formed (snd (InstallSelfProtection d files dirs dm))"
    unfolding InstallSelfProtection_def using assms by (intro formed_fold)
  show "formed (snd (PopulateAgentSigs d sigs dm))"
    unfolding PopulateAgentSigs_def by (rule formed_fold [OF _ assms]) (simp add: formed_single Let_def)
  have "formed (fold (arm_member d e) ps s) = formed s" for e ps s
    by (induction ps arbitrary: s) (simp_all add: arm_member_def)
  then show "formed (snd (snd (EnforceSession d pf sess dm)))" using assms by (simp add: EnforceSession_def Let_def split_def)
  show "formed (snd (TaintPersist d p dm))"
    using assms formed_single(3) [OF assms, of d "HashString p" AK_TAINT_PERSIST]
    by (auto simp: TaintPersist_def formed_armFlag split: prod.split option.split)
  show "formed (snd (snd (Apply d kill sess' eff ev dm)))"
    using assms by (simp add: Apply_def applyBlock_def formed_rules BlockIP_def formed_single split: effect.split option.split resource.split)
qed

lemma run_daemon_formed: "formed (snd dm) \<Longrightarrow> formed (snd (run_daemon d opn dm))"
  by (cases opn) (simp_all add: formed_rules formed_single formed_many SetNetPosture_def SetTaintedCodePosture_def TaintFile_def
      RegisterAgentBinary_def BlockIP_def UnblockIP_def)

lemma sys_step_formed: "sys_step dm dm' \<Longrightarrow> formed (snd dm) \<Longrightarrow> formed (snd dm')"
proof (induction rule: sys_step.induct)
  case (program e s k c)
  then show ?case using run_bpf_evolves [of s k c] by (simp add: formed_def evolves_def policy_def wf_tables_def)
qed (rule run_daemon_formed)

section \<open>What the enforcer's operations keep\<close>

text \<open>
  C27. No operation of the enforcer releases a member: through any sequence of them (reloads,
  arming, postures, decisions, shutdown), a pid or a cgroup that is monitored, enforced or barred
  from egress in the session maps stays so. Deny-tainted-code is the one bit that follows the
  policy. What releases members is the end of their session or their exit, through the sensor's
  \<open>UnregisterSession\<close> and \<open>UnregisterPID\<close>.
\<close>

theorem arming_lasts:
  assumes "b \<in> {AK_SESS_MONITOR, AK_SESS_ENFORCE, AK_SESS_DENY_EGRESS}"
  shows "(opt_has (ak_session_pids (snd dm) pid) b \<longrightarrow>
      opt_has (ak_session_pids (snd (fold (\<lambda>(d, opn). run_daemon d opn) ops dm)) pid) b)
    \<and> (opt_has (ak_sessions (snd dm) cg) b \<longrightarrow>
      opt_has (ak_sessions (snd (fold (\<lambda>(d, opn). run_daemon d opn) ops dm)) cg) b)"
proof -
  have "lasting b" using assms by (auto simp: lasting_def ak_const)
  then show ?thesis
  proof (induction ops arbitrary: dm)
    case (Cons dop ops)
    obtain d opn where dop: "dop = (d, opn)" by (cases dop)
    show ?case
      using run_daemon_keeps [OF Cons.prems, of d opn dm pid cg] Cons.IH [OF Cons.prems, of "run_daemon d opn dm"]
      by (simp add: dop)
  qed simp
qed

theorem arming_lasts_witness:
  "opt_has (ak_session_pids (snd (fold (\<lambda>(d, opn). run_daemon d opn)
      [(accepting, Op_ClearRules), (accepting, Op_SetDenyCode True), (accepting, Op_EnforcePID 100)]
      (fresh_enforcer, member_state 11))) 100) AK_SESS_DENY_EGRESS"
  using arming_lasts [of AK_SESS_DENY_EGRESS "(fresh_enforcer, member_state 11)" 100
      "[(accepting, Op_ClearRules), (accepting, Op_SetDenyCode True), (accepting, Op_EnforcePID 100)]"]
  by (simp add: sample_simps)

section \<open>Deny-tainted-code follows the policy\<close>

lemma armKey_code:
  assumes "\<not> e_dryRun e" "ok"
  shows "opt_has (snd (armKey e ok key (session_flags e) m) key) AK_SESS_DENY_CODE \<longleftrightarrow> e_denyCode e"
proof -
  have f: "has (session_flags e) AK_SESS_DENY_CODE \<longleftrightarrow> e_denyCode e"
    using assms(1) by (simp add: session_flags_def has_def ak_const)
  have n: "\<not> has (v AND NOT AK_SESS_DENY_CODE) AK_SESS_DENY_CODE" for v
    by (simp add: has_def and.assoc)
  have c: "has c AK_SESS_DENY_CODE" if "c OR session_flags e = c" "e_denyCode e" for c
    using has_or [of c "session_flags e" AK_SESS_DENY_CODE] that f by simp
  have d: "\<not> has c AK_SESS_DENY_CODE" if "(c OR session_flags e) AND NOT AK_SESS_DENY_CODE = c" for c
    using n [of "c OR session_flags e"] that by simp
  show ?thesis
    using assms(2) f n c d by (auto simp: armKey_apply armKey_next_def Let_def has_or split: option.split)
qed

lemma arm_member_code:
  assumes "\<not> e_dryRun e" "\<forall>h. d_put d D_session_pids h"
    and "q = p \<or> (opt_has (ak_session_pids s p) AK_SESS_DENY_CODE \<longleftrightarrow> e_denyCode e)"
  shows "opt_has (ak_session_pids (arm_member d e q s) p) AK_SESS_DENY_CODE \<longleftrightarrow> e_denyCode e"
  using assms armKey_code [OF assms(1)] by (cases "q = p") (simp_all add: arm_member_def armKey_apply)

lemma arm_members_code:
  assumes "\<not> e_dryRun e" "\<forall>h. d_put d D_session_pids h"
    and "p \<in> set ps \<or> (opt_has (ak_session_pids s p) AK_SESS_DENY_CODE \<longleftrightarrow> e_denyCode e)"
  shows "opt_has (ak_session_pids (fold (arm_member d e) ps s) p) AK_SESS_DENY_CODE \<longleftrightarrow> e_denyCode e"
  using assms(3)
proof (induction ps arbitrary: s)
  case (Cons q ps)
  then show ?case using arm_member_code [OF assms(1,2), of q p s] by auto
qed simp

definition in_tree :: "procfs \<Rightarrow> AgentSession \<Rightarrow> s32 \<Rightarrow> bool" where
  "in_tree pf sess pid \<longleftrightarrow> pid \<in> set (sessionPids pf (sess_RootPID sess) (sess_Members sess))"

lemma EnforceSession_accepted:
  assumes "\<forall>m h. d_put d m h"
  shows "\<exists>s1. EnforceSession d pf sess dm =
      (None, fst dm, fold (arm_member d (fst dm)) (sessionPids pf (sess_RootPID sess) (sess_Members sess)) s1)
    \<and> ak_session_pids s1 = ak_session_pids (snd dm)"
proof -
  let ?m = "if sess_CgroupID sess \<noteq> 0
    then snd (armKey (fst dm) True (sess_CgroupID sess) (session_flags (fst dm)) (ak_sessions (snd dm))) else ak_sessions (snd dm)"
  have "fst (armKey e True key w m) = None" for e w and key :: u64 and m
    by (simp add: armKey_def put_word_def split: option.split)
  then have "EnforceSession d pf sess dm = (None, fst dm,
      fold (arm_member d (fst dm)) (sessionPids pf (sess_RootPID sess) (sess_Members sess)) ((snd dm)\<lparr>ak_sessions := ?m\<rparr>))"
    using assms by (simp add: EnforceSession_def Let_def split_def)
  then show ?thesis by force
qed

lemma reapply_code:
  assumes "\<not> e_dryRun (fst dm)" "\<forall>m h. d_put d m h"
    and "in_tree pf (fst sw) p \<or> (opt_has (ak_session_pids (snd dm) p) AK_SESS_DENY_CODE \<longleftrightarrow> e_denyCode (fst dm))"
  shows "fst (reapply_session d pf sw dm) = fst dm
    \<and> (opt_has (ak_session_pids (snd (reapply_session d pf sw dm)) p) AK_SESS_DENY_CODE \<longleftrightarrow> e_denyCode (fst dm))"
proof -
  let ?dm = "SetTaintedCodePosture d (sess_CgroupID (fst sw)) (snd sw) dm"
  have t: "fst ?dm = fst dm" "ak_session_pids (snd ?dm) = ak_session_pids (snd dm)"
    by (simp_all add: SetTaintedCodePosture_def setPostureBit_def Let_def split_def)
  obtain s1 where "EnforceSession d pf (fst sw) ?dm =
      (None, fst dm, fold (arm_member d (fst dm)) (sessionPids pf (sess_RootPID (fst sw)) (sess_Members (fst sw))) s1)"
    "ak_session_pids s1 = ak_session_pids (snd dm)"
    using EnforceSession_accepted [OF assms(2), of pf "fst sw" ?dm] t by auto
  then show ?thesis
    using arm_members_code [OF assms(1), of d p _ s1] assms(2,3) by (auto simp: reapply_session_def in_tree_def)
qed

lemma reapply_fst [simp]: "fst (reapply_session d pf sw dm) = fst dm"
  by (simp add: reapply_session_def EnforceSession_def SetTaintedCodePosture_def setPostureBit_def Let_def split_def)

lemma reapply_enforce:
  assumes "\<not> e_dryRun (fst dm)" "\<forall>m h. d_put d m h"
    and "in_tree pf (fst sw) p \<or> opt_has (ak_session_pids (snd dm) p) AK_SESS_ENFORCE"
  shows "opt_has (ak_session_pids (snd (reapply_session d pf sw dm)) p) AK_SESS_ENFORCE"
proof -
  let ?dm = "SetTaintedCodePosture d (sess_CgroupID (fst sw)) (snd sw) dm"
  have t: "fst ?dm = fst dm" "ak_session_pids (snd ?dm) = ak_session_pids (snd dm)"
    by (simp_all add: SetTaintedCodePosture_def setPostureBit_def Let_def split_def)
  have l: "lasting AK_SESS_ENFORCE" "has (session_flags (fst dm)) AK_SESS_ENFORCE"
    using session_flags_enforce [OF assms(1)] by simp_all
  show ?thesis
    using EnforceSession_accepted [OF assms(2), of pf "fst sw" ?dm] t assms(2,3)
      arm_members [of "sessionPids pf (sess_RootPID (fst sw)) (sess_Members (fst sw))" d AK_SESS_ENFORCE "fst dm" p, OF _ l]
      EnforceSession_keeps(2) [OF l(1), of ?dm p d pf "fst sw"]
    by (auto simp: reapply_session_def in_tree_def)
qed

lemma reapply_sessions_enforce:
  assumes "\<not> e_dryRun (fst dm)" "\<forall>m h. d_put d m h" "sw \<in> set ss" "in_tree pf (fst sw) p"
  shows "opt_has (ak_session_pids (snd (fold (reapply_session d pf) ss dm)) p) AK_SESS_ENFORCE"
proof -
  have "opt_has (ak_session_pids (snd (fold (reapply_session d pf) ss dm)) p) AK_SESS_ENFORCE"
    if "(\<exists>sw \<in> set ss. in_tree pf (fst sw) p) \<or> opt_has (ak_session_pids (snd dm) p) AK_SESS_ENFORCE"
    using assms(1) that
  proof (induction ss arbitrary: dm)
    case (Cons sw ss)
    have "(\<exists>sw \<in> set ss. in_tree pf (fst sw) p) \<or> opt_has (ak_session_pids (snd (reapply_session d pf sw dm)) p) AK_SESS_ENFORCE"
      using reapply_enforce [OF Cons.prems(1) assms(2), of pf sw p] Cons.prems(2) by auto
    with Cons.IH [of "reapply_session d pf sw dm"] Cons.prems(1) show ?case by simp
  qed simp
  with assms(3,4) show ?thesis by blast
qed

lemma PopulateAgentSigs_fst [simp]: "fst (PopulateAgentSigs d sigs dm) = fst dm"
  unfolding PopulateAgentSigs_def by (induction sigs arbitrary: dm) (simp_all add: put_sig_def Let_def split_def)

lemma install_rule_dry: "e_dryRun (fst (i_daemon (install_rule d r x))) = e_dryRun (fst (i_daemon x))"
  by (simp add: install_rule_def addFileOp_def addDirOp_def Let_def split_def split: sum.split)

lemma InstallRules_dry: "e_dryRun (fst (snd (InstallRules d rules dm))) = e_dryRun (fst dm)"
proof -
  have "e_dryRun (fst (i_daemon (fold (install_rule d) rs x))) = e_dryRun (fst (i_daemon x))" for rs x
    by (induction rs arbitrary: x) (simp_all add: install_rule_dry)
  then show ?thesis by (simp add: InstallRules_def Let_def)
qed

lemma reapply_sessions_code:
  assumes "\<not> e_dryRun (fst dm)" "\<forall>m h. d_put d m h"
    and "(\<exists>sw \<in> set ss. in_tree pf (fst sw) p)
      \<or> (opt_has (ak_session_pids (snd dm) p) AK_SESS_DENY_CODE \<longleftrightarrow> e_denyCode (fst dm))"
  shows "opt_has (ak_session_pids (snd (fold (reapply_session d pf) ss dm)) p) AK_SESS_DENY_CODE \<longleftrightarrow> e_denyCode (fst dm)"
  using assms(1,3)
proof (induction ss arbitrary: dm)
  case (Cons sw ss)
  let ?dm = "reapply_session d pf sw dm"
  have f: "fst ?dm = fst dm" using reapply_fst by simp
  have "(\<exists>sw \<in> set ss. in_tree pf (fst sw) p)
      \<or> (opt_has (ak_session_pids (snd ?dm) p) AK_SESS_DENY_CODE \<longleftrightarrow> e_denyCode (fst ?dm))"
    using reapply_code [OF Cons.prems(1) assms(2), of pf sw p] Cons.prems(2) f by auto
  with Cons.IH [of ?dm] Cons.prems(1) f show ?case by simp
qed simp

text \<open>
  C28. Hot reload reaches running agents: after a policy directory that compiles is applied, every
  process in the tree of an active session carries deny-tainted-code exactly when the new
  policy blocks agent-written code for some agent, whatever the old one asked for, and is
  enforced. (In a kernel with room in the session maps.)
\<close>

theorem deny_code_follows_policy:
  assumes "\<not> e_dryRun (fst dm)" "\<forall>m h. d_put d m h" "Load (map Some policies) en = (None, en')"
    and "s \<in> set sessions" "ss_State s = SessionActive" "in_tree pf (to_enforce s) pid"
    and "dm' = snd (applyPolicies d pf policies signatures sessions (en, dm))"
  shows "(opt_has (ak_session_pids (snd dm') pid) AK_SESS_DENY_CODE \<longleftrightarrow> anyWantsTaintedCodeBlock en')
    \<and> opt_has (ak_session_pids (snd dm') pid) AK_SESS_ENFORCE"
proof -
  let ?dm = "PopulateAgentSigs d (withAgentHelpers signatures)
    (SetDenyCode (anyWantsTaintedCodeBlock en') (snd (InstallRules d (en_kernelRules en') (ClearRules d dm))))"
  have e: "e_denyCode (fst ?dm) = anyWantsTaintedCodeBlock en'" "\<not> e_dryRun (fst ?dm)"
    using assms(1) by (simp_all add: PopulateAgentSigs_fst SetDenyCode_def InstallRules_dry split_def) (simp add: ClearRules_def split_def)
  have dm': "dm' = fold (reapply_session d pf) (active_sessions en' sessions) ?dm"
    by (simp add: assms(3,7) applyPolicies_def)
  have s: "(to_enforce s, WantsTaintedCodeBlock en' (ss_Agent s)) \<in> set (active_sessions en' sessions)"
    using assms(4,5) by (auto simp: active_sessions_def)
  have "opt_has (ak_session_pids (snd dm') pid) AK_SESS_DENY_CODE \<longleftrightarrow> anyWantsTaintedCodeBlock en'"
    unfolding dm' using reapply_sessions_code [OF e(2) assms(2)] s assms(6) e(1) by fastforce
  moreover have "opt_has (ak_session_pids (snd dm') pid) AK_SESS_ENFORCE"
    unfolding dm' using reapply_sessions_enforce [OF e(2) assms(2) s] assms(6) by simp
  ultimately show ?thesis by blast
qed

text \<open>A policy against agent-written code.\<close>

definition no_agent_code :: Policy where
  "no_agent_code = \<lparr>po_Kind = ''AgentKnoxPolicy'', po_Name = chars ''p'', po_Selector = [chars ''codex''],
     po_Rules = [\<lparr>ru_Name = chars ''code'', ru_When = \<lparr>
       Semantic = Some (no_sem\<lparr>sm_Provenance := chars ''agent-written''\<rparr>),
       System = Some (no_sys\<lparr>sy_Op := ''exec''\<rparr>), Condition = None\<rparr>,
       ru_Effect = ''Block''\<rparr>],
     po_DefaultEffect = []\<rparr>"

theorem deny_code_follows_policy_witness:
  "opt_has (ak_session_pids (snd (snd (applyPolicies accepting small_proc [no_agent_code] [] [running]
     (New_engine, fresh_enforcer, init_kstate)))) 4) AK_SESS_DENY_CODE"
proof -
  let ?l = "Load (map Some [no_agent_code]) New_engine"
  have "sessionPids small_proc 2 [] = [2, 3, 4]" by (simp add: sessionPids_def small_descendants add_pid_def word_sless_alt)
  then have "in_tree small_proc (to_enforce running) 4" by (simp add: in_tree_def running_def AgentSession.truncate_def)
  moreover have "fst ?l = None" "anyWantsTaintedCodeBlock (snd ?l)" by code_simp+
  ultimately show ?thesis
    using deny_code_follows_policy [of "(fresh_enforcer, init_kstate)" accepting "[no_agent_code]" New_engine "snd ?l"
        running "[running]" small_proc 4 _ "[]"]
    by (simp add: fresh_enforcer_def accepting_def prod_eq_iff) (simp add: running_def)
qed

end
