(* ===== verification/AK_Correlate.thy ===== *)
theory AK_Correlate
  imports AK_Engine
begin

text \<open>
  The correlation engine, \<open>internal/correlate/engine.go\<close>: it attributes system effects to the tool calls
  before them, taints a session that reads a secret its user did not name, and flags effects
  that do not fit the declared intent. Time is in nanoseconds since the epoch. An output channel is the list of what it
  holds; a full one drops. The confidence of an action, a float that no decision reads, the identifiers of
  events and actions, and the log are left out. The mutex makes each push atomic.
\<close>

section \<open>Path patterns\<close>

definition intentWindow :: int where "intentWindow = 5 * 1000000000"

definition promptIndexCap :: nat where "promptIndexCap = 128"

definition outputBuffer :: nat where "outputBuffer = 4096"

definition writtenPathCap :: nat where "writtenPathCap = 4096"

definition sensitivePatterns :: "bytes list" where
  "sensitivePatterns = map chars
     [''/.ssh'', ''.env'', ''/.aws'', ''credentials'', ''id_rsa'', ''id_ed25519'',
      ''token'', ''.pem'', ''secret'', ''/.netrc'', ''.kube/config'']"

definition agentSelfPatterns :: "bytes list" where
  "agentSelfPatterns = map chars
     [''/.claude/'', ''/.codex/'', ''/.gemini/'', ''/.config/crush'',
      ''/.config/gcloud'', ''/.config/gemini'',
      ''/.crush/'', ''/.local/share/crush'', ''/.copilot/'', ''/.config/github-copilot'']"

definition providerCredentialFiles :: "bytes list" where
  "providerCredentialFiles = map chars
     [''.credentials.json'', ''auth.json'', ''oauth_creds.json'', ''application_default_credentials.json'',
      ''credentials.db'', ''access_tokens.db'', ''hosts.json'', ''apps.json'']"

definition publicPathPrefixes :: "bytes list" where
  "publicPathPrefixes = map chars
     [''/etc/ssl/'', ''/usr/share/ca-certificates/'', ''/etc/pki/'',
      ''/etc/ca-certificates/'', ''/usr/lib/ssl/'', ''/usr/local/share/ca-certificates/'']"

definition systemCodePrefixes :: "bytes list" where
  "systemCodePrefixes = map chars
     [''/usr/lib/'', ''/usr/share/'', ''/usr/local/lib/'', ''/usr/local/share/'',
      ''/lib/'', ''/lib64/'', ''/opt/'', ''/snap/'', ''/nix/'']"

definition isSystemCodePath :: "bytes \<Rightarrow> bool" where
  "isSystemCodePath lp \<longleftrightarrow>
     HasSuffix lp (chars ''.pyc'') \<or> HasSuffix lp (chars ''.pyo'')
     \<or> Contains lp (chars ''/__pycache__/'') \<or> Contains lp (chars ''/site-packages/'')
     \<or> Contains lp (chars ''/node_modules/'')
     \<or> list_ex (HasPrefix lp) systemCodePrefixes"

definition isAgentSelfPath :: "bytes \<Rightarrow> bool" where
  "isAgentSelfPath lp = list_ex (Contains lp) agentSelfPatterns"

definition isProviderCredentialFile :: "bytes \<Rightarrow> bool" where
  "isProviderCredentialFile lp \<longleftrightarrow> after_slash lp \<in> set providerCredentialFiles"

section \<open>State\<close>

record pendingIntent =
  pi_tool :: ToolUse
  pi_at :: int
  pi_pid :: s32

text \<open>The map \<open>wroteSelf\<close> is the list of its keys.\<close>

record sessionState =
  intents :: "pendingIntent list"
  promptIndex :: "bytes list"
  tainted :: bool
  taintLabels :: "bytes list"
  wroteSelf :: "bytes list"
  wroteSelfFull :: bool

definition new_state :: sessionState where
  "new_state = \<lparr>intents = [], promptIndex = [], tainted = False, taintLabels = [], wroteSelf = [], wroteSelfFull = False\<rparr>"

definition noteWrite :: "bytes \<Rightarrow> sessionState \<Rightarrow> sessionState" where
  "noteWrite lp s =
     (if \<not> isAgentSelfPath lp then s
      else if lp \<in> set (wroteSelf s) then s
      else if writtenPathCap \<le> length (wroteSelf s) then s\<lparr>wroteSelfFull := True\<rparr>
      else s\<lparr>wroteSelf := lp # wroteSelf s\<rparr>)"

definition wroteAgentSelf :: "sessionState option \<Rightarrow> bytes \<Rightarrow> bool" where
  "wroteAgentSelf so lp =
     (case so of
        None \<Rightarrow> False
      | Some s \<Rightarrow>
          if isProviderCredentialFile lp then False
          else if wroteSelfFull s then True
          else lp \<in> set (wroteSelf s))"

definition sensitiveFor :: "sessionState option \<Rightarrow> bytes \<Rightarrow> bool" where
  "sensitiveFor so p =
     (let lp = ToLower p
      in if isAgentSelfPath lp \<and> \<not> wroteAgentSelf so lp then False
         else if list_ex (HasPrefix lp) publicPathPrefixes then False
         else if isSystemCodePath lp then False
         else list_ex (Contains lp) sensitivePatterns)"

definition isSensitivePath :: "bytes \<Rightarrow> bool" where
  "isSensitivePath p = sensitiveFor None p"

datatype EdgeKind = EdgeFork | EdgeExec | EdgeFileTouch | EdgeConnect | EdgeDNS | EdgeToolUse | EdgeDBQuery

record GraphEdge =
  ge_SessionID :: bytes
  ge_Kind :: EdgeKind
  ge_Time :: int
  ge_SrcPID :: s32
  ge_Resource :: resource

record correlator =
  co_sessions :: "bytes \<rightharpoonup> sessionState"
  co_globalIndex :: "bytes list"
  co_actions :: "CorrelatedAction list"
  co_edges :: "GraphEdge list"

definition New_correlator :: correlator where
  "New_correlator = \<lparr>co_sessions = Map.empty, co_globalIndex = [], co_actions = [], co_edges = []\<rparr>"

text \<open>The state of a session, created when it is first asked for.\<close>

definition state :: "bytes \<Rightarrow> correlator \<Rightarrow> sessionState" where
  "state sid c = (case co_sessions c sid of None \<Rightarrow> new_state | Some s \<Rightarrow> s)"

definition set_state :: "bytes \<Rightarrow> sessionState \<Rightarrow> correlator \<Rightarrow> correlator" where
  "set_state sid s c = c\<lparr>co_sessions := (co_sessions c)(sid \<mapsto> s)\<rparr>"

definition emitAction :: "CorrelatedAction \<Rightarrow> correlator \<Rightarrow> correlator" where
  "emitAction a c = (if length (co_actions c) < outputBuffer then c\<lparr>co_actions := co_actions c @ [a]\<rparr> else c)"

definition emitEdge :: "GraphEdge \<Rightarrow> correlator \<Rightarrow> correlator" where
  "emitEdge g c = (if length (co_edges c) < outputBuffer then c\<lparr>co_edges := co_edges c @ [g]\<rparr> else c)"

text \<open>The zero \<open>time.Time\<close> is the first instant of the year 1.\<close>

definition zero_time :: int where "zero_time = - 62135596800000000000"

definition eventTime :: "int \<Rightarrow> u64 \<Rightarrow> int \<Rightarrow> int" where
  "eventTime t ns now = (if t \<noteq> zero_time then t else if ns \<noteq> 0 then sint ns else now)"

section \<open>Texts and intents\<close>

definition keep_last :: "nat \<Rightarrow> 'a list \<Rightarrow> 'a list" where
  "keep_last n xs = (if n < length xs then drop (length xs - n) xs else xs)"

definition index_text :: "bytes \<Rightarrow> bytes list \<Rightarrow> bytes list" where
  "index_text t0 index =
     (let t = ToLower (TrimSpace t0) in if t = [] then index else keep_last promptIndexCap (index @ [t]))"

definition indexText :: "bytes \<Rightarrow> sessionState \<Rightarrow> sessionState" where
  "indexText t s = s\<lparr>promptIndex := index_text t (promptIndex s)\<rparr>"

definition indexGlobal :: "bytes \<Rightarrow> correlator \<Rightarrow> correlator" where
  "indexGlobal t c = c\<lparr>co_globalIndex := index_text t (co_globalIndex c)\<rparr>"

definition indexHasResource :: "bytes list \<Rightarrow> bytes \<Rightarrow> bool" where
  "indexHasResource index resource =
     (let r = ToLower (TrimSpace resource);
          base = (if after_slash r = [] then r else after_slash r)
      in r \<noteq> [] \<and> list_ex (\<lambda>txt. Contains txt r \<or> base \<noteq> [] \<and> Contains txt base) index)"

definition seen :: "sessionState \<Rightarrow> bytes \<Rightarrow> bool" where
  "seen s resource = indexHasResource (promptIndex s) resource"

definition pruneIntents :: "int \<Rightarrow> sessionState \<Rightarrow> sessionState" where
  "pruneIntents now s = s\<lparr>intents := filter (\<lambda>i. now - intentWindow < pi_at i) (intents s)\<rparr>"

fun last_match :: "('a \<Rightarrow> bool) \<Rightarrow> 'a list \<Rightarrow> 'a option" where
  "last_match P [] = None"
| "last_match P (x # xs) = (case last_match P xs of Some y \<Rightarrow> Some y | None \<Rightarrow> if P x then Some x else None)"

definition latestIntent :: "sessionState \<Rightarrow> int \<Rightarrow> pendingIntent option" where
  "latestIntent s now = last_match (\<lambda>i. now - intentWindow < pi_at i) (intents s)"

section \<open>Effects\<close>

definition op_in :: "string \<Rightarrow> string list \<Rightarrow> bool" where
  "op_in opn ops \<longleftrightarrow> ToLower (chars opn) \<in> set (map chars ops)"

definition isReadLike :: "string \<Rightarrow> bool" where
  "isReadLike opn = op_in opn [''read'', ''open'', ''openat'', ''readv'', ''pread'', ''stat'', ''lstat'']"

definition isWriteLike :: "string \<Rightarrow> bool" where
  "isWriteLike opn = op_in opn [''write'', ''writev'', ''pwrite'', ''truncate'', ''unlink'', ''rename'',
     ''chmod'', ''chown'', ''mkdir'', ''create'', ''creat'']"

definition isExecLike :: "string \<Rightarrow> bool" where
  "isExecLike opn = op_in opn [''exec'', ''execve'', ''execveat'']"

definition mismatch :: "bytes \<Rightarrow> category \<Rightarrow> string \<Rightarrow> bytes option" where
  "mismatch intentClass cat opn =
     (let ic = ToLower intentClass; net = (cat = CategoryNetwork \<or> cat = CategoryDNS);
          exec = (cat = CategoryProcess \<and> isExecLike opn)
      in if ic = chars ''read'' then
           (if net then Some (chars ''read-only intent produced a network connect'')
            else if cat = CategoryFile \<and> isWriteLike opn then Some (chars ''read-only intent produced a file write'')
            else if exec then Some (chars ''read-only intent spawned a process (exec)'')
            else None)
         else if ic = chars ''write'' then
           (if net then Some (chars ''write intent produced a network connect'')
            else if exec then Some (chars ''write intent spawned a process (exec)'')
            else None)
         else if ic = chars ''network'' then
           (if exec then Some (chars ''network intent spawned a process (exec)'') else None)
         else None)"

definition edgeKindFor :: "category \<Rightarrow> string \<Rightarrow> EdgeKind option" where
  "edgeKindFor cat opn =
     (case cat of
        CategoryProcess \<Rightarrow> Some (if opn \<in> set [''fork'', ''clone'', ''clone3''] then EdgeFork else EdgeExec)
      | CategoryFile \<Rightarrow> Some EdgeFileTouch
      | CategoryNetwork \<Rightarrow> Some EdgeConnect
      | CategoryDNS \<Rightarrow> Some EdgeDNS
      | CategoryDatabase \<Rightarrow> Some EdgeDBQuery
      | CategoryCapability \<Rightarrow> None)"

fun mergeLabels :: "bytes list \<Rightarrow> bytes list \<Rightarrow> bytes list" where
  "mergeLabels dst [] = dst"
| "mergeLabels dst (l # src) = mergeLabels (if l \<in> set dst then dst else dst @ [l]) src"

definition unseen_labels :: "bytes list" where
  "unseen_labels = [chars ''user-unseen'', chars ''sensitive'']"

definition data_flow :: bytes where "data_flow = chars ''data-flow''"

section \<open>Pushing events\<close>

text \<open>The event with its wall-clock time and the session the manager attached.\<close>

record SessionEvent = SyscallEvent +
  ev_Time :: int
  ev_Session :: "(bytes \<times> AgentKind) option"

abbreviation ev_resource :: "SessionEvent \<Rightarrow> bytes" where
  "ev_resource ev \<equiv> res_text (ev_Resource ev)"

abbreviation ev_sid :: "SessionEvent \<Rightarrow> bytes" where
  "ev_sid ev \<equiv> (case ev_Session ev of None \<Rightarrow> [] | Some r \<Rightarrow> fst r)"

text \<open>The labels of the action, and the session.\<close>

definition applyTaint :: "bytes list \<Rightarrow> SessionEvent \<Rightarrow> bytes list \<times> sessionState \<Rightarrow> bytes list \<times> sessionState" where
  "applyTaint globalIndex ev = (\<lambda>(labels, s).
     case ev_Category ev of
       CategoryFile \<Rightarrow>
         let abs = HasPrefix (ev_resource ev) [slash];
             s1 = (if isWriteLike (ev_Operation ev) \<and> abs then noteWrite (ToLower (ev_resource ev)) s else s)
         in if isReadLike (ev_Operation ev) \<and> abs \<and> sensitiveFor (Some s1) (ev_resource ev)
               \<and> \<not> (seen s1 (ev_resource ev) \<or> indexHasResource globalIndex (ev_resource ev))
            then (mergeLabels labels unseen_labels,
                  s1\<lparr>tainted := True, taintLabels := mergeLabels (taintLabels s1) unseen_labels\<rparr>)
            else (labels, s1)
     | CategoryNetwork \<Rightarrow>
         (if tainted s then mergeLabels (mergeLabels labels (taintLabels s)) [data_flow] else labels, s)
     | CategoryDNS \<Rightarrow>
         (if tainted s then mergeLabels (mergeLabels labels (taintLabels s)) [data_flow] else labels, s)
     | _ \<Rightarrow> (labels, s))"

definition PushSemantic :: "int \<Rightarrow> SemanticEvent \<Rightarrow> correlator \<Rightarrow> correlator" where
  "PushSemantic now ev c0 =
     (let w = eventTime (sv_Time ev) (sv_TimestampNS ev) now;
          c = (case (sv_Kind ev, sv_ToolUse ev) of
                 (SemToolUse, Some u) \<Rightarrow>
                   emitEdge \<lparr>ge_SessionID = sv_SessionID ev, ge_Kind = EdgeToolUse, ge_Time = w,
                             ge_SrcPID = sv_HostPID ev, ge_Resource = Text (tu_Name u)\<rparr> c0
               | _ \<Rightarrow> c0);
          sid = sv_SessionID ev; s = state sid c
      in case sv_Kind ev of
           SemToolUse \<Rightarrow>
             (case sv_ToolUse ev of
                Some u \<Rightarrow>
                  set_state sid (pruneIntents w
                    (s\<lparr>intents := intents s @ [\<lparr>pi_tool = u, pi_at = w, pi_pid = sv_HostPID ev\<rparr>]\<rparr>)) c
              | None \<Rightarrow> set_state sid s c)
         | SemPrompt \<Rightarrow> indexGlobal (sv_Text ev) (set_state sid (indexText (sv_Text ev) s) c)
         | _ \<Rightarrow> set_state sid s c)"

text \<open>The action of an event without its session, and what a matched intent adds.\<close>

definition bare_action :: "bytes \<Rightarrow> int \<Rightarrow> SessionEvent \<Rightarrow> CorrelatedAction" where
  "bare_action sid w ev =
     \<lparr>ca_SessionID = sid, ca_HostPID = HostPID (ev_header ev), ca_Time = w, ca_ToolUseID = [], ca_ToolName = [],
      ca_IntentClass = [],
      ca_Effects = [\<lparr>ef_Category = ev_Category ev, ef_Operation = ev_Operation ev, ef_Resource = ev_Resource ev\<rparr>],
      ca_Taint = [], ca_Mismatch = False, ca_MismatchReason = []\<rparr>"

definition attribute :: "SessionEvent \<Rightarrow> pendingIntent option \<Rightarrow> CorrelatedAction \<Rightarrow> CorrelatedAction" where
  "attribute ev matched a =
     (case matched of
        None \<Rightarrow> a
      | Some i \<Rightarrow>
          let a1 = a\<lparr>ca_ToolUseID := tu_ID (pi_tool i), ca_ToolName := tu_Name (pi_tool i),
                     ca_IntentClass := tu_IntentClass (pi_tool i)\<rparr>
          in case mismatch (tu_IntentClass (pi_tool i)) (ev_Category ev) (ev_Operation ev) of
               None \<Rightarrow> a1
             | Some why \<Rightarrow> a1\<lparr>ca_Mismatch := True, ca_MismatchReason := why\<rparr>)"

definition PushSyscall :: "int \<Rightarrow> SessionEvent \<Rightarrow> correlator \<Rightarrow> correlator" where
  "PushSyscall now ev c0 =
     (case edgeKindFor (ev_Category ev) (ev_Operation ev) of
        None \<Rightarrow> c0
      | Some kind \<Rightarrow>
          let w = eventTime (ev_Time ev) (Timestamp (ev_header ev)) now; sid = ev_sid ev;
              c = emitEdge \<lparr>ge_SessionID = sid, ge_Kind = kind, ge_Time = w, ge_SrcPID = PID (ev_header ev),
                            ge_Resource = ev_Resource ev\<rparr> c0;
              a0 = bare_action sid w ev
          in if sid = [] then emitAction a0 c
             else
               let s = pruneIntents w (state sid c);
                   a1 = attribute ev (latestIntent s w) a0;
                   (labels, s') = applyTaint (co_globalIndex c) ev (ca_Taint a1, s)
               in emitAction (a1\<lparr>ca_Taint := labels\<rparr>) (set_state sid s' c))"

section \<open>Sequences of pushes\<close>

text \<open>The consumers take from the front of the two channels.\<close>

datatype correl_op = OpSem int SemanticEvent | OpSys int SessionEvent | TakeAction | TakeEdge

fun correl_step :: "correl_op \<Rightarrow> correlator \<Rightarrow> correlator" where
  "correl_step (OpSem now ev) c = PushSemantic now ev c"
| "correl_step (OpSys now ev) c = PushSyscall now ev c"
| "correl_step TakeAction c = c\<lparr>co_actions := tl (co_actions c)\<rparr>"
| "correl_step TakeEdge c = c\<lparr>co_edges := tl (co_edges c)\<rparr>"

definition correl_runs :: "correl_op list \<Rightarrow> correlator" where
  "correl_runs ops = fold correl_step ops New_correlator"

lemma correl_runs_Nil [simp]: "correl_runs [] = New_correlator"
  and correl_runs_snoc [simp]: "correl_runs (ops @ [op]) = correl_step op (correl_runs ops)"
  by (simp_all add: correl_runs_def)

lemma state_simps [simp]:
  "state sid (set_state sid' s c) = (if sid = sid' then s else state sid c)"
  "state sid (emitEdge g c) = state sid c" "state sid (emitAction a c) = state sid c"
  "state sid (indexGlobal t c) = state sid c"
  "co_globalIndex (set_state sid' s c) = co_globalIndex c" "co_globalIndex (emitEdge g c) = co_globalIndex c"
  "co_globalIndex (emitAction a c) = co_globalIndex c" "co_globalIndex (indexGlobal t c) = index_text t (co_globalIndex c)"
  "co_actions (set_state sid' s c) = co_actions c" "co_actions (emitEdge g c) = co_actions c"
  "state sid (c\<lparr>co_actions := as\<rparr>) = state sid c" "state sid (c\<lparr>co_edges := es\<rparr>) = state sid c"
  by (auto simp: state_def set_state_def emitEdge_def emitAction_def indexGlobal_def)

lemma state_New [simp]: "state sid New_correlator = new_state"
  by (simp add: state_def New_correlator_def)

text \<open>What a system event does to the sessions and what it emits.\<close>

definition push_time :: "int \<Rightarrow> SessionEvent \<Rightarrow> int" where
  "push_time now ev = eventTime (ev_Time ev) (Timestamp (ev_header ev)) now"

definition push_taint :: "int \<Rightarrow> SessionEvent \<Rightarrow> correlator \<Rightarrow> bytes list \<times> sessionState" where
  "push_taint now ev c = applyTaint (co_globalIndex c) ev ([], pruneIntents (push_time now ev) (state (ev_sid ev) c))"

definition push_action :: "int \<Rightarrow> SessionEvent \<Rightarrow> correlator \<Rightarrow> CorrelatedAction" where
  "push_action now ev c =
     (let w = push_time now ev in
      if ev_sid ev = [] then bare_action [] w ev
      else (attribute ev (latestIntent (pruneIntents w (state (ev_sid ev) c)) w) (bare_action (ev_sid ev) w ev))
             \<lparr>ca_Taint := fst (push_taint now ev c)\<rparr>)"

lemma attribute_keeps [simp]:
  "ca_Taint (attribute ev i a) = ca_Taint a" "ca_SessionID (attribute ev i a) = ca_SessionID a"
  "ca_HostPID (attribute ev i a) = ca_HostPID a" "ca_Effects (attribute ev i a) = ca_Effects a"
  "ca_Time (attribute ev i a) = ca_Time a"
  by (simp_all add: attribute_def Let_def split: option.split)

lemma PushSyscall_unfold:
  assumes "edgeKindFor (ev_Category ev) (ev_Operation ev) = Some kind"
  shows "\<exists>g. PushSyscall now ev c = emitAction (push_action now ev c)
     ((if ev_sid ev = [] then id else set_state (ev_sid ev) (snd (push_taint now ev c))) (emitEdge g c))"
  using assms
  by (auto simp: PushSyscall_def push_action_def push_taint_def push_time_def Let_def bare_action_def split_def)

lemma PushSyscall_state:
  "state sid (PushSyscall now ev c) =
     (if sid \<noteq> [] \<and> sid = ev_sid ev \<and> edgeKindFor (ev_Category ev) (ev_Operation ev) \<noteq> None
      then snd (push_taint now ev c) else state sid c)"
proof (cases "edgeKindFor (ev_Category ev) (ev_Operation ev)")
  case (Some kind)
  then obtain g where "PushSyscall now ev c = emitAction (push_action now ev c)
     ((if ev_sid ev = [] then id else set_state (ev_sid ev) (snd (push_taint now ev c))) (emitEdge g c))"
    using PushSyscall_unfold by blast
  with Some show ?thesis by simp
qed (simp add: PushSyscall_def)

lemma PushSyscall_global [simp]: "co_globalIndex (PushSyscall now ev c) = co_globalIndex c"
  by (simp add: PushSyscall_def Let_def split_def split: option.split)

lemma PushSyscall_actions:
  assumes "edgeKindFor (ev_Category ev) (ev_Operation ev) \<noteq> None"
  shows "co_actions (PushSyscall now ev c) =
     co_actions c @ (if length (co_actions c) < outputBuffer then [push_action now ev c] else [])"
proof -
  obtain kind where "edgeKindFor (ev_Category ev) (ev_Operation ev) = Some kind" using assms by blast
  then obtain g where "PushSyscall now ev c = emitAction (push_action now ev c)
     ((if ev_sid ev = [] then id else set_state (ev_sid ev) (snd (push_taint now ev c))) (emitEdge g c))"
    using PushSyscall_unfold by blast
  then show ?thesis by (simp add: emitAction_def)
qed

lemma PushSemantic_state:
  "state sid (PushSemantic now ev c) =
     (if sid \<noteq> sv_SessionID ev then state sid c
      else case sv_Kind ev of
        SemToolUse \<Rightarrow>
          (case sv_ToolUse ev of
             None \<Rightarrow> state sid c
           | Some u \<Rightarrow>
               let w = eventTime (sv_Time ev) (sv_TimestampNS ev) now
               in pruneIntents w ((state sid c)\<lparr>intents := intents (state sid c) @ [\<lparr>pi_tool = u, pi_at = w, pi_pid = sv_HostPID ev\<rparr>]\<rparr>))
      | SemPrompt \<Rightarrow> indexText (sv_Text ev) (state sid c)
      | _ \<Rightarrow> state sid c)"
  by (cases "sv_Kind ev"; cases "sv_ToolUse ev") (simp_all add: PushSemantic_def Let_def)

lemma PushSemantic_global:
  "co_globalIndex (PushSemantic now ev c) =
     (if sv_Kind ev = SemPrompt then index_text (sv_Text ev) (co_globalIndex c) else co_globalIndex c)"
  by (cases "sv_Kind ev"; cases "sv_ToolUse ev") (simp_all add: PushSemantic_def Let_def)

section \<open>Evidence only grows\<close>

definition grows :: "sessionState \<Rightarrow> sessionState \<Rightarrow> bool" where
  "grows s s' \<longleftrightarrow>
     (tainted s \<longrightarrow> tainted s') \<and> set (taintLabels s) \<subseteq> set (taintLabels s')
     \<and> set (wroteSelf s) \<subseteq> set (wroteSelf s') \<and> (wroteSelfFull s \<longrightarrow> wroteSelfFull s')"

lemma grows_refl [simp]: "grows s s"
  and grows_trans: "grows s s' \<Longrightarrow> grows s' s'' \<Longrightarrow> grows s s''"
  by (auto simp: grows_def)

lemma set_mergeLabels [simp]: "set (mergeLabels dst src) = set dst \<union> set src"
  by (induction dst src rule: mergeLabels.induct) auto

declare mergeLabels.simps [simp del]

lemma grows_ops [simp]:
  "grows s (pruneIntents w s)" "grows s (indexText t s)" "grows s (noteWrite lp s)" "grows s (s\<lparr>intents := is\<rparr>)"
  by (auto simp: grows_def pruneIntents_def indexText_def noteWrite_def)

lemma grows_applyTaint: "grows s (snd (applyTaint gi ev (labels, s)))"
  using grows_ops(3) [of s "ToLower (ev_resource ev)"]
  by (auto simp: applyTaint_def Let_def grows_def split: category.split)

lemma grows_step: "grows (state sid c) (state sid (correl_step op c))"
proof (cases op)
  case (OpSem now ev)
  then show ?thesis
    by (auto simp: PushSemantic_state Let_def split: SemanticKind.split option.split
        intro: grows_trans [OF grows_ops(4) grows_ops(1)])
next
  case (OpSys now ev)
  then show ?thesis using grows_trans [OF grows_ops(1) grows_applyTaint]
    by (simp add: PushSyscall_state push_taint_def)
qed simp_all

lemma grows_runs: "grows (state sid (correl_runs ops)) (state sid (correl_runs (ops @ ops')))"
proof (induction ops' rule: rev_induct)
  case (snoc op ops')
  then show ?case using grows_trans grows_step by (metis append.assoc correl_runs_snoc)
qed simp

end
