(* ===== verification/AK_TaintFlow.thy ===== *)
theory AK_TaintFlow
  imports AK_Correlate
begin

text \<open>
  What the correlation engine (\<open>internal/correlate/engine.go\<close>) guarantees over sequences of events: which reads
  taint a session, that nothing but the user's prompts can prevent it, that the taint reaches every later
  network action, which tool call an effect is attributed to, and the bounds of its tables.
\<close>

section \<open>The index of seen texts\<close>

text \<open>The normal form of the prompts pushed so far.\<close>

fun prompt_texts :: "correl_op list \<Rightarrow> bytes list" where
  "prompt_texts [] = []"
| "prompt_texts (OpSem now ev # ops) =
     (if sv_Kind ev = SemPrompt then ToLower (TrimSpace (sv_Text ev)) # prompt_texts ops else prompt_texts ops)"
| "prompt_texts (_ # ops) = prompt_texts ops"

lemma prompt_texts_append [simp]: "prompt_texts (ops @ ops') = prompt_texts ops @ prompt_texts ops'"
  by (induction ops rule: prompt_texts.induct) simp_all

lemma index_text_set: "set (index_text t index) \<subseteq> insert (ToLower (TrimSpace t)) (set index)"
  by (auto simp: index_text_def keep_last_def Let_def dest: in_set_dropD)

lemma applyTaint_index [simp]: "promptIndex (snd (applyTaint gi ev (labels, s))) = promptIndex s"
  by (simp add: applyTaint_def Let_def noteWrite_def split: category.split)

lemma push_taint_index [simp]: "promptIndex (snd (push_taint now ev c)) = promptIndex (state (ev_sid ev) c)"
  by (simp add: push_taint_def pruneIntents_def)

lemma PushSemantic_index:
  "promptIndex (state sid (PushSemantic now ev c)) =
     (if sid = sv_SessionID ev \<and> sv_Kind ev = SemPrompt then index_text (sv_Text ev) (promptIndex (state sid c))
      else promptIndex (state sid c))"
  by (cases "sv_Kind ev"; cases "sv_ToolUse ev") (simp_all add: PushSemantic_state indexText_def pruneIntents_def Let_def)

lemma seen_texts:
  "set (co_globalIndex (correl_runs ops)) \<union> set (promptIndex (state sid (correl_runs ops))) \<subseteq> set (prompt_texts ops)"
proof (induction ops arbitrary: sid rule: rev_induct)
  case (snoc op ops)
  show ?case
  proof (cases op)
    case (OpSem now ev)
    then show ?thesis
      using snoc [of sid] index_text_set [of "sv_Text ev" "co_globalIndex (correl_runs ops)"]
        index_text_set [of "sv_Text ev" "promptIndex (state sid (correl_runs ops))"]
      by (auto simp: PushSemantic_index PushSemantic_global)
  qed (use snoc in \<open>auto simp: PushSyscall_state\<close>)
qed (simp add: New_correlator_def new_state_def state_def)

lemma indexHasResource_mono: "indexHasResource index r \<Longrightarrow> set index \<subseteq> set index' \<Longrightarrow> indexHasResource index' r"
  by (auto simp: indexHasResource_def Let_def list_ex_iff)

section \<open>Reads that taint\<close>

lemma sensitive_for_session: "isSensitivePath p \<Longrightarrow> sensitiveFor (Some s) p"
  by (auto simp: isSensitivePath_def sensitiveFor_def Let_def wroteAgentSelf_def split: if_splits)

text \<open>A read of an absolute path that is sensitive to the session and that no prompt named.\<close>

definition reads :: "SessionEvent \<Rightarrow> bytes \<Rightarrow> bytes \<Rightarrow> bool" where
  "reads ev sid p \<longleftrightarrow>
     ev_Category ev = CategoryFile \<and> isReadLike (ev_Operation ev) \<and> \<not> isWriteLike (ev_Operation ev)
     \<and> ev_resource ev = p \<and> HasPrefix p [slash] \<and> sid \<noteq> [] \<and> ev_sid ev = sid"

lemma pruneIntents_keeps [simp]:
  "wroteSelf (pruneIntents w s) = wroteSelf s" "wroteSelfFull (pruneIntents w s) = wroteSelfFull s"
  "tainted (pruneIntents w s) = tainted s" "taintLabels (pruneIntents w s) = taintLabels s"
  "promptIndex (pruneIntents w s) = promptIndex s"
  by (simp_all add: pruneIntents_def)

lemma sensitiveFor_prune [simp]: "sensitiveFor (Some (pruneIntents w s)) p = sensitiveFor (Some s) p"
  by (simp add: sensitiveFor_def wroteAgentSelf_def)

lemma unseen_read:
  assumes "reads ev sid p" "sensitiveFor (Some (state sid (correl_runs ops))) p" "\<not> indexHasResource (prompt_texts ops) p"
  shows "set unseen_labels \<subseteq> set (fst (push_taint now ev (correl_runs ops)))"
    and "tainted (snd (push_taint now ev (correl_runs ops)))"
    and "set unseen_labels \<subseteq> set (taintLabels (snd (push_taint now ev (correl_runs ops))))"
proof -
  let ?c = "correl_runs ops"
  have "\<not> indexHasResource (co_globalIndex ?c) p" "\<not> indexHasResource (promptIndex (state sid ?c)) p"
    using seen_texts [of ops sid] indexHasResource_mono assms(3) by blast+
  with assms(1, 2) show "set unseen_labels \<subseteq> set (fst (push_taint now ev ?c))" "tainted (snd (push_taint now ev ?c))"
    "set unseen_labels \<subseteq> set (taintLabels (snd (push_taint now ev ?c)))"
    by (auto simp: push_taint_def applyTaint_def reads_def Let_def seen_def)
qed

lemma tainted_net:
  assumes "ev_Category ev = CategoryNetwork \<or> ev_Category ev = CategoryDNS" "tainted (state (ev_sid ev) c)"
  shows "set (fst (push_taint now ev c)) = insert data_flow (set (taintLabels (state (ev_sid ev) c)))"
  using assms by (auto simp: push_taint_def applyTaint_def)

lemma edge_kinds [simp]:
  "edgeKindFor CategoryFile opn = Some EdgeFileTouch" "edgeKindFor CategoryNetwork opn = Some EdgeConnect"
  "edgeKindFor CategoryDNS opn = Some EdgeDNS"
  by (simp_all add: edgeKindFor_def)

lemma push_action_taint: "ev_sid ev \<noteq> [] \<Longrightarrow> ca_Taint (push_action now ev c) = fst (push_taint now ev c)"
  by (simp add: push_action_def Let_def)

lemma push_action_session: "ca_SessionID (push_action now ev c) = ev_sid ev"
  by (simp add: push_action_def Let_def bare_action_def)

text \<open>Once tainted, for good.\<close>

lemma taint_flows:
  assumes "reads rd sid p" "sensitiveFor (Some (state sid (correl_runs before))) p" "\<not> indexHasResource (prompt_texts before) p"
    and "ev_Category net = CategoryNetwork \<or> ev_Category net = CategoryDNS" "ev_sid net = sid"
  shows "set [chars ''user-unseen'', chars ''sensitive'', chars ''data-flow'']
    \<subseteq> set (ca_Taint (push_action now' net (correl_runs (before @ OpSys now rd # between))))"
proof -
  let ?c = "correl_runs before" and ?c' = "correl_runs (before @ OpSys now rd # between)"
  have rd: "ev_Category rd = CategoryFile" "ev_sid rd = sid" "sid \<noteq> []" using assms(1) by (auto simp: reads_def)
  have "state sid (correl_runs (before @ [OpSys now rd])) = snd (push_taint now rd ?c)"
    using rd by (simp add: PushSyscall_state)
  then have "grows (snd (push_taint now rd ?c)) (state sid ?c')"
    using grows_runs [of sid "before @ [OpSys now rd]" between] by simp
  with unseen_read [OF assms(1-3), of now]
  have "tainted (state sid ?c')" "set unseen_labels \<subseteq> set (taintLabels (state sid ?c'))" by (auto simp: grows_def)
  with tainted_net [OF assms(4), of ?c' now'] assms(5) rd(3) show ?thesis
    by (auto simp: push_action_taint unseen_labels_def data_flow_def)
qed

section \<open>Staged secrets\<close>

definition writes :: "SessionEvent \<Rightarrow> bytes \<Rightarrow> bytes \<Rightarrow> bool" where
  "writes ev sid p \<longleftrightarrow>
     ev_Category ev = CategoryFile \<and> isWriteLike (ev_Operation ev)
     \<and> ev_resource ev = p \<and> HasPrefix p [slash] \<and> sid \<noteq> [] \<and> ev_sid ev = sid"

text \<open>A name that is sensitive wherever the file lies outside the public and system trees.\<close>

definition secret_name :: "bytes \<Rightarrow> bool" where
  "secret_name p \<longleftrightarrow>
     (let lp = ToLower p in
      \<not> list_ex (HasPrefix lp) publicPathPrefixes \<and> \<not> isSystemCodePath lp \<and> list_ex (Contains lp) sensitivePatterns)"

lemma sensitiveFor_iff:
  "sensitiveFor so p \<longleftrightarrow> secret_name p \<and> (isAgentSelfPath (ToLower p) \<longrightarrow> wroteAgentSelf so (ToLower p))"
  by (auto simp: sensitiveFor_def secret_name_def Let_def)

lemma noteWrite_wrote:
  assumes "isAgentSelfPath lp" "\<not> isProviderCredentialFile lp"
  shows "wroteAgentSelf (Some (noteWrite lp s)) lp"
  using assms by (simp add: wroteAgentSelf_def noteWrite_def)

lemma wrote_grows: "wroteAgentSelf (Some s) lp \<Longrightarrow> grows s s' \<Longrightarrow> wroteAgentSelf (Some s') lp"
  by (auto simp: wroteAgentSelf_def grows_def split: if_splits)

lemma write_noted:
  assumes "writes ev sid p" "isAgentSelfPath (ToLower p)" "\<not> isProviderCredentialFile (ToLower p)"
  shows "wroteAgentSelf (Some (snd (push_taint now ev c))) (ToLower p)"
  using assms noteWrite_wrote [of "ToLower p"]
  by (auto simp: push_taint_def applyTaint_def writes_def Let_def wroteAgentSelf_def)

lemma staged_sensitive:
  assumes "writes wr sid p" "secret_name p" "\<not> isProviderCredentialFile (ToLower p)"
  shows "sensitiveFor (Some (state sid (correl_runs (before @ OpSys now wr # middle)))) p"
proof (cases "isAgentSelfPath (ToLower p)")
  case True
  let ?c = "correl_runs before"
  have "state sid (correl_runs (before @ [OpSys now wr])) = snd (push_taint now wr ?c)"
    using assms(1) by (simp add: PushSyscall_state writes_def)
  then have "grows (snd (push_taint now wr ?c)) (state sid (correl_runs (before @ OpSys now wr # middle)))"
    using grows_runs [of sid "before @ [OpSys now wr]" middle] by simp
  with write_noted [OF assms(1) True assms(3)] show ?thesis
    using assms(2) wrote_grows by (metis sensitiveFor_iff)
qed (use assms(2) in \<open>simp add: sensitiveFor_iff\<close>)

section \<open>Attribution\<close>

text \<open>The tool calls of a session in the order of their arrival, and the times at which its events arrived.\<close>

fun tool_uses :: "bytes \<Rightarrow> correl_op list \<Rightarrow> pendingIntent list" where
  "tool_uses sid [] = []"
| "tool_uses sid (OpSem now ev # ops) =
     (case (sv_Kind ev, sv_ToolUse ev) of
        (SemToolUse, Some u) \<Rightarrow>
          (if sv_SessionID ev = sid
           then [\<lparr>pi_tool = u, pi_at = eventTime (sv_Time ev) (sv_TimestampNS ev) now, pi_pid = sv_HostPID ev\<rparr>] else [])
      | _ \<Rightarrow> []) @ tool_uses sid ops"
| "tool_uses sid (_ # ops) = tool_uses sid ops"

fun op_time :: "correl_op \<Rightarrow> int option" where
  "op_time (OpSem now ev) = Some (eventTime (sv_Time ev) (sv_TimestampNS ev) now)"
| "op_time (OpSys now ev) = Some (push_time now ev)"
| "op_time _ = None"

definition by_time :: "int \<Rightarrow> correl_op list \<Rightarrow> bool" where
  "by_time w ops \<longleftrightarrow> (\<forall>op \<in> set ops. \<forall>t. op_time op = Some t \<longrightarrow> t \<le> w)"

abbreviation recent :: "int \<Rightarrow> pendingIntent \<Rightarrow> bool" where
  "recent w \<equiv> \<lambda>i. w - intentWindow < pi_at i"

lemma last_match_filter: "last_match P xs = (if filter P xs = [] then None else Some (last (filter P xs)))"
  by (induction xs) auto

lemma tool_uses_snoc: "tool_uses sid (ops @ ops') = tool_uses sid ops @ tool_uses sid ops'"
  by (induction sid ops rule: tool_uses.induct) simp_all

lemma applyTaint_intents [simp]: "intents (snd (applyTaint gi ev (labels, s))) = intents s"
  by (simp add: applyTaint_def Let_def noteWrite_def split: category.split)

lemma filter_recent: "t \<le> w \<Longrightarrow> filter (\<lambda>i. recent t i \<and> recent w i) xs = filter (recent w) xs"
  by (induction xs) auto

lemma recent_intents:
  assumes "by_time w ops"
  shows "filter (recent w) (intents (state sid (correl_runs ops))) = filter (recent w) (tool_uses sid ops)"
  using assms
proof (induction ops rule: rev_induct)
  case (snoc op ops)
  then have IH: "filter (recent w) (intents (state sid (correl_runs ops))) = filter (recent w) (tool_uses sid ops)"
    by (simp add: by_time_def)
  show ?case
  proof (cases op)
    case (OpSem now ev)
    then have "eventTime (sv_Time ev) (sv_TimestampNS ev) now \<le> w" using snoc.prems by (simp add: by_time_def)
    then show ?thesis using OpSem IH
      by (cases "sv_Kind ev"; cases "sv_ToolUse ev")
        (auto simp: tool_uses_snoc PushSemantic_state indexText_def pruneIntents_def Let_def filter_recent)
  next
    case (OpSys now ev)
    then have "push_time now ev \<le> w" using snoc.prems by (simp add: by_time_def)
    then show ?thesis using OpSys IH
      by (auto simp: tool_uses_snoc PushSyscall_state push_taint_def pruneIntents_def filter_recent)
  qed (use IH in \<open>simp_all add: tool_uses_snoc\<close>)
qed (simp add: new_state_def)

section \<open>Bounds\<close>

definition session_ok :: "sessionState \<Rightarrow> bool" where
  "session_ok s \<longleftrightarrow>
     length (promptIndex s) \<le> promptIndexCap \<and> length (wroteSelf s) \<le> writtenPathCap \<and> distinct (wroteSelf s)
     \<and> (\<forall>lp \<in> set (wroteSelf s). isAgentSelfPath lp) \<and> taintLabels s = (if tainted s then unseen_labels else [])"

definition correl_ok :: "correlator \<Rightarrow> bool" where
  "correl_ok c \<longleftrightarrow>
     (\<forall>sid. session_ok (state sid c)) \<and> length (co_globalIndex c) \<le> promptIndexCap
     \<and> length (co_actions c) \<le> outputBuffer \<and> length (co_edges c) \<le> outputBuffer"

lemma index_text_length: "length index \<le> promptIndexCap \<Longrightarrow> length (index_text t index) \<le> promptIndexCap"
  by (auto simp: index_text_def keep_last_def Let_def)

lemma merge_unseen: "mergeLabels [] unseen_labels = unseen_labels" "mergeLabels unseen_labels unseen_labels = unseen_labels"
  by code_simp+

lemma session_ok_applyTaint: "session_ok s \<Longrightarrow> session_ok (snd (applyTaint gi ev (labels, s)))"
  by (auto simp: applyTaint_def Let_def noteWrite_def session_ok_def merge_unseen split: category.split)

lemma session_ok_prune [simp]: "session_ok (pruneIntents w s) = session_ok s"
  by (simp add: session_ok_def)

lemma emit_lengths:
  "length (co_actions c) \<le> outputBuffer \<Longrightarrow> length (co_actions (emitAction a c)) \<le> outputBuffer"
  "length (co_edges c) \<le> outputBuffer \<Longrightarrow> length (co_edges (emitEdge g c)) \<le> outputBuffer"
  "co_edges (emitAction a c) = co_edges c" "co_edges (set_state sid s c) = co_edges c"
  by (simp_all add: emitAction_def emitEdge_def set_state_def)

lemma correl_step_ok: "correl_ok c \<Longrightarrow> correl_ok (correl_step op c)"
proof (cases op)
  case (OpSem now ev)
  assume ok: "correl_ok c"
  have "session_ok (state sid (PushSemantic now ev c))" for sid
    using ok index_text_length
    by (cases "sv_Kind ev"; cases "sv_ToolUse ev")
      (auto simp: correl_ok_def PushSemantic_state indexText_def Let_def, auto simp: session_ok_def)
  then show ?thesis using OpSem ok
    by (auto simp: correl_ok_def PushSemantic_global index_text_length)
      (auto simp: PushSemantic_def Let_def emit_lengths indexGlobal_def split: SemanticKind.split option.split)
next
  case (OpSys now ev)
  assume ok: "correl_ok c"
  have "session_ok (state sid (PushSyscall now ev c))" for sid
    using ok session_ok_applyTaint by (simp add: PushSyscall_state push_taint_def correl_ok_def)
  then show ?thesis using OpSys ok
    by (auto simp: correl_ok_def)
      (auto simp: PushSyscall_def Let_def split_def emit_lengths split: option.split)
qed (auto simp: correl_ok_def)

lemma correl_runs_ok: "correl_ok (correl_runs ops)"
proof (induction ops rule: rev_induct)
  case Nil
  show ?case by (simp add: correl_ok_def session_ok_def new_state_def) (simp add: New_correlator_def)
qed (simp add: correl_step_ok)

section \<open>Properties\<close>

text \<open>
  C7. Exfiltration is flagged: when a session reads a secret by an absolute path, and no prompt of any session pushed so far
  contains the path or its last component, then whatever else is pushed before and after (tool calls that name
  the file, texts of the model, results of tools, events of other sessions), the action of every later connect or
  DNS query of that session is labelled \<open>user-unseen\<close>, \<open>sensitive\<close> and \<open>data-flow\<close>; it reaches the output unless
  the channel is full.
\<close>

theorem exfiltration_flagged:
  assumes "reads rd sid p" "isSensitivePath p" "\<not> indexHasResource (prompt_texts before) p"
    and "ev_Category net = CategoryNetwork \<or> ev_Category net = CategoryDNS" "ev_sid net = sid"
    and "c = correl_runs (before @ OpSys now rd # between)" "length (co_actions c) < 4096"
  shows "\<exists>a. co_actions (PushSyscall now' net c) = co_actions c @ [a] \<and> ca_SessionID a = sid
    \<and> set [chars ''user-unseen'', chars ''sensitive'', chars ''data-flow''] \<subseteq> set (ca_Taint a)"
proof -
  have "co_actions (PushSyscall now' net c) = co_actions c @ [push_action now' net c]"
    using assms(4, 7) PushSyscall_actions [of net now' c] by (auto simp: outputBuffer_def)
  then show ?thesis
    using taint_flows [OF assms(1) sensitive_for_session [OF assms(2)] assms(3-5), of now' now between] assms(5, 6)
    by (simp add: push_action_session)
qed

text \<open>
  The examples: events of the session \<open>s1\<close>, a tool result that names the credentials of the user, their read, and a
  connect.
\<close>

definition header_for :: "s32 \<Rightarrow> Header" where
  "header_for pid = \<lparr>EventType = 0, Category = 0, CPUID = 0, DataLen = 0, Timestamp = 1, CgroupID = 7, HostPPID = 1,
     HostPID = pid, HostTID = pid, PID = pid, TID = pid, UID = 0, GID = 0, PidNS = 0, MntNS = 0, SyscallID = 0, RetVal = 0, Comm = []\<rparr>"

definition event_of :: "category \<Rightarrow> string \<Rightarrow> resource \<Rightarrow> int \<Rightarrow> SessionEvent" where
  "event_of cat opn res t = \<lparr>ev_header = header_for 4, ev_Name = opn, ev_Category = cat, ev_Operation = opn, ev_Resource = res,
     ev_ExePath = [], ev_DNS = None, ev_Time = t, ev_Session = Some (chars ''s1'', AgentCodex)\<rparr>"

definition sem_of :: "SemanticKind \<Rightarrow> string \<Rightarrow> ToolUse option \<Rightarrow> int \<Rightarrow> SemanticEvent" where
  "sem_of k txt u t = \<lparr>sv_Time = t, sv_TimestampNS = 1, sv_SessionID = chars ''s1'', sv_HostPID = 4, sv_Kind = k, sv_Provider = [],
     sv_Text = chars txt, sv_ToolUse = u, sv_MCPMethod = [], sv_DBQuery = None\<rparr>"

definition aws_credentials :: string where "aws_credentials = ''/home/u/.aws/credentials''"

definition connect_out :: "int \<Rightarrow> SessionEvent" where
  "connect_out t = event_of CategoryNetwork ''connect'' (Address (Inet [10, 1, 2, 3] 443)) t"

theorem exfiltration_flagged_witness:
  "\<exists>a. co_actions (PushSyscall 9 (connect_out 3)
       (correl_runs [OpSem 1 (sem_of SemToolResult ''now read ~/.aws/credentials'' None 1),
          OpSys 2 (event_of CategoryFile ''read'' (Text (chars aws_credentials)) 2), TakeAction])) = [a]
     \<and> ca_SessionID a = chars ''s1''
     \<and> set [chars ''user-unseen'', chars ''sensitive'', chars ''data-flow''] \<subseteq> set (ca_Taint a)"
proof -
  let ?rd = "event_of CategoryFile ''read'' (Text (chars aws_credentials)) 2"
  let ?before = "[OpSem 1 (sem_of SemToolResult ''now read ~/.aws/credentials'' None 1)]"
  have "reads ?rd (chars ''s1'') (chars aws_credentials)" "isSensitivePath (chars aws_credentials)"
    "\<not> indexHasResource (prompt_texts ?before) (chars aws_credentials)"
    "ev_Category (connect_out 3) = CategoryNetwork \<or> ev_Category (connect_out 3) = CategoryDNS"
    "ev_sid (connect_out 3) = chars ''s1''"
    "co_actions (correl_runs (?before @ OpSys 2 ?rd # [TakeAction])) = []"
    by code_simp+
  then show ?thesis
    using exfiltration_flagged [of ?rd "chars ''s1''" "chars aws_credentials" ?before "connect_out 3" _ 2 "[TakeAction]" 9, OF _ _ _ _ _ refl]
    by simp
qed

text \<open>
  C32. A secret that a session stages in the agent's own configuration directory is not laundered: after
  the session wrote a file with a sensitive name, whatever directory it lies in (the public and system trees
  apart), reading it back under any capitalisation of the path without a prompt that names it taints the session, and its
  later connects carry the labels; also when the record of written paths is full. The files the providers
  themselves rewrite are the exception.
\<close>

theorem staged_secret_flagged:
  assumes "writes wr sid q" "reads rd sid p" "ToLower q = ToLower p" "secret_name p" "\<not> isProviderCredentialFile (ToLower p)"
    and "\<not> indexHasResource (prompt_texts (before @ OpSys now wr # middle)) p"
    and "ev_Category net = CategoryNetwork \<or> ev_Category net = CategoryDNS" "ev_sid net = sid"
  shows "set [chars ''user-unseen'', chars ''sensitive'', chars ''data-flow'']
    \<subseteq> set (ca_Taint (push_action now'' net (correl_runs (before @ OpSys now wr # middle @ OpSys now' rd # after))))"
proof -
  have "secret_name q" "sensitiveFor so q = sensitiveFor so p" for so
    using assms(3, 4) by (simp_all add: sensitiveFor_def secret_name_def)
  then have "sensitiveFor (Some (state sid (correl_runs (before @ OpSys now wr # middle)))) p"
    using staged_sensitive [OF assms(1)] assms(3, 5) by simp
  from taint_flows [OF assms(2) this assms(6-8)] show ?thesis by simp
qed

theorem staged_secret_flagged_witness:
  "set [chars ''user-unseen'', chars ''sensitive'', chars ''data-flow'']
    \<subseteq> set (ca_Taint (push_action 9 (connect_out 3) (correl_runs
        [OpSys 1 (event_of CategoryFile ''write'' (Text (chars ''/home/u/.claude/x.pem'')) 1),
         OpSys 2 (event_of CategoryFile ''read'' (Text (chars ''/home/u/.claude/X.pem'')) 2)])))"
proof -
  let ?q = "chars ''/home/u/.claude/x.pem''" and ?p = "chars ''/home/u/.claude/X.pem''"
  let ?wr = "event_of CategoryFile ''write'' (Text ?q) 1" and ?rd = "event_of CategoryFile ''read'' (Text ?p) 2"
  have "writes ?wr (chars ''s1'') ?q" "reads ?rd (chars ''s1'') ?p" "ToLower ?q = ToLower ?p" "secret_name ?p"
    "\<not> isProviderCredentialFile (ToLower ?p)" "\<not> indexHasResource (prompt_texts ([] @ OpSys 1 ?wr # [])) ?p"
    "ev_Category (connect_out 3) = CategoryNetwork \<or> ev_Category (connect_out 3) = CategoryDNS"
    "ev_sid (connect_out 3) = chars ''s1''"
    by code_simp+
  from staged_secret_flagged [OF this, of 9 2 "[]"] show ?thesis by simp
qed

text \<open>
  C33. An effect is attributed to the most recent tool call of its session: when the events pushed so far are not later than
  the effect, its action names the last \<open>tool_use\<close> of the session less than five seconds old, with the
  mismatch between that call's declared class and the effect, and no tool when there is none.
\<close>

theorem intent_attribution:
  assumes "ev_sid ev = sid" "sid \<noteq> []" "by_time (push_time now ev) ops"
    and "fs = filter (\<lambda>i. push_time now ev - pi_at i < 5000000000) (tool_uses sid ops)"
    and "a = push_action now ev (correl_runs ops)"
  shows "if fs = [] then ca_ToolUseID a = [] \<and> ca_IntentClass a = [] \<and> \<not> ca_Mismatch a
     else let u = pi_tool (last fs) in
       ca_ToolUseID a = tu_ID u \<and> ca_ToolName a = tu_Name u \<and> ca_IntentClass a = tu_IntentClass u
       \<and> ca_Mismatch a = (mismatch (tu_IntentClass u) (ev_Category ev) (ev_Operation ev) \<noteq> None)"
proof -
  let ?w = "push_time now ev"
  have "recent ?w = (\<lambda>i. ?w - pi_at i < 5000000000)" by (auto simp: intentWindow_def)
  then have "latestIntent (pruneIntents ?w (state sid (correl_runs ops))) ?w = (if fs = [] then None else Some (last fs))"
    using recent_intents [OF assms(3), of sid] assms(4)
    by (simp add: latestIntent_def last_match_filter pruneIntents_def)
  then show ?thesis using assms(1, 2, 5)
    by (simp add: push_action_def bare_action_def attribute_def Let_def split: option.split)
qed

definition read_tool :: ToolUse where
  "read_tool = \<lparr>tu_ID = chars ''t1'', tu_Name = chars ''Read'', tu_IntentClass = chars ''read''\<rparr>"

theorem intent_attribution_witness:
  "ca_ToolUseID (push_action 9 (connect_out 5) (correl_runs [OpSem 1 (sem_of SemToolUse [] (Some read_tool) 2)])) = chars ''t1''
   \<and> ca_Mismatch (push_action 9 (connect_out 5) (correl_runs [OpSem 1 (sem_of SemToolUse [] (Some read_tool) 2)]))"
proof -
  let ?ops = "[OpSem 1 (sem_of SemToolUse [] (Some read_tool) 2)]" and ?ev = "connect_out 5"
  let ?fs = "filter (\<lambda>i. push_time 9 ?ev - pi_at i < 5000000000) (tool_uses (chars ''s1'') ?ops)"
  have h: "ev_sid ?ev = chars ''s1''" "chars ''s1'' \<noteq> []" by code_simp+
  have t: "push_time 9 ?ev = 5" "eventTime 2 1 1 = 2" by code_simp+
  then have "by_time (push_time 9 ?ev) ?ops" by (simp add: by_time_def sem_of_def)
  note at = intent_attribution [OF h this refl refl]
  moreover have "?fs = [\<lparr>pi_tool = read_tool, pi_at = 2, pi_pid = 4\<rparr>]" using t by (simp add: sem_of_def)
  moreover have "mismatch (tu_IntentClass read_tool) (ev_Category ?ev) (ev_Operation ?ev) \<noteq> None" by code_simp
  ultimately show ?thesis by (simp add: read_tool_def Let_def)
qed

text \<open>
  C36. Bounds of the correlator, whatever is pushed and taken: at most 128 texts in every index, at
  most 4096 written paths per session, distinct and all below an agent's own directory, at most 4096 items in each output, and a session has
  labels exactly when it is tainted.
\<close>

theorem correlator_bounds:
  "length (co_globalIndex (correl_runs ops)) \<le> 128 \<and> length (co_actions (correl_runs ops)) \<le> 4096
   \<and> length (co_edges (correl_runs ops)) \<le> 4096 \<and> session_ok (state sid (correl_runs ops))"
  using correl_runs_ok [of ops] by (simp add: correl_ok_def promptIndexCap_def outputBuffer_def)

text \<open>
  An open for reading and writing is reported as a write, and a write taints nothing: the session reads a secret
  it opened that way unnoticed.
\<close>

lemma rdwr_open_untainted:
  assumes "ev_Operation ev = ''write''"
  shows "tainted (snd (push_taint now ev c)) = tainted (state (ev_sid ev) c)"
proof -
  have "\<not> isReadLike ''write''" by code_simp
  with assms show ?thesis by (simp add: push_taint_def applyTaint_def Let_def noteWrite_def split: category.split)
qed

end
