(* ===== verification/AK_Sessions.thy ===== *)
theory AK_Sessions
  imports AK_Correlate AK_ProcTree
begin

text \<open>
  The session manager, \<open>internal/session/manager.go\<close>: it detects agents among the processes that
  execute, keeps the sessions with their members in four indexes, ends them when their root exits, and attaches
  the session to every event. A session is shared by pointer between the indexes, so the model keeps the sessions in a store
  by their identifier and the indexes hold identifiers. What the manager reads from \<open>/proc\<close> and
  the control groups is a record of file contents; identifiers come from the caller, who promises fresh ones. The
  attach plan and the end time of a session are left out.
\<close>

section \<open>What the manager reads\<close>

text \<open>
  Contents of \<open>/proc/pid/cmdline\<close>, the target of \<open>/proc/pid/exe\<close>, contents of \<open>/proc/pid/stat\<close> and of
  \<open>cgroup.procs\<close> in a directory; and what making a directory, writing a pid to its
  \<open>cgroup.procs\<close> and reading its inode number give (\<open>None\<close> when one of them fails).
\<close>

record os =
  os_self :: s32
  os_cmdline :: "s32 \<Rightarrow> bytes option"
  os_exe :: "s32 \<Rightarrow> bytes option"
  os_stat :: "s32 \<Rightarrow> bytes option"
  os_cgprocs :: "bytes \<Rightarrow> bytes option"
  os_place :: "bytes \<Rightarrow> s32 \<Rightarrow> u64 option"

text \<open>\<open>filepath.Base\<close>, \<open>filepath.Join\<close> for a rooted first element, \<open>strings.FieldsFunc\<close>, \<open>strings.TrimSuffix\<close>.\<close>

definition filepath_Base :: "bytes \<Rightarrow> bytes" where
  "filepath_Base p =
     (if p = [] then [dot] else let q = trim_slashes p in if q = [] then [slash] else after_slash q)"

definition clean_push :: "bytes \<Rightarrow> bytes list \<Rightarrow> bytes list" where
  "clean_push part acc =
     (if part = [] \<or> part = [dot] then acc else if part = [dot, dot] then tl acc else part # acc)"

definition filepath_Join :: "bytes list \<Rightarrow> bytes" where
  "filepath_Join elems = slash # join [slash] (rev (fold clean_push (concat (map (split_on slash) elems)) []))"

fun FieldsFunc :: "(u8 \<Rightarrow> bool) \<Rightarrow> bytes \<Rightarrow> bytes \<Rightarrow> bytes list" where
  "FieldsFunc P acc [] = (if acc = [] then [] else [rev acc])"
| "FieldsFunc P acc (c # cs) =
     (if P c then (if acc = [] then FieldsFunc P [] cs else rev acc # FieldsFunc P [] cs)
      else FieldsFunc P (c # acc) cs)"

definition TrimSuffix :: "bytes \<Rightarrow> bytes \<Rightarrow> bytes" where
  "TrimSuffix s t = (if HasSuffix s t then take (length s - length t) s else s)"

section \<open>Detection\<close>

definition defaultSignatures :: "bytes list" where
  "defaultSignatures = map chars [''claude'', ''codex'', ''crush'', ''gemini'', ''copilot'']"

definition signatureToKind :: "bytes \<Rightarrow> AgentKind" where
  "signatureToKind sig =
     (if sig = chars ''claude'' \<or> sig = chars ''claude-code'' then AgentClaudeCode
      else if sig = chars ''codex'' then AgentCodex
      else if sig = chars ''crush'' then AgentCrush
      else if sig = chars ''gemini'' then AgentGemini
      else if sig = chars ''copilot'' then AgentCopilot
      else AgentUnknown)"

fun matchSignature :: "bytes \<Rightarrow> bytes list \<Rightarrow> AgentKind" where
  "matchSignature name [] = AgentUnknown"
| "matchSignature name (sg # sgs) =
     (let sig = ToLower (TrimSpace sg)
      in if sig = [] then matchSignature name sgs
         else if name = sig \<or> HasPrefix name (sig @ [dot]) \<or> HasPrefix name (sig @ [0x2d]) then signatureToKind sig
         else matchSignature name sgs)"

fun match_component :: "bytes \<Rightarrow> bytes list \<Rightarrow> AgentKind option" where
  "match_component part [] = None"
| "match_component part (sg # sgs) =
     (let sig = ToLower (TrimSpace sg)
      in if sig \<noteq> [] \<and> part = sig then Some (signatureToKind sig) else match_component part sgs)"

fun match_components :: "bytes list \<Rightarrow> bytes list \<Rightarrow> AgentKind" where
  "match_components [] signatures = AgentUnknown"
| "match_components (c # cs) signatures =
     (let part = ToLower (TrimSpace c)
      in if part = [] then match_components cs signatures
         else case match_component (TrimSuffix part (chars ''.js'')) signatures of
                Some kind \<Rightarrow> kind
              | None \<Rightarrow> match_components cs signatures)"

definition matchPathComponents :: "bytes \<Rightarrow> bytes list \<Rightarrow> AgentKind" where
  "matchPathComponents p signatures = match_components (split_on slash p) signatures"

definition splitCmdline :: "bytes \<Rightarrow> bytes list" where
  "splitCmdline cmdline = FieldsFunc (\<lambda>c. c = 0 \<or> c = 0x20 \<or> c = 0x09 \<or> c = 0x0a) [] cmdline"

definition runtimes :: "bytes list" where
  "runtimes = map chars [''node'', ''nodejs'', ''bun'', ''deno'', ''python'', ''python3'']"

fun classify_loop :: "bytes list \<Rightarrow> bytes list \<Rightarrow> bytes list \<Rightarrow> AgentKind" where
  "classify_loop signatures tokens [] = AgentUnknown"
| "classify_loop signatures tokens (c # cs) =
     (let name = ToLower (TrimSpace c);
          kind = (if name \<in> set runtimes
                  then (if 1 < length tokens then matchPathComponents (tokens ! 1) signatures else AgentUnknown)
                  else matchSignature name signatures)
      in if kind \<noteq> AgentUnknown then kind else classify_loop signatures tokens cs)"

definition classify_agent :: "bytes list \<Rightarrow> bytes \<Rightarrow> bytes \<Rightarrow> AgentKind" where
  "classify_agent signatures exePath cmdline =
     (let tokens = splitCmdline cmdline
      in classify_loop signatures tokens
           ((if exePath = [] then [] else [filepath_Base exePath])
            @ (if tokens = [] then [] else [filepath_Base (tokens ! 0)])))"

definition readCmdline :: "os \<Rightarrow> s32 \<Rightarrow> bytes" where
  "readCmdline os pid = (case os_cmdline os pid of None \<Rightarrow> [] | Some b \<Rightarrow> b)"

section \<open>State\<close>

record manager =
  mg_signatures :: "bytes list"
  mg_cgroupParent :: bytes
  mg_ManageCgroup :: bool
  mg_store :: "bytes \<rightharpoonup> session"
  mg_byID :: "bytes list"
  mg_byCgroup :: "u64 \<rightharpoonup> bytes"
  mg_byRootPID :: "s32 \<rightharpoonup> bytes"
  mg_pidIndex :: "s32 \<rightharpoonup> bytes"
  mg_history :: "bytes list"

definition historyMax :: nat where "historyMax = 256"

definition cgroupRoot :: bytes where "cgroupRoot = chars ''/sys/fs/cgroup''"

definition cgroupNamePrefix :: bytes where "cgroupNamePrefix = chars ''session-''"

definition New_manager :: "bytes list \<Rightarrow> bytes \<Rightarrow> bool \<Rightarrow> manager" where
  "New_manager signatures parent manage =
     \<lparr>mg_signatures = (if signatures = [] then defaultSignatures else signatures),
      mg_cgroupParent = (if parent = [] then chars ''agentknox.slice'' else parent), mg_ManageCgroup = manage,
      mg_store = Map.empty, mg_byID = [], mg_byCgroup = Map.empty, mg_byRootPID = Map.empty, mg_pidIndex = Map.empty,
      mg_history = []\<rparr>"

text \<open>The session behind an index entry.\<close>

definition deref :: "manager \<Rightarrow> bytes option \<Rightarrow> session option" where
  "deref m i = Option.bind i (mg_store m)"

definition update_session :: "bytes \<Rightarrow> (session \<Rightarrow> session) \<Rightarrow> manager \<Rightarrow> manager" where
  "update_session sid f m = m\<lparr>mg_store := (mg_store m)(sid := map_option f (mg_store m sid))\<rparr>"

definition addMemberLocked :: "bytes \<Rightarrow> s32 \<Rightarrow> manager \<Rightarrow> manager" where
  "addMemberLocked sid pid m =
     (if mg_pidIndex m pid \<noteq> None then m
      else (update_session sid (\<lambda>s. s\<lparr>sess_Members := sess_Members s @ [pid]\<rparr>) m)
             \<lparr>mg_pidIndex := (mg_pidIndex m)(pid \<mapsto> sid)\<rparr>)"

section \<open>Creation\<close>

definition ev_cgroup :: "SessionEvent \<Rightarrow> u64" where
  "ev_cgroup ev = CgroupID (ev_header ev)"

definition ev_pid :: "SessionEvent \<Rightarrow> s32" where
  "ev_pid ev = HostPID (ev_header ev)"

text \<open>The active session that owns the managed control group of the event.\<close>

definition managed_owner :: "manager \<Rightarrow> u64 \<Rightarrow> bytes option" where
  "managed_owner m cg =
     (case mg_byCgroup m cg of
        None \<Rightarrow> None
      | Some sid \<Rightarrow>
          (case mg_store m sid of
             None \<Rightarrow> None
           | Some s \<Rightarrow>
               if ss_State s = SessionActive \<and> ss_CgroupPath s \<noteq> [] \<and> cg = sess_CgroupID s then Some sid else None))"

definition active_root :: "manager \<Rightarrow> s32 \<Rightarrow> bytes option" where
  "active_root m pid =
     (case mg_byRootPID m pid of
        None \<Rightarrow> None
      | Some sid \<Rightarrow> (case mg_store m sid of
          None \<Rightarrow> None | Some s \<Rightarrow> if ss_State s = SessionActive then Some sid else None))"

text \<open>First critical section: fold into a session that exists, or go on to a new one.\<close>

definition create_check :: "SessionEvent \<Rightarrow> manager \<Rightarrow> bytes option \<times> manager" where
  "create_check ev m =
     (case active_root m (ev_pid ev) of
        Some sid \<Rightarrow> (Some sid, m)
      | None \<Rightarrow>
          (case managed_owner m (ev_cgroup ev) of
             Some sid \<Rightarrow> (Some sid, addMemberLocked sid (ev_pid ev) m)
           | None \<Rightarrow> (None, m)))"

definition placeInCgroup :: "os \<Rightarrow> manager \<Rightarrow> s32 \<Rightarrow> bytes \<Rightarrow> (bytes \<times> u64) option" where
  "placeInCgroup os m pid sid =
     (let dir = filepath_Join [cgroupRoot, mg_cgroupParent m, cgroupNamePrefix @ sid]
      in map_option (\<lambda>ino. (dir, ino)) (os_place os dir pid))"

definition nowFrom :: "SessionEvent \<Rightarrow> int \<Rightarrow> int" where
  "nowFrom ev now = (if ev_Time ev \<noteq> zero_time then ev_Time ev else now)"

definition new_session :: "SessionEvent \<Rightarrow> AgentKind \<Rightarrow> bytes \<Rightarrow> int \<Rightarrow> (bytes \<times> u64) option \<Rightarrow> session" where
  "new_session ev kind sid now home =
     \<lparr>sess_CgroupID = (case home of None \<Rightarrow> ev_cgroup ev | Some (path, cgid) \<Rightarrow> cgid),
      sess_RootPID = ev_pid ev, sess_Members = [ev_pid ev], ss_ID = sid, ss_Agent = kind,
      ss_CgroupPath = (case home of None \<Rightarrow> [] | Some (path, cgid) \<Rightarrow> path),
      ss_StartTime = nowFrom ev now, ss_State = SessionActive, ss_Coverage = CoverageNone, ss_WireIntents = 0, ss_Tampered = False\<rparr>"

text \<open>Second critical section: the new session enters the indexes.\<close>

definition create_register :: "session \<Rightarrow> SessionEvent \<Rightarrow> manager \<Rightarrow> manager" where
  "create_register s ev m =
     (let cg = (mg_byCgroup m)(sess_CgroupID s \<mapsto> ss_ID s);
          cg' = (if ev_cgroup ev \<noteq> 0 \<and> ev_cgroup ev \<noteq> sess_CgroupID s then cg(ev_cgroup ev \<mapsto> ss_ID s) else cg)
      in m\<lparr>mg_store := (mg_store m)(ss_ID s \<mapsto> s), mg_byID := ss_ID s # mg_byID m,
           mg_byRootPID := (mg_byRootPID m)(ev_pid ev \<mapsto> ss_ID s),
           mg_pidIndex := (mg_pidIndex m)(ev_pid ev \<mapsto> ss_ID s), mg_byCgroup := cg'\<rparr>)"

text \<open>The session of the event, and whether it is new.\<close>

definition createSession ::
  "os \<Rightarrow> bytes \<Rightarrow> int \<Rightarrow> SessionEvent \<Rightarrow> AgentKind \<Rightarrow> manager \<Rightarrow> (bytes \<times> bool) option \<times> manager" where
  "createSession os fresh now ev kind m =
     (case create_check ev m of
        (Some sid, m') \<Rightarrow> (Some (sid, False), m')
      | (None, m') \<Rightarrow>
          let home = (if mg_ManageCgroup m' then placeInCgroup os m' (ev_pid ev) fresh else None)
          in (Some (fresh, True), create_register (new_session ev kind fresh now home) ev m'))"

definition exec_path :: "SessionEvent \<Rightarrow> bytes" where
  "exec_path ev = (if res_text (ev_Resource ev) = [] then ev_ExePath ev else res_text (ev_Resource ev))"

definition OnExec ::
  "os \<Rightarrow> bytes \<Rightarrow> int \<Rightarrow> SessionEvent \<Rightarrow> manager \<Rightarrow> (bytes \<times> bool) option \<times> manager" where
  "OnExec os fresh now ev m =
     (if ev_Category ev \<noteq> CategoryProcess \<or> ev_Operation ev \<noteq> ''exec'' then (None, m)
      else if ev_pid ev = os_self os then (None, m)
      else case (if ev_cgroup ev \<noteq> 0 then managed_owner m (ev_cgroup ev) else None) of
        Some sid \<Rightarrow> (Some (sid, False), addMemberLocked sid (ev_pid ev) m)
      | None \<Rightarrow>
          let kind = classify_agent (mg_signatures m) (exec_path ev) (readCmdline os (ev_pid ev))
          in if kind \<noteq> AgentUnknown then createSession os fresh now ev kind m
             else
               (None,
                case mg_pidIndex m (HostPPID (ev_header ev)) of
                  None \<Rightarrow> m
                | Some sid \<Rightarrow>
                    (case mg_store m sid of
                       None \<Rightarrow> m
                     | Some s \<Rightarrow> if ss_State s = SessionActive then addMemberLocked sid (ev_pid ev) m else m)))"

definition AgentOf :: "os \<Rightarrow> manager \<Rightarrow> s32 \<Rightarrow> AgentKind" where
  "AgentOf os m pid =
     classify_agent (mg_signatures m) (case os_exe os pid of None \<Rightarrow> [] | Some e \<Rightarrow> e) (readCmdline os pid)"

section \<open>Exit\<close>

definition procAlive :: "os \<Rightarrow> s32 \<Rightarrow> bool" where
  "procAlive os pid =
     (case os_stat os pid of
        None \<Rightarrow> False
      | Some contents \<Rightarrow>
          let rest = rev (takeWhile (\<lambda>c. c \<noteq> 0x29) (rev contents))
          in 0x29 \<in> set contents \<and> 2 \<le> length rest \<and> rest ! 1 \<notin> {0x5a, 0x58, 0x78})"

fun first_live :: "os \<Rightarrow> s32 \<Rightarrow> bytes list \<Rightarrow> s32" where
  "first_live os excl [] = 0"
| "first_live os excl (l # ls) =
     (let line = TrimSpace l
      in if line = [] then first_live os excl ls
         else case Atoi line of
                None \<Rightarrow> first_live os excl ls
              | Some v \<Rightarrow>
                  if of_int v = excl then first_live os excl ls
                  else if procAlive os (of_int v) then of_int v else first_live os excl ls)"

definition firstLiveProcExcept :: "os \<Rightarrow> bytes \<Rightarrow> s32 \<Rightarrow> s32" where
  "firstLiveProcExcept os dir excl =
     (case os_cgprocs os dir of None \<Rightarrow> 0 | Some contents \<Rightarrow> first_live os excl (split_lines contents))"

definition drop_member :: "s32 \<Rightarrow> session \<Rightarrow> session" where
  "drop_member pid s = s\<lparr>sess_Members := remove1 pid (sess_Members s)\<rparr>"

definition adopt_root :: "bytes \<Rightarrow> session \<Rightarrow> s32 \<Rightarrow> s32 \<Rightarrow> manager \<Rightarrow> manager" where
  "adopt_root sid s pid new m =
     addMemberLocked sid new
       ((update_session sid (\<lambda>s. (drop_member pid s)\<lparr>sess_RootPID := new\<rparr>) m)
          \<lparr>mg_pidIndex := (mg_pidIndex m)(pid := None),
           mg_byRootPID := ((mg_byRootPID m)(sess_RootPID s := None))(new \<mapsto> sid)\<rparr>)"

definition end_session :: "bytes \<Rightarrow> session \<Rightarrow> manager \<Rightarrow> manager" where
  "end_session sid s m =
     (let m1 = (update_session sid (\<lambda>s. s\<lparr>ss_State := SessionEnded\<rparr>) m)
                 \<lparr>mg_pidIndex := (\<lambda>p. if p \<in> set (sess_Members s) then None else mg_pidIndex m p),
                  mg_byRootPID := (mg_byRootPID m)(sess_RootPID s := None),
                  mg_byCgroup := (mg_byCgroup m)(sess_CgroupID s := None),
                  mg_history := mg_history m @ [sid]\<rparr>
      in if historyMax < length (mg_history m1)
         then m1\<lparr>mg_history := tl (mg_history m1), mg_byID := removeAll (hd (mg_history m1)) (mg_byID m1)\<rparr>
         else m1)"

text \<open>Which callback runs after the exit.\<close>

datatype exit_note = NoCallback | OnSessionEnded bytes | OnMemberExit bytes s32

definition OnExit :: "os \<Rightarrow> SessionEvent \<Rightarrow> manager \<Rightarrow> exit_note \<times> manager" where
  "OnExit os ev m =
     (let pid = ev_pid ev in
      case mg_pidIndex m pid of
        None \<Rightarrow> (NoCallback, m)
      | Some sid \<Rightarrow>
          (case mg_store m sid of
             None \<Rightarrow> (NoCallback, m)
           | Some s \<Rightarrow>
               if sess_RootPID s = pid then
                 let adopt = (if ss_CgroupPath s \<noteq> [] then firstLiveProcExcept os (ss_CgroupPath s) pid else 0)
                 in if adopt \<noteq> 0 then (NoCallback, adopt_root sid s pid adopt m)
                    else (OnSessionEnded sid, end_session sid s m)
               else
                 (OnMemberExit sid pid,
                  (update_session sid (drop_member pid) m)\<lparr>mg_pidIndex := (mg_pidIndex m)(pid := None)\<rparr>)))"

section \<open>Lookup\<close>

definition LookupByCgroup :: "manager \<Rightarrow> u64 \<Rightarrow> session option" where
  "LookupByCgroup m cg = (if cg = 0 then None else deref m (mg_byCgroup m cg))"

definition LookupByPID :: "manager \<Rightarrow> s32 \<Rightarrow> session option" where
  "LookupByPID m pid = (if pid \<le>s 0 then None else deref m (mg_pidIndex m pid))"

definition LookupByID :: "manager \<Rightarrow> bytes \<Rightarrow> session option" where
  "LookupByID m sid = (if sid \<in> set (mg_byID m) then mg_store m sid else None)"

definition Enrich :: "manager \<Rightarrow> SessionEvent \<Rightarrow> SessionEvent" where
  "Enrich m ev =
     (case (case deref m (mg_pidIndex m (ev_pid ev)) of
              Some s \<Rightarrow> Some s
            | None \<Rightarrow> deref m (mg_byCgroup m (ev_cgroup ev))) of
        None \<Rightarrow> ev
      | Some s \<Rightarrow> ev\<lparr>ev_Session := Some (ss_ID s, ss_Agent s)\<rparr>)"

definition List_sessions :: "manager \<Rightarrow> session list" where
  "List_sessions m = List.map_filter (mg_store m) (mg_byID m)"

definition CgroupHasActiveSession :: "manager \<Rightarrow> u64 \<Rightarrow> bytes \<Rightarrow> bool" where
  "CgroupHasActiveSession m cgid excludeID \<longleftrightarrow>
     cgid \<noteq> 0 \<and> list_ex (\<lambda>s. ss_ID s \<noteq> excludeID \<and> ss_State s = SessionActive \<and> sess_CgroupID s = cgid) (List_sessions m)"

text \<open>The setters find a session through \<open>byID\<close>.\<close>

definition set_by_id :: "bytes \<Rightarrow> (session \<Rightarrow> session) \<Rightarrow> manager \<Rightarrow> manager" where
  "set_by_id sid f m = (if sid \<in> set (mg_byID m) then update_session sid f m else m)"

definition SetAttachPlan :: "bytes \<Rightarrow> SemanticCoverage option \<Rightarrow> manager \<Rightarrow> manager" where
  "SetAttachPlan sid plan = set_by_id sid (\<lambda>s. case plan of None \<Rightarrow> s | Some c \<Rightarrow> s\<lparr>ss_Coverage := c\<rparr>)"

definition SetCoverage :: "bytes \<Rightarrow> SemanticCoverage \<Rightarrow> manager \<Rightarrow> manager" where
  "SetCoverage sid c = set_by_id sid (\<lambda>s. s\<lparr>ss_Coverage := c\<rparr>)"

definition NoteWireIntent :: "bytes \<Rightarrow> manager \<Rightarrow> manager" where
  "NoteWireIntent sid = set_by_id sid (\<lambda>s. s\<lparr>ss_WireIntents := ss_WireIntents s + 1\<rparr>)"

definition WireIntents :: "manager \<Rightarrow> bytes \<Rightarrow> nat option" where
  "WireIntents m sid = map_option ss_WireIntents (LookupByID m sid)"

definition MarkTampered :: "bytes \<Rightarrow> manager \<Rightarrow> manager" where
  "MarkTampered sid = set_by_id sid (\<lambda>s. s\<lparr>ss_Tampered := True\<rparr>)"

section \<open>Control groups\<close>

text \<open>
  Removing a directory: the outcomes of the successive attempts, \<open>None\<close> for success or a directory that is gone,
  \<open>Some e\<close> for another error. The last outcome repeats.
\<close>

fun release_loop :: "nat \<Rightarrow> (nat \<Rightarrow> 'e option) \<Rightarrow> nat \<Rightarrow> 'e option" where
  "release_loop 0 outcome i = outcome i"
| "release_loop (Suc retries) outcome i =
     (case outcome i of None \<Rightarrow> None | Some e \<Rightarrow> release_loop retries outcome (i + 1))"

definition releaseCgroup :: "bytes \<Rightarrow> nat \<Rightarrow> (bytes \<Rightarrow> nat \<Rightarrow> 'e option) \<Rightarrow> 'e option" where
  "releaseCgroup dir retries remove =
     (if dir = [] \<or> \<not> Contains dir cgroupNamePrefix then None else release_loop retries (remove dir) 0)"

definition ReleaseSessionCgroup :: "session \<Rightarrow> (bytes \<Rightarrow> nat \<Rightarrow> 'e option) \<Rightarrow> 'e option" where
  "ReleaseSessionCgroup s remove =
     (if ss_CgroupPath s = [] then None else releaseCgroup (ss_CgroupPath s) 5 remove)"

definition orphanCgroupDirs :: "(bytes \<Rightarrow> (bytes \<times> bool) list option) \<Rightarrow> (bytes \<Rightarrow> bytes option) \<Rightarrow> bytes \<Rightarrow> bytes list" where
  "orphanCgroupDirs readDir procs parent =
     (case readDir parent of
        None \<Rightarrow> []
      | Some entries \<Rightarrow>
          List.map_filter (\<lambda>(name, isDir).
            if \<not> isDir \<or> \<not> HasPrefix name cgroupNamePrefix then None
            else let dir = filepath_Join [parent, name]
                 in case procs dir of
                      None \<Rightarrow> None
                    | Some b \<Rightarrow> if TrimSpace b = [] then Some dir else None) entries)"

definition SweepOrphanCgroups ::
  "(bytes \<Rightarrow> (bytes \<times> bool) list option) \<Rightarrow> (bytes \<Rightarrow> bytes option) \<Rightarrow> manager \<Rightarrow> bytes list" where
  "SweepOrphanCgroups readDir procs m = orphanCgroupDirs readDir procs (filepath_Join [cgroupRoot, mg_cgroupParent m])"

end
