(* ===== verification/AK_Lifecycle.thy ===== *)
theory AK_Lifecycle
  imports AK_Sessions
begin

text \<open>
  The life of sessions (\<open>internal/session/manager.go\<close>): the invariant that relates the store and the indexes of the
  manager, kept by every operation, and what follows for attribution and teardown.
\<close>

section \<open>Steps\<close>

inductive mgr_step :: "manager \<Rightarrow> manager \<Rightarrow> bool" where
  exec: "mg_store m fresh = None \<Longrightarrow> mgr_step m (snd (OnExec os fresh now ev m))"
| exit: "mgr_step m (snd (OnExit os ev m))"
| plan: "mgr_step m (SetAttachPlan sid c m)"
| coverage: "mgr_step m (SetCoverage sid c' m)"
| wire: "mgr_step m (NoteWireIntent sid m)"
| tamper: "mgr_step m (MarkTampered sid m)"

abbreviation mgr_reaches :: "manager \<Rightarrow> manager \<Rightarrow> bool" where
  "mgr_reaches \<equiv> mgr_step\<^sup>*\<^sup>*"

section \<open>The invariant\<close>

definition active :: "manager \<Rightarrow> bytes \<Rightarrow> session \<Rightarrow> bool" where
  "active m i s \<longleftrightarrow> mg_store m i = Some s \<and> ss_State s = SessionActive"

definition index_ok :: "manager \<Rightarrow> bool" where
  "index_ok m \<longleftrightarrow>
     (\<forall>p i. mg_pidIndex m p = Some i \<longrightarrow> (\<exists>s. active m i s \<and> p \<in> set (sess_Members s)))
     \<and> (\<forall>p i. mg_byRootPID m p = Some i \<longrightarrow> (\<exists>s. active m i s \<and> sess_RootPID s = p))
     \<and> (\<forall>cg i. mg_byCgroup m cg = Some i \<longrightarrow> mg_store m i \<noteq> None)"

definition store_ok :: "manager \<Rightarrow> bool" where
  "store_ok m \<longleftrightarrow>
     (\<forall>i s. mg_store m i = Some s \<longrightarrow> ss_ID s = i)
     \<and> (\<forall>i. i \<in> set (mg_byID m) \<longleftrightarrow> (\<exists>s. active m i s) \<or> i \<in> set (mg_history m))
     \<and> (\<forall>i \<in> set (mg_history m). \<exists>s. mg_store m i = Some s \<and> ss_State s = SessionEnded)
     \<and> distinct (mg_byID m) \<and> distinct (mg_history m) \<and> length (mg_history m) \<le> historyMax"

definition mgr_ok :: "manager \<Rightarrow> bool" where
  "mgr_ok m \<longleftrightarrow> index_ok m \<and> store_ok m"

lemma New_manager_ok: "mgr_ok (New_manager signatures parent manage)"
  by (simp add: mgr_ok_def index_ok_def store_ok_def active_def New_manager_def)

lemma pid_member: "mgr_ok m \<Longrightarrow> mg_pidIndex m p = Some i \<Longrightarrow> \<exists>s. active m i s \<and> p \<in> set (sess_Members s)"
  and root_active: "mgr_ok m \<Longrightarrow> mg_byRootPID m p = Some i \<Longrightarrow> \<exists>s. active m i s \<and> sess_RootPID s = p"
  and cgroup_stored: "mgr_ok m \<Longrightarrow> mg_byCgroup m cg = Some i \<Longrightarrow> mg_store m i \<noteq> None"
  and stored_id: "mgr_ok m \<Longrightarrow> mg_store m i = Some s \<Longrightarrow> ss_ID s = i"
  and active_listed: "mgr_ok m \<Longrightarrow> active m i s \<Longrightarrow> i \<in> set (mg_byID m)"
  and active_not_history: "mgr_ok m \<Longrightarrow> active m i s \<Longrightarrow> i \<notin> set (mg_history m)"
  by (auto simp: mgr_ok_def index_ok_def store_ok_def active_def)

lemma mgr_okI:
  assumes "\<And>p i. mg_pidIndex m p = Some i \<Longrightarrow> \<exists>s. active m i s \<and> p \<in> set (sess_Members s)"
    and "\<And>p i. mg_byRootPID m p = Some i \<Longrightarrow> \<exists>s. active m i s \<and> sess_RootPID s = p"
    and "\<And>cg i. mg_byCgroup m cg = Some i \<Longrightarrow> mg_store m i \<noteq> None" and "store_ok m"
  shows "mgr_ok m"
  using assms by (simp add: mgr_ok_def index_ok_def)

text \<open>Changing one session without touching its identity and state.\<close>

lemma update_session_simps [simp]:
  "mg_store (update_session sid f m) i = (if i = sid then map_option f (mg_store m sid) else mg_store m i)"
  "mg_byID (update_session sid f m) = mg_byID m" "mg_byCgroup (update_session sid f m) = mg_byCgroup m"
  "mg_byRootPID (update_session sid f m) = mg_byRootPID m" "mg_pidIndex (update_session sid f m) = mg_pidIndex m"
  "mg_history (update_session sid f m) = mg_history m" "mg_signatures (update_session sid f m) = mg_signatures m"
  by (simp_all add: update_session_def)

lemma change_ok:
  assumes ok: "mgr_ok m" and f: "\<And>s. ss_ID (f s) = ss_ID s \<and> ss_State (f s) = ss_State s"
    and store: "mg_store m' = (mg_store m)(sid := map_option f (mg_store m sid))"
    and same: "mg_byID m' = mg_byID m" "mg_history m' = mg_history m" "mg_byCgroup m' = mg_byCgroup m"
    and pids: "\<And>p i. mg_pidIndex m' p = Some i \<Longrightarrow> \<exists>s. active m i s \<and> p \<in> set (sess_Members (if i = sid then f s else s))"
    and roots: "\<And>p i. mg_byRootPID m' p = Some i \<Longrightarrow> \<exists>s. active m i s \<and> sess_RootPID (if i = sid then f s else s) = p"
  shows "mgr_ok m'"
proof (rule mgr_okI)
  have act: "active m' i t \<longleftrightarrow> (\<exists>u. active m i u \<and> t = (if i = sid then f u else u))" for i t
    using f by (auto simp: active_def store)
  show "\<exists>t. active m' i t \<and> p \<in> set (sess_Members t)" if "mg_pidIndex m' p = Some i" for p i
    using pids [OF that] unfolding act by blast
  show "\<exists>t. active m' i t \<and> sess_RootPID t = p" if "mg_byRootPID m' p = Some i" for p i
    using roots [OF that] unfolding act by blast
  show "mg_store m' i \<noteq> None" if "mg_byCgroup m' cg = Some i" for cg i
    using cgroup_stored [OF ok] that same by (auto simp: store)
  show "store_ok m'" using ok f unfolding mgr_ok_def store_ok_def act same store by (auto split: if_splits)
qed

lemma set_by_id_ok:
  assumes "mgr_ok m"
    and f: "\<And>s. ss_ID (f s) = ss_ID s \<and> ss_State (f s) = ss_State s \<and> sess_RootPID (f s) = sess_RootPID s
              \<and> sess_Members (f s) = sess_Members s"
  shows "mgr_ok (set_by_id sid f m)"
proof -
  have "mgr_ok (update_session sid f m)"
  proof (rule change_ok [OF assms(1), where f = f and sid = sid])
    show "\<exists>s. active m i s \<and> p \<in> set (sess_Members (if i = sid then f s else s))"
      if "mg_pidIndex (update_session sid f m) p = Some i" for p i
      using that f pid_member [OF assms(1), of p i] by (cases "i = sid") simp_all
    show "\<exists>s. active m i s \<and> sess_RootPID (if i = sid then f s else s) = p"
      if "mg_byRootPID (update_session sid f m) p = Some i" for p i
      using that f root_active [OF assms(1), of p i] by (cases "i = sid") simp_all
  qed (use f in \<open>simp_all add: update_session_def\<close>)
  then show ?thesis using assms(1) by (simp add: set_by_id_def)
qed

section \<open>Every operation keeps it\<close>

lemma addMember_ok:
  assumes ok: "mgr_ok m" and s: "active m sid s"
  shows "mgr_ok (addMemberLocked sid pid m)"
proof (cases "mg_pidIndex m pid")
  case None
  let ?add = "\<lambda>s. s\<lparr>sess_Members := sess_Members s @ [pid]\<rparr>"
  show ?thesis
  proof (rule change_ok [OF ok, where f = ?add and sid = sid])
    show "\<exists>s. active m i s \<and> p \<in> set (sess_Members (if i = sid then ?add s else s))"
      if "mg_pidIndex (addMemberLocked sid pid m) p = Some i" for p i
      using that s None pid_member [OF ok, of p i] by (auto simp: addMemberLocked_def split: if_splits)
    show "\<exists>s. active m i s \<and> sess_RootPID (if i = sid then ?add s else s) = p"
      if "mg_byRootPID (addMemberLocked sid pid m) p = Some i" for p i
      using that None root_active [OF ok, of p i] by (auto simp: addMemberLocked_def)
  qed (use None in \<open>simp_all add: addMemberLocked_def update_session_def\<close>)
qed (use ok in \<open>simp add: addMemberLocked_def\<close>)

lemma drop_member_ok:
  assumes ok: "mgr_ok m"
  shows "mgr_ok ((update_session sid (drop_member pid) m)\<lparr>mg_pidIndex := (mg_pidIndex m)(pid := None)\<rparr>)" (is "mgr_ok ?m")
proof (rule change_ok [OF ok, where f = "drop_member pid" and sid = sid])
  show "\<exists>s. active m i s \<and> p \<in> set (sess_Members (if i = sid then drop_member pid s else s))"
    if "mg_pidIndex ?m p = Some i" for p i
    using that pid_member [OF ok, of p i] by (auto simp: drop_member_def split: if_splits)
  show "\<exists>s. active m i s \<and> sess_RootPID (if i = sid then drop_member pid s else s) = p"
    if "mg_byRootPID ?m p = Some i" for p i
    using that root_active [OF ok, of p i] by (auto simp: drop_member_def)
qed (simp_all add: update_session_def drop_member_def)

lemma adopt_root_ok:
  assumes ok: "mgr_ok m" and s: "active m sid s"
  shows "mgr_ok (adopt_root sid s pid new m)"
proof -
  let ?f = "\<lambda>s. (drop_member pid s)\<lparr>sess_RootPID := new\<rparr>"
  let ?m = "(update_session sid ?f m)\<lparr>mg_pidIndex := (mg_pidIndex m)(pid := None),
           mg_byRootPID := ((mg_byRootPID m)(sess_RootPID s := None))(new \<mapsto> sid)\<rparr>"
  have "mgr_ok ?m"
  proof (rule change_ok [OF ok, where f = ?f and sid = sid])
    show "\<exists>s. active m i s \<and> p \<in> set (sess_Members (if i = sid then ?f s else s))" if "mg_pidIndex ?m p = Some i" for p i
      using that pid_member [OF ok, of p i] by (auto simp: drop_member_def split: if_splits)
    show "\<exists>s. active m i s \<and> sess_RootPID (if i = sid then ?f s else s) = p" if "mg_byRootPID ?m p = Some i" for p i
      using that s root_active [OF ok, of p i] by (auto simp: active_def split: if_splits)
  qed (simp_all add: update_session_def drop_member_def)
  moreover have "active ?m sid (?f s)" using s by (auto simp: active_def drop_member_def)
  ultimately show ?thesis unfolding adopt_root_def by (rule addMember_ok)
qed

lemma register_ok:
  assumes ok: "mgr_ok m" and fresh: "mg_store m (ss_ID s) = None" and s: "ss_State s = SessionActive"
    "sess_RootPID s = ev_pid ev" "sess_Members s = [ev_pid ev]"
  shows "mgr_ok (create_register s ev m)"
proof (rule mgr_okI)
  let ?m = "create_register s ev m"
  have flds: "mg_store ?m = (mg_store m)(ss_ID s \<mapsto> s)" "mg_byID ?m = ss_ID s # mg_byID m" "mg_history ?m = mg_history m"
    "mg_byRootPID ?m = (mg_byRootPID m)(ev_pid ev \<mapsto> ss_ID s)" "mg_pidIndex ?m = (mg_pidIndex m)(ev_pid ev \<mapsto> ss_ID s)"
    by (simp_all add: create_register_def Let_def)
  have act: "active ?m i t \<longleftrightarrow> active m i t \<or> i = ss_ID s \<and> t = s" for i t
    using fresh s(1) by (auto simp: active_def flds)
  have new: "ss_ID s \<notin> set (mg_byID m)" "ss_ID s \<notin> set (mg_history m)"
    using ok fresh by (auto simp: mgr_ok_def store_ok_def active_def)
  show "mg_store ?m i \<noteq> None" if "mg_byCgroup ?m cg = Some i" for cg i
    using that cgroup_stored [OF ok] by (auto simp: create_register_def Let_def split: if_splits)
  show "\<exists>t. active ?m i t \<and> p \<in> set (sess_Members t)" if "mg_pidIndex ?m p = Some i" for p i
    using that s pid_member [OF ok, of p i] unfolding act flds by (auto split: if_splits)
  show "\<exists>t. active ?m i t \<and> sess_RootPID t = p" if "mg_byRootPID ?m p = Some i" for p i
    using that s root_active [OF ok, of p i] unfolding act flds by (auto split: if_splits)
  show "store_ok ?m" using ok s new fresh unfolding mgr_ok_def store_ok_def act flds by (auto split: if_splits)
qed

lemma end_session_ok:
  assumes ok: "mgr_ok m" and s: "active m sid s"
  shows "mgr_ok (end_session sid s m)"
proof (rule mgr_okI)
  let ?m = "end_session sid s m" and ?h = "mg_history m @ [sid]"
  have hist: "mg_history ?m = (if historyMax < length ?h then tl ?h else ?h)"
    "mg_byID ?m = (if historyMax < length ?h then removeAll (hd ?h) (mg_byID m) else mg_byID m)"
    by (simp_all add: end_session_def Let_def)
  have flds: "mg_store ?m = (mg_store m)(sid \<mapsto> s\<lparr>ss_State := SessionEnded\<rparr>)"
    "mg_pidIndex ?m = (\<lambda>p. if p \<in> set (sess_Members s) then None else mg_pidIndex m p)"
    "mg_byRootPID ?m = (mg_byRootPID m)(sess_RootPID s := None)" "mg_byCgroup ?m = (mg_byCgroup m)(sess_CgroupID s := None)"
    using s by (simp_all add: end_session_def Let_def update_session_def active_def)
  have act: "active ?m i t \<longleftrightarrow> active m i t \<and> i \<noteq> sid" for i t by (auto simp: active_def flds)
  show "mg_store ?m i \<noteq> None" if "mg_byCgroup ?m cg = Some i" for cg i
    using that cgroup_stored [OF ok] unfolding flds by (auto split: if_splits)
  show "\<exists>t. active ?m i t \<and> p \<in> set (sess_Members t)" if "mg_pidIndex ?m p = Some i" for p i
    using that s pid_member [OF ok, of p i] unfolding act flds by (auto simp: active_def split: if_splits)
  show "\<exists>t. active ?m i t \<and> sess_RootPID t = p" if "mg_byRootPID ?m p = Some i" for p i
    using that s root_active [OF ok, of p i] unfolding act flds by (auto simp: active_def split: if_splits)
  have id: "ss_ID s = sid" using ok s stored_id by (simp add: active_def)
  note no = active_not_history [OF ok s] and yes = active_listed [OF ok s]
  show "store_ok ?m"
  proof (cases "historyMax < length ?h")
    case True
    then obtain x xs where h: "mg_history m = x # xs" by (cases "mg_history m") (simp_all add: historyMax_def)
    then show ?thesis using ok no yes True unfolding mgr_ok_def store_ok_def act flds hist
      by (auto simp: distinct_removeAll active_def id)
  next
    case False
    then show ?thesis using ok no yes unfolding mgr_ok_def store_ok_def act flds hist by (auto simp: active_def id)
  qed
qed

lemma OnExec_ok:
  assumes ok: "mgr_ok m" and fresh: "mg_store m fresh = None"
  shows "mgr_ok (snd (OnExec os fresh now ev m))"
proof -
  have own: "mgr_ok (addMemberLocked sid pid m)" if "managed_owner m cg = Some sid" for sid pid cg
    using that addMember_ok [OF ok] by (auto simp: managed_owner_def active_def split: option.splits if_splits)
  have "mgr_ok (create_register (new_session ev kind fresh now home) ev m)" for kind home
    by (rule register_ok [OF ok]) (use fresh in \<open>simp_all add: new_session_def\<close>)
  then have "mgr_ok (snd (createSession os fresh now ev kind m))" for kind
    using ok own by (auto simp: createSession_def create_check_def Let_def split: option.split)
  moreover have "mgr_ok (addMemberLocked sid pid m)" if "mg_store m sid = Some s" "ss_State s = SessionActive" for sid pid s
    using that addMember_ok [OF ok] by (auto simp: active_def)
  ultimately show ?thesis using ok own
    by (auto simp: OnExec_def Let_def split: option.split)
qed

lemma OnExit_ok:
  assumes ok: "mgr_ok m"
  shows "mgr_ok (snd (OnExit os ev m))"
proof (cases "mg_pidIndex m (ev_pid ev)")
  case (Some sid)
  then obtain s where s: "active m sid s" using pid_member [OF ok] by blast
  then show ?thesis using Some ok adopt_root_ok [OF ok s] end_session_ok [OF ok s] drop_member_ok [OF ok]
    by (simp add: OnExit_def Let_def active_def)
qed (use ok in \<open>simp add: OnExit_def\<close>)

lemma mgr_step_ok: "mgr_step m m' \<Longrightarrow> mgr_ok m \<Longrightarrow> mgr_ok m'"
  by (induction rule: mgr_step.induct)
    (auto simp: OnExec_ok OnExit_ok SetAttachPlan_def SetCoverage_def NoteWireIntent_def MarkTampered_def
      intro!: set_by_id_ok split: option.split)

lemma mgr_reaches_ok: "mgr_reaches m m' \<Longrightarrow> mgr_ok m \<Longrightarrow> mgr_ok m'"
  by (induction rule: rtranclp_induct) (auto intro: mgr_step_ok)

lemma List_sessions_set: "set (List_sessions m) = {s. \<exists>i \<in> set (mg_byID m). mg_store m i = Some s}"
  by (auto simp: List_sessions_def List.map_filter_def image_iff) force

section \<open>Properties\<close>

text \<open>
  C11. The indexes agree with the sessions after any sequence of execs, exits and updates, with fresh
  identifiers: a pid in the index belongs to an active session that lists it as a member, a root in the index is the
  root of an active session, every active session is found by its identifier, and the history holds at most
  256 sessions, all ended and distinct.
\<close>

theorem manager_invariant:
  assumes "mgr_reaches (New_manager signatures parent manage) m"
  shows "(mg_pidIndex m p = Some i \<longrightarrow>
           (\<exists>s. mg_store m i = Some s \<and> ss_State s = SessionActive \<and> p \<in> set (sess_Members s)))
    \<and> (mg_byRootPID m p = Some i \<longrightarrow> (\<exists>s. mg_store m i = Some s \<and> ss_State s = SessionActive \<and> sess_RootPID s = p))
    \<and> (mg_store m i = Some s \<and> ss_State s = SessionActive \<longrightarrow> LookupByID m i = Some s)
    \<and> length (mg_history m) \<le> 256 \<and> distinct (mg_history m)
    \<and> (i \<in> set (mg_history m) \<longrightarrow> map_option ss_State (mg_store m i) = Some SessionEnded)"
proof -
  have ok: "mgr_ok m" using mgr_reaches_ok [OF assms New_manager_ok] .
  then have "store_ok m" by (simp add: mgr_ok_def)
  then show ?thesis using pid_member [OF ok, of p i] root_active [OF ok, of p i] active_listed [OF ok, of i s]
    by (auto simp: active_def LookupByID_def store_ok_def historyMax_def)
qed

text \<open>
  The check before a control group is released is exact: it answers that the group is in use precisely
  when another active session lives in it, known to the indexes or not.
\<close>

lemma cgroup_in_use_exact:
  assumes "mgr_reaches (New_manager signatures parent manage) m" "cgid \<noteq> 0"
  shows "CgroupHasActiveSession m cgid sid \<longleftrightarrow>
     (\<exists>i s. i \<noteq> sid \<and> mg_store m i = Some s \<and> ss_State s = SessionActive \<and> sess_CgroupID s = cgid)"
proof -
  have ok: "mgr_ok m" using mgr_reaches_ok [OF assms(1) New_manager_ok] .
  show ?thesis using assms(2) stored_id [OF ok] active_listed [OF ok]
    by (fastforce simp: CgroupHasActiveSession_def list_ex_iff List_sessions_set active_def)
qed

section \<open>Examples\<close>

text \<open>
  A system on which nothing can be read and control groups get the inode 99; events of processes; two agents in the same
  control group 7; and the same with the first agent's shell turning into the second.
\<close>

definition quiet_os :: os where
  "quiet_os = \<lparr>os_self = 1, os_cmdline = (\<lambda>_. None), os_exe = (\<lambda>_. None), os_stat = (\<lambda>_. None), os_cgprocs = (\<lambda>_. None),
     os_place = (\<lambda>_ _. Some 99)\<rparr>"

definition proc_event :: "string \<Rightarrow> s32 \<Rightarrow> s32 \<Rightarrow> string \<Rightarrow> SessionEvent" where
  "proc_event opn pid ppid exe = \<lparr>ev_header = \<lparr>EventType = 0, Category = 0, CPUID = 0, DataLen = 0, Timestamp = 1, CgroupID = 7,
       HostPPID = ppid, HostPID = pid, HostTID = pid, PID = pid, TID = pid, UID = 0, GID = 0, PidNS = 0, MntNS = 0,
       SyscallID = 0, RetVal = 0, Comm = []\<rparr>,
     ev_Name = opn, ev_Category = CategoryProcess, ev_Operation = opn, ev_Resource = Text (chars exe), ev_ExePath = [],
     ev_DNS = None, ev_Time = 1, ev_Session = None\<rparr>"

definition execs :: "string \<Rightarrow> s32 \<Rightarrow> s32 \<Rightarrow> string \<Rightarrow> manager \<Rightarrow> manager" where
  "execs fresh pid ppid exe m = snd (OnExec quiet_os (chars fresh) 1 (proc_event ''exec'' pid ppid exe) m)"

definition exits :: "s32 \<Rightarrow> manager \<Rightarrow> manager" where
  "exits pid m = snd (OnExit quiet_os (proc_event ''exit'' pid 1 []) m)"

definition unmanaged :: manager where "unmanaged = New_manager [] [] False"

definition managed :: manager where "managed = New_manager [] [] True"

definition one_agent :: "manager \<Rightarrow> manager" where
  "one_agent m = execs ''a'' 10 2 ''/bin/codex'' m"

definition two_agents :: manager where
  "two_agents = execs ''b'' 20 2 ''/bin/claude'' (one_agent unmanaged)"

definition nested_agent :: manager where
  "nested_agent = execs ''b'' 11 10 ''/bin/claude'' (execs ''x'' 11 10 ''/bin/bash'' (one_agent unmanaged))"

definition state_of :: "manager \<Rightarrow> string \<Rightarrow> SessionState option" where
  "state_of m sid = map_option ss_State (mg_store m (chars sid))"

lemma execs_step: "mg_store m (chars fresh) = None \<Longrightarrow> mgr_step m (execs fresh pid ppid exe m)"
  unfolding execs_def by (rule mgr_step.exec)

lemma two_agents_reached: "mgr_reaches (New_manager [] [] False) two_agents"
proof -
  have "mgr_step unmanaged (one_agent unmanaged)" "mgr_step (one_agent unmanaged) two_agents"
    unfolding one_agent_def two_agents_def by (rule execs_step, code_simp)+
  then show ?thesis unfolding unmanaged_def by (meson converse_rtranclp_into_rtranclp rtranclp.rtrancl_refl)
qed

theorem manager_invariant_witness:
  "mg_pidIndex two_agents 20 = Some (chars ''b'')
   \<and> (\<exists>s. mg_store two_agents (chars ''b'') = Some s \<and> ss_State s = SessionActive \<and> 20 \<in> set (sess_Members s))"
proof -
  have "mg_pidIndex two_agents 20 = Some (chars ''b'')" by code_simp
  with manager_invariant [OF two_agents_reached, of 20 "chars ''b''"] show ?thesis by blast
qed

lemma cgroup_in_use_exact_example:
  "CgroupHasActiveSession two_agents 7 (chars ''a'')
   \<and> (\<exists>i s. i \<noteq> chars ''a'' \<and> mg_store two_agents i = Some s \<and> ss_State s = SessionActive \<and> sess_CgroupID s = 7)"
proof -
  have "CgroupHasActiveSession two_agents 7 (chars ''a'')" by code_simp
  with cgroup_in_use_exact [OF two_agents_reached, of 7 "chars ''a''"] show ?thesis by simp
qed

text \<open>
  Where the indexes fall short. (1) Two agents in one unmanaged control group: when the first ends, the
  group is no longer found, although the second is active in it. (2) A member of an agent's session that becomes an agent of its own: when
  the outer session ends, the inner root leaves the index, and the inner session stays active for ever, also after its root
  exits. (3) A managed session is also indexed under the control group it was found in; after it ended, a
  stranger there is still attributed to it. (4) An unrelated process in the control group of an unmanaged session is
  no member, and its events are attributed to the session. (5) The creation of a session checks and registers in two critical
  sections: two events for one process that interleave give two active sessions with the same root.
\<close>

lemma session_index_gaps:
  "LookupByCgroup (exits 10 two_agents) 7 = None \<and> state_of (exits 10 two_agents) ''b'' = Some SessionActive
   \<and> mg_pidIndex (exits 10 nested_agent) 11 = None
     \<and> state_of (exits 11 (exits 10 nested_agent)) ''b'' = Some SessionActive
   \<and> state_of (exits 10 (one_agent managed)) ''a'' = Some SessionEnded
     \<and> ev_Session (Enrich (exits 10 (one_agent managed)) (proc_event ''exec'' 55 2 ''/bin/ls'')) = Some (chars ''a'', AgentCodex)
   \<and> mg_pidIndex (execs ''c'' 55 2 ''/bin/ls'' (one_agent unmanaged)) 55 = None
     \<and> ev_Session (Enrich (execs ''c'' 55 2 ''/bin/ls'' (one_agent unmanaged)) (proc_event ''exec'' 55 2 ''/bin/ls''))
       = Some (chars ''a'', AgentCodex)
   \<and> (let ev = proc_event ''exec'' 10 2 ''/bin/codex'';
          s = (\<lambda>sid. new_session ev AgentCodex (chars sid) 1 None);
          m = create_register (s ''b'') ev (create_register (s ''a'') ev unmanaged)
      in fst (create_check ev unmanaged) = None
         \<and> state_of m ''a'' = Some SessionActive \<and> state_of m ''b'' = Some SessionActive
         \<and> map_option sess_RootPID (mg_store m (chars ''a'')) = map_option sess_RootPID (mg_store m (chars ''b'')))"
  by (intro conjI) code_simp+

end
