(* ===== verification/AK_Sensor.thy ===== *)
theory AK_Sensor
  imports AK_Engine AK_Stdio AK_ProcTree
begin

text \<open>
  What the daemon registers with the kernel for capture: monitored control groups and processes
  (\<open>internal/sensor/loader.go\<close>, \<open>internal/sensor/system_sensor.go\<close>), the pipes of stdio MCP servers
  (\<open>cmd/agentknox/mcp.go\<close>), and the processes whose traffic is a database protocol (\<open>cmd/agentknox/db.go\<close>).
\<close>

section \<open>Monitored sessions\<close>

definition sessionFlags :: "bool \<Rightarrow> u32" where
  "sessionFlags enforce = (if enforce then 0x1 OR 0x2 else 0x1)"

text \<open>\<open>ok\<close>: the kernel accepts the write.\<close>

definition orFlags :: "bool \<Rightarrow> 'k \<Rightarrow> u32 \<Rightarrow> ('k \<rightharpoonup> u32) \<Rightarrow> ('k \<rightharpoonup> u32)" where
  "orFlags ok key want m =
     (case m key of
        Some cur \<Rightarrow> if cur AND want = want then m else if ok then m(key \<mapsto> want OR cur) else m
      | None \<Rightarrow> if ok then m(key \<mapsto> want) else m)"

definition RegisterSession :: "denv \<Rightarrow> u64 \<Rightarrow> kstate \<Rightarrow> kstate" where
  "RegisterSession d cg s =
     (if cg = 0 then s else s\<lparr>ak_sessions := orFlags (d_put d D_sessions cg) cg (sessionFlags False) (ak_sessions s)\<rparr>)"

definition UnregisterSession :: "u64 \<Rightarrow> kstate \<Rightarrow> kstate" where
  "UnregisterSession cg s = (if cg = 0 then s else s\<lparr>ak_sessions := (ak_sessions s)(cg := None)\<rparr>)"

definition RegisterPID :: "denv \<Rightarrow> s32 \<Rightarrow> kstate \<Rightarrow> kstate" where
  "RegisterPID d pid s =
     (if pid \<le>s 0 then s
      else s\<lparr>ak_session_pids := orFlags (d_put d D_session_pids (ucast pid)) pid (sessionFlags False) (ak_session_pids s)\<rparr>)"

definition UnregisterPID :: "s32 \<Rightarrow> kstate \<Rightarrow> kstate" where
  "UnregisterPID pid s = (if pid \<le>s 0 then s else s\<lparr>ak_session_pids := (ak_session_pids s)(pid := None)\<rparr>)"

text \<open>Registration takes no flag from any key.\<close>

lemma orFlags_keeps: "opt_has (m k) b \<Longrightarrow> opt_has (orFlags ok key want m k) b"
  by (auto simp: orFlags_def opt_has_def has_or split: option.splits)

lemma RegisterPID_keeps:
  "opt_has (ak_session_pids s p) b \<Longrightarrow> opt_has (ak_session_pids (RegisterPID d pid s) p) b"
  by (simp add: RegisterPID_def orFlags_keeps)

lemma RegisterSession_keeps:
  "opt_has (ak_sessions s c) b \<Longrightarrow> opt_has (ak_sessions (RegisterSession d cg s) c) b"
  by (simp add: RegisterSession_def orFlags_keeps)

section \<open>Stdio MCP servers\<close>

definition mcpMaxChunksBeforeEvict :: nat where "mcpMaxChunksBeforeEvict = 32"

record mcpCand =
  mc_chunks :: nat
  mc_mcp :: bool

text \<open>The candidates by pid.\<close>

type_synonym mcp = "(s32 \<times> mcpCand) list"

definition mcpFdKey :: "u32 \<Rightarrow> u32 \<Rightarrow> u64" where
  "mcpFdKey tgid fd = push_bit 32 (ucast tgid) OR ucast fd"

definition RegisterMcpFd :: "denv \<Rightarrow> u32 \<Rightarrow> u32 \<Rightarrow> kstate \<Rightarrow> kstate" where
  "RegisterMcpFd d tgid fd s =
     (if d_put d D_mcp_fds (mcpFdKey tgid fd) then s\<lparr>ak_mcp_fds := (ak_mcp_fds s)(mcpFdKey tgid fd \<mapsto> 1)\<rparr> else s)"

definition UnregisterMcpFd :: "u32 \<Rightarrow> u32 \<Rightarrow> kstate \<Rightarrow> kstate" where
  "UnregisterMcpFd tgid fd s = s\<lparr>ak_mcp_fds := (ak_mcp_fds s)(mcpFdKey tgid fd := None)\<rparr>"

definition SetMcpArmed :: "denv \<Rightarrow> bool \<Rightarrow> kstate \<Rightarrow> kstate" where
  "SetMcpArmed d on s =
     (let cur = ak_flags_get s; nxt = (if on then cur OR AK_FLAG_MCP_ARMED else cur AND NOT AK_FLAG_MCP_ARMED)
      in if nxt = cur \<or> \<not> d_put d D_flags 0 then s else s\<lparr>ak_flags := (ak_flags s)(0 \<mapsto> nxt)\<rparr>)"

text \<open>\<open>isFifo pid fd\<close>: the descriptor of the process is a pipe.\<close>

text \<open>
  Each operation of the detector is a part under its mutex, on the candidates, which reports the
  number of candidates when the kernel has to be told, and a part behind it, on the kernel's maps.
\<close>

definition consider_locked :: "(s32 \<Rightarrow> nat \<Rightarrow> bool) \<Rightarrow> s32 \<Rightarrow> mcp \<Rightarrow> nat option \<times> mcp" where
  "consider_locked isFifo pid cand =
     (if pid \<le>s 1 \<or> \<not> isFifo pid 0 \<or> \<not> isFifo pid 1 \<or> map_of cand pid \<noteq> None then (None, cand)
      else let cand' = (pid, \<lparr>mc_chunks = 0, mc_mcp = False\<rparr>) # cand in (Some (length cand'), cand'))"

definition register_fds :: "denv \<Rightarrow> s32 \<Rightarrow> nat \<Rightarrow> kstate \<Rightarrow> kstate" where
  "register_fds d pid n s =
     (let s' = RegisterMcpFd d pid 1 (RegisterMcpFd d pid 0 s)
      in if n = 1 then SetMcpArmed d True s' else s')"

definition release_fds :: "denv \<Rightarrow> s32 \<Rightarrow> nat \<Rightarrow> kstate \<Rightarrow> kstate" where
  "release_fds d pid n s =
     (let s' = UnregisterMcpFd pid 1 (UnregisterMcpFd pid 0 s)
      in if n = 0 then SetMcpArmed d False s' else s')"

definition note_locked :: "s32 \<Rightarrow> bool \<Rightarrow> mcp \<Rightarrow> nat option \<times> mcp" where
  "note_locked pid isMCP cand =
     (case map_of cand pid of
        None \<Rightarrow> (None, cand)
      | Some c0 \<Rightarrow>
          let c = \<lparr>mc_chunks = mc_chunks c0 + 1, mc_mcp = (mc_mcp c0 \<or> isMCP)\<rparr>
          in if \<not> mc_mcp c \<and> mcpMaxChunksBeforeEvict \<le> mc_chunks c
             then let cand' = AList.delete pid cand in (Some (length cand'), cand')
             else (None, AList.update pid c cand))"

definition forget_locked :: "s32 \<Rightarrow> mcp \<Rightarrow> nat option \<times> mcp" where
  "forget_locked pid cand =
     (if map_of cand pid = None then (None, cand)
      else let cand' = AList.delete pid cand in (Some (length cand'), cand'))"

definition mcp_consider :: "denv \<Rightarrow> (s32 \<Rightarrow> nat \<Rightarrow> bool) \<Rightarrow> s32 \<Rightarrow> mcp \<times> kstate \<Rightarrow> mcp \<times> kstate" where
  "mcp_consider d isFifo pid = (\<lambda>(cand, s).
     let (n, cand') = consider_locked isFifo pid cand in (cand', case n of None \<Rightarrow> s | Some n \<Rightarrow> register_fds d pid n s))"

definition noteChunk :: "denv \<Rightarrow> s32 \<Rightarrow> bool \<Rightarrow> mcp \<times> kstate \<Rightarrow> mcp \<times> kstate" where
  "noteChunk d pid isMCP = (\<lambda>(cand, s).
     let (n, cand') = note_locked pid isMCP cand in (cand', case n of None \<Rightarrow> s | Some n \<Rightarrow> release_fds d pid n s))"

definition mcp_forget :: "denv \<Rightarrow> s32 \<Rightarrow> mcp \<times> kstate \<Rightarrow> mcp \<times> kstate" where
  "mcp_forget d pid = (\<lambda>(cand, s).
     let (n, cand') = forget_locked pid cand in (cand', case n of None \<Rightarrow> s | Some n \<Rightarrow> release_fds d pid n s))"

lemmas mcp_parts = mcp_consider_def consider_locked_def register_fds_def noteChunk_def note_locked_def
  mcp_forget_def forget_locked_def

text \<open>Both sides compute the key of a descriptor alike, and different descriptors have different keys.\<close>

lemma mcpFdKey_eq: "mcpFdKey tgid fd = fd_key32 tgid (ucast fd)"
proof -
  have "(ucast fd :: u64) AND 0xffffffff = ucast fd"
    unfolding and_32_bits by (rule bit_word_eqI) (auto simp: bit_simps dest: bit_imp_le_length)
  then show ?thesis by (simp add: mcpFdKey_def fd_key32_def)
qed

lemma mcpFdKey_bits:
  "bit (mcpFdKey tgid fd) n \<longleftrightarrow> n < 64 \<and> (if n < 32 then bit fd n else bit tgid (n - 32))"
  by (auto simp: mcpFdKey_def bit_simps dest: bit_imp_le_length)

lemma mcpFdKey_inj: "mcpFdKey t f = mcpFdKey t' f' \<longleftrightarrow> t = t' \<and> f = f'"
proof
  assume eq: "mcpFdKey t f = mcpFdKey t' f'"
  have "bit t n = bit t' n" "bit f n = bit f' n" if "n < 32" for n
    using that arg_cong [OF eq, of "\<lambda>w. bit w (n + 32)"] arg_cong [OF eq, of "\<lambda>w. bit w n"]
    by (simp_all add: mcpFdKey_bits)
  then show "t = t' \<and> f = f'" by (auto intro!: bit_word_eqI)
qed simp

text \<open>The candidates and the kernel's table of pipes, in a kernel that accepts the writes.\<close>

inductive mcp_step :: "mcp \<times> kstate \<Rightarrow> mcp \<times> kstate \<Rightarrow> bool" where
  exec: "\<forall>m h. d_put d m h \<Longrightarrow> mcp_step cs (mcp_consider d isFifo pid cs)"
| chunk: "\<forall>m h. d_put d m h \<Longrightarrow> mcp_step cs (noteChunk d pid isMCP cs)"
| gone: "\<forall>m h. d_put d m h \<Longrightarrow> mcp_step cs (mcp_forget d pid cs)"

definition mcp_ok :: "mcp \<times> kstate \<Rightarrow> bool" where
  "mcp_ok = (\<lambda>(cand, s).
     distinct (map fst cand)
     \<and> (\<forall>pid fd. ak_mcp_fds s (mcpFdKey pid fd) \<noteq> None \<longleftrightarrow> pid \<in> fst ` set cand \<and> (fd = 0 \<or> fd = 1))
     \<and> (has (ak_flags_get s) AK_FLAG_MCP_ARMED \<longleftrightarrow> cand \<noteq> [])
     \<and> (\<forall>(pid, c) \<in> set cand. mc_mcp c \<or> mc_chunks c < 32))"

lemma SetMcpArmed_simps [simp]:
  assumes "\<forall>m h. d_put d m h"
  shows "ak_mcp_fds (SetMcpArmed d on s) = ak_mcp_fds s"
    and "has (ak_flags_get (SetMcpArmed d on s)) AK_FLAG_MCP_ARMED \<longleftrightarrow> on"
proof -
  have "ak_flags_get (SetMcpArmed d on s) =
      (if on then ak_flags_get s OR AK_FLAG_MCP_ARMED else ak_flags_get s AND NOT AK_FLAG_MCP_ARMED)"
    using assms by (auto simp: SetMcpArmed_def Let_def ak_flags_get_def)
  then show "has (ak_flags_get (SetMcpArmed d on s)) AK_FLAG_MCP_ARMED \<longleftrightarrow> on"
    by (simp add: has_or) (simp add: has_def and.assoc AK_FLAG_MCP_ARMED_def)
  show "ak_mcp_fds (SetMcpArmed d on s) = ak_mcp_fds s" by (simp add: SetMcpArmed_def Let_def)
qed

lemma fds_simps [simp]:
  assumes "\<forall>m h. d_put d m h"
  shows "ak_mcp_fds (RegisterMcpFd d t f s) = (ak_mcp_fds s)(mcpFdKey t f \<mapsto> 1)"
    and "ak_flags_get (RegisterMcpFd d t f s) = ak_flags_get s"
  using assms by (simp_all add: RegisterMcpFd_def ak_flags_get_def)

lemma unregister_simps [simp]:
  "ak_mcp_fds (UnregisterMcpFd t f s) = (ak_mcp_fds s)(mcpFdKey t f := None)"
  "ak_flags_get (UnregisterMcpFd t f s) = ak_flags_get s"
  by (simp_all add: UnregisterMcpFd_def ak_flags_get_def)

lemma delete_keys_of: "fst ` set (AList.delete k al) = fst ` set al - {k}"
  by (auto simp: AList.delete_eq)

lemma mcp_ok_release:
  assumes d: "\<forall>m h. d_put d m h" and ok: "mcp_ok (cand, s)" and pid: "pid \<in> fst ` set cand"
  shows "mcp_ok (AList.delete pid cand, release_fds d pid (length (AList.delete pid cand)) s)"
proof -
  let ?c = "AList.delete pid cand" and ?u = "UnregisterMcpFd pid 1 (UnregisterMcpFd pid 0 s)"
  have "ak_mcp_fds (release_fds d pid (length ?c) s) = ak_mcp_fds ?u" using d by (simp add: release_fds_def Let_def)
  moreover have "has (ak_flags_get (release_fds d pid (length ?c) s)) AK_FLAG_MCP_ARMED \<longleftrightarrow> ?c \<noteq> []"
    using d ok pid by (auto simp: release_fds_def Let_def mcp_ok_def)
  moreover have "set ?c \<subseteq> set cand" by (auto simp: AList.delete_eq)
  ultimately show ?thesis using ok
    by (auto simp: mcp_ok_def delete_keys_of mcpFdKey_inj distinct_delete)
qed

lemma mcp_consider_ok:
  assumes "\<forall>m key. d_put d m key" "mcp_ok (cand, s)"
  shows "mcp_ok (mcp_consider d isFifo pid (cand, s))"
proof (cases "pid \<le>s 1 \<or> \<not> isFifo pid 0 \<or> \<not> isFifo pid 1 \<or> map_of cand pid \<noteq> None")
  case False
  define t where "t = RegisterMcpFd d pid 1 (RegisterMcpFd d pid 0 s)"
  define t' where "t' = (if cand = [] then SetMcpArmed d True t else t)"
  have res: "mcp_consider d isFifo pid (cand, s) = ((pid, \<lparr>mc_chunks = 0, mc_mcp = False\<rparr>) # cand, t')"
    using False by (simp add: mcp_parts t_def t'_def Let_def)
  have "ak_mcp_fds t' = (ak_mcp_fds s)(mcpFdKey pid 0 \<mapsto> 1, mcpFdKey pid 1 \<mapsto> 1)"
    using assms(1) by (simp add: t_def t'_def)
  then have fds: "ak_mcp_fds t' (mcpFdKey q fd) = (if q = pid \<and> (fd = 0 \<or> fd = 1) then Some 1 else ak_mcp_fds s (mcpFdKey q fd))"
    for q fd by (simp only: fun_upd_apply mcpFdKey_inj) argo
  have armed: "has (ak_flags_get t') AK_FLAG_MCP_ARMED" using assms by (simp add: t_def t'_def mcp_ok_def)
  have old: "ak_mcp_fds s (mcpFdKey q fd) \<noteq> None \<longleftrightarrow> q \<in> fst ` set cand \<and> (fd = 0 \<or> fd = 1)" for q fd
    using assms(2) by (simp add: mcp_ok_def)
  have "ak_mcp_fds t' (mcpFdKey q fd) \<noteq> None \<longleftrightarrow> q \<in> insert pid (fst ` set cand) \<and> (fd = 0 \<or> fd = 1)" for q fd
    using old [of q fd] fds [of q fd] by (metis insert_iff option.distinct(1))
  then show ?thesis using armed assms(2) False unfolding res mcp_ok_def by (simp add: map_of_eq_None_iff)
qed (use assms(2) in \<open>simp add: mcp_consider_def consider_locked_def\<close>)

lemma mcp_ok_update:
  assumes "mcp_ok (cand, s)" "pid \<in> fst ` set cand" "mc_mcp c \<or> mc_chunks c < 32"
  shows "mcp_ok (AList.update pid c cand, s)"
proof -
  have "set (AList.update pid c cand) \<subseteq> insert (pid, c) (set cand)" by (induction cand) auto
  then have "\<forall>(q, e) \<in> set (AList.update pid c cand). mc_mcp e \<or> mc_chunks e < 32"
    using assms(1, 3) unfolding mcp_ok_def by blast
  moreover have "fst ` set (AList.update pid c cand) = fst ` set cand" using assms(2) by (simp add: dom_update insert_absorb)
  moreover have "AList.update pid c cand \<noteq> [] \<longleftrightarrow> cand \<noteq> []" using assms(2) by (cases cand) auto
  ultimately show ?thesis using assms(1) by (simp add: mcp_ok_def distinct_update)
qed

lemma mcp_step_ok: "mcp_step cs cs' \<Longrightarrow> mcp_ok cs \<Longrightarrow> mcp_ok cs'"
proof (induction rule: mcp_step.induct)
  case (exec d cs isFifo pid)
  then show ?case using mcp_consider_ok [of d "fst cs" "snd cs" isFifo pid] by simp
next
  case (chunk d cs pid isMCP)
  obtain cand s where cs: "cs = (cand, s)" by (cases cs)
  show ?case
  proof (cases "map_of cand pid")
    case (Some c0)
    then have pid: "pid \<in> fst ` set cand" by (force dest: map_of_SomeD)
    show ?thesis using Some cs mcp_ok_release [OF chunk.hyps _ pid, of s] mcp_ok_update [OF _ pid, of s] chunk.prems
      by (simp add: noteChunk_def note_locked_def Let_def mcpMaxChunksBeforeEvict_def not_le)
  qed (use chunk cs in \<open>simp add: noteChunk_def note_locked_def\<close>)
next
  case (gone d cs pid)
  obtain cand s where cs: "cs = (cand, s)" by (cases cs)
  then show ?case
    using gone mcp_ok_release [OF gone.hyps, of cand s pid] by (cases "pid \<in> fst ` set cand") (simp_all add: mcp_forget_def forget_locked_def map_of_eq_None_iff Let_def)
qed

lemma mcp_steps_ok: "mcp_step\<^sup>*\<^sup>* cs cs' \<Longrightarrow> mcp_ok cs \<Longrightarrow> mcp_ok cs'"
  by (induction rule: rtranclp_induct) (auto intro: mcp_step_ok)

text \<open>
  C34. The kernel captures the standard pipes of exactly the candidate MCP servers: after any sequence of execs, captured chunks and exits, the hooks are armed
  when there is a candidate, and a descriptor is registered precisely when it is the standard input or output of a candidate; a
  candidate that is not confirmed has produced fewer than 32 chunks. (In a kernel that accepts the writes.)
\<close>

theorem mcp_capture_exact:
  assumes "mcp_step\<^sup>*\<^sup>* ([], init_kstate) (cand, s)"
  shows "(ak_mcp_fd s tgid (ucast fd) \<longleftrightarrow> tgid \<in> fst ` set cand \<and> (fd = 0 \<or> fd = (1 :: u32)))
    \<and> (has (ak_flags_get s) AK_FLAG_MCP_ARMED \<longleftrightarrow> cand \<noteq> [])
    \<and> ((pid, c) \<in> set cand \<longrightarrow> mc_mcp c \<or> mc_chunks c < 32)"
proof -
  have "mcp_ok ([], init_kstate)" by (simp add: mcp_ok_def init_kstate_def ak_flags_get_def has_def)
  then have "mcp_ok (cand, s)" using mcp_steps_ok [OF assms] by simp
  then show ?thesis by (auto simp: mcp_ok_def ak_mcp_fd_def mcpFdKey_eq [symmetric])
qed

theorem mcp_capture_exact_witness:
  "ak_mcp_fd (snd (mcp_consider accepting (\<lambda>_ _. True) 5 ([], init_kstate))) 5 1"
proof -
  let ?cs = "mcp_consider accepting (\<lambda>_ _. True) 5 ([], init_kstate)"
  have "mcp_step ([], init_kstate) ?cs" by (rule mcp_step.exec) (simp add: accepting_def)
  then have "mcp_step\<^sup>*\<^sup>* ([], init_kstate) (fst ?cs, snd ?cs)" by simp
  moreover have "fst ?cs = [(5, \<lparr>mc_chunks = 0, mc_mcp = False\<rparr>)]" by (simp add: mcp_parts Let_def word_sle_eq)
  ultimately show ?thesis using mcp_capture_exact [of "fst ?cs" "snd ?cs" 5 1] by simp
qed

text \<open>
  The mutex is released before the kernel is told. When the last candidate is evicted and another
  process becomes one before the eviction has disarmed the hooks, the disarming comes last: there is
  a candidate, its descriptors are registered, and nothing is captured until the candidates have
  been empty once more. Operations in one step (\<open>mcp_step\<close>) have no such state.
\<close>

lemma mcp_disarm_race:
  assumes "note_locked pid isMCP cand = (Some 0, cand1)" "consider_locked isFifo q cand1 = (Some n, cand2)"
    and "\<forall>m h. d_put d m h"
  shows "cand2 \<noteq> [] \<and> \<not> has (ak_flags_get (release_fds d pid 0 (register_fds d q n s))) AK_FLAG_MCP_ARMED"
  using assms by (auto simp: consider_locked_def release_fds_def Let_def split: if_splits)

lemma mcp_disarm_race_example:
  "note_locked 5 False [(5, \<lparr>mc_chunks = 31, mc_mcp = False\<rparr>)] = (Some 0, [])
   \<and> consider_locked (\<lambda>_ _. True) 6 [] = (Some 1, [(6, \<lparr>mc_chunks = 0, mc_mcp = False\<rparr>)])"
  by (simp add: note_locked_def consider_locked_def mcpMaxChunksBeforeEvict_def word_sle_eq)

section \<open>Database connections\<close>

definition dbPortEngines :: "(int \<times> bytes) list" where
  "dbPortEngines = [(5432, chars ''postgres''), (3306, chars ''mysql''), (27017, chars ''mongodb''),
     (27018, chars ''mongodb''), (27019, chars ''mongodb'')]"

definition dbSocketEngines :: "(bytes \<times> bytes) list" where
  "dbSocketEngines = [(chars ''mysql'', chars ''mysql''), (chars ''pgsql'', chars ''postgres''), (chars ''mongo'', chars ''mongodb'')]"

record dbConn =
  dc_engine :: bytes
  dc_endpoint :: bytes

text \<open>What follows the last colon.\<close>

definition after_colon :: "bytes \<Rightarrow> bytes" where
  "after_colon r = rev (takeWhile (\<lambda>c. c \<noteq> colon) (rev r))"

definition dbEngineForResource :: "bytes \<Rightarrow> bytes option" where
  "dbEngineForResource r =
     (if HasPrefix r (chars ''unix:'') then
        let lp = ToLower (drop 5 r)
        in map_option snd (List.find (\<lambda>(token, _). Contains lp token) dbSocketEngines)
      else if colon \<notin> set r \<or> after_colon r = [] then None
      else case Atoi (after_colon r) of None \<Rightarrow> None | Some port \<Rightarrow> map_of dbPortEngines port)"

definition noteDBConnect :: "s32 \<Rightarrow> bytes \<Rightarrow> (s32 \<rightharpoonup> dbConn) \<Rightarrow> (s32 \<rightharpoonup> dbConn)" where
  "noteDBConnect pid r m =
     (case dbEngineForResource r of
        None \<Rightarrow> m
      | Some eng \<Rightarrow>
          if (case m pid of None \<Rightarrow> [] | Some c \<Rightarrow> dc_engine c) \<noteq> eng
          then m(pid \<mapsto> \<lparr>dc_engine = eng, dc_endpoint = r\<rparr>) else m)"

definition forgetDB :: "s32 \<Rightarrow> (s32 \<rightharpoonup> dbConn) \<Rightarrow> (s32 \<rightharpoonup> dbConn)" where
  "forgetDB pid m = m(pid := None)"

definition isConnect :: "'a SyscallEvent_scheme \<Rightarrow> bool" where
  "isConnect e \<longleftrightarrow> ev_Category e = CategoryNetwork \<and> ev_Operation e = ''connect''"

text \<open>
  A process keeps the endpoint of its first connection to an engine: a later connect to another server
  of the same engine is recorded under the first address.
\<close>

lemma second_endpoint_lost:
  "noteDBConnect pid (chars ''10.0.0.2:5432'') (noteDBConnect pid (chars ''10.0.0.1:5432'') Map.empty)
   = [pid \<mapsto> \<lparr>dc_engine = chars ''postgres'', dc_endpoint = chars ''10.0.0.1:5432''\<rparr>]"
proof -
  have "dbEngineForResource (chars ''10.0.0.2:5432'') = Some (chars ''postgres'')"
    "dbEngineForResource (chars ''10.0.0.1:5432'') = Some (chars ''postgres'')"
    by code_simp+
  then show ?thesis by (simp add: noteDBConnect_def) (simp add: chars_def)
qed

end
