(* ===== verification/AK_Onboard.thy ===== *)
theory AK_Onboard
  imports AK_Daemon AK_TaintFlow AK_Lifecycle AK_Sensor
begin

text \<open>
  The daemon as a whole, \<open>cmd/agentknox/daemon.go\<close>: its state, what it reads of the host, and what
  it does when a session begins (\<open>onNewSession\<close>), when it or a member ends (\<open>onSessionEnded\<close>,
  \<open>onMemberExit\<close>), and on the periodic sweep (\<open>reArmSweep\<close>). The semantic resolver's plan for a process and
  whether probes could be attached are arguments.
\<close>

section \<open>State and surroundings\<close>

text \<open>A directory tree as \<open>filepath.Walk\<close> sees it: everything that is no directory, and the readable entries of one.\<close>

datatype fnode = NonDir | Dir "(bytes \<times> fnode) list"

record AttachPlan =
  pl_BuildID :: bytes
  pl_NoBoundary :: bool
  pl_Coverage :: SemanticCoverage
  pl_KnownGood :: bool
  pl_ReferenceSet :: bool
  pl_IdentityChanged :: bool

text \<open>
  The host: what the manager reads, the listing of \<open>/proc\<close>, environment and working directory of a
  process, the tree below a directory, the first two bytes and the permissions of a file, whether a path is a
  directory (\<open>None\<close>: no such file), the daemon's working directory; whether map writes succeed, which descriptors are pipes, the outcome of a
  signal, the resolver's plan and the outcome of attaching it; the clock (in nanoseconds, and in the seconds of
  the DNS guard), a fresh identifier, the order of a map; the settings for semantic capture.
\<close>

record host =
  hp_os :: os
  hp_proc :: procfs
  hp_environ :: "s32 \<Rightarrow> bytes option"
  hp_cwd :: "s32 \<Rightarrow> bytes option"
  hp_tree :: "bytes \<Rightarrow> fnode"
  hp_head :: "bytes \<Rightarrow> bytes option"
  hp_perm :: "bytes \<Rightarrow> u32 option"
  hp_isdir :: "bytes \<Rightarrow> bool option"
  hp_wd :: "bytes option"
  hp_d :: denv
  hp_fifo :: "s32 \<Rightarrow> nat \<Rightarrow> bool"
  hp_kill :: "s32 \<Rightarrow> kill_result"
  hp_plan :: "s32 \<Rightarrow> AttachPlan option"
  hp_attach :: "s32 \<Rightarrow> bool"
  hp_now :: int
  hp_secs :: nat
  hp_fresh :: bytes
  hp_pick :: nat
  hp_semantic :: bool
  hp_capture :: bool

text \<open>The daemon: its components, the kernel they share, and the processes it sent \<open>SIGKILL\<close>.\<close>

record agentd =
  ag_mgr :: manager
  ag_correl :: correlator
  ag_policy :: engine
  ag_guard :: guard
  ag_mcp :: mcp
  ag_db :: "s32 \<rightharpoonup> dbConn"
  ag_workers :: "bytes set"
  ag_dm :: daemon
  ag_killed :: "s32 list"

abbreviation kernel :: "agentd \<Rightarrow> kstate" where
  "kernel ag \<equiv> snd (ag_dm ag)"

definition on_dm :: "(daemon \<Rightarrow> daemon) \<Rightarrow> agentd \<Rightarrow> agentd" where
  "on_dm f ag = ag\<lparr>ag_dm := f (ag_dm ag)\<rparr>"

definition on_kernel :: "(kstate \<Rightarrow> kstate) \<Rightarrow> agentd \<Rightarrow> agentd" where
  "on_kernel f = on_dm (map_prod id f)"

definition on_mgr :: "(manager \<Rightarrow> manager) \<Rightarrow> agentd \<Rightarrow> agentd" where
  "on_mgr f ag = ag\<lparr>ag_mgr := f (ag_mgr ag)\<rparr>"

lemma on_simps [simp]:
  "ag_dm (on_dm f ag) = f (ag_dm ag)" "ag_mgr (on_dm f ag) = ag_mgr ag" "ag_policy (on_dm f ag) = ag_policy ag"
  "ag_correl (on_dm f ag) = ag_correl ag" "ag_killed (on_dm f ag) = ag_killed ag"
  "ag_dm (on_mgr g ag) = ag_dm ag" "ag_mgr (on_mgr g ag) = g (ag_mgr ag)" "ag_policy (on_mgr g ag) = ag_policy ag"
  "ag_correl (on_mgr g ag) = ag_correl ag" "ag_killed (on_mgr g ag) = ag_killed ag"
  "ag_dm (on_kernel u ag) = (fst (ag_dm ag), u (kernel ag))" "ag_mgr (on_kernel u ag) = ag_mgr ag"
  "ag_policy (on_kernel u ag) = ag_policy ag" "ag_correl (on_kernel u ag) = ag_correl ag"
  "ag_killed (on_kernel u ag) = ag_killed ag"
  by (simp_all add: on_dm_def on_kernel_def on_mgr_def map_prod_def split_def)

section \<open>Live descendants\<close>

text \<open>The parent in \<open>/proc/pid/stat\<close>: the second field after the last closing parenthesis and a space.\<close>

definition readPPID :: "os \<Rightarrow> s32 \<Rightarrow> s32" where
  "readPPID os pid =
     (case os_stat os pid of
        None \<Rightarrow> 0
      | Some s \<Rightarrow>
          let rest = rev (takeWhile (\<lambda>c. c \<noteq> 0x29) (rev s)); fields = Fields (drop 1 rest)
          in if 0x29 \<notin> set s \<or> length rest < 2 \<or> length fields < 2 then 0
             else case Atoi (fields ! 1) of None \<Rightarrow> 0 | Some v \<Rightarrow> of_int v)"

text \<open>Every numeric entry of \<open>/proc\<close> with a positive parent, and that parent.\<close>

definition parent_links :: "host \<Rightarrow> (s32 \<times> s32) list" where
  "parent_links h =
     (case proc_entries (hp_proc h) of
        None \<Rightarrow> []
      | Some es \<Rightarrow>
          List.map_filter (\<lambda>(name, _).
            case Atoi name of
              None \<Rightarrow> None
            | Some v \<Rightarrow>
                let pid = of_int v; ppid = readPPID (hp_os h) pid
                in if 0 <s ppid then Some (pid, ppid) else None) es)"

definition children_of :: "(s32 \<times> s32) list \<Rightarrow> s32 \<Rightarrow> s32 list" where
  "children_of links p = map fst (filter (\<lambda>l. snd l = p) links)"

text \<open>The breadth-first walk: the queue, what has been seen, and the processes reached, in order.\<close>

definition enqueue :: "s32 \<Rightarrow> walk \<Rightarrow> walk" where
  "enqueue c w = (if c \<in> w_seen w then w
     else \<lparr>w_stack = w_stack w @ [c], w_seen = insert c (w_seen w), w_out = w_out w @ [c]\<rparr>)"

definition bfs_turn :: "(s32 \<times> s32) list \<Rightarrow> walk \<Rightarrow> walk" where
  "bfs_turn links w = fold enqueue (children_of links (hd (w_stack w))) (w\<lparr>w_stack := tl (w_stack w)\<rparr>)"

definition bfs_left :: "(s32 \<times> s32) list \<Rightarrow> walk \<Rightarrow> nat" where
  "bfs_left links w = length (w_stack w) + card (fst ` set links - w_seen w)"

lemma enqueue_left:
  assumes "c \<in> fst ` set links"
  shows "bfs_left links (enqueue c w) = bfs_left links w"
proof (cases "c \<in> w_seen w")
  case False
  let ?u = "fst ` set links"
  have "?u - w_seen w = insert c (?u - insert c (w_seen w))" using assms False by auto
  then have "card (?u - w_seen w) = Suc (card (?u - insert c (w_seen w)))"
    by (metis Diff_iff List.finite_set card_insert_disjoint finite_Diff finite_imageI insertI1)
  with False show ?thesis by (simp add: enqueue_def bfs_left_def)
qed (simp add: enqueue_def)

lemma enqueues_left: "set cs \<subseteq> fst ` set links \<Longrightarrow> bfs_left links (fold enqueue cs w) = bfs_left links w"
  by (induction cs arbitrary: w) (simp_all add: enqueue_left)

lemma children_of_links: "set (children_of links p) \<subseteq> fst ` set links"
  by (auto simp: children_of_def)

lemma bfs_turn_left: "w_stack w \<noteq> [] \<Longrightarrow> bfs_left links (bfs_turn links w) < bfs_left links w"
  by (cases "w_stack w") (simp_all add: bfs_turn_def enqueues_left children_of_links, simp add: bfs_left_def)

function bfs_loop :: "(s32 \<times> s32) list \<Rightarrow> walk \<Rightarrow> s32 list" where
  "bfs_loop links w = (if w_stack w = [] then w_out w else bfs_loop links (bfs_turn links w))"
  by pat_completeness auto
termination
  by (relation "measure (\<lambda>(links, w). bfs_left links w)") (simp_all add: bfs_turn_left)

declare bfs_loop.simps [simp del]

definition live_descendants :: "host \<Rightarrow> s32 \<Rightarrow> s32 list" where
  "live_descendants h root =
     (if proc_entries (hp_proc h) = None then []
      else bfs_loop (parent_links h) \<lparr>w_stack = [root], w_seen = {root}, w_out = []\<rparr>)"

definition armLiveDescendants :: "host \<Rightarrow> s32 \<Rightarrow> agentd \<Rightarrow> agentd" where
  "armLiveDescendants h root =
     fold (\<lambda>c ag. on_dm (EnforcePID (hp_d h) c) (on_kernel (RegisterPID (hp_d h) c) ag)) (live_descendants h root)"

definition rearmDescendants :: "host \<Rightarrow> s32 \<Rightarrow> agentd \<Rightarrow> agentd" where
  "rearmDescendants h root = fold (\<lambda>c. on_dm (EnforcePID (hp_d h) c)) (live_descendants h root)"

section \<open>Secrets of a session\<close>

text \<open>\<open>filepath.Abs\<close>; the daemon's working directory is absolute.\<close>

definition filepath_Abs :: "bytes option \<Rightarrow> bytes \<Rightarrow> bytes option" where
  "filepath_Abs wd p =
     (if HasPrefix p [slash] then Some (filepath_Join [p]) else map_option (\<lambda>w. filepath_Join [w, p]) wd)"

definition mark_source :: "host \<Rightarrow> bytes \<Rightarrow> agentd \<Rightarrow> agentd" where
  "mark_source h p ag =
     (case filepath_Abs (hp_wd h) p of
        None \<Rightarrow> ag
      | Some a \<Rightarrow>
          if \<not> isSensitivePath a \<or> hp_isdir h a \<noteq> Some False then ag else on_dm (MarkSensitivePath (hp_d h) a) ag)"

definition path_join :: "bytes \<Rightarrow> bytes \<Rightarrow> bytes" where
  "path_join p name = (if p = [slash] then slash # name else p @ slash # name)"

definition skip_dir :: "bytes \<Rightarrow> bytes \<Rightarrow> bool" where
  "skip_dir cwd p \<longleftrightarrow>
     (p \<noteq> cwd \<and> filepath_Base p \<in> set (map chars [''node_modules'', ''.git'', ''vendor'', ''.cache'']))
     \<or> 4 < length (filter (\<lambda>c. c = slash) (if HasPrefix p cwd then drop (length cwd) p else p))"

text \<open>The files the callback of \<open>filepath.Walk\<close> is given, in order.\<close>

fun walk_files :: "bytes \<Rightarrow> bytes \<Rightarrow> fnode \<Rightarrow> bytes list" where
  "walk_files cwd p NonDir = [p]"
| "walk_files cwd p (Dir es) =
     (if skip_dir cwd p then [] else concat (map (\<lambda>en. walk_files cwd (path_join p (fst en)) (snd en)) es))"

text \<open>The value of the first \<open>HOME=\<close> in the environment.\<close>

definition procEnvHome :: "host \<Rightarrow> s32 \<Rightarrow> bytes" where
  "procEnvHome h pid =
     (case hp_environ h pid of
        None \<Rightarrow> []
      | Some b \<Rightarrow>
          (case List.find (\<lambda>kv. HasPrefix kv (chars ''HOME='')) (split_on 0 b) of
             None \<Rightarrow> [] | Some kv \<Rightarrow> drop 5 kv))"

definition homeSecrets :: "bytes list" where
  "homeSecrets = map chars [''.ssh/id_rsa'', ''.ssh/id_ed25519'', ''.aws/credentials'', ''.netrc'', ''.kube/config'', ''.env'']"

definition markSensitiveSources :: "host \<Rightarrow> session \<Rightarrow> agentd \<Rightarrow> agentd" where
  "markSensitiveSources h s ag =
     (let cwd = (case hp_cwd h (sess_RootPID s) of None \<Rightarrow> [] | Some c \<Rightarrow> c);
          home = procEnvHome h (sess_RootPID s);
          ag1 = (if cwd = [] then ag else fold (mark_source h) (walk_files cwd cwd (hp_tree h cwd)) ag)
      in if home = [] then ag1
         else fold (\<lambda>rel. mark_source h (home @ slash # rel)) homeSecrets ag1)"

section \<open>The semantic boundary\<close>

definition identityUnvouched :: "AttachPlan \<Rightarrow> bool" where
  "identityUnvouched plan \<longleftrightarrow>
     pl_BuildID plan \<noteq> [] \<and> \<not> pl_KnownGood plan \<and> (pl_ReferenceSet plan \<or> pl_IdentityChanged plan)"

definition attachSemantic :: "host \<Rightarrow> session \<Rightarrow> agentd \<Rightarrow> SemanticCoverage \<times> agentd" where
  "attachSemantic h s ag =
     (case hp_plan h (sess_RootPID s) of
        None \<Rightarrow> (CoverageNone, ag)
      | Some plan \<Rightarrow>
          let ag1 = on_mgr (SetAttachPlan (ss_ID s) (Some (pl_Coverage plan))) ag;
              ag2 = (if identityUnvouched plan then on_mgr (MarkTampered (ss_ID s)) ag1 else ag1);
              coverage = (if hp_semantic h \<and> pl_Coverage plan \<noteq> CoverageNone \<and> \<not> hp_attach h (sess_RootPID s)
                          then CoverageNone else pl_Coverage plan)
          in (coverage, on_mgr (SetCoverage (ss_ID s) coverage) ag2))"

text \<open>After the grace period: a boundary that delivered nothing is reported degraded.\<close>

definition watchWireCoverage :: "bytes \<Rightarrow> agentd \<Rightarrow> agentd" where
  "watchWireCoverage sid ag =
     (case WireIntents (ag_mgr ag) sid of
        None \<Rightarrow> ag
      | Some n \<Rightarrow> if 0 < n then ag else on_mgr (SetCoverage sid CoverageDegraded) ag)"

section \<open>A session begins\<close>

definition argv_prompt :: "int \<Rightarrow> session \<Rightarrow> bytes \<Rightarrow> SemanticEvent" where
  "argv_prompt now s txt =
     \<lparr>sv_Time = now, sv_TimestampNS = 0, sv_SessionID = ss_ID s, sv_HostPID = sess_RootPID s, sv_Kind = SemPrompt,
      sv_Provider = chars ''argv'', sv_Text = txt, sv_ToolUse = None, sv_MCPMethod = [], sv_DBQuery = None\<rparr>"

definition indexArgvPrompt :: "host \<Rightarrow> session \<Rightarrow> agentd \<Rightarrow> agentd" where
  "indexArgvPrompt h s ag =
     (case os_cmdline (hp_os h) (sess_RootPID s) of
        None \<Rightarrow> ag
      | Some b \<Rightarrow>
          let txt = TrimSpace (map (\<lambda>c. if c = 0 then 0x20 else c) b)
          in if txt = [] then ag
             else ag\<lparr>ag_correl := PushSemantic (hp_now h) (argv_prompt (hp_now h) s txt) (ag_correl ag)\<rparr>)"

definition genericInterpreter :: "bytes list" where
  "genericInterpreter = map chars [''node'', ''nodejs'', ''deno'', ''bun'', ''python'', ''python3'', ''python2'', ''bash'',
     ''sh'', ''dash'', ''zsh'', ''fish'', ''ruby'', ''perl'', ''php'', ''java'', ''dotnet'', ''env'', ''sudo'', ''busybox'']"

definition register_binary :: "host \<Rightarrow> session \<Rightarrow> agentd \<Rightarrow> agentd" where
  "register_binary h s ag =
     (case os_exe (hp_os h) (sess_RootPID s) of
        None \<Rightarrow> ag
      | Some exe \<Rightarrow>
          let base = filepath_Base exe
          in if base = [] \<or> ToLower base \<in> set genericInterpreter then ag
             else on_dm (RegisterAgentBinary (hp_d h) base) ag)"

definition onNewSession :: "host \<Rightarrow> session \<Rightarrow> agentd \<Rightarrow> agentd" where
  "onNewSession h s ag0 =
     (let d = hp_d h;
          ag1 = on_kernel (RegisterPID d (sess_RootPID s))
                  (on_kernel (RegisterSession d (sess_CgroupID s)) (indexArgvPrompt h s ag0));
          ag2 = fold (\<lambda>p. on_kernel (RegisterPID d p)) (sess_Members s) ag1;
          ag3 = on_dm (\<lambda>dm. snd (EnforceSession d (hp_proc h) (to_enforce s) dm)) ag2;
          ag4 = register_binary h s (armLiveDescendants h (sess_RootPID s) ag3);
          ag5 = (if WantsTaintedCodeBlock (ag_policy ag4) (ss_Agent s)
                 then on_dm (SetTaintedCodePosture d (sess_CgroupID s) True) ag4 else ag4);
          ag6 = (if WantsTaintedEgressBlock (ag_policy ag5) (ss_Agent s) then markSensitiveSources h s ag5 else ag5)
      in snd (attachSemantic h s ag6))"

section \<open>A session or a member ends\<close>

text \<open>\<open>UnregisterPID\<close>, \<open>mcp.forget\<close>, \<open>forgetDB\<close>.\<close>

definition release_pid :: "host \<Rightarrow> s32 \<Rightarrow> agentd \<Rightarrow> agentd" where
  "release_pid h pid ag =
     (let (cand, s) = mcp_forget (hp_d h) pid (ag_mcp ag, UnregisterPID pid (kernel ag))
      in ag\<lparr>ag_mcp := cand, ag_dm := (fst (ag_dm ag), s), ag_db := forgetDB pid (ag_db ag)\<rparr>)"

text \<open>
  The probes of the session are detached and its record is archived (output), and its managed control group is removed last,
  \<open>ReleaseSessionCgroup\<close> of \<open>AK_Sessions\<close>: an effect on the file system alone, whose error is logged.
\<close>

definition onSessionEnded :: "host \<Rightarrow> session \<Rightarrow> agentd \<Rightarrow> agentd" where
  "onSessionEnded h s ag0 =
     (let d = hp_d h; cg = sess_CgroupID s;
          ag1 = (if CgroupHasActiveSession (ag_mgr ag0) cg (ss_ID s) then ag0
                 else on_dm (SetNetPosture d cg False)
                        (on_dm (SetTaintedCodePosture d cg False) (on_kernel (UnregisterSession cg) ag0)));
          ag2 = fold (release_pid h) (sess_RootPID s # sess_Members s) ag1
      in ag2\<lparr>ag_policy := ForgetSession (ss_ID s) (ag_policy ag2)\<rparr>)"

definition onMemberExit :: "host \<Rightarrow> s32 \<Rightarrow> agentd \<Rightarrow> agentd" where
  "onMemberExit h pid = release_pid h pid"

section \<open>The periodic sweep\<close>

definition readCgroupProcs :: "os \<Rightarrow> bytes \<Rightarrow> s32 list" where
  "readCgroupProcs os path =
     (case os_cgprocs os (filepath_Join [cgroupRoot, path]) of
        None \<Rightarrow> []
      | Some b \<Rightarrow>
          List.map_filter (\<lambda>line. if line = [] then None else map_option of_int (Atoi line)) (split_lines (TrimSpace b)))"

definition rearm_session :: "host \<Rightarrow> session \<Rightarrow> agentd \<Rightarrow> agentd" where
  "rearm_session h s ag =
     (if ss_State s \<noteq> SessionActive then ag
      else if ss_CgroupPath s \<noteq> []
      then fold (\<lambda>p. on_dm (EnforcePID (hp_d h) p)) (readCgroupProcs (hp_os h) (ss_CgroupPath s)) ag
      else rearmDescendants h (sess_RootPID s)
             (fold (\<lambda>p. on_dm (EnforcePID (hp_d h) p)) (sess_RootPID s # sess_Members s) ag))"

definition reArmSweep :: "host \<Rightarrow> agentd \<Rightarrow> agentd" where
  "reArmSweep h ag = fold (rearm_session h) (List_sessions (ag_mgr ag)) ag"

end
