(* ===== verification/AK_Pipeline.thy ===== *)
theory AK_Pipeline
  imports AK_Onboard
begin

text \<open>
  The event loops of the daemon (\<open>cmd/agentknox/daemon.go\<close>): system calls, actions of the correlator, plaintext and
  transcripts, each as a function from the state of the daemon to the next. The events that the semantic parser and the
  transcript readers yield are arguments. Alerts, records and archive are output only.
\<close>

section \<open>What a file is\<close>

definition codeExts :: "bytes list" where
  "codeExts = map chars [''.py'', ''.js'', ''.ts'', ''.mjs'', ''.cjs'', ''.sh'', ''.bash'', ''.zsh'', ''.rb'', ''.pl'', ''.php'', ''.r'',
     ''.lua'', ''.ps1'']"

text \<open>\<open>filepath.Ext\<close>: from the last dot of the last element.\<close>

definition filepath_Ext :: "bytes \<Rightarrow> bytes" where
  "filepath_Ext p =
     (let base = after_slash p
      in if dot \<in> set base then dot # rev (takeWhile (\<lambda>c. c \<noteq> dot) (rev base)) else [])"

definition hasShebang :: "host \<Rightarrow> bytes \<Rightarrow> bool" where
  "hasShebang h path \<longleftrightarrow> hp_head h path = Some [0x23, 0x21]"

definition hasExecBit :: "host \<Rightarrow> bytes \<Rightarrow> bool" where
  "hasExecBit h path \<longleftrightarrow> (case hp_perm h path of None \<Rightarrow> False | Some m \<Rightarrow> m AND 0x49 \<noteq> 0)"

definition detectCode :: "host \<Rightarrow> bytes \<Rightarrow> bool" where
  "detectCode h path \<longleftrightarrow>
     ToLower (filepath_Ext path) \<in> set codeExts \<or> hasShebang h path \<or> hasExecBit h path"

definition persistencePrefixes :: "bytes list" where
  "persistencePrefixes = map chars [''/etc/cron.d/'', ''/etc/cron.daily/'', ''/etc/cron.hourly/'', ''/etc/cron.weekly/'',
     ''/etc/cron.monthly/'', ''/var/spool/cron/'', ''/var/spool/at/'', ''/etc/systemd/system/'', ''/lib/systemd/system/'',
     ''/usr/lib/systemd/system/'', ''/etc/init.d/'', ''/etc/rc.local'']"

definition persistenceSuffixes :: "bytes list" where
  "persistenceSuffixes = map chars [''/.config/systemd/user/'', ''/.bashrc'', ''/.bash_profile'', ''/.profile'', ''/.zshrc'',
     ''/.config/autostart/'', ''/.git/hooks/'']"

definition isPersistencePath :: "bytes \<Rightarrow> bool" where
  "isPersistencePath path \<longleftrightarrow>
     HasPrefix path [slash]
     \<and> (list_ex (\<lambda>p. HasPrefix path p \<or> path = trim_slashes p) persistencePrefixes
        \<or> list_ex (Contains path) persistenceSuffixes)"

section \<open>System calls\<close>

definition sessionByID :: "manager \<Rightarrow> bytes \<Rightarrow> session option" where
  "sessionByID m sid = (if sid = [] then None else List.find (\<lambda>s. ss_ID s = sid) (List_sessions m))"

definition apply_decision :: "host \<Rightarrow> session option \<Rightarrow> effect \<Rightarrow> SyscallEvent option \<Rightarrow> agentd \<Rightarrow> agentd" where
  "apply_decision h sess eff ev ag =
     (let ((err, killed), dm) = Apply (hp_d h) (hp_kill h) (map_option to_enforce sess) eff ev (ag_dm ag)
      in ag\<lparr>ag_dm := dm, ag_killed := ag_killed ag @ killed\<rparr>)"

definition act :: "host \<Rightarrow> session option \<Rightarrow> Decision \<Rightarrow> SessionEvent \<Rightarrow> agentd \<Rightarrow> agentd" where
  "act h sess dec ev ag =
     (if de_Effect dec = EffectAllow \<or> de_Effect dec = EffectAudit \<or> sess = None then ag
      else apply_decision h sess (de_Effect dec) (Some (SyscallEvent.truncate ev)) ag)"

definition on_exec :: "host \<Rightarrow> SessionEvent \<Rightarrow> agentd \<Rightarrow> agentd" where
  "on_exec h ev ag =
     (case OnExec (hp_os h) (hp_fresh h) (hp_now h) ev (ag_mgr ag) of
        (Some (sid, True), m) \<Rightarrow>
          (case mg_store m sid of None \<Rightarrow> ag\<lparr>ag_mgr := m\<rparr> | Some s \<Rightarrow> onNewSession h s (ag\<lparr>ag_mgr := m\<rparr>))
      | (_, m) \<Rightarrow> ag\<lparr>ag_mgr := m\<rparr>)"

definition on_exit :: "host \<Rightarrow> SessionEvent \<Rightarrow> agentd \<Rightarrow> agentd" where
  "on_exit h ev ag =
     (case OnExit (hp_os h) ev (ag_mgr ag) of
        (NoCallback, m) \<Rightarrow> ag\<lparr>ag_mgr := m\<rparr>
      | (OnSessionEnded sid, m) \<Rightarrow>
          (case mg_store m sid of None \<Rightarrow> ag\<lparr>ag_mgr := m\<rparr> | Some s \<Rightarrow> onSessionEnded h s (ag\<lparr>ag_mgr := m\<rparr>))
      | (OnMemberExit sid pid, m) \<Rightarrow> onMemberExit h pid (ag\<lparr>ag_mgr := m\<rparr>))"

definition observe_dns :: "host \<Rightarrow> SessionEvent \<Rightarrow> agentd \<Rightarrow> agentd" where
  "observe_dns h e ag =
     (case ev_DNS e of
        None \<Rightarrow> ag
      | Some i \<Rightarrow>
          if Answers i = [] then ag
          else let (g, s) = observe (hp_d h) (hp_secs h) (ag_policy ag) (Some i) (ag_guard ag, kernel ag)
               in ag\<lparr>ag_guard := g, ag_dm := (fst (ag_dm ag), s)\<rparr>)"

definition resolveWorkerBinary :: "host \<Rightarrow> bytes \<Rightarrow> s32 \<Rightarrow> agentd \<Rightarrow> agentd" where
  "resolveWorkerBinary h sid pid ag =
     (case os_exe (hp_os h) pid of
        None \<Rightarrow> ag
      | Some exe \<Rightarrow>
          if exe = [] \<or> exe \<in> ag_workers ag then ag
          else
            let ag1 = ag\<lparr>ag_workers := insert exe (ag_workers ag)\<rparr>
            in case hp_plan h pid of
                 None \<Rightarrow> ag1
               | Some plan \<Rightarrow>
                   if pl_NoBoundary plan \<or> \<not> hp_attach h pid then ag1
                   else on_mgr (SetAttachPlan sid (Some (pl_Coverage plan))) ag1)"

definition consider_mcp :: "host \<Rightarrow> s32 \<Rightarrow> agentd \<Rightarrow> agentd" where
  "consider_mcp h pid ag =
     (let (cand, s) = mcp_consider (hp_d h) (hp_fifo h) pid (ag_mcp ag, kernel ag)
      in ag\<lparr>ag_mcp := cand, ag_dm := (fst (ag_dm ag), s)\<rparr>)"

definition scope_exec :: "host \<Rightarrow> SessionEvent \<Rightarrow> bytes \<Rightarrow> AgentKind \<Rightarrow> agentd \<Rightarrow> agentd" where
  "scope_exec h e sid agent ag =
     (let pid = ev_pid e;
          ag1 = on_dm (EnforcePID (hp_d h) pid) (on_kernel (RegisterPID (hp_d h) pid) ag);
          ag2 = (if AgentOf (hp_os h) (ag_mgr ag1) pid = agent then resolveWorkerBinary h sid pid ag1 else ag1)
      in consider_mcp h pid ag2)"

definition note_file :: "host \<Rightarrow> SessionEvent \<Rightarrow> AgentKind \<Rightarrow> agentd \<Rightarrow> agentd" where
  "note_file h e agent ag =
     (let res = ev_resource e; wants = WantsTaintedCodeBlock (ag_policy ag) agent
      in if ev_Category e = CategoryFile \<and> ev_Operation e = ''write'' then
           let ag1 = (if wants then on_dm (TaintFile (hp_d h) res (detectCode h res)) ag else ag)
           in if isPersistencePath res then on_dm (TaintPersist (hp_d h) res) ag1 else ag1
         else if ev_Category e = CategoryFile \<and> ev_Operation e = ''chmod'' then
           (if wants \<and> hasExecBit h res then on_dm (TaintFile (hp_d h) res True) ag else ag)
         else ag)"

definition decide_syscall :: "host \<Rightarrow> SessionEvent \<Rightarrow> bytes \<Rightarrow> agentd \<Rightarrow> agentd" where
  "decide_syscall h e sid ag =
     (let sess = (case sessionByID (ag_mgr ag) sid of None \<Rightarrow> LookupByCgroup (ag_mgr ag) (ev_cgroup e) | Some s \<Rightarrow> Some s);
          (dec, en) = EvaluateSyscall (hp_pick h) (SyscallEvent.truncate e) (ev_Time e) sess (ag_policy ag);
          ag1 = act h sess dec e (ag\<lparr>ag_policy := en\<rparr>)
      in ag1\<lparr>ag_correl := PushSyscall (hp_now h) e (ag_correl ag1)\<rparr>)"

definition handle_attributed :: "host \<Rightarrow> SessionEvent \<Rightarrow> bytes \<Rightarrow> AgentKind \<Rightarrow> agentd \<Rightarrow> agentd" where
  "handle_attributed h e sid agent ag0 =
     (let ag1 = observe_dns h e ag0;
          ag2 = (if isConnect e then ag1\<lparr>ag_db := noteDBConnect (ev_pid e) (ev_resource e) (ag_db ag1)\<rparr> else ag1);
          ag3 = (if ev_Category e = CategoryProcess \<and> ev_Operation e = ''exec'' then scope_exec h e sid agent ag2 else ag2)
      in decide_syscall h e sid (note_file h e agent ag3))"

definition handle_syscall :: "host \<Rightarrow> SessionEvent \<Rightarrow> agentd \<Rightarrow> agentd" where
  "handle_syscall h ev ag0 =
     (let proc = (ev_Category ev = CategoryProcess);
          ag1 = (if proc \<and> ev_Operation ev = ''exec'' then on_exec h ev ag0 else ag0);
          e = Enrich (ag_mgr ag1) ev;
          ag2 = (if proc \<and> ev_Operation ev = ''exit'' then on_exit h e ag1 else ag1)
      in case ev_Session e of
           None \<Rightarrow> ag2
         | Some (sid, agent) \<Rightarrow> handle_attributed h e sid agent ag2)"

section \<open>Scripts under an interpreter\<close>

definition interpreterNames :: "bytes list" where
  "interpreterNames = map chars [''python'', ''python3'', ''python2'', ''node'', ''bun'', ''deno'', ''ts-node'', ''tsx'', ''bash'', ''sh'',
     ''zsh'', ''dash'', ''ruby'', ''perl'', ''php'', ''Rscript'']"

text \<open>The script of an interpreter's command line as an absolute path; the working directory in \<open>/proc\<close> is absolute.\<close>

definition resolveScriptArg :: "host \<Rightarrow> s32 \<Rightarrow> bool \<times> bytes" where
  "resolveScriptArg h pid =
     (case os_cmdline (hp_os h) pid of
        None \<Rightarrow> (False, [])
      | Some b \<Rightarrow>
          let argv = filter (\<lambda>p. p \<noteq> []) (split_on 0 b)
          in if length argv < 2 \<or> filepath_Base (hd argv) \<notin> set interpreterNames then (False, [])
             else case List.find (\<lambda>a. \<not> HasPrefix a [0x2d]) (tl argv) of
               None \<Rightarrow> (True, [])
             | Some arg \<Rightarrow>
                 if HasPrefix arg [slash] then (True, filepath_Join [arg])
                 else case hp_cwd h pid of
                   None \<Rightarrow> (True, [])
                 | Some cwd \<Rightarrow> (True, if cwd = [] then [] else filepath_Join [cwd, arg]))"

definition checkInterpreterScript :: "host \<Rightarrow> SessionEvent \<Rightarrow> agentd \<Rightarrow> agentd" where
  "checkInterpreterScript h e ag =
     (case sessionByID (ag_mgr ag) (ev_sid e) of
        None \<Rightarrow> ag
      | Some s \<Rightarrow>
          if \<not> WantsTaintedCodeBlock (ag_policy ag) (ss_Agent s) then ag
          else
            let (interp, script) = resolveScriptArg h (ev_pid e)
            in if \<not> interp \<or> script = [] \<or> \<not> IsTaintedWritten script (kernel ag) then ag
               else apply_decision h (Some s) EffectKill (Some (SyscallEvent.truncate e)) ag)"

section \<open>Actions\<close>

definition hasLabel :: "bytes list \<Rightarrow> bytes \<Rightarrow> bool" where
  "hasLabel labels want \<longleftrightarrow> want \<in> set labels"

definition blocks :: "effect \<Rightarrow> bool" where
  "blocks eff \<longleftrightarrow> eff = EffectBlock \<or> eff = EffectKill"

definition bar_egress :: "host \<Rightarrow> CorrelatedAction \<Rightarrow> session \<Rightarrow> agentd \<Rightarrow> agentd" where
  "bar_egress h a s ag =
     (if hasLabel (ca_Taint a) (chars ''sensitive'') \<and> WantsTaintedEgressBlock (ag_policy ag) (ss_Agent s)
      then on_dm (SetPidEgressDeny (hp_d h) (ca_HostPID a)) (on_dm (SetNetPosture (hp_d h) (sess_CgroupID s) True) ag)
      else ag)"

definition respond :: "host \<Rightarrow> CorrelatedAction \<Rightarrow> session \<Rightarrow> effect \<Rightarrow> agentd \<Rightarrow> agentd" where
  "respond h a s eff ag =
     (let ag1 = apply_decision h (Some s) eff None ag
      in if blocks eff \<and> (ca_Taint a \<noteq> [] \<or> ca_Mismatch a)
         then on_dm (SetNetPosture (hp_d h) (sess_CgroupID s) True) ag1 else ag1)"

definition act_on_action :: "host \<Rightarrow> CorrelatedAction \<Rightarrow> agentd \<Rightarrow> agentd" where
  "act_on_action h a ag =
     (let sess = (if ca_SessionID a = [] then LookupByCgroup (ag_mgr ag) 0 else sessionByID (ag_mgr ag) (ca_SessionID a));
          (dec, en) = EvaluateAction (hp_pick h) a sess (ag_policy ag);
          ag1 = ag\<lparr>ag_policy := en\<rparr>;
          ag2 = (case sess of None \<Rightarrow> ag1 | Some s \<Rightarrow> bar_egress h a s ag1)
      in if de_Effect dec = EffectAllow \<and> \<not> ca_Mismatch a then ag2
         else case sess of None \<Rightarrow> ag2 | Some s \<Rightarrow> respond h a s (de_Effect dec) ag2)"

text \<open>One turn of \<open>handleActions\<close>; an empty channel blocks.\<close>

definition handle_action :: "host \<Rightarrow> agentd \<Rightarrow> agentd" where
  "handle_action h ag =
     (case co_actions (ag_correl ag) of
        [] \<Rightarrow> ag
      | a # as \<Rightarrow> act_on_action h a (ag\<lparr>ag_correl := (ag_correl ag)\<lparr>co_actions := as\<rparr>\<rparr>))"

section \<open>Plaintext and transcripts\<close>

definition handle_sem :: "host \<Rightarrow> session option \<Rightarrow> SemanticEvent \<Rightarrow> agentd \<Rightarrow> agentd" where
  "handle_sem h sess sem ag =
     (let (dec, en) = EvaluateSemantic (hp_pick h) sem sess (ag_policy ag);
          ag1 = ag\<lparr>ag_policy := en\<rparr>;
          ag2 = (case sess of
                   None \<Rightarrow> ag1
                 | Some s \<Rightarrow>
                     if \<not> blocks (de_Effect dec) then ag1
                     else
                       let ag3 = apply_decision h sess (de_Effect dec) None ag1
                       in if de_Effect dec = EffectBlock then on_dm (SetNetPosture (hp_d h) (sess_CgroupID s) True) ag3 else ag3)
      in ag2\<lparr>ag_correl := PushSemantic (hp_now h) sem (ag_correl ag2)\<rparr>)"

definition set_endpoint :: "dbConn \<Rightarrow> SemanticEvent \<Rightarrow> SemanticEvent" where
  "set_endpoint db sem = sem\<lparr>sv_DBQuery := map_option (\<lambda>q. q\<lparr>db_Endpoint := dc_endpoint db\<rparr>) (sv_DBQuery sem)\<rparr>"

text \<open>
  One chunk of plaintext from process \<open>pid\<close> in control group \<open>cg\<close>, with the events the parser yields for it when it is fed as
  text and as the protocol of a database.
\<close>

definition handle_chunk ::
  "host \<Rightarrow> s32 \<Rightarrow> u64 \<Rightarrow> (session option \<Rightarrow> SemanticEvent list) \<Rightarrow> (session option \<Rightarrow> bytes \<Rightarrow> SemanticEvent list)
     \<Rightarrow> agentd \<Rightarrow> agentd" where
  "handle_chunk h pid cg feed feedDB ag0 =
     (let sess = (case LookupByPID (ag_mgr ag0) pid of None \<Rightarrow> LookupByCgroup (ag_mgr ag0) cg | Some s \<Rightarrow> Some s);
          events = (case ag_db ag0 pid of
                      Some db \<Rightarrow> map (set_endpoint db) (feedDB sess (dc_engine db))
                    | None \<Rightarrow> feed sess);
          ag1 = (case sess of
                   None \<Rightarrow> ag0
                 | Some s \<Rightarrow> if events = [] then ag0 else on_mgr (NoteWireIntent (ss_ID s)) ag0);
          ag2 = fold (handle_sem h sess) events ag1;
          (cand, s) = noteChunk (hp_d h) pid (list_ex (\<lambda>e. sv_Kind e = SemMCP) events) (ag_mcp ag2, kernel ag2)
      in ag2\<lparr>ag_mcp := cand, ag_dm := (fst (ag_dm ag2), s)\<rparr>)"

record Item =
  it_Time :: int
  it_Kind :: SemanticKind
  it_Text :: bytes
  it_ToolUse :: "ToolUse option"

definition applyCapture :: "host \<Rightarrow> bytes \<Rightarrow> bytes" where
  "applyCapture h txt =
     (if hp_capture h \<or> txt = [] then txt
      else chars (''<redacted:'' @ dec_nat (length txt) @ '' chars>''))"

definition item_event :: "host \<Rightarrow> bytes \<Rightarrow> session option \<Rightarrow> Item \<Rightarrow> SemanticEvent" where
  "item_event h provider sess it =
     \<lparr>sv_Time = it_Time it, sv_TimestampNS = of_int (it_Time it),
      sv_SessionID = (case sess of None \<Rightarrow> [] | Some s \<Rightarrow> ss_ID s),
      sv_HostPID = (case sess of None \<Rightarrow> 0 | Some s \<Rightarrow> sess_RootPID s), sv_Kind = it_Kind it, sv_Provider = provider,
      sv_Text = (if it_Kind it = SemToolUse then [] else applyCapture h (it_Text it)),
      sv_ToolUse = (if it_Kind it = SemToolUse then it_ToolUse it else None), sv_MCPMethod = [], sv_DBQuery = None\<rparr>"

definition emit_item :: "host \<Rightarrow> bytes \<Rightarrow> session option \<Rightarrow> Item \<Rightarrow> agentd \<Rightarrow> agentd" where
  "emit_item h provider sess it ag =
     (let ev = item_event h provider sess it; (dec, en) = EvaluateSemantic (hp_pick h) ev sess (ag_policy ag)
      in ag\<lparr>ag_policy := en, ag_correl := PushSemantic (hp_now h) ev (ag_correl ag)\<rparr>)"

definition emitTranscriptItems :: "host \<Rightarrow> Item list \<Rightarrow> bytes \<Rightarrow> session option \<Rightarrow> agentd \<Rightarrow> agentd" where
  "emitTranscriptItems h items provider sess = fold (emit_item h provider sess) items"

definition sessionsOf :: "AgentKind \<Rightarrow> manager \<Rightarrow> session list" where
  "sessionsOf kind m = filter (\<lambda>s. ss_Agent s = kind) (List_sessions m)"

definition latestSessionOf :: "AgentKind \<Rightarrow> manager \<Rightarrow> session option" where
  "latestSessionOf kind m =
     fold (\<lambda>s best. case best of None \<Rightarrow> Some s | Some b \<Rightarrow> if ss_StartTime b < ss_StartTime s then Some s else best)
       (sessionsOf kind m) None"

definition emitRolloutItems :: "host \<Rightarrow> Item list \<Rightarrow> agentd \<Rightarrow> agentd" where
  "emitRolloutItems h items ag =
     emitTranscriptItems h items (chars ''codex-rollout'') (latestSessionOf AgentCodex (ag_mgr ag)) ag"

definition emitToAgentSessions :: "host \<Rightarrow> Item list \<Rightarrow> bytes \<Rightarrow> AgentKind \<Rightarrow> agentd \<Rightarrow> agentd" where
  "emitToAgentSessions h items provider kind ag =
     (let ss = sessionsOf kind (ag_mgr ag)
      in if ss = [] then emitTranscriptItems h items provider None ag
         else fold (\<lambda>s. emitTranscriptItems h items provider (Some s)) ss ag)"

section \<open>Agents that run already\<close>

text \<open>The exec event \<open>scanProc\<close> makes up for a process in \<open>/proc\<close>: of the kernel's header only the process is set.\<close>

definition scan_event :: "s32 \<Rightarrow> bytes \<Rightarrow> SessionEvent" where
  "scan_event pid exe =
     \<lparr>ev_header = \<lparr>EventType = 0, Category = 0, CPUID = 0, DataLen = 0, Timestamp = 0, CgroupID = 0, HostPPID = 0, HostPID = pid,
        HostTID = 0, PID = pid, TID = 0, UID = 0, GID = 0, PidNS = 0, MntNS = 0, SyscallID = 0, RetVal = 0, Comm = []\<rparr>,
      ev_Name = [], ev_Category = CategoryProcess, ev_Operation = ''exec'', ev_Resource = Text exe, ev_ExePath = exe, ev_DNS = None,
      ev_Time = zero_time, ev_Session = None\<rparr>"

definition scan_entry :: "host \<Rightarrow> bytes \<Rightarrow> agentd \<Rightarrow> agentd" where
  "scan_entry h name ag =
     (case Atoi name of
        None \<Rightarrow> ag
      | Some v \<Rightarrow> (case os_exe (hp_os h) (of_int v) of None \<Rightarrow> ag | Some exe \<Rightarrow> on_exec h (scan_event (of_int v) exe) ag))"

section \<open>The loops together\<close>

text \<open>
  The loops of the daemon interleave at the granularity of one event, with each other, with policy reloads, sweeps and
  timers, and with the programs of the kernel. Identifiers of new sessions are fresh.
\<close>

inductive agent_step :: "agentd \<Rightarrow> agentd \<Rightarrow> bool" where
  syscall: "mg_store (ag_mgr ag) (hp_fresh h) = None \<Longrightarrow> agent_step ag (handle_syscall h ev ag)"
| scan: "mg_store (ag_mgr ag) (hp_fresh h) = None \<Longrightarrow> agent_step ag (scan_entry h name ag)"
| script: "agent_step ag (checkInterpreterScript h ev ag)"
| action: "agent_step ag (handle_action h ag)"
| edge: "agent_step ag (ag\<lparr>ag_correl := correl_step TakeEdge (ag_correl ag)\<rparr>)"
| chunk: "agent_step ag (handle_chunk h pid cg feed feedDB ag)"
| rollout: "agent_step ag (emitRolloutItems h items ag)"
| transcript: "agent_step ag (emitToAgentSessions h items provider kind ag)"
| coverage: "agent_step ag (watchWireCoverage sid ag)"
| retry: "agent_step ag (snd (attachSemantic h s ag))"
| rearm: "agent_step ag (reArmSweep h ag)"
| reload: "(en, dm) = applyPolicies (hp_d (h :: host)) (hp_proc h) policies signatures (List_sessions (ag_mgr ag)) (ag_policy ag, ag_dm ag)
    \<Longrightarrow> agent_step ag (ag\<lparr>ag_policy := en, ag_dm := dm\<rparr>)"
| expire: "(g, s) = sweep (hp_d (h :: host)) (hp_secs h) order (ag_guard ag, kernel ag)
    \<Longrightarrow> agent_step ag (ag\<lparr>ag_guard := g, ag_dm := (fst (ag_dm ag), s)\<rparr>)"
| program: "agent_step ag (on_kernel (\<lambda>s. snd (run_bpf k c s)) ag)"

end
