(* ===== verification/AK_Containment.thy ===== *)
theory AK_Containment
  imports AK_Pipeline
begin

text \<open>
  What the loops of the daemon keep: the sessions of the manager behind them, and the maps that confine a session (postures of
  control groups, flags of processes), which no turn of a loop loosens except the end of a session.
\<close>

section \<open>Sessions across steps\<close>

text \<open>A known session stays known, in its control group, and an ended one does not come back.\<close>

definition carries :: "manager \<Rightarrow> manager \<Rightarrow> bool" where
  "carries m m' \<longleftrightarrow> (\<forall>i s. mg_store m i = Some s \<longrightarrow>
     (\<exists>s'. mg_store m' i = Some s' \<and> sess_CgroupID s' = sess_CgroupID s \<and> ss_Agent s' = ss_Agent s
        \<and> (ss_State s' = SessionActive \<longrightarrow> ss_State s = SessionActive)))"

lemma carries_refl [simp]: "carries m m"
  by (simp add: carries_def)

lemma carries_trans: "carries m m' \<Longrightarrow> carries m' m'' \<Longrightarrow> carries m m''"
  unfolding carries_def by metis

lemma carries_store:
  assumes "mg_store m' = (mg_store m)(sid := map_option f (mg_store m sid))"
    and "\<And>s. sess_CgroupID (f s) = sess_CgroupID s \<and> ss_Agent (f s) = ss_Agent s
           \<and> (ss_State (f s) = SessionActive \<longrightarrow> ss_State s = SessionActive)"
  shows "carries m m'"
  unfolding carries_def using assms by simp

lemma carries_same: "mg_store m' = mg_store m \<Longrightarrow> carries m m'"
  by (simp add: carries_def)

lemma addMember_carries: "carries m (addMemberLocked sid pid m)"
  by (cases "mg_pidIndex m pid = None")
    (auto simp: addMemberLocked_def update_session_def
      intro!: carries_store [where sid = sid and f = "\<lambda>s. s\<lparr>sess_Members := sess_Members s @ [pid]\<rparr>"])

lemma set_by_id_carries:
  assumes "\<And>s. sess_CgroupID (f s) = sess_CgroupID s \<and> ss_Agent (f s) = ss_Agent s
           \<and> (ss_State (f s) = SessionActive \<longrightarrow> ss_State s = SessionActive)"
  shows "carries m (set_by_id sid f m)"
  using assms by (auto simp: set_by_id_def update_session_def intro!: carries_store [where sid = sid and f = f])

lemma register_carries: "mg_store m (ss_ID s) = None \<Longrightarrow> carries m (create_register s ev m)"
  by (auto simp: carries_def create_register_def Let_def)

lemma OnExec_carries:
  assumes "mg_store m fresh = None"
  shows "carries m (snd (OnExec os fresh now ev m))"
proof -
  have "carries m (create_register (new_session ev kind fresh now home) ev m)" for kind home
    by (rule register_carries) (use assms in \<open>simp add: new_session_def\<close>)
  then have "carries m (snd (createSession os fresh now ev kind m))" for kind
    by (auto simp: createSession_def create_check_def Let_def addMember_carries split: option.split)
  then show ?thesis by (auto simp: OnExec_def Let_def addMember_carries split: option.split)
qed

lemma adopt_carries: "carries m (adopt_root sid s pid new m)"
proof -
  let ?f = "\<lambda>s. (drop_member pid s)\<lparr>sess_RootPID := new\<rparr>"
  let ?m = "(update_session sid ?f m)\<lparr>mg_pidIndex := (mg_pidIndex m)(pid := None),
     mg_byRootPID := ((mg_byRootPID m)(sess_RootPID s := None))(new \<mapsto> sid)\<rparr>"
  have "carries m ?m" by (rule carries_store [where sid = sid and f = ?f]) (simp_all add: update_session_def drop_member_def)
  then show ?thesis unfolding adopt_root_def by (rule carries_trans) (rule addMember_carries)
qed

lemma end_carries: "carries m (end_session sid s m)"
  by (rule carries_store [where sid = sid and f = "\<lambda>s. s\<lparr>ss_State := SessionEnded\<rparr>"])
    (simp_all add: end_session_def Let_def update_session_def)

lemma OnExit_carries: "carries m (snd (OnExit os ev m))"
proof -
  have "carries m ((update_session sid (drop_member pid) m)\<lparr>mg_pidIndex := x\<rparr>)" for sid pid x
    by (rule carries_store [where sid = sid and f = "drop_member pid"]) (simp_all add: update_session_def drop_member_def)
  then show ?thesis by (auto simp: OnExit_def Let_def adopt_carries end_carries split: option.split)
qed

lemma mgr_step_carries: "mgr_step m m' \<Longrightarrow> carries m m'"
  by (induction rule: mgr_step.induct)
    (auto simp: OnExec_carries OnExit_carries SetAttachPlan_def SetCoverage_def NoteWireIntent_def MarkTampered_def
      intro!: set_by_id_carries split: option.splits)

lemma mgr_reaches_carries: "mgr_reaches m m' \<Longrightarrow> carries m m'"
  by (induction rule: rtranclp_induct) (auto intro: carries_trans mgr_step_carries)

section \<open>The manager behind the loops\<close>

lemma attachSemantic_mgr: "mgr_reaches (ag_mgr ag) (ag_mgr (snd (attachSemantic h s ag)))"
proof (cases "hp_plan h (sess_RootPID s)")
  case (Some plan)
  let ?m1 = "SetAttachPlan (ss_ID s) (Some (pl_Coverage plan)) (ag_mgr ag)"
  let ?m2 = "if identityUnvouched plan then MarkTampered (ss_ID s) ?m1 else ?m1"
  have "mgr_reaches (ag_mgr ag) ?m1" by (intro r_into_rtranclp mgr_step.plan)
  then have "mgr_reaches (ag_mgr ag) ?m2" by (simp add: rtranclp.rtrancl_into_rtrancl mgr_step.tamper)
  then show ?thesis using Some mgr_step.coverage
    by (auto simp: attachSemantic_def Let_def intro: rtranclp.rtrancl_into_rtrancl)
qed (simp add: attachSemantic_def)

text \<open>Operations that leave the manager alone.\<close>

lemma fold_mgr: "(\<And>x ag. ag_mgr (f x ag) = ag_mgr ag) \<Longrightarrow> ag_mgr (fold f xs ag) = ag_mgr ag"
  by (induction xs arbitrary: ag) simp_all

lemma mgr_same [simp]:
  "ag_mgr (armLiveDescendants h r ag) = ag_mgr ag" "ag_mgr (rearmDescendants h r ag) = ag_mgr ag"
  "ag_mgr (mark_source h p ag) = ag_mgr ag" "ag_mgr (register_binary h s ag) = ag_mgr ag"
  "ag_mgr (indexArgvPrompt h s ag) = ag_mgr ag" "ag_mgr (release_pid h pid ag) = ag_mgr ag"
  "ag_mgr (apply_decision h sess eff e ag) = ag_mgr ag" "ag_mgr (observe_dns h ev ag) = ag_mgr ag"
  "ag_mgr (consider_mcp h pid ag) = ag_mgr ag" "ag_mgr (note_file h ev agent ag) = ag_mgr ag"
  "ag_mgr (emit_item h pr sess it ag) = ag_mgr ag"
  by (simp_all add: armLiveDescendants_def rearmDescendants_def fold_mgr mark_source_def register_binary_def indexArgvPrompt_def
      release_pid_def apply_decision_def observe_dns_def consider_mcp_def note_file_def emit_item_def Let_def split_def
      split: option.split)

lemma mgr_same2 [simp]:
  "ag_mgr (markSensitiveSources h s ag) = ag_mgr ag" "ag_mgr (onSessionEnded h s ag) = ag_mgr ag"
  "ag_mgr (act h sess dec ev ag) = ag_mgr ag" "ag_mgr (decide_syscall h ev sid ag) = ag_mgr ag"
  "ag_mgr (act_on_action h a ag) = ag_mgr ag" "ag_mgr (handle_sem h sess sem ag) = ag_mgr ag"
  "ag_mgr (emitTranscriptItems h items pr sess ag) = ag_mgr ag" "ag_mgr (rearm_session h s ag) = ag_mgr ag"
  "ag_mgr (checkInterpreterScript h ev ag) = ag_mgr ag"
  by (simp_all add: markSensitiveSources_def onSessionEnded_def act_def decide_syscall_def act_on_action_def bar_egress_def respond_def
      handle_sem_def emitTranscriptItems_def rearm_session_def checkInterpreterScript_def fold_mgr Let_def split_def
      split: option.split)

lemma mgr_same3 [simp]:
  "ag_mgr (handle_action h ag) = ag_mgr ag" "ag_mgr (emitRolloutItems h items ag) = ag_mgr ag"
  "ag_mgr (emitToAgentSessions h items pr kind ag) = ag_mgr ag" "ag_mgr (reArmSweep h ag) = ag_mgr ag"
  "ag_mgr (onMemberExit h pid ag) = ag_mgr ag"
  by (simp_all add: handle_action_def emitRolloutItems_def emitToAgentSessions_def reArmSweep_def onMemberExit_def fold_mgr Let_def
      split: list.split)

lemma resolveWorker_mgr: "mgr_reaches (ag_mgr ag) (ag_mgr (resolveWorkerBinary h sid pid ag))"
  using mgr_step.plan by (auto simp: resolveWorkerBinary_def Let_def split: option.split)

lemma handle_attributed_mgr: "mgr_reaches (ag_mgr ag) (ag_mgr (handle_attributed h ev sid agent ag))"
proof -
  have "mgr_reaches (ag_mgr ag) (ag_mgr (scope_exec h ev sid agent ag))" for ag
    using resolveWorker_mgr [of "on_dm (EnforcePID (hp_d h) (ev_pid ev)) (on_kernel (RegisterPID (hp_d h) (ev_pid ev)) ag)" h sid "ev_pid ev"]
    by (simp add: scope_exec_def Let_def)
  from this [of "if isConnect ev then (observe_dns h ev ag)\<lparr>ag_db := noteDBConnect (ev_pid ev) (ev_resource ev) (ag_db (observe_dns h ev ag))\<rparr> else observe_dns h ev ag"]
  show ?thesis by (simp add: handle_attributed_def Let_def split: if_splits)
qed

lemma onNewSession_mgr: "mgr_reaches (ag_mgr ag) (ag_mgr (onNewSession h s ag))"
proof -
  have "\<exists>ag6. onNewSession h s ag = snd (attachSemantic h s ag6) \<and> ag_mgr ag6 = ag_mgr ag"
    unfolding onNewSession_def Let_def by (rule exI, rule conjI, rule refl) (simp add: fold_mgr)
  then show ?thesis using attachSemantic_mgr by metis
qed

lemma on_exec_mgr:
  assumes "mg_store (ag_mgr ag) (hp_fresh h) = None"
  shows "mgr_reaches (ag_mgr ag) (ag_mgr (on_exec h ev ag))"
proof -
  let ?m = "snd (OnExec (hp_os h) (hp_fresh h) (hp_now h) ev (ag_mgr ag))"
  have "mgr_step (ag_mgr ag) ?m" using assms by (rule mgr_step.exec)
  moreover have "mgr_reaches ?m (ag_mgr (on_exec h ev ag))"
    using onNewSession_mgr [of "ag\<lparr>ag_mgr := ?m\<rparr>" h]
    by (auto simp: on_exec_def split: prod.split option.split bool.split)
  ultimately show ?thesis by (rule converse_rtranclp_into_rtranclp)
qed

lemma on_exit_mgr: "ag_mgr (on_exit h ev ag) = snd (OnExit (hp_os h) ev (ag_mgr ag))"
  by (simp add: on_exit_def split: prod.split exit_note.split option.split)

lemma handle_syscall_mgr:
  assumes "mg_store (ag_mgr ag) (hp_fresh h) = None"
  shows "mgr_reaches (ag_mgr ag) (ag_mgr (handle_syscall h ev ag))"
proof -
  let ?ag1 = "if ev_Category ev = CategoryProcess \<and> ev_Operation ev = ''exec'' then on_exec h ev ag else ag"
  let ?ag2 = "if ev_Category ev = CategoryProcess \<and> ev_Operation ev = ''exit'' then on_exit h (Enrich (ag_mgr ?ag1) ev) ?ag1 else ?ag1"
  have "mgr_reaches (ag_mgr ag) (ag_mgr ?ag1)" using on_exec_mgr [OF assms] by simp
  moreover have "mgr_reaches (ag_mgr ?ag1) (ag_mgr ?ag2)" using mgr_step.exit by (simp add: on_exit_mgr r_into_rtranclp)
  moreover have "mgr_reaches (ag_mgr ?ag2) (ag_mgr (handle_syscall h ev ag))"
    using handle_attributed_mgr [of ?ag2 h] unfolding handle_syscall_def Let_def by (auto split: option.split)
  ultimately show ?thesis by simp
qed

section \<open>Operations that never loosen\<close>

text \<open>
  From \<open>dm\<close> to \<open>dm'\<close> the mode and the daemon's own processes are unchanged, no deny-egress posture is lifted, and no member of
  a session loses a flag other than deny-tainted-code.
\<close>

definition barred :: "u64 \<Rightarrow> kstate \<Rightarrow> bool" where
  "barred cg s \<longleftrightarrow> opt_has (ak_posture s cg) AK_POSTURE_DENY_EGRESS"

definition firm :: "daemon \<Rightarrow> daemon \<Rightarrow> bool" where
  "firm dm dm' \<longleftrightarrow>
     e_dryRun (fst dm') = e_dryRun (fst dm) \<and> ak_self (snd dm') = ak_self (snd dm)
     \<and> (\<forall>cg. barred cg (snd dm) \<longrightarrow> barred cg (snd dm'))
     \<and> (\<forall>p b. lasting b \<longrightarrow> opt_has (ak_session_pids (snd dm) p) b \<longrightarrow> opt_has (ak_session_pids (snd dm') p) b)"

named_theorems ak_firm \<open>operations that never loosen\<close>

lemma firm_refl [simp, ak_firm]: "firm dm dm"
  by (simp add: firm_def)

lemma firm_trans: "firm dm dm' \<Longrightarrow> firm dm' dm'' \<Longrightarrow> firm dm dm''"
  by (simp add: firm_def)

lemma firm_fold: "(\<And>x dm. firm (g dm) (g (f x dm))) \<Longrightarrow> firm (g dm) (g (fold f xs dm))"
proof (induction xs arbitrary: dm)
  case (Cons x xs)
  then show ?case using firm_trans by (metis fold_simps(2))
qed simp

definition guard_maps :: "daemon \<Rightarrow> bool \<times> (u64 \<rightharpoonup> u32) \<times> (u32 \<rightharpoonup> u32) \<times> (u32 \<rightharpoonup> u8)" where
  "guard_maps dm = (e_dryRun (fst dm), ak_posture (snd dm), ak_session_pids (snd dm), ak_self (snd dm))"

lemma firm_same: "guard_maps dm' = guard_maps dm \<Longrightarrow> firm dm dm'"
  by (simp add: guard_maps_def firm_def barred_def)

lemma guard_live:
  "live_state (snd dm') = live_state (snd dm) \<Longrightarrow> e_dryRun (fst dm') = e_dryRun (fst dm) \<Longrightarrow> guard_maps dm' = guard_maps dm"
  using live_cong [of "snd dm'" "snd dm"] by (simp add: guard_maps_def)

lemma guard_same:
  "guard_maps (TaintFile d p c dm) = guard_maps dm" "guard_maps (TaintPersist d p dm) = guard_maps dm"
  "guard_maps (MarkSensitivePath d p dm) = guard_maps dm" "guard_maps (RegisterAgentBinary d n dm) = guard_maps dm"
  "guard_maps (SetDenyCode b dm) = guard_maps dm" "guard_maps (put_sig d x dm) = guard_maps dm"
  "guard_maps (e, snd (setIP d ip on s)) = guard_maps (e, s)"
  by (simp_all add: guard_maps_def TaintFile_def TaintPersist_def add_taint_def armFlag_def MarkSensitivePath_def
      RegisterAgentBinary_def put_sig_def SetDenyCode_def setIP_def Let_def split_def split: option.split)

lemma guard_Apply: "guard_maps (snd (Apply d kill sess eff ev dm)) = guard_maps dm"
proof -
  have "guard_maps (snd (addFileOp d x opn dm)) = guard_maps dm" for x opn
    by (rule guard_live) (simp_all add: install_live addFileOp_def Let_def split_def)
  then show ?thesis using guard_same(7) [of "fst dm" d]
    by (simp add: Apply_def applyBlock_def BlockIP_def split: effect.split option.split resource.split)
qed

lemma guard_PopulateAgentSigs: "guard_maps (PopulateAgentSigs d sigs dm) = guard_maps dm"
  unfolding PopulateAgentSigs_def by (induction sigs arbitrary: dm) (simp_all add: guard_same Let_def)

lemma guard_reload: "guard_maps (snd (InstallRules d rules (ClearRules d dm))) = guard_maps dm"
  using reload_live [of d rules dm] InstallRules_dry [of d rules "ClearRules d dm"]
  by (intro guard_live) (simp_all add: reload_def ClearRules_def split_def)

lemma guard_mcp:
  "guard_maps (e, snd (mcp_consider d fifo pid (cand, s))) = guard_maps (e, s)"
  "guard_maps (e, snd (noteChunk d pid b (cand, s))) = guard_maps (e, s)"
  by (simp_all add: guard_maps_def mcp_parts release_fds_def RegisterMcpFd_def UnregisterMcpFd_def SetMcpArmed_def Let_def
      split: option.split)

lemma guard_observe: "guard_maps (e, snd (observe d now en dns (g, s))) = guard_maps (e, s)"
proof -
  have "guard_maps (e, snd (fold (observe_answer d now) as gs)) = guard_maps (e, snd gs)" for as gs
    by (induction as arbitrary: gs) (simp_all add: observe_answer_def BlockIP_def guard_same Let_def split_def)
  from this [of _ "(g, s)"] show ?thesis by (simp add: observe_def split: option.split)
qed

lemma guard_sweep: "guard_maps (e, snd (sweep d now order (g, s))) = guard_maps (e, s)"
proof -
  have "guard_maps (e, fold (\<lambda>ip s. snd (UnblockIP d ip s)) ips s) = guard_maps (e, s)" for ips s
    by (induction ips arbitrary: s) (simp_all add: UnblockIP_def guard_same)
  then show ?thesis by (simp add: sweep_eq)
qed

lemmas guard_frames = guard_same guard_Apply guard_PopulateAgentSigs guard_reload guard_mcp guard_observe guard_sweep

lemma firm_register [ak_firm]: "firm (e, s) (e, RegisterPID d p s)" "firm (e, s) (e, RegisterSession d cg s)"
  using RegisterPID_keeps [of s] by (simp_all add: firm_def barred_def RegisterPID_def RegisterSession_def)

lemma arm_members_posture: "ak_posture (fold (arm_member d e) ps s) = ak_posture s"
  by (induction ps arbitrary: s) (simp_all add: arm_member_def)

lemma firm_EnforcePID [ak_firm]: "firm dm (EnforcePID d p dm)"
proof -
  have "e_dryRun (fst (EnforcePID d p dm)) = e_dryRun (fst dm)" "ak_self (snd (EnforcePID d p dm)) = ak_self (snd dm)"
    "ak_posture (snd (EnforcePID d p dm)) = ak_posture (snd dm)"
    by (simp_all add: EnforcePID_def arm_member_def split_def)
  then show ?thesis using EnforcePID_keeps(2) unfolding firm_def barred_def by metis
qed

lemma firm_EnforceSession [ak_firm]: "firm dm (snd (EnforceSession d pf sess dm))"
proof -
  have "e_dryRun (fst (snd (EnforceSession d pf sess dm))) = e_dryRun (fst dm)"
    "ak_self (snd (snd (EnforceSession d pf sess dm))) = ak_self (snd dm)"
    "ak_posture (snd (snd (EnforceSession d pf sess dm))) = ak_posture (snd dm)"
    by (simp_all add: EnforceSession_def arm_members_posture Let_def split_def)
  then show ?thesis using EnforceSession_keeps(2) unfolding firm_def barred_def by metis
qed

lemma firm_SetPidEgressDeny [ak_firm]: "firm dm (SetPidEgressDeny d p dm)"
proof -
  have "e_dryRun (fst (SetPidEgressDeny d p dm)) = e_dryRun (fst dm)" "ak_self (snd (SetPidEgressDeny d p dm)) = ak_self (snd dm)"
    "ak_posture (snd (SetPidEgressDeny d p dm)) = ak_posture (snd dm)"
    by (simp_all add: SetPidEgressDeny_def split_def split: option.split)
  then show ?thesis using SetPidEgressDeny_keeps(2) unfolding firm_def barred_def by metis
qed

text \<open>Setting a posture bit, and clearing one other than deny-egress.\<close>

lemma has_egress_nonzero: "has v AK_POSTURE_DENY_EGRESS \<Longrightarrow> v \<noteq> 0"
  by (auto simp: has_def)

lemma posture_bit:
  assumes "snd (setPostureBit d cg w on dm) = dm'" "on \<or> w = AK_POSTURE_DENY_TAINTED_CODE"
  shows "barred cg' (snd dm) \<Longrightarrow> barred cg' (snd dm')"
proof -
  have "has (v AND NOT AK_POSTURE_DENY_TAINTED_CODE) AK_POSTURE_DENY_EGRESS \<longleftrightarrow> has v AK_POSTURE_DENY_EGRESS" for v
    by (simp add: has_def and.assoc AK_POSTURE_DENY_TAINTED_CODE_def AK_POSTURE_DENY_EGRESS_def)
  moreover from this have "a OR w \<noteq> 0" "a AND NOT AK_POSTURE_DENY_TAINTED_CODE \<noteq> 0" if "has a AK_POSTURE_DENY_EGRESS" for a
    using that has_egress_nonzero [of "a OR w"] has_egress_nonzero [of "a AND NOT AK_POSTURE_DENY_TAINTED_CODE"] by (simp_all add: has_or)
  ultimately show "barred cg' (snd dm) \<Longrightarrow> barred cg' (snd dm')"
    using assms
    by (cases "ak_posture (snd dm) cg'")
      (auto simp: setPostureBit_def barred_def Let_def split_def word_at_def has_or split: if_splits option.splits)
qed

lemma firm_postures [ak_firm]: "firm dm (SetNetPosture d cg True dm)" "firm dm (SetTaintedCodePosture d cg on dm)"
  using posture_bit [of d cg AK_POSTURE_DENY_EGRESS True dm] posture_bit [of d cg AK_POSTURE_DENY_TAINTED_CODE on dm]
  by (simp_all add: firm_def SetNetPosture_def SetTaintedCodePosture_def)
    (simp_all add: setPostureBit_def Let_def split_def)

lemma SetNetPosture_bars:
  assumes "\<not> e_dryRun (fst dm)" "cg \<noteq> 0" "d_put d D_posture cg"
  shows "barred cg (snd (SetNetPosture d cg True dm))"
proof -
  let ?e = AK_POSTURE_DENY_EGRESS
  have h: "has (v OR ?e) ?e" for v by (simp add: has_or) (simp add: has_def AK_POSTURE_DENY_EGRESS_def)
  have "v OR ?e \<noteq> 0" for v using has_egress_nonzero h by blast
  moreover have "opt_has (ak_posture (snd dm) cg) ?e" if "word_at (ak_posture (snd dm)) cg OR ?e = word_at (ak_posture (snd dm)) cg"
    using h [of "word_at (ak_posture (snd dm)) cg"] unfolding that by (auto simp: word_at_def has_def split: option.splits)
  ultimately show ?thesis using assms h
    by (auto simp: SetNetPosture_def setPostureBit_def barred_def Let_def split_def)
qed

lemma firm_applyPolicies:
  assumes "(en', dm') = applyPolicies d pf policies signatures sessions (en, dm)"
  shows "firm dm dm'"
proof -
  have r: "firm dm (reapply_session d pf sw dm)" for sw dm
    unfolding reapply_session_def using firm_trans firm_postures(2) firm_EnforceSession by blast
  have "firm dm (fold (reapply_session d pf) ss dm0)" if "guard_maps dm0 = guard_maps dm" for ss dm0
    using firm_fold [where f = "reapply_session d pf" and g = id and dm = dm0] r firm_same [OF that] firm_trans by auto
  then show ?thesis using assms
    by (auto simp: applyPolicies_def guard_frames split: prod.splits option.splits)
qed

section \<open>The loops never loosen\<close>

abbreviation tight :: "agentd \<Rightarrow> agentd \<Rightarrow> bool" where
  "tight ag ag' \<equiv> firm (ag_dm ag) (ag_dm ag')"

lemma tight_fold: "(\<And>x ag. tight ag (f x ag)) \<Longrightarrow> tight ag (fold f xs ag)"
  using firm_fold [where g = ag_dm] by blast

lemma tight_apply [ak_firm]: "tight ag (apply_decision h sess eff ev ag)"
  by (rule firm_same) (simp add: apply_decision_def guard_Apply Let_def split_def)

lemma tight_simple [ak_firm]:
  "tight ag (mark_source h p ag)" "tight ag (register_binary h s ag)" "tight ag (observe_dns h ev ag)"
  "tight ag (consider_mcp h pid ag)" "tight ag (note_file h ev agent ag)"
  by (rule firm_same; simp add: mark_source_def register_binary_def observe_dns_def consider_mcp_def note_file_def guard_frames Let_def split_def
      split: option.split)+

lemma dm_same [simp]:
  "ag_dm (indexArgvPrompt h s ag) = ag_dm ag" "ag_dm (snd (attachSemantic h s ag)) = ag_dm ag"
  "ag_dm (resolveWorkerBinary h sid pid ag) = ag_dm ag" "ag_dm (watchWireCoverage sid ag) = ag_dm ag"
  "ag_dm (emit_item h pr sess it ag) = ag_dm ag"
  by (simp_all add: indexArgvPrompt_def attachSemantic_def resolveWorkerBinary_def watchWireCoverage_def emit_item_def Let_def split_def
      split: option.split)

lemma fold_dm: "(\<And>x ag. ag_dm (f x ag) = ag_dm ag) \<Longrightarrow> ag_dm (fold f xs ag) = ag_dm ag"
  by (induction xs arbitrary: ag) simp_all

lemma dm_transcripts [simp]:
  "ag_dm (emitTranscriptItems h items pr sess ag) = ag_dm ag" "ag_dm (emitRolloutItems h items ag) = ag_dm ag"
  "ag_dm (emitToAgentSessions h items pr kind ag) = ag_dm ag"
  by (simp_all add: emitTranscriptItems_def emitRolloutItems_def emitToAgentSessions_def fold_dm Let_def)

lemma tight_register [ak_firm]:
  "tight ag (on_kernel (RegisterPID d p) ag)" "tight ag (on_kernel (RegisterSession d cg) ag)"
  using firm_register [of "fst (ag_dm ag)" "kernel ag"] by simp_all

lemma tight_arming [ak_firm]:
  "tight ag (armLiveDescendants h r ag)" "tight ag (rearmDescendants h r ag)" "tight ag (markSensitiveSources h s ag)"
proof -
  have "tight ag (on_dm (EnforcePID d p) (on_kernel (RegisterPID d p) ag))" for d p ag
    using firm_trans [OF tight_register(1) [of ag d p] firm_EnforcePID] by simp
  then show "tight ag (armLiveDescendants h r ag)" unfolding armLiveDescendants_def by (rule tight_fold)
  show "tight ag (rearmDescendants h r ag)" unfolding rearmDescendants_def by (rule tight_fold) (simp add: firm_EnforcePID)
  define cwd where "cwd = (case hp_cwd h (sess_RootPID s) of None \<Rightarrow> [] | Some c \<Rightarrow> c)"
  define ag1 where "ag1 = (if cwd = [] then ag else fold (mark_source h) (walk_files cwd cwd (hp_tree h cwd)) ag)"
  define g where "g = (\<lambda>rel. mark_source h (procEnvHome h (sess_RootPID s) @ slash # rel))"
  have "tight ag ag1" using tight_fold [of "mark_source h"] tight_simple(1) by (simp add: ag1_def)
  moreover have "tight ag1 (fold g homeSecrets ag1)" by (rule tight_fold) (simp add: g_def tight_simple(1))
  moreover have "markSensitiveSources h s ag = (if procEnvHome h (sess_RootPID s) = [] then ag1 else fold g homeSecrets ag1)"
    unfolding markSensitiveSources_def Let_def cwd_def [symmetric] ag1_def [symmetric] g_def [symmetric] by (rule refl)
  ultimately show "tight ag (markSensitiveSources h s ag)" using firm_trans by simp
qed

lemma tight_exec [ak_firm]: "tight ag (scope_exec h ev sid agent ag)"
proof -
  let ?ag1 = "on_dm (EnforcePID (hp_d h) (ev_pid ev)) (on_kernel (RegisterPID (hp_d h) (ev_pid ev)) ag)"
  have "tight ag ?ag1" using firm_trans [OF tight_register(1) firm_EnforcePID] by simp
  moreover have "\<exists>ag2. scope_exec h ev sid agent ag = consider_mcp h (ev_pid ev) ag2 \<and> ag_dm ag2 = ag_dm ?ag1"
    unfolding scope_exec_def Let_def by (rule exI, rule conjI, rule refl) simp
  ultimately show ?thesis using tight_simple(4) firm_trans by metis
qed

lemma tight_act [ak_firm]: "tight ag (act h sess dec ev ag)"
  by (simp add: act_def ak_firm)

lemma tight_decide [ak_firm]: "tight ag (decide_syscall h ev sid ag)"
  using tight_act [of "ag\<lparr>ag_policy := en\<rparr>" for en] by (simp add: decide_syscall_def Let_def split_def)

lemma tight_attributed [ak_firm]: "tight ag (handle_attributed h ev sid agent ag)"
proof -
  let ?ag1 = "observe_dns h ev ag"
  let ?ag2 = "if isConnect ev then ?ag1\<lparr>ag_db := noteDBConnect (ev_pid ev) (ev_resource ev) (ag_db ?ag1)\<rparr> else ?ag1"
  let ?ag3 = "if ev_Category ev = CategoryProcess \<and> ev_Operation ev = ''exec'' then scope_exec h ev sid agent ?ag2 else ?ag2"
  have "tight ag ?ag2" using tight_simple(3) by simp
  moreover have "tight ?ag2 ?ag3" using tight_exec [of ?ag2] by simp
  moreover have "tight ?ag3 (decide_syscall h ev sid (note_file h ev agent ?ag3))"
    using firm_trans [OF tight_simple(5) tight_decide] .
  ultimately show ?thesis unfolding handle_attributed_def Let_def using firm_trans by blast
qed

text \<open>The arming of a new session, and what comes before and after it.\<close>

lemma onNewSession_split:
  "\<exists>ag2. tight ag ag2 \<and> tight (on_dm (\<lambda>dm. snd (EnforceSession (hp_d h) (hp_proc h) (to_enforce s) dm)) ag2) (onNewSession h s ag)"
proof -
  let ?d = "hp_d h"
  let ?ag1 = "on_kernel (RegisterPID ?d (sess_RootPID s)) (on_kernel (RegisterSession ?d (sess_CgroupID s)) (indexArgvPrompt h s ag))"
  let ?ag2 = "fold (\<lambda>p. on_kernel (RegisterPID ?d p)) (sess_Members s) ?ag1"
  let ?ag3 = "on_dm (\<lambda>dm. snd (EnforceSession ?d (hp_proc h) (to_enforce s) dm)) ?ag2"
  let ?ag4 = "register_binary h s (armLiveDescendants h (sess_RootPID s) ?ag3)"
  let ?ag5 = "if WantsTaintedCodeBlock (ag_policy ?ag4) (ss_Agent s)
    then on_dm (SetTaintedCodePosture ?d (sess_CgroupID s) True) ?ag4 else ?ag4"
  let ?ag6 = "if WantsTaintedEgressBlock (ag_policy ?ag5) (ss_Agent s) then markSensitiveSources h s ?ag5 else ?ag5"
  have "tight ag ?ag1" using firm_trans [OF tight_register(2) [of "indexArgvPrompt h s ag"] tight_register(1)] by simp
  also have "tight ?ag1 ?ag2" by (rule tight_fold) (rule tight_register(1))
  finally (firm_trans) have "tight ag ?ag2" .
  moreover have "tight ?ag3 ?ag4" using firm_trans [OF tight_arming(1) tight_simple(2)] .
  moreover have "tight ?ag4 ?ag5" by (simp add: firm_postures)
  moreover have "tight ?ag5 ?ag6" by (simp add: tight_arming)
  ultimately have "tight ag ?ag2 \<and> tight ?ag3 ?ag6" using firm_trans by blast
  moreover have "ag_dm (onNewSession h s ag) = ag_dm ?ag6" unfolding onNewSession_def Let_def by simp
  ultimately show ?thesis by metis
qed

lemma tight_new [ak_firm]: "tight ag (onNewSession h s ag)"
proof -
  obtain ag2 where a: "tight ag ag2"
    "tight (on_dm (\<lambda>dm. snd (EnforceSession (hp_d h) (hp_proc h) (to_enforce s) dm)) ag2) (onNewSession h s ag)"
    using onNewSession_split by blast
  have "tight ag2 (on_dm (\<lambda>dm. snd (EnforceSession (hp_d h) (hp_proc h) (to_enforce s) dm)) ag2)"
    by (simp only: on_simps) (rule firm_EnforceSession)
  with a show ?thesis using firm_trans by blast
qed

lemma tight_on_exec [ak_firm]: "tight ag (on_exec h ev ag)"
  using tight_new [of "ag\<lparr>ag_mgr := m\<rparr>" for m]
  by (auto simp: on_exec_def split: prod.split option.split bool.split)

lemma tight_bar [ak_firm]: "tight ag (bar_egress h a s ag)"
  using firm_trans [OF firm_postures(1) firm_SetPidEgressDeny] by (simp add: bar_egress_def)

lemma tight_blocked:
  "tight ag (if c then on_dm (SetNetPosture d cg True) (apply_decision h sess eff ev ag) else apply_decision h sess eff ev ag)"
  using firm_trans [OF tight_apply firm_postures(1)] tight_apply by simp

lemma tight_respond [ak_firm]: "tight ag (respond h a s eff ag)"
  unfolding respond_def Let_def by (rule tight_blocked)

lemma tight_action [ak_firm]: "tight ag (act_on_action h a ag)"
proof -
  define sess where
    "sess = (if ca_SessionID a = [] then LookupByCgroup (ag_mgr ag) 0 else sessionByID (ag_mgr ag) (ca_SessionID a))"
  define eval where "eval = EvaluateAction (hp_pick h) a sess (ag_policy ag)"
  define ag1 where "ag1 = ag\<lparr>ag_policy := snd eval\<rparr>"
  define ag2 where "ag2 = (case sess of None \<Rightarrow> ag1 | Some s \<Rightarrow> bar_egress h a s ag1)"
  let ?eff = "de_Effect (fst eval)"
  have act: "act_on_action h a ag = (if ?eff = EffectAllow \<and> \<not> ca_Mismatch a then ag2
      else case sess of None \<Rightarrow> ag2 | Some s \<Rightarrow> respond h a s ?eff ag2)"
    unfolding act_on_action_def Let_def split_def sess_def [symmetric] eval_def [symmetric] ag1_def [symmetric] ag2_def [symmetric]
    by (rule refl)
  have "tight ag ag1" by (simp add: ag1_def)
  moreover have "tight ag1 ag2" using tight_bar by (simp add: ag2_def split: option.split)
  moreover have "tight ag2 (act_on_action h a ag)"
    unfolding act by (simp add: tight_respond split: option.split)
  ultimately show ?thesis using firm_trans by blast
qed

lemma tight_handle_action [ak_firm]: "tight ag (handle_action h ag)"
  using tight_action [of "ag\<lparr>ag_correl := c\<rparr>" for c] by (simp add: handle_action_def split: list.split)

lemma tight_sem [ak_firm]: "tight ag (handle_sem h sess sem ag)"
  using tight_blocked [of "ag\<lparr>ag_policy := en\<rparr>" for en]
  by (simp add: handle_sem_def Let_def split_def split: option.split)

lemma tight_chunk [ak_firm]: "tight ag (handle_chunk h pid cg feed feedDB ag)"
proof -
  define sess where "sess = (case LookupByPID (ag_mgr ag) pid of None \<Rightarrow> LookupByCgroup (ag_mgr ag) cg | Some s \<Rightarrow> Some s)"
  define events where "events = (case ag_db ag pid of
    Some db \<Rightarrow> map (set_endpoint db) (feedDB sess (dc_engine db)) | None \<Rightarrow> feed sess)"
  define ag1 where "ag1 = (case sess of
    None \<Rightarrow> ag | Some s \<Rightarrow> if events = [] then ag else on_mgr (NoteWireIntent (ss_ID s)) ag)"
  define ag2 where "ag2 = fold (handle_sem h sess) events ag1"
  have a: "tight ag1 ag2" unfolding ag2_def by (rule tight_fold) (rule tight_sem)
  have same: "ag_dm ag1 = ag_dm ag" by (simp add: ag1_def split: option.split)
  have "ag_dm (handle_chunk h pid cg feed feedDB ag) =
      (fst (ag_dm ag2), snd (noteChunk (hp_d h) pid (list_ex (\<lambda>e. sv_Kind e = SemMCP) events) (ag_mcp ag2, kernel ag2)))"
    unfolding handle_chunk_def Let_def sess_def [symmetric] events_def [symmetric] ag1_def [symmetric] ag2_def [symmetric]
    by (simp add: split_def)
  then have "tight ag2 (handle_chunk h pid cg feed feedDB ag)" by (intro firm_same) (simp only: guard_mcp prod.collapse)
  from firm_trans [OF a this] same show ?thesis by simp
qed

lemma tight_rearm [ak_firm]: "tight ag (reArmSweep h ag)"
proof -
  have "tight ag (fold (\<lambda>p. on_dm (EnforcePID (hp_d h) p)) ps ag)" for ps ag
    by (rule tight_fold) (simp add: firm_EnforcePID)
  then have "tight ag (rearm_session h s ag)" for s ag
    unfolding rearm_session_def using firm_trans [OF _ tight_arming(2)] by (simp del: fold_simps fold_Cons)
  then show ?thesis unfolding reArmSweep_def by (rule tight_fold)
qed

lemma tight_script [ak_firm]: "tight ag (checkInterpreterScript h ev ag)"
  by (simp add: checkInterpreterScript_def tight_apply Let_def split_def split: option.split)

section \<open>Postures while a session lives\<close>

lemma posture_elsewhere:
  "cg \<noteq> cg' \<Longrightarrow> barred cg (snd (snd (setPostureBit d cg' w on dm))) = barred cg (snd dm)"
  by (simp add: barred_def setPostureBit_def Let_def split_def)

lemma release_posture: "ak_posture (kernel (release_pid h pid ag)) = ak_posture (kernel ag)"
  by (simp add: release_pid_def mcp_parts release_fds_def UnregisterMcpFd_def SetMcpArmed_def UnregisterPID_def Let_def split_def)

lemma ended_bars:
  assumes "barred cg (kernel ag)" "cg \<noteq> sess_CgroupID s \<or> CgroupHasActiveSession (ag_mgr ag) (sess_CgroupID s) (ss_ID s)"
  shows "barred cg (kernel (onSessionEnded h s ag))"
proof -
  let ?ag1 = "if CgroupHasActiveSession (ag_mgr ag) (sess_CgroupID s) (ss_ID s) then ag
    else on_dm (SetNetPosture (hp_d h) (sess_CgroupID s) False)
      (on_dm (SetTaintedCodePosture (hp_d h) (sess_CgroupID s) False) (on_kernel (UnregisterSession (sess_CgroupID s)) ag))"
  have "barred cg (kernel (on_kernel (UnregisterSession c) ag)) = barred cg (kernel ag)" for c
    by (simp add: barred_def UnregisterSession_def)
  then have "barred cg (kernel ?ag1)"
    using assms by (auto simp: SetNetPosture_def SetTaintedCodePosture_def posture_elsewhere)
  moreover have "ak_posture (kernel (fold (release_pid h) ps ag')) = ak_posture (kernel ag')" for ps ag'
    by (induction ps arbitrary: ag') (simp_all add: release_posture)
  ultimately show ?thesis unfolding onSessionEnded_def Let_def by (simp add: barred_def release_posture)
qed

text \<open>The end of one session leaves the control group of another that is active.\<close>

lemma on_exit_bars:
  assumes "barred cg (kernel ag)" "mgr_ok (ag_mgr ag)" "active (ag_mgr (on_exit h ev ag)) sid s" "sess_CgroupID s = cg" "cg \<noteq> 0"
  shows "barred cg (kernel (on_exit h ev ag))"
proof -
  obtain cb m where e: "OnExit (hp_os h) ev (ag_mgr ag) = (cb, m)" by fastforce
  have m: "m = ag_mgr (on_exit h ev ag)" using on_exit_mgr [of h ev ag] e by simp
  have ok: "mgr_ok m" using OnExit_ok [OF assms(2), of "hp_os h" ev] e by simp
  show ?thesis
  proof (cases cb)
    case (OnSessionEnded x)
    show ?thesis
    proof (cases "mg_store m x")
      case (Some t)
      have "ss_State t = SessionEnded"
        using e OnSessionEnded Some
        by (auto simp: OnExit_def Let_def end_session_def split: option.splits if_splits)
      then have "ss_ID t = x" "x \<noteq> sid" using stored_id [OF ok Some] assms(3) Some by (auto simp: m [symmetric] active_def)
      moreover have "s \<in> set (List_sessions m)" "ss_ID s = sid" "ss_State s = SessionActive"
        using active_listed [OF ok] assms(3) stored_id [OF ok] by (auto simp: m [symmetric] active_def List_sessions_set)
      ultimately have "cg \<noteq> sess_CgroupID t \<or> CgroupHasActiveSession m (sess_CgroupID t) (ss_ID t)"
        using assms(4, 5) by (force simp: CgroupHasActiveSession_def list_ex_iff)
      then show ?thesis using ended_bars [of cg "ag\<lparr>ag_mgr := m\<rparr>" t h] assms(1) e OnSessionEnded Some by (simp add: on_exit_def)
    qed (use assms(1) e OnSessionEnded in \<open>simp add: on_exit_def\<close>)
  next
    case (OnMemberExit x p)
    then show ?thesis using assms(1) e release_posture [of h p "ag\<lparr>ag_mgr := m\<rparr>"]
      by (simp add: on_exit_def onMemberExit_def barred_def)
  qed (use assms(1) e in \<open>simp add: on_exit_def\<close>)
qed

lemma tight_bars: "tight ag ag' \<Longrightarrow> barred cg (kernel ag) \<Longrightarrow> barred cg (kernel ag')"
  by (simp add: firm_def)

text \<open>The contract of a loop of the daemon: no turn loosens what confines a session, so no number of turns does.\<close>

locale confining =
  fixes turn :: "'x \<Rightarrow> agentd \<Rightarrow> agentd"
  assumes keeps: "tight ag (turn x ag)"
begin

lemma turns: "tight ag (fold turn xs ag)"
  by (rule tight_fold) (rule keeps)

lemma turns_bar: "barred cg (kernel ag) \<Longrightarrow> barred cg (kernel (fold turn xs ag))"
  using tight_bars [OF turns] .

lemma bars: "barred cg (kernel ag) \<Longrightarrow> barred cg (kernel (turn x ag))"
  using tight_bars [OF keeps] .

lemma keeps_member: "lasting b \<Longrightarrow> opt_has (ak_session_pids (kernel ag) p) b \<Longrightarrow> opt_has (ak_session_pids (kernel (turn x ag)) p) b"
  using keeps unfolding firm_def by blast

end

interpretation actions: confining handle_action
  by unfold_locales (rule tight_handle_action)

interpretation scripts: confining "\<lambda>(h, ev). checkInterpreterScript h ev"
  by unfold_locales (simp add: split_def tight_script)

interpretation chunks: confining "\<lambda>(h, pid, cg, feed, feedDB). handle_chunk h pid cg feed feedDB"
  by unfold_locales (simp add: split_def tight_chunk)

interpretation sweeps: confining reArmSweep
  by unfold_locales (rule tight_rearm)

text \<open>An active session was active before, in the same control group.\<close>

lemma carries_active:
  assumes "carries m m'" "mg_store m sid \<noteq> None" "active m' sid s'"
  shows "\<exists>s. active m sid s \<and> sess_CgroupID s = sess_CgroupID s'"
  using assms unfolding carries_def active_def by force

lemma handle_syscall_bars:
  assumes "barred cg (kernel ag)" "mgr_ok (ag_mgr ag)" "mg_store (ag_mgr ag) (hp_fresh h) = None"
    and "mg_store (ag_mgr ag) sid \<noteq> None" "active (ag_mgr (handle_syscall h ev ag)) sid s" "sess_CgroupID s = cg" "cg \<noteq> 0"
  shows "barred cg (kernel (handle_syscall h ev ag))"
proof -
  define ag1 where "ag1 = (if ev_Category ev = CategoryProcess \<and> ev_Operation ev = ''exec'' then on_exec h ev ag else ag)"
  define e where "e = Enrich (ag_mgr ag1) ev"
  define ag2 where "ag2 = (if ev_Category ev = CategoryProcess \<and> ev_Operation ev = ''exit'' then on_exit h e ag1 else ag1)"
  let ?ag3 = "handle_syscall h ev ag"
  have run: "?ag3 = (case ev_Session e of None \<Rightarrow> ag2 | Some (i, agent) \<Rightarrow> handle_attributed h e i agent ag2)"
    unfolding handle_syscall_def Let_def ag1_def [symmetric] e_def [symmetric] ag2_def [symmetric] by (rule refl)
  have b1: "barred cg (kernel ag1)" using tight_bars [OF tight_on_exec assms(1)] assms(1) by (simp add: ag1_def)
  have r1: "mgr_reaches (ag_mgr ag) (ag_mgr ag1)" using on_exec_mgr [OF assms(3)] by (simp add: ag1_def)
  have r2: "mgr_reaches (ag_mgr ag1) (ag_mgr ag2)" using mgr_step.exit by (simp add: ag2_def on_exit_mgr r_into_rtranclp)
  have "mgr_reaches (ag_mgr ag2) (ag_mgr ?ag3)" using handle_attributed_mgr [of ag2 h e] unfolding run by (simp split: option.split)
  moreover have "mg_store (ag_mgr ag2) sid \<noteq> None"
    using mgr_reaches_carries [OF rtranclp_trans [OF r1 r2]] assms(4) unfolding carries_def by blast
  ultimately obtain s2 where "active (ag_mgr ag2) sid s2" "sess_CgroupID s2 = cg"
    using carries_active [OF mgr_reaches_carries _ assms(5)] assms(6) by blast
  then have "barred cg (kernel ag2)"
    using on_exit_bars [OF b1 mgr_reaches_ok [OF r1 assms(2)], of h e sid s2] b1 assms(7) by (auto simp: ag2_def)
  then show ?thesis using tight_bars [OF tight_attributed] unfolding run by (simp split: option.split)
qed

lemma handle_chunk_mgr: "mgr_reaches (ag_mgr ag) (ag_mgr (handle_chunk h pid cg feed feedDB ag))"
  using mgr_step.wire by (simp add: handle_chunk_def fold_mgr Let_def split_def r_into_rtranclp split: option.split)

lemma scan_entry_cases: "scan_entry h name ag = ag \<or> (\<exists>ev. scan_entry h name ag = on_exec h ev ag)"
  by (auto simp: scan_entry_def split: option.split)

lemma scan_entry_mgr: "mg_store (ag_mgr ag) (hp_fresh h) = None \<Longrightarrow> mgr_reaches (ag_mgr ag) (ag_mgr (scan_entry h name ag))"
  using scan_entry_cases [of h name ag] on_exec_mgr [of ag h] by auto

lemma tight_scan [ak_firm]: "tight ag (scan_entry h name ag)"
  using scan_entry_cases [of h name ag] tight_on_exec [of ag h] by auto

interpretation scans: confining "\<lambda>(h, name). scan_entry h name"
  by unfold_locales (simp add: split_def tight_scan)

lemmas loops_bar = actions.bars sweeps.bars scripts.bars [of _ _ "(h, ev)" for h ev, simplified]
  chunks.bars [of _ _ "(h, pid, c, feed, feedDB)" for h pid c feed feedDB, simplified] scans.bars [of _ _ "(h, name)" for h name, simplified]

lemma agent_step_mgr: "agent_step ag ag' \<Longrightarrow> mgr_reaches (ag_mgr ag) (ag_mgr ag')"
proof (induction rule: agent_step.induct)
  case (coverage ag sid)
  then show ?case using mgr_step.coverage by (auto simp: watchWireCoverage_def split: option.split)
qed (simp_all add: handle_syscall_mgr scan_entry_mgr handle_chunk_mgr attachSemantic_mgr)

lemma agent_step_bars:
  assumes "agent_step ag ag'" "barred cg (kernel ag)" "mgr_ok (ag_mgr ag)" "mg_store (ag_mgr ag) sid \<noteq> None"
    and "active (ag_mgr ag') sid s" "sess_CgroupID s = cg" "cg \<noteq> 0"
  shows "barred cg (kernel ag')"
  using assms
proof (induction rule: agent_step.induct)
  case (syscall ag h ev)
  then show ?case using handle_syscall_bars [of cg ag h sid ev s] by simp
next
  case (reload en dm h policies signatures ag)
  then show ?case using firm_applyPolicies [OF reload.hyps] by (simp add: firm_def)
next
  case (expire g s h order ag)
  then have "firm (ag_dm ag) (fst (ag_dm ag), s)"
    using guard_sweep [of "fst (ag_dm ag)" "hp_d h" "hp_secs h" order "ag_guard ag" "kernel ag"]
    by (intro firm_same) (metis prod.collapse snd_conv)
  with expire show ?case by (simp add: firm_def)
next
  case (program ag k c)
  then show ?case using run_bpf_evolves [of "kernel ag" k c] by (simp add: evolves_def bits_le_def barred_def)
qed (auto intro: loops_bar)

lemma agent_run_bars:
  assumes "agent_step\<^sup>*\<^sup>* ag ag'" "barred cg (kernel ag)" "mgr_ok (ag_mgr ag)" "mg_store (ag_mgr ag) sid \<noteq> None"
    and "active (ag_mgr ag') sid s" "sess_CgroupID s = cg" "cg \<noteq> 0"
  shows "barred cg (kernel ag') \<and> mgr_ok (ag_mgr ag') \<and> mg_store (ag_mgr ag') sid \<noteq> None"
  using assms(1, 5, 6)
proof (induction arbitrary: s rule: rtranclp_induct)
  case (step ag1 ag2)
  have r: "mgr_reaches (ag_mgr ag1) (ag_mgr ag2)" using agent_step_mgr [OF step(2)] .
  have k: "mg_store (ag_mgr ag1) sid \<noteq> None" "mgr_ok (ag_mgr ag1)"
  proof -
    have "mgr_reaches (ag_mgr ag) (ag_mgr ag1)"
      using step(1) by (induction rule: rtranclp_induct) (auto dest: agent_step_mgr)
    then show "mg_store (ag_mgr ag1) sid \<noteq> None" "mgr_ok (ag_mgr ag1)"
      using mgr_reaches_carries mgr_reaches_ok assms(3, 4) unfolding carries_def by blast+
  qed
  obtain s1 where "active (ag_mgr ag1) sid s1" "sess_CgroupID s1 = cg"
    using carries_active [OF mgr_reaches_carries [OF r] k(1) step(4)] step(5) by blast
  then have "barred cg (kernel ag1)" using step.IH by blast
  then show ?case
    using agent_step_bars [OF step(2) _ k(2) k(1) step(4, 5) assms(7)] mgr_reaches_ok [OF r k(2)] step(4) by (auto simp: active_def)
qed (use assms in auto)

section \<open>The mode\<close>

text \<open>No step of the daemon changes its mode: the loops never loosen, and the end of a session leaves the mode alone too.\<close>

lemma exit_dry: "e_dryRun (fst (ag_dm (on_exit h ev ag))) = e_dryRun (fst (ag_dm ag))"
proof -
  have r: "e_dryRun (fst (ag_dm (release_pid h pid ag))) = e_dryRun (fst (ag_dm ag))" for pid ag
    by (simp add: release_pid_def Let_def split_def)
  have "e_dryRun (fst (ag_dm (fold (release_pid h) ps ag))) = e_dryRun (fst (ag_dm ag))" for ps ag
    by (induction ps arbitrary: ag) (simp_all add: r)
  then have "e_dryRun (fst (ag_dm (onSessionEnded h s ag))) = e_dryRun (fst (ag_dm ag))" for s ag
    by (simp add: onSessionEnded_def r SetNetPosture_def SetTaintedCodePosture_def setPostureBit_def Let_def split_def)
  then show ?thesis by (simp add: on_exit_def onMemberExit_def r split: prod.split exit_note.split option.split)
qed

lemma tight_dry: "tight ag ag' \<Longrightarrow> e_dryRun (fst (ag_dm ag')) = e_dryRun (fst (ag_dm ag))"
  by (simp add: firm_def)

lemma syscall_dry: "e_dryRun (fst (ag_dm (handle_syscall h ev ag))) = e_dryRun (fst (ag_dm ag))"
  using tight_dry [OF tight_on_exec] tight_dry [OF tight_attributed]
  by (simp add: handle_syscall_def exit_dry Let_def split: option.split)

lemma agent_step_dry: "agent_step ag ag' \<Longrightarrow> e_dryRun (fst (ag_dm ag')) = e_dryRun (fst (ag_dm ag))"
proof (induction rule: agent_step.induct)
  case (reload en dm h policies signatures ag)
  then show ?case using firm_applyPolicies [OF reload.hyps] by (simp add: firm_def)
qed (simp_all add: syscall_dry tight_dry [OF tight_scan] tight_dry [OF tight_script] tight_dry [OF tight_handle_action]
  tight_dry [OF tight_chunk] tight_dry [OF tight_rearm])

lemma agent_run_dry: "agent_step\<^sup>*\<^sup>* ag ag' \<Longrightarrow> e_dryRun (fst (ag_dm ag')) = e_dryRun (fst (ag_dm ag))"
  by (induction rule: rtranclp_induct) (simp_all add: agent_step_dry)

end
