(* ===== verification/AK_PushDown.thy ===== *)
theory AK_PushDown
  imports AK_Engine AK_Policy
begin

text \<open>
  The policy engine against the kernel: what \<open>Load\<close> compiles, what the evaluator decides, and how
  the rules that \<open>deriveKernelRules\<close> pushes down relate to the verdicts of the hooks once they are
  installed.
\<close>

section \<open>Compiled rules\<close>

definition dir_of :: "Rule \<Rightarrow> bytes" where
  "dir_of r = (case System (ru_When r) of None \<Rightarrow> [] | Some sp \<Rightarrow> normalizeDir (sy_Dir sp))"

definition cidr_of :: "Rule \<Rightarrow> (bytes \<times> nat) option" where
  "cidr_of r = (case System (ru_When r) of None \<Rightarrow> None | Some sp \<Rightarrow> (case sy_CIDR sp of Some c \<Rightarrow> c | None \<Rightarrow> None))"

definition compiled :: "compiledRule \<Rightarrow> bool" where
  "compiled cr \<longleftrightarrow>
     rule_valid (cr_rule cr) \<and> cr_effect cr = PolicyEffect (ru_Effect (cr_rule cr)) \<and> cr_ruleName cr = ru_Name (cr_rule cr)
     \<and> cr_normDir cr = dir_of (cr_rule cr) \<and> cr_cidr cr = cidr_of (cr_rule cr)
     \<and> (\<forall>sp. cr_System cr = Some sp \<longrightarrow> sy_CIDR sp \<noteq> Some None)"

lemma compile_rule_compiled:
  "compile_rule p r = Inr cr \<Longrightarrow> rule_valid r \<Longrightarrow> compiled cr"
  by (auto simp: compile_rule_def compiled_def dir_of_def cidr_of_def normalizeDir_def Let_def split: option.splits if_splits)

lemma compile_rules_compiled:
  "compile_rules p rs = Inr crs \<Longrightarrow> \<forall>r \<in> set rs. rule_valid r \<Longrightarrow> \<forall>cr \<in> set crs. compiled cr"
  by (induction rs arbitrary: crs) (auto split: sum.splits dest: compile_rule_compiled)

lemma compile_policies_compiled: "compile_policies d ps = Inr (crs, d') \<Longrightarrow> \<forall>cr \<in> set crs. compiled cr"
proof (induction d ps arbitrary: crs d' rule: compile_policies.induct)
  case (3 d p ps)
  obtain crs1 crs2 where v: "Validate p = None" and c: "compile_rules p (po_Rules p) = Inr crs1"
    "compile_policies (stronger (po_DefaultEffect p) d) ps = Inr (crs2, d')" "crs = crs1 @ crs2"
    using 3(2) by (auto split: option.splits sum.splits)
  have "\<forall>cr \<in> set crs1. compiled cr" using compile_rules_compiled [OF c(1)] Validate_rules [OF v] by blast
  moreover have "\<forall>cr \<in> set crs2. compiled cr" using 3(1) [OF v c(1,2)] .
  ultimately show ?case by (auto simp: c(3))
qed auto

lemma Load_compiled: "Load ps en0 = (None, en) \<Longrightarrow> \<forall>cr \<in> set (en_rules en). compiled cr"
  by (auto simp: Load_def dest: compile_policies_compiled split: sum.splits)

lemma Load_kernel: "Load ps en0 = (None, en) \<Longrightarrow> en_kernelRules en = deriveKernelRules (en_rules en)"
  by (auto simp: Load_def split: sum.splits)

lemma Load_error: "fst (Load ps en) \<noteq> None \<Longrightarrow> snd (Load ps en) = en"
  by (auto simp: Load_def split: sum.splits)

section \<open>First match\<close>

lemma split_Cons:
  "(\<exists>pre x post. c # cs = pre @ x # post \<and> P pre x post) \<longleftrightarrow>
     P [] c cs \<or> (\<exists>pre x post. cs = pre @ x # post \<and> P (c # pre) x post)"
  by (auto simp: Cons_eq_append_conv)

lemma match_loop_split:
  "match_loop hit crs = Some cr \<longleftrightarrow>
     (\<exists>pre x post. crs = pre @ x # post \<and> x = cr \<and> hit x \<and> (\<forall>y \<in> set pre. \<not> hit y))"
proof (induction crs)
  case (Cons c crs)
  then show ?case unfolding split_Cons by auto
qed simp

lemma match_loop_Some:
  "match_loop hit crs = Some cr \<longleftrightarrow> (\<exists>pre post. crs = pre @ cr # post \<and> hit cr \<and> (\<forall>x \<in> set pre. \<not> hit x))"
  unfolding match_loop_split by auto

lemma match_loop_None: "match_loop hit crs = None \<longleftrightarrow> (\<forall>cr \<in> set crs. \<not> hit cr)"
  by (induction crs) auto

section \<open>The rules that are pushed down\<close>

definition allowed_by :: "compiledRule list \<Rightarrow> bytes list \<times> bytes list" where
  "allowed_by pre = fold note_allow pre ([], [])"

lemma derive_loop_mem:
  "r \<in> set (derive_loop al crs) \<longleftrightarrow>
     (\<exists>pre cr post. crs = pre @ cr # post
        \<and> (let a = note_allow cr (fold note_allow pre al) in kernel_rule (fst a) (snd a) cr = Some r))"
proof (induction crs arbitrary: al)
  case (Cons c crs)
  let ?a = "note_allow c al"
  have "r \<in> set (derive_loop al (c # crs)) \<longleftrightarrow> kernel_rule (fst ?a) (snd ?a) c = Some r \<or> r \<in> set (derive_loop ?a crs)"
    by (auto simp: Let_def split: option.split)
  then show ?case unfolding Cons.IH split_Cons by (simp add: Let_def)
qed simp

lemma note_allow_block: "cr_effect cr \<noteq> EffectAllow \<Longrightarrow> note_allow cr a = a"
  by (auto simp: note_allow_def split: option.split prod.split)

lemma kernel_rule_block: "kernel_rule ps ds cr = Some r \<Longrightarrow> cr_effect cr = EffectBlock \<and> cr_Condition cr = None"
  by (auto simp: kernel_rule_def split: if_splits)

lemma derived:
  "r \<in> set (deriveKernelRules crs) \<longleftrightarrow>
     (\<exists>pre cr post. crs = pre @ cr # post \<and> kernel_rule (fst (allowed_by pre)) (snd (allowed_by pre)) cr = Some r)"
proof -
  have "kernel_rule (fst (note_allow cr a)) (snd (note_allow cr a)) cr = Some r \<longleftrightarrow> kernel_rule (fst a) (snd a) cr = Some r" for cr a
    by (cases "cr_effect cr = EffectAllow") (auto simp: note_allow_block dest!: kernel_rule_block)
  then show ?thesis by (simp add: deriveKernelRules_def derive_loop_mem allowed_by_def Let_def)
qed

text \<open>Which Allow rules stand before a Block rule.\<close>

lemma allowed_fold:
  "x \<in> set (fst (fold note_allow pre a)) \<longleftrightarrow> x \<in> set (fst a)
     \<or> (\<exists>al \<in> set pre. cr_effect al = EffectAllow \<and> (\<exists>sp. cr_System al = Some sp \<and> sy_Path sp = x \<and> x \<noteq> []))"
  "x \<in> set (snd (fold note_allow pre a)) \<longleftrightarrow> x \<in> set (snd a)
     \<or> (\<exists>al \<in> set pre. cr_effect al = EffectAllow \<and> cr_System al \<noteq> None \<and> cr_normDir al = x \<and> x \<noteq> [])"
proof (induction pre arbitrary: a)
  case (Cons c pre)
  { case 1 show ?case using Cons(1) [of "note_allow c a"] by (cases a) (auto simp: note_allow_def split: option.splits) }
  { case 2 show ?case using Cons(2) [of "note_allow c a"] by (cases a) (auto simp: note_allow_def split: option.splits) }
qed auto

text \<open>The path or tree a system predicate names, and an earlier Allow rule that takes it away.\<close>

definition target :: "compiledRule \<Rightarrow> bytes" where
  "target cr = (case cr_System cr of None \<Rightarrow> [] | Some sp \<Rightarrow> if sy_Path sp = [] then cr_normDir cr else sy_Path sp)"

definition shadows :: "compiledRule \<Rightarrow> compiledRule \<Rightarrow> bool" where
  "shadows al cr \<longleftrightarrow>
     cr_effect al = EffectAllow \<and>
     (case (cr_System al, cr_System cr) of
        (Some sa, Some sp) \<Rightarrow>
          sy_Path sp \<noteq> [] \<and> sy_Path sa = sy_Path sp
          \<or> cr_normDir al \<noteq> [] \<and> target cr \<noteq> [] \<and> HasPrefix (target cr) (cr_normDir al)
      | _ \<Rightarrow> False)"

lemma shadows_iff:
  assumes "cr_System cr = Some sp"
  shows "shadows al cr \<longleftrightarrow> cr_effect al = EffectAllow \<and>
     ((\<exists>sa. cr_System al = Some sa \<and> sy_Path sa = sy_Path sp \<and> sy_Path sp \<noteq> [])
      \<or> cr_System al \<noteq> None \<and> cr_normDir al \<noteq> [] \<and> target cr \<noteq> [] \<and> HasPrefix (target cr) (cr_normDir al))"
  using assms by (cases "cr_System al") (auto simp: shadows_def)

lemma shadowed_iff:
  assumes "cr_System cr = Some sp"
  shows "sy_Path sp \<noteq> [] \<and> sy_Path sp \<in> set (fst (allowed_by pre))
      \<or> shadowedByAllowDir (sy_Path sp) (cr_normDir cr) (snd (allowed_by pre))
    \<longleftrightarrow> (\<exists>al \<in> set pre. shadows al cr)"
proof -
  have "shadowedByAllowDir (sy_Path sp) (cr_normDir cr) (snd (allowed_by pre)) \<longleftrightarrow>
      target cr \<noteq> [] \<and> (\<exists>x \<in> set (snd (allowed_by pre)). HasPrefix (target cr) x)"
    using assms by (simp add: shadowedByAllowDir_def target_def list_ex_iff Let_def)
  also have "\<dots> \<longleftrightarrow> (\<exists>al \<in> set pre. cr_effect al = EffectAllow \<and> cr_System al \<noteq> None \<and> cr_normDir al \<noteq> []
      \<and> target cr \<noteq> [] \<and> HasPrefix (target cr) (cr_normDir al))"
    unfolding allowed_by_def Bex_def allowed_fold by auto
  finally have d: "shadowedByAllowDir (sy_Path sp) (cr_normDir cr) (snd (allowed_by pre)) \<longleftrightarrow> \<dots>" .
  show ?thesis unfolding d shadows_iff [OF assms] by (auto simp: allowed_by_def allowed_fold)
qed

lemma kernel_rule_path:
  assumes "cr_effect cr = EffectBlock" "cr_Condition cr = None" "cr_Semantic cr = None" "cr_System cr = Some sp"
    and "sy_Op sp \<in> set path_ops \<or> sy_Op sp = ''connect'' \<and> sy_CIDR sp \<noteq> None" "\<forall>al \<in> set pre. \<not> shadows al cr"
  shows "kernel_rule (fst (allowed_by pre)) (snd (allowed_by pre)) cr =
    Some \<lparr>r_PolicyName = cr_policyName cr, r_Selector = cr_selector cr, r_Category = kernelCategory (sy_Op sp),
          r_Operation = sy_Op sp, r_PathPrefix = target cr, r_CIDR = sy_CIDR sp, r_DBEngine = [], r_DBTable = [],
          r_Effect = EffectBlock\<rparr>"
  using assms shadowed_iff [OF assms(4), of pre] by (auto simp: kernel_rule_def target_def)

section \<open>A Block decision is enforced\<close>

text \<open>
  The predicates the tables can hold: a path without metacharacters that is absolute and does not
  end in a slash, or, without a path, a tree other than the root.
\<close>

definition table_shaped :: "compiledRule \<Rightarrow> bool" where
  "table_shaped cr =
     (case cr_System cr of
        None \<Rightarrow> False
      | Some sp \<Rightarrow>
          if sy_Path sp \<noteq> [] then literal (sy_Path sp) \<and> isExactPath (sy_Path sp)
          else trim_slashes (cr_normDir cr) \<noteq> [])"

lemma normalizeDir_last: "normalizeDir d \<noteq> [] \<Longrightarrow> last (normalizeDir d) = slash"
  by (auto simp: normalizeDir_def HasSuffix_iff)

lemma trim_tree:
  assumes "trim_slashes p \<noteq> []" "last p = slash"
  shows "dir_rule p" "\<exists>u. p = trim_slashes p @ slash # u"
proof -
  obtain u where u: "p = trim_slashes p @ u" "set u \<subseteq> {slash}"
    using takeWhile_dropWhile_id [of "\<lambda>c. c = slash" "rev p"] set_takeWhileD [of _ "\<lambda>c. c = slash" "rev p"]
    by (metis (no_types, lifting) trim_slashes_def rev_append rev_rev_ident set_rev singleton_iff subsetI)
  have "u \<noteq> []"
  proof
    assume "u = []"
    then have "last (trim_slashes p) = slash" using u(1) assms(2) by simp
    moreover have "last (trim_slashes p) \<noteq> slash"
      using assms(1) hd_dropWhile [of "\<lambda>c. c = slash" "rev p"] by (simp add: trim_slashes_def last_rev)
    ultimately show False by simp
  qed
  with u show "\<exists>u. p = trim_slashes p @ slash # u" by (cases u) auto
  then obtain v where "p = trim_slashes p @ slash # v" ..
  then have "2 \<le> length p" using assms(1) by (metis One_nat_def Suc_leI add_mono_thms_linordered_semiring(1) length_append length_greater_0_conv length_Cons one_add_one le_add1 plus_1_eq_Suc)
  then show "dir_rule p" using assms(2) by (simp add: dir_rule_def)
qed

lemma op_has: "has (opBit opn) (opBit opn)"
  by (simp add: has_def opBit_def ak_const)

lemma path_op_category: "opn \<in> set path_ops \<Longrightarrow> r_Category r = kernelCategory opn \<Longrightarrow> r_Operation r = opn \<Longrightarrow> path_category r"
  by (auto simp: path_ops_def kernelCategory_def path_category_def)

lemma evaluated_covered:
  assumes "compiled cr" "table_shaped cr" "cr_System cr = Some sp" "sy_Op sp \<in> set path_ops"
    and "systemMatch cr \<lparr>yt_op = opn, yt_resource = q\<rparr>" "r_Effect r = EffectBlock" "r_Category r = kernelCategory (sy_Op sp)"
    and "r_Operation r = sy_Op sp" "r_PathPrefix r = target cr"
  shows "opn = sy_Op sp \<and> rule_covers r (opBit opn) q"
proof -
  have o: "opn = sy_Op sp" using assms(3,4,5) by (auto simp: systemMatch_def path_ops_def)
  have "isExactPath (target cr) \<and> target cr = q \<or> dir_rule (target cr) \<and> ancestor_of (trim_slashes (target cr)) q"
  proof (cases "sy_Path sp = []")
    case False
    then show ?thesis
      using assms(2,3,5) path_Match_literal [of "sy_Path sp" q] by (auto simp: table_shaped_def target_def systemMatch_def asks_def)
  next
    case True
    then have t: "target cr = cr_normDir cr" "trim_slashes (cr_normDir cr) \<noteq> []"
      using assms(2,3) by (simp_all add: table_shaped_def target_def)
    then have "cr_normDir cr \<noteq> []" by (auto simp: trim_slashes_def)
    then have l: "last (cr_normDir cr) = slash" "HasPrefix q (cr_normDir cr)"
      using assms(1,3,5) normalizeDir_last by (auto simp: compiled_def dir_of_def systemMatch_def asks_def)
    obtain u v where "cr_normDir cr = trim_slashes (cr_normDir cr) @ slash # u" "q = cr_normDir cr @ v"
      using trim_tree(2) [OF t(2) l(1)] l(2) by (auto simp: HasPrefix_iff)
    then have "q = trim_slashes (cr_normDir cr) @ slash # u @ v" by (metis append.assoc append_Cons)
    then show ?thesis using t trim_tree(1) [OF t(2) l(1)] by (auto simp: ancestor_of_def)
  qed
  then show ?thesis
    using assms(4,6-9) o op_has path_op_category [of "sy_Op sp" r] by (auto simp: rule_covers_def)
qed

lemma evalDecision_pre:
  assumes "evalDecision en sem sys sess now = (dec, Some cr)" "de_Effect dec = EffectBlock" "de_Mode dec = EnforcePre"
  shows "rule_matches en sem sys sess now cr" "cr_effect cr = EffectBlock" "cr_Semantic cr = None"
  using assms
  by (auto simp: evalDecision_def match_def match_loop_Some decision_def split: option.splits if_splits)

text \<open>
  C4. What the evaluator blocks, the kernel refuses. Take a policy directory that compiled and was
  installed without an error. Whenever the evaluator's first matching rule for an operation on a
  path answers Block with mode pre, and that rule has no condition, names its operation and a
  path or tree the tables can hold, and no Allow rule before it shadows it, then after any run
  of programs the hook of that operation refuses an enforced member the path.
\<close>

theorem block_decision_enforced:
  assumes "Load ps en0 = (None, en)"
    and "fst (reload d (en_kernelRules en) dm) = []" "\<forall>r \<in> set (en_kernelRules en). hashable (r_PathPrefix r)"
    and "bpf_run (snd (snd (reload d (en_kernelRules en) dm))) t" "enforced k t"
    and "evalDecision en empty_sem [\<lparr>yt_op = opn, yt_resource = q\<rparr>] sess now = (dec, Some cr)"
    and "de_Effect dec = EffectBlock" "de_Mode dec = EnforcePre"
    and "cr_Condition cr = None" "cr_System cr = Some sp" "sy_Op sp \<in> set path_ops" "table_shaped cr"
    and "en_rules en = pre @ cr # post" "\<forall>al \<in> set pre. \<not> shadows al cr"
  shows "opn = sy_Op sp \<and> refuses k t (opBit opn) q"
proof -
  note cr = evalDecision_pre [OF assms(6-8)]
  obtain r where r: "kernel_rule (fst (allowed_by pre)) (snd (allowed_by pre)) cr = Some r" "r_Effect r = EffectBlock"
    "r_Category r = kernelCategory (sy_Op sp)" "r_Operation r = sy_Op sp" "r_PathPrefix r = target cr"
    using kernel_rule_path [OF cr(2) assms(9) cr(3) assms(10) _ assms(14)] assms(11) by auto
  have in_k: "r \<in> set (en_kernelRules en)" unfolding Load_kernel [OF assms(1)] derived using r(1) assms(13) by blast
  have "compiled cr" using Load_compiled [OF assms(1)] assms(13) by simp
  moreover have "systemMatch cr \<lparr>yt_op = opn, yt_resource = q\<rparr>"
    using cr(1) assms(10) by (simp add: rule_matches_def systemMatchAny_def)
  ultimately have c: "opn = sy_Op sp \<and> rule_covers r (opBit opn) q"
    using evaluated_covered [OF _ assms(12,10,11)] r by blast
  then have "forbidden_spec t q (opBit opn)"
    using covers_forbidden [OF assms(2,3) in_k] run_forbidden [OF assms(4)] by blast
  with c show ?thesis using forbidden_refused assms(5) by blast
qed

section \<open>When evaluator and kernel agree\<close>

text \<open>A Block rule for every agent on one path or one tree, without further predicates.\<close>

definition plain_block :: "compiledRule \<Rightarrow> bool" where
  "plain_block cr \<longleftrightarrow>
     cr_effect cr = EffectBlock \<and> chars ''*'' \<in> set (cr_selector cr) \<and> cr_Semantic cr = None \<and> cr_Condition cr = None
     \<and> cr_cidr cr = None \<and> table_shaped cr
     \<and> (case cr_System cr of
          None \<Rightarrow> False
        | Some sp \<Rightarrow> sy_Op sp \<in> set path_ops \<and> sy_FQDN sp = []
            \<and> cr_normDir cr = (if sy_Path sp = [] then trim_slashes (cr_normDir cr) @ [slash] else []))"

definition pushed :: "compiledRule \<Rightarrow> SystemPred \<Rightarrow> KernelRule" where
  "pushed cr sp =
     \<lparr>r_PolicyName = cr_policyName cr, r_Selector = cr_selector cr, r_Category = kernelCategory (sy_Op sp),
      r_Operation = sy_Op sp, r_PathPrefix = target cr, r_CIDR = sy_CIDR sp, r_DBEngine = [], r_DBTable = [],
      r_Effect = EffectBlock\<rparr>"

lemma plain_covers:
  assumes "compiled cr" "plain_block cr" "cr_System cr = Some sp"
  shows "rule_covers (pushed cr sp) x q \<longleftrightarrow>
    has (opBit (sy_Op sp)) x \<and> systemMatch cr \<lparr>yt_op = sy_Op sp, yt_resource = q\<rparr>"
proof (cases "sy_Path sp = []")
  case False
  then have "isExactPath (sy_Path sp)" "literal (sy_Path sp)" "cr_normDir cr = []"
    using assms(2,3) by (simp_all add: plain_block_def table_shaped_def)
  then show ?thesis
    using assms(2,3) False path_op_category [of "sy_Op sp" "pushed cr sp"] path_Match_literal [of "sy_Path sp" q] exact_not_dir
    by (auto simp: rule_covers_def plain_block_def systemMatch_def asks_def pushed_def target_def)
next
  case True
  then have d: "cr_normDir cr = trim_slashes (cr_normDir cr) @ [slash]" "trim_slashes (cr_normDir cr) \<noteq> []"
    using assms(2,3) by (simp_all add: plain_block_def table_shaped_def)
  then have l: "last (cr_normDir cr) = slash" by (metis last_snoc)
  have "HasPrefix q (cr_normDir cr) \<longleftrightarrow> ancestor_of (trim_slashes (cr_normDir cr)) q"
    using d by (auto simp: HasPrefix_iff ancestor_of_def) (metis append.assoc append_Cons append_Nil)+
  then show ?thesis
    using assms(2,3) True d l trim_tree(1) [OF d(2) l] path_op_category [of "sy_Op sp" "pushed cr sp"]
    by (auto simp: rule_covers_def plain_block_def systemMatch_def asks_def pushed_def target_def isExactPath_def)
qed

lemma plain_matches:
  assumes "plain_block cr" "cr_System cr = Some sp"
  shows "rule_matches en sem [\<lparr>yt_op = opn, yt_resource = q\<rparr>] sess now cr \<longleftrightarrow>
    opn = sy_Op sp \<and> systemMatch cr \<lparr>yt_op = sy_Op sp, yt_resource = q\<rparr>"
proof -
  have "sy_Op sp \<noteq> []" using assms by (auto simp: plain_block_def path_ops_def)
  then have "systemMatch cr \<lparr>yt_op = opn, yt_resource = q\<rparr> \<longleftrightarrow>
      opn = sy_Op sp \<and> systemMatch cr \<lparr>yt_op = sy_Op sp, yt_resource = q\<rparr>"
    using assms(2) by (auto simp: systemMatch_def)
  then show ?thesis
    using assms
    by (auto simp: rule_matches_def plain_block_def selectorMatches_def list_ex_iff semanticMatch_def systemMatchAny_def conditionMatch_def)
qed

lemma blocks_derived:
  assumes "\<forall>cr \<in> set crs. plain_block cr"
  shows "r \<in> set (deriveKernelRules crs) \<longleftrightarrow> (\<exists>cr \<in> set crs. \<exists>sp. cr_System cr = Some sp \<and> r = pushed cr sp)"
proof -
  have k: "kernel_rule (fst (allowed_by pre)) (snd (allowed_by pre)) cr = Some r \<longleftrightarrow> (\<exists>sp. cr_System cr = Some sp \<and> r = pushed cr sp)"
    if "crs = pre @ cr # post" for pre cr post
  proof -
    have p: "plain_block cr" "\<forall>al \<in> set pre. \<not> shadows al cr" using assms that by (auto simp: plain_block_def shadows_def)
    then obtain sp where sp: "cr_System cr = Some sp" "sy_Op sp \<in> set path_ops" by (auto simp: plain_block_def split: option.splits)
    show ?thesis using kernel_rule_path [OF _ _ _ sp(1) _ p(2)] p(1) sp by (auto simp: plain_block_def pushed_def)
  qed
  show ?thesis unfolding derived using k by (metis in_set_conv_decomp)
qed

text \<open>The decision by which the evaluator reports an access as stopped in the kernel.\<close>

definition blocked_pre :: "engine \<Rightarrow> string \<Rightarrow> bytes \<Rightarrow> session option \<Rightarrow> int \<Rightarrow> bool" where
  "blocked_pre en opn q sess now \<longleftrightarrow>
     (let dec = fst (evalDecision en empty_sem [\<lparr>yt_op = opn, yt_resource = q\<rparr>] sess now)
      in de_Effect dec = EffectBlock \<and> de_Mode dec = EnforcePre)"

lemma blocks_decision:
  assumes "\<forall>cr \<in> set (en_rules en). cr_effect cr = EffectBlock \<and> cr_Semantic cr = None"
  shows "blocked_pre en opn q sess now \<longleftrightarrow>
    (\<exists>cr \<in> set (en_rules en). rule_matches en empty_sem [\<lparr>yt_op = opn, yt_resource = q\<rparr>] sess now cr)"
proof (cases "match en empty_sem [\<lparr>yt_op = opn, yt_resource = q\<rparr>] sess now")
  case None
  then have "\<forall>cr \<in> set (en_rules en). \<not> rule_matches en empty_sem [\<lparr>yt_op = opn, yt_resource = q\<rparr>] sess now cr"
    by (simp add: match_def match_loop_None)
  with None show ?thesis by (simp add: blocked_pre_def evalDecision_def defaultDecision_def)
next
  case (Some cr)
  then have "cr \<in> set (en_rules en)" "rule_matches en empty_sem [\<lparr>yt_op = opn, yt_resource = q\<rparr>] sess now cr"
    by (auto simp: match_def match_loop_Some)
  then show ?thesis using assms Some by (auto simp: blocked_pre_def evalDecision_def decision_def)
qed

lemma op_bit_has:
  assumes "o1 \<in> set path_ops" "o2 \<in> set path_ops"
  shows "has (opBit o1) (opBit o2) \<longleftrightarrow> opBit o1 = opBit o2"
  using assms by (auto simp: path_ops_def opBit_def has_def ak_const)

text \<open>
  C6. For policies of plain Block rules the push-down is exact: after the policy was loaded and
  installed without an error, the tables forbid an operation on a path exactly when the evaluator
  answers Block with mode pre for the path and some operation that shares its bit (open, read and
  write share one), or an entry that no policy owns forbids it, for any session at any time. The
  policy's default effect may be any: a default of Block is answered with mode post and has no
  kernel entry. Assumed as for a reload: no colliding hashes, and paths of at most 256 bytes.
\<close>

theorem pushdown_exact:
  assumes "Load ps en0 = (None, en)" "\<forall>cr \<in> set (en_rules en). plain_block cr"
    and "fst (InstallRules d (en_kernelRules en) (ClearRules d dm)) = []"
    and "\<forall>r \<in> set (en_kernelRules en). hashable (r_PathPrefix r)" "inj_on fnv1a (set (rule_strings (en_kernelRules en) q))"
    and "o1 \<in> set path_ops"
  shows "forbidden_spec (snd (snd (InstallRules d (en_kernelRules en) (ClearRules d dm)))) q (opBit o1) \<longleftrightarrow>
    (\<exists>o2 \<in> set path_ops. opBit o2 = opBit o1 \<and> blocked_pre en o2 q sess now)
    \<or> forbidden_spec (untracked dm) q (opBit o1)"
proof -
  have b: "\<forall>cr \<in> set (en_rules en). cr_effect cr = EffectBlock \<and> cr_Semantic cr = None"
    using assms(2) by (simp add: plain_block_def)
  have "(\<exists>r \<in> set (en_kernelRules en). rule_covers r (opBit o1) q) \<longleftrightarrow>
      (\<exists>cr \<in> set (en_rules en). \<exists>sp. cr_System cr = Some sp \<and> rule_covers (pushed cr sp) (opBit o1) q)"
    unfolding Load_kernel [OF assms(1)] Bex_def blocks_derived [OF assms(2)] by blast
  also have "\<dots> \<longleftrightarrow> (\<exists>o2 \<in> set path_ops. opBit o2 = opBit o1 \<and>
      (\<exists>cr \<in> set (en_rules en). rule_matches en empty_sem [\<lparr>yt_op = o2, yt_resource = q\<rparr>] sess now cr))" (is "?l \<longleftrightarrow> ?r")
  proof -
    have "(\<exists>sp. cr_System cr = Some sp \<and> rule_covers (pushed cr sp) (opBit o1) q) \<longleftrightarrow>
        (\<exists>o2 \<in> set path_ops. opBit o2 = opBit o1 \<and> rule_matches en empty_sem [\<lparr>yt_op = o2, yt_resource = q\<rparr>] sess now cr)"
      if "cr \<in> set (en_rules en)" for cr
    proof -
      have p: "plain_block cr" "compiled cr" using assms(2) Load_compiled [OF assms(1)] that by auto
      then obtain sp where sp: "cr_System cr = Some sp" "sy_Op sp \<in> set path_ops" by (auto simp: plain_block_def split: option.splits)
      show ?thesis
        using plain_covers [OF p(2,1) sp(1), of "opBit o1" q] plain_matches [OF p(1) sp(1), of en empty_sem _ q sess now]
          op_bit_has [OF sp(2) assms(6)] sp by auto
    qed
    then show ?thesis by blast
  qed
  finally show ?thesis
    unfolding reload_spec [OF assms(3-5)] blocks_decision [OF b] by blast
qed

text \<open>Policies of one document for every agent, and the policy that blocks reading the tree \<open>/a\<close>.\<close>

definition sys_rule :: "string \<Rightarrow> SystemPred \<Rightarrow> string \<Rightarrow> Rule" where
  "sys_rule name sp eff = \<lparr>ru_Name = chars name, ru_When = \<lparr>Semantic = None, System = Some sp, Condition = None\<rparr>, ru_Effect = eff\<rparr>"

definition policy_of :: "Rule list \<Rightarrow> Policy" where
  "policy_of rules = \<lparr>po_Kind = ''AgentKnoxPolicy'', po_Name = chars ''p'', po_Selector = [chars ''*''], po_Rules = rules,
     po_DefaultEffect = []\<rparr>"

definition loaded :: "Rule list \<Rightarrow> engine" where
  "loaded rules = snd (Load [Some (policy_of rules)] New_engine)"

lemma loadedI:
  "fst (Load [Some (policy_of rules)] New_engine) = None \<Longrightarrow> Load [Some (policy_of rules)] New_engine = (None, loaded rules)"
  by (simp add: loaded_def prod_eq_iff)

definition tree_a :: "Rule list" where
  "tree_a = [sys_rule ''a'' (no_sys\<lparr>sy_Op := ''read'', sy_Dir := chars ''/a''\<rparr>) ''Block'']"

definition cr_a :: compiledRule where
  "cr_a = hd (en_rules (loaded tree_a))"

lemma tree_a_kernel:
  "en_kernelRules (loaded tree_a) = [(file_rule ''read'' ''/a/'')\<lparr>r_PolicyName := chars ''p'', r_Selector := [chars ''*'']\<rparr>]"
  by code_simp

theorem block_decision_enforced_witness:
  "refuses sample_env (forked (snd (snd (reload accepting (en_kernelRules (loaded tree_a)) (fresh_enforcer, member_state 3)))))
     AK_OP_OPEN (chars ''/a/b'')"
proof -
  let ?en = "loaded tree_a" and ?sp = "no_sys\<lparr>sy_Op := ''read'', sy_Dir := chars ''/a''\<rparr>"
  let ?dec = "decision cr_a (RuleMatched (chars ''a''))"
  let ?s = "snd (snd (reload accepting (en_kernelRules ?en) (fresh_enforcer, member_state 3)))"
  have l: "Load [Some (policy_of tree_a)] New_engine = (None, ?en)" by (rule loadedI) code_simp
  have k: "fst (reload accepting (en_kernelRules ?en) (fresh_enforcer, member_state 3)) = []"
    "\<forall>r \<in> set (en_kernelRules ?en). hashable (r_PathPrefix r)"
    unfolding tree_a_kernel
    by (simp_all add: reload_def InstallRules_def ClearRules_def install_rule_def Let_def file_rule_def path_category_def
        dir_rule_def addDirOp_def accepting_def note_result_def chars_def hashable_def)
  have e: "evalDecision ?en empty_sem [\<lparr>yt_op = ''read'', yt_resource = chars ''/a/b''\<rparr>] None 0 = (?dec, Some cr_a)"
    "de_Effect ?dec = EffectBlock" "de_Mode ?dec = EnforcePre" "cr_Condition cr_a = None" "cr_System cr_a = Some ?sp"
    "sy_Op ?sp \<in> set path_ops" "table_shaped cr_a" "en_rules ?en = [] @ cr_a # []"
    by code_simp+
  have m: "bpf_run ?s (forked ?s)" "enforced sample_env (forked ?s)"
    using sample_enforced [of ?s 3]
    by (simp_all add: forked_def run_calls_run) (simp add: enforced_def forked_flags [unfolded forked_def] reload_frame sample_simps)
  have "refuses sample_env (forked ?s) (opBit ''read'') (chars ''/a/b'')"
    using block_decision_enforced [OF l k m e] by simp
  then show ?thesis by (simp add: opBit_def)
qed

theorem pushdown_exact_witness:
  "forbidden_spec (snd (snd (InstallRules accepting (en_kernelRules (loaded tree_a))
      (ClearRules accepting (fresh_enforcer, init_kstate))))) (chars ''/a/b'') (opBit ''write'')
   \<and> \<not> forbidden_spec (snd (snd (InstallRules accepting (en_kernelRules (loaded tree_a))
      (ClearRules accepting (fresh_enforcer, init_kstate))))) (chars ''/ab'') (opBit ''write'')"
proof -
  let ?en = "loaded tree_a" and ?dm = "(fresh_enforcer, init_kstate)"
  have l: "Load [Some (policy_of tree_a)] New_engine = (None, ?en)" by (rule loadedI) code_simp
  have p: "\<forall>cr \<in> set (en_rules ?en). plain_block cr" by code_simp
  have k: "fst (InstallRules accepting (en_kernelRules ?en) (ClearRules accepting ?dm)) = []"
    "\<forall>r \<in> set (en_kernelRules ?en). hashable (r_PathPrefix r)"
    unfolding tree_a_kernel
    by (simp_all add: InstallRules_def ClearRules_def install_rule_def Let_def file_rule_def path_category_def
        dir_rule_def addDirOp_def accepting_def note_result_def chars_def hashable_def)
  have i: "inj_on fnv1a (set (rule_strings (en_kernelRules ?en) (chars ''/a/b'')))"
    "inj_on fnv1a (set (rule_strings (en_kernelRules ?en) (chars ''/ab'')))" by code_simp+
  have u: "\<not> forbidden_spec (untracked ?dm) q x" for q x
    by (simp add: forbidden_spec_def untracked_def init_kstate_def delete_keys_def)
  have e: "blocked_pre ?en ''read'' (chars ''/a/b'') None 0"
    "\<forall>o2 \<in> set path_ops. \<not> blocked_pre ?en o2 (chars ''/ab'') None 0"
    "''read'' \<in> set path_ops" "''write'' \<in> set path_ops" "opBit ''read'' = opBit ''write''"
    by code_simp+
  show ?thesis
    using pushdown_exact [OF l p k i(1) e(4), of None 0] pushdown_exact [OF l p k i(2) e(4), of None 0] u e by blast
qed

section \<open>Network rules\<close>









section \<open>Where evaluator and kernel part\<close>

text \<open>
  Policies for which evaluator and kernel disagree. (1) An Allow rule takes a later Block rule
  out of the kernel whatever its own operation: reading below \<open>/a\<close> is allowed, writing \<open>/a/k\<close> is
  blocked, the evaluator answers Block with mode pre, and no kernel rule is derived. (2) A Block
  rule without an operation is answered with mode pre and derives none. (3) An Allow rule for one
  path inside a blocked tree is not seen by the kernel: the evaluator allows \<open>/a/k\<close>, the tree rule
  covers it. (4) A rule that blocks deletes from one table denies every query that names it.
\<close>

definition allow_read_block_write :: "Rule list" where
  "allow_read_block_write =
     [sys_rule ''r'' (no_sys\<lparr>sy_Op := ''read'', sy_Dir := chars ''/a''\<rparr>) ''Allow'',
      sys_rule ''w'' (no_sys\<lparr>sy_Op := ''write'', sy_Path := chars ''/a/k''\<rparr>) ''Block'']"

definition block_any :: "Rule list" where
  "block_any = [sys_rule ''x'' (no_sys\<lparr>sy_Path := chars ''/a/k''\<rparr>) ''Block'']"

definition allow_inside :: "Rule list" where
  "allow_inside =
     [sys_rule ''k'' (no_sys\<lparr>sy_Op := ''read'', sy_Path := chars ''/a/k''\<rparr>) ''Allow'',
      sys_rule ''t'' (no_sys\<lparr>sy_Op := ''read'', sy_Dir := chars ''/a''\<rparr>) ''Block'']"

definition no_deletes :: "Rule list" where
  "no_deletes = [\<lparr>ru_Name = chars ''d'', ru_When = \<lparr>
     Semantic = Some (no_sem\<lparr>sm_DBTable := chars ''users'', sm_DBOp := chars ''delete''\<rparr>), System = None, Condition = None\<rparr>,
     ru_Effect = ''Block''\<rparr>]"

definition answers :: "Rule list \<Rightarrow> string \<Rightarrow> string \<Rightarrow> effect \<times> EnforceMode" where
  "answers rules opn q =
     (let d = fst (evalDecision (loaded rules) empty_sem [\<lparr>yt_op = opn, yt_resource = chars q\<rparr>] None 0)
      in (de_Effect d, de_Mode d))"

definition select_users :: DBQuery where
  "select_users = \<lparr>db_Engine = chars ''postgres'', db_Endpoint = [], db_Table = chars ''users'', db_Op = chars ''select''\<rparr>"

lemma evaluator_kernel_gaps:
  "answers allow_read_block_write ''write'' ''/a/k'' = (EffectBlock, EnforcePre)
     \<and> en_kernelRules (loaded allow_read_block_write) = []
   \<and> answers block_any ''write'' ''/a/k'' = (EffectBlock, EnforcePre) \<and> en_kernelRules (loaded block_any) = []
   \<and> fst (answers allow_inside ''read'' ''/a/k'') = EffectAllow
     \<and> (\<exists>r \<in> set (en_kernelRules (loaded allow_inside)). rule_covers r AK_OP_OPEN (chars ''/a/k''))
   \<and> de_Effect (fst (evalDecision (loaded no_deletes) (empty_sem\<lparr>st_db := Some select_users\<rparr>) [] None 0)) = EffectAllow
     \<and> db_names (en_kernelRules (loaded no_deletes)) = [chars ''users'']"
proof -
  have "en_kernelRules (loaded allow_inside) = [(file_rule ''read'' ''/a/'')\<lparr>r_PolicyName := chars ''p'', r_Selector := [chars ''*'']\<rparr>]"
    by code_simp
  moreover have "trim_slashes (chars ''/a/'') = chars ''/a''" "chars ''/a/k'' = chars ''/a'' @ slash # chars ''k''" by code_simp+
  then have "ancestor_of (trim_slashes (chars ''/a/'')) (chars ''/a/k'')" by (auto simp: ancestor_of_def chars_def)
  then have "rule_covers ((file_rule ''read'' ''/a/'')\<lparr>r_PolicyName := chars ''p'', r_Selector := [chars ''*'']\<rparr>) AK_OP_OPEN (chars ''/a/k'')"
    by (simp add: rule_covers_def file_rule_def path_category_def opBit_def dir_rule_def has_def ak_const) (simp add: chars_def)
  moreover have "answers allow_read_block_write ''write'' ''/a/k'' = (EffectBlock, EnforcePre)"
    "en_kernelRules (loaded allow_read_block_write) = []"
    "answers block_any ''write'' ''/a/k'' = (EffectBlock, EnforcePre)" "en_kernelRules (loaded block_any) = []"
    "fst (answers allow_inside ''read'' ''/a/k'') = EffectAllow"
    "de_Effect (fst (evalDecision (loaded no_deletes) (empty_sem\<lparr>st_db := Some select_users\<rparr>) [] None 0)) = EffectAllow"
    "db_names (en_kernelRules (loaded no_deletes)) = [chars ''users'']"
    by code_simp+
  ultimately show ?thesis by simp
qed

text \<open>
  A rule with a semantic predicate may match a plain system call: a star for the tool matches the
  empty name, so \<open>tool: "*"\<close> does not confine a rule to tool calls.
\<close>

lemma star_tool_matches_syscalls:
  "semanticMatch cr empty_sem" if "cr_Semantic cr = Some (no_sem\<lparr>sm_Tool := chars ''*''\<rparr>)"
proof -
  have "globOrEq (chars ''*'') []" by code_simp
  with that show ?thesis by (simp add: semanticMatch_def asks_def no_sem_def empty_sem_def)
qed

text \<open>The evaluator compares names without a label boundary, the DNS guard with one.\<close>

lemma fqdn_boundary:
  "systemMatch (hd (en_rules (loaded [sys_rule ''f'' (no_sys\<lparr>sy_FQDN := chars ''b.c''\<rparr>) ''Block'']))) \<lparr>yt_op = ''resolve'', yt_resource = chars ''ab.c''\<rparr>"
  by code_simp

end
