(* ===== verification/AK_EndToEnd.thy ===== *)
theory AK_EndToEnd
  imports AK_Containment AK_PushDown
begin

text \<open>
  From an event the kernel reports, through the daemon, back to what the kernel refuses: a session that reads a secret, an agent
  that starts, a session that ends, a script an agent wrote.
\<close>

section \<open>What the stages leave alone\<close>

lemma record_rules [simp]: "en_rules (recordMarker pick sid mk t en) = en_rules en"
  by (simp add: recordMarker_def Let_def split: option.split)

lemma evaluate_rules [simp]:
  "en_rules (snd (EvaluateSyscall pick ev t sess en)) = en_rules en"
  "en_rules (snd (EvaluateAction pick a sess en)) = en_rules en"
  by (simp_all add: EvaluateSyscall_def EvaluateAction_def mark_session_def Let_def split_def split: option.split)

lemma correl_same [simp]:
  "ag_correl (apply_decision h sess eff ev ag) = ag_correl ag" "ag_correl (observe_dns h e ag) = ag_correl ag"
  "ag_correl (consider_mcp h pid ag) = ag_correl ag" "ag_correl (note_file h e agent ag) = ag_correl ag"
  "ag_correl (resolveWorkerBinary h sid pid ag) = ag_correl ag" "ag_correl (bar_egress h a s ag) = ag_correl ag"
  by (simp_all add: apply_decision_def observe_dns_def consider_mcp_def note_file_def resolveWorkerBinary_def bar_egress_def Let_def split_def
      split: option.split)

lemma policy_same [simp]:
  "ag_policy (apply_decision h sess eff ev ag) = ag_policy ag" "ag_policy (observe_dns h e ag) = ag_policy ag"
  "ag_policy (note_file h e agent ag) = ag_policy ag" "ag_policy (bar_egress h a s ag) = ag_policy ag"
  by (simp_all add: apply_decision_def observe_dns_def note_file_def bar_egress_def Let_def split_def split: option.split)

lemma act_same [simp]: "ag_correl (act h sess dec e ag) = ag_correl ag" "ag_policy (act h sess dec e ag) = ag_policy ag"
  by (simp_all add: act_def)

lemma decide_same:
  "ag_correl (decide_syscall h e sid ag) = PushSyscall (hp_now h) e (ag_correl ag)"
  "en_rules (ag_policy (decide_syscall h e sid ag)) = en_rules (ag_policy ag)"
  by (simp_all add: decide_syscall_def Let_def split_def)

text \<open>The handling of an event of a file, once attributed.\<close>

lemma handle_file:
  assumes "ev_Category ev = CategoryFile" "ev_Session (Enrich (ag_mgr ag) ev) = Some (sid, agent)"
  shows "handle_syscall h ev ag =
    decide_syscall h (Enrich (ag_mgr ag) ev) sid (note_file h (Enrich (ag_mgr ag) ev) agent (observe_dns h (Enrich (ag_mgr ag) ev) ag))"
proof -
  have "ev_Category (Enrich (ag_mgr ag) ev) = CategoryFile" using assms(1) by (simp add: Enrich_def split: option.split)
  then show ?thesis using assms by (simp add: handle_syscall_def handle_attributed_def isConnect_def Let_def)
qed

lemma respond_same [simp]: "ag_correl (respond h a s eff ag) = ag_correl ag" "ag_policy (respond h a s eff ag) = ag_policy ag"
  by (simp_all add: respond_def Let_def)

lemma act_on_action_same [simp]:
  "ag_correl (act_on_action h a ag) = ag_correl ag" "en_rules (ag_policy (act_on_action h a ag)) = en_rules (ag_policy ag)"
  by (simp_all add: act_on_action_def Let_def split_def split: option.split)

lemma sessionByID_lookup:
  assumes "mgr_ok m" "LookupByID m sid = Some s" "sid \<noteq> []"
  shows "sessionByID m sid = Some s"
proof -
  have s: "s \<in> set (List_sessions m)" "mg_store m sid = Some s"
    using assms(2) by (auto simp: LookupByID_def List_sessions_set split: if_splits)
  have "List.find (\<lambda>t. ss_ID t = sid) (List_sessions m) \<noteq> None"
    using s stored_id [OF assms(1) s(2)] by (auto simp: find_None_iff)
  then obtain t where t: "List.find (\<lambda>t. ss_ID t = sid) (List_sessions m) = Some t" by blast
  then have "t \<in> set (List_sessions m)" "ss_ID t = sid" by (auto simp: find_Some_iff)
  then have "t = s" using s stored_id [OF assms(1)] by (auto simp: List_sessions_set)
  with t assms(3) show ?thesis by (simp add: sessionByID_def)
qed

section \<open>A secret read severs the session\<close>

text \<open>An action labelled sensitive bars the control group of its session.\<close>

lemma bar_action:
  assumes "chars ''sensitive'' \<in> set (ca_Taint a)" "ca_SessionID a \<noteq> []" "sessionByID (ag_mgr ag) (ca_SessionID a) = Some s"
    and "WantsTaintedEgressBlock (ag_policy ag) (ss_Agent s)" "\<not> e_dryRun (fst (ag_dm ag))"
    and "sess_CgroupID s \<noteq> 0" "d_put (hp_d h) D_posture (sess_CgroupID s)"
  shows "barred (sess_CgroupID s) (kernel (act_on_action h a ag))"
proof -
  let ?eval = "EvaluateAction (hp_pick h) a (Some s) (ag_policy ag)"
  let ?ag1 = "ag\<lparr>ag_policy := snd ?eval\<rparr>" and ?cg = "sess_CgroupID s"
  let ?ag2 = "bar_egress h a s ?ag1"
  have "barred ?cg (snd (SetNetPosture (hp_d h) ?cg True (ag_dm ag)))" using SetNetPosture_bars assms(5-7) by blast
  moreover have "WantsTaintedEgressBlock (snd ?eval) (ss_Agent s)" using assms(4) by (simp add: WantsTaintedEgressBlock_def)
  ultimately have b: "barred ?cg (kernel ?ag2)"
    using firm_SetPidEgressDeny assms(1) by (simp add: bar_egress_def hasLabel_def firm_def)
  have "act_on_action h a ag = ?ag2 \<or> (\<exists>eff. act_on_action h a ag = respond h a s eff ?ag2)"
    using assms(2, 3) by (auto simp: act_on_action_def Let_def split_def)
  then show ?thesis using b tight_bars [OF tight_respond b] by auto
qed

text \<open>The action of an unseen read.\<close>

lemma unseen_action:
  assumes "reads e sid p" "isSensitivePath p" "\<not> seen (state sid c) p" "\<not> indexHasResource (co_globalIndex c) p"
    and "length (co_actions c) < 4096"
  shows "\<exists>a. co_actions (PushSyscall now e c) = co_actions c @ [a] \<and> ca_SessionID a = sid \<and> sid \<noteq> []
    \<and> chars ''sensitive'' \<in> set (ca_Taint a)"
proof -
  have e: "ev_Category e = CategoryFile" "ev_sid e = sid" "sid \<noteq> []" using assms(1) by (auto simp: reads_def)
  have "set unseen_labels \<subseteq> set (fst (push_taint now e c))"
    using assms(1, 3, 4) sensitive_for_session [OF assms(2)]
    by (auto simp: push_taint_def applyTaint_def reads_def Let_def seen_def)
  then have "chars ''sensitive'' \<in> set (ca_Taint (push_action now e c))"
    using e push_action_taint [of e now c] by (simp add: unseen_labels_def)
  moreover have "co_actions (PushSyscall now e c) = co_actions c @ [push_action now e c]"
    using PushSyscall_actions [of e now c] e assms(5) by (simp add: outputBuffer_def)
  ultimately show ?thesis using e push_action_session [of now e c] by blast
qed

text \<open>Working through the channel.\<close>

lemma drain:
  assumes "co_actions (ag_correl ag) = as @ a # rest" "length hs = length as"
  shows "co_actions (ag_correl (fold handle_action hs ag)) = a # rest
    \<and> ag_mgr (fold handle_action hs ag) = ag_mgr ag \<and> en_rules (ag_policy (fold handle_action hs ag)) = en_rules (ag_policy ag)"
  using assms
proof (induction hs arbitrary: as ag)
  case (Cons h hs)
  then obtain b bs where as: "as = b # bs" by (cases as) auto
  have "co_actions (ag_correl (handle_action h ag)) = bs @ a # rest"
    "en_rules (ag_policy (handle_action h ag)) = en_rules (ag_policy ag)"
    using Cons.prems as by (simp_all add: handle_action_def)
  then show ?case using Cons.IH [of "handle_action h ag" bs] Cons.prems as by simp
qed simp

text \<open>
  C5. A secret that no prompt asked for does not leave: an active session reads a sensitive file that no prompt named, its policy
  blocks tainted egress, and the daemon works through the actions in the channel up to the one of this read. From then on, whatever
  the loops of the daemon and the programs of the kernel do, in any order, as long as the session is active every enforced task of its
  control group is refused each IPv4 or IPv6 connect other than to port 53. (The kernel takes the write of the posture, and the channel of
  actions had room.)
\<close>

theorem unseen_secret_contained:
  assumes "mgr_reaches (New_manager signatures parent manage) (ag_mgr ag)" "LookupByID (ag_mgr ag) sid = Some s"
    and "sess_CgroupID s \<noteq> 0" "WantsTaintedEgressBlock (ag_policy ag) (ss_Agent s)" "\<not> e_dryRun (fst (ag_dm ag))"
    and "reads (Enrich (ag_mgr ag) ev) sid p" "isSensitivePath p"
    and "\<not> seen (state sid (ag_correl ag)) p" "\<not> indexHasResource (co_globalIndex (ag_correl ag)) p"
    and "length (co_actions (ag_correl ag)) < 4096" "length hs = length (co_actions (ag_correl ag))"
    and "d_put (hp_d h') D_posture (sess_CgroupID s)"
    and "agent_step\<^sup>*\<^sup>* (handle_action h' (fold handle_action hs (handle_syscall h ev ag))) ag'" "active (ag_mgr ag') sid s'"
    and "enforced k (kernel ag')" "k_cgroup_id k = sess_CgroupID s"
    and "sock_family k address = 2 \<or> sock_family k address = 10" "sock_port k address \<noteq> 53"
  shows "fst (ak_lsm_socket_connect k address 0 (kernel ag')) = EPERM"
proof -
  let ?e = "Enrich (ag_mgr ag) ev" and ?cg = "sess_CgroupID s" and ?ag1 = "handle_syscall h ev ag"
  let ?ag2 = "fold handle_action hs ?ag1" and ?ag3 = "handle_action h' (fold handle_action hs (handle_syscall h ev ag))"
  have ok: "mgr_ok (ag_mgr ag)" using mgr_reaches_ok [OF assms(1) New_manager_ok] .
  obtain agent where e: "ev_Category ev = CategoryFile" "ev_Session ?e = Some (sid, agent)"
    using assms(6) by (auto simp: reads_def Enrich_def split: option.splits)
  note run = handle_file [OF e, of h]
  obtain a where a: "co_actions (ag_correl ?ag1) = co_actions (ag_correl ag) @ a # []" "ca_SessionID a = sid" "sid \<noteq> []"
    "chars ''sensitive'' \<in> set (ca_Taint a)"
    using unseen_action [OF assms(6-10), of "hp_now h"] run by (auto simp: decide_same)
  have t1: "tight ag ?ag1" unfolding run using firm_trans [OF tight_simple(3) firm_trans [OF tight_simple(5) tight_decide]] .
  have m1: "ag_mgr ?ag1 = ag_mgr ag" "en_rules (ag_policy ?ag1) = en_rules (ag_policy ag)" using run by (simp_all add: decide_same)
  note d = drain [OF a(1) assms(11)]
  have dry: "\<not> e_dryRun (fst (ag_dm ?ag2))" using assms(5) t1 actions.turns [of ?ag1 hs] by (simp add: firm_def)
  have "sessionByID (ag_mgr ag) sid = Some s" using sessionByID_lookup [OF ok assms(2) a(3)] .
  then have "barred ?cg (kernel (act_on_action h' a (?ag2\<lparr>ag_correl := (ag_correl ?ag2)\<lparr>co_actions := []\<rparr>\<rparr>)))"
    using bar_action [of a "?ag2\<lparr>ag_correl := (ag_correl ?ag2)\<lparr>co_actions := []\<rparr>\<rparr>" s h'] a d m1 dry assms(3, 4, 12)
    by (simp add: WantsTaintedEgressBlock_def)
  then have b3: "barred ?cg (kernel ?ag3)" using d by (simp add: handle_action_def)
  have m3: "ag_mgr ?ag3 = ag_mgr ag" using d m1 by simp
  have "mg_store (ag_mgr ag) sid = Some s" using assms(2) by (simp add: LookupByID_def split: if_splits)
  moreover have "mgr_reaches (ag_mgr ?ag3) (ag_mgr ag')"
    using assms(13) by (induction rule: rtranclp_induct) (auto dest: agent_step_mgr)
  ultimately have "sess_CgroupID s' = ?cg"
    using mgr_reaches_carries assms(14) m3 unfolding carries_def active_def by fastforce
  then have "barred ?cg (kernel ag')"
    using agent_run_bars [OF assms(13) b3 _ _ assms(14)] ok m3 \<open>mg_store (ag_mgr ag) sid = Some s\<close> assms(3) by simp
  then show ?thesis using connect_refused_iff [OF assms(15)] assms(16-18) by (simp add: egress_barred_def barred_def)
qed

text \<open>
  The examples: a host on which nothing can be read and the kernel takes every write; a policy that blocks tainted egress; a daemon with
  one Codex session in control group 7, and the read of a secret by one of its processes.
\<close>

definition quiet_host :: host where
  "quiet_host = \<lparr>hp_os = quiet_os, hp_proc = small_proc, hp_environ = (\<lambda>_. None), hp_cwd = (\<lambda>_. None), hp_tree = (\<lambda>_. Dir []),
     hp_head = (\<lambda>_. None), hp_perm = (\<lambda>_. None), hp_isdir = (\<lambda>_. None), hp_wd = None, hp_d = accepting, hp_fifo = (\<lambda>_ _. False),
     hp_kill = (\<lambda>_. Killed), hp_plan = (\<lambda>_. None), hp_attach = (\<lambda>_. False), hp_now = 9, hp_secs = 9, hp_fresh = chars ''f'', hp_pick = 0,
     hp_semantic = True, hp_capture = True\<rparr>"

definition sem_rule :: "SemanticPred \<Rightarrow> string \<Rightarrow> Rule list" where
  "sem_rule sem opn = [\<lparr>ru_Name = chars ''r'', ru_When = \<lparr>Semantic = Some sem, System = Some (no_sys\<lparr>sy_Op := opn\<rparr>), Condition = None\<rparr>,
     ru_Effect = ''Block''\<rparr>]"

definition no_exfil :: engine where
  "no_exfil = loaded (sem_rule (no_sem\<lparr>sm_Taint := chars ''sensitive''\<rparr>) ''connect'')"

definition watched :: "manager \<Rightarrow> engine \<Rightarrow> agentd" where
  "watched m en = \<lparr>ag_mgr = m, ag_correl = New_correlator, ag_policy = en, ag_guard = Map.empty, ag_mcp = [], ag_db = Map.empty,
     ag_workers = {}, ag_dm = (fresh_enforcer, member_state 3), ag_killed = []\<rparr>"

definition file_event :: "string \<Rightarrow> string \<Rightarrow> SessionEvent" where
  "file_event opn path = (event_of CategoryFile opn (Text (chars path)) 2)\<lparr>ev_Session := None\<rparr>"

lemma one_agent_reached: "mgr_reaches (New_manager [] [] False) (one_agent unmanaged)"
proof -
  have "mgr_step unmanaged (one_agent unmanaged)" unfolding one_agent_def by (rule execs_step) code_simp
  then show ?thesis unfolding unmanaged_def by (rule r_into_rtranclp)
qed

lemma watched_simps [simp]:
  "ag_mgr (watched m en) = m" "ag_policy (watched m en) = en" "ag_correl (watched m en) = New_correlator"
  "ag_dm (watched m en) = (fresh_enforcer, member_state 3)" "ag_killed (watched m en) = []"
  "\<not> e_dryRun fresh_enforcer" "hp_d quiet_host = accepting" "d_put accepting mp key"
  by (simp_all add: watched_def fresh_enforcer_def quiet_host_def accepting_def)

theorem unseen_secret_contained_witness:
  "fst (ak_lsm_socket_connect connect_env 0 0 (kernel (handle_action quiet_host
     (handle_syscall quiet_host (file_event ''read'' aws_credentials) (watched (one_agent unmanaged) no_exfil))))) = EPERM"
proof -
  let ?ag = "watched (one_agent unmanaged) no_exfil" and ?ev = "file_event ''read'' aws_credentials"
  let ?s = "the (mg_store (one_agent unmanaged) (chars ''a''))"
  let ?ag1 = "handle_syscall quiet_host ?ev ?ag"
  have f: "LookupByID (one_agent unmanaged) (chars ''a'') = Some ?s" "sess_CgroupID ?s = 7" "ss_State ?s = SessionActive"
    "WantsTaintedEgressBlock no_exfil (ss_Agent ?s)" "reads (Enrich (one_agent unmanaged) ?ev) (chars ''a'') (chars aws_credentials)"
    "isSensitivePath (chars aws_credentials)" "\<not> seen (state (chars ''a'') New_correlator) (chars aws_credentials)"
    "\<not> indexHasResource (co_globalIndex New_correlator) (chars aws_credentials)" "co_actions New_correlator = []"
    "ev_Category ?ev = CategoryFile" "ev_Session (Enrich (one_agent unmanaged) ?ev) = Some (chars ''a'', AgentCodex)"
    by code_simp+
  have run: "?ag1 = decide_syscall quiet_host (Enrich (ag_mgr ?ag) ?ev) (chars ''a'')
      (note_file quiet_host (Enrich (ag_mgr ?ag) ?ev) AgentCodex (observe_dns quiet_host (Enrich (ag_mgr ?ag) ?ev) ?ag))"
    by (rule handle_file) (use f in simp_all)
  have "tight ?ag ?ag1" unfolding run using firm_trans [OF tight_simple(3) firm_trans [OF tight_simple(5) tight_decide]] .
  then have t: "tight ?ag (handle_action quiet_host ?ag1)" using firm_trans [OF _ tight_handle_action] by blast
  have "enforced connect_env (kernel (handle_action quiet_host ?ag1))"
    using t session_flags_enforce [of fresh_enforcer]
    by (intro flags_enforced) (auto simp: firm_def member_state_def init_kstate_def has_def ak_const)
  moreover have "active (ag_mgr (handle_action quiet_host ?ag1)) (chars ''a'') ?s"
    using run f by (simp add: active_def LookupByID_def split: if_splits)
  ultimately show ?thesis
    using unseen_secret_contained [of "[]" "[]" False ?ag "chars ''a''" ?s ?ev "chars aws_credentials" "[]" quiet_host quiet_host
        "handle_action quiet_host ?ag1" ?s connect_env 0] one_agent_reached f
    by simp
qed

text \<open>A session that has ended is barred as well, by an action that was still in the channel.\<close>

lemma late_action_bars:
  assumes "mgr_ok (ag_mgr ag)" "co_actions (ag_correl ag) = a # as" "chars ''sensitive'' \<in> set (ca_Taint a)" "ca_SessionID a = sid" "sid \<noteq> []"
    and "LookupByID (ag_mgr ag) sid = Some s" "ss_State s = SessionEnded"
    and "WantsTaintedEgressBlock (ag_policy ag) (ss_Agent s)" "\<not> e_dryRun (fst (ag_dm ag))"
    and "sess_CgroupID s \<noteq> 0" "d_put (hp_d h) D_posture (sess_CgroupID s)"
  shows "barred (sess_CgroupID s) (kernel (handle_action h ag))"
  using bar_action [of a "ag\<lparr>ag_correl := (ag_correl ag)\<lparr>co_actions := as\<rparr>\<rparr>" s h] sessionByID_lookup [OF assms(1,6,5)] assms
  by (simp add: handle_action_def)

section \<open>An agent that starts is enforced\<close>

lemma OnExec_new:
  assumes "OnExec os fresh now ev m0 = (Some (sid, True), m)"
  shows "\<exists>s. mg_store m sid = Some s \<and> sess_RootPID s = ev_pid ev"
  using assms
  by (auto simp: OnExec_def createSession_def create_register_def new_session_def Let_def split: option.splits prod.splits if_splits)

lemma handle_exec_tight:
  assumes "ev_Category ev = CategoryProcess" "ev_Operation ev = ''exec''"
  shows "tight (on_exec h ev ag) (handle_syscall h ev ag)"
  using assms tight_attributed by (simp add: handle_syscall_def Let_def split: option.split)

text \<open>
  C12. When the exec of an agent is recognised as a new session, then by the time the event has been handled the process and every
  descendant of it in \<open>/proc\<close>, forked before the detection, is enforced. (In a kernel that takes the writes, unless the daemon runs dry; the
  daemon's own processes are exempt.)
\<close>

theorem new_agent_armed:
  assumes "ev_Category ev = CategoryProcess" "ev_Operation ev = ''exec''"
    and "OnExec (hp_os h) (hp_fresh h) (hp_now h) ev (ag_mgr ag) = (Some (sid, True), m)"
    and "\<not> e_dryRun (fst (ag_dm ag))" "\<forall>mp key. d_put (hp_d h) mp key" "proc_entries (hp_proc h) \<noteq> None"
    and "pid = ev_pid ev \<or> (ev_pid ev, pid) \<in> (child_rel (hp_proc h))\<^sup>+" "1 <s pid" "ak_self (kernel ag) pid = None" "ak_tgid k = pid"
  shows "enforced k (kernel (handle_syscall h ev ag))"
proof -
  obtain s where s: "mg_store m sid = Some s" "sess_RootPID s = ev_pid ev" using OnExec_new [OF assms(3)] by blast
  let ?enf = "\<lambda>dm. snd (EnforceSession (hp_d h) (hp_proc h) (to_enforce s) dm)"
  have "on_exec h ev ag = onNewSession h s (ag\<lparr>ag_mgr := m\<rparr>)" using assms(3) s(1) by (simp add: on_exec_def)
  then obtain ag2 where ag2: "tight ag ag2" "tight (on_dm ?enf ag2) (on_exec h ev ag)"
    using onNewSession_split [of "ag\<lparr>ag_mgr := m\<rparr>" h s] by auto
  then have last: "tight (on_dm ?enf ag2) (handle_syscall h ev ag)" using firm_trans handle_exec_tight [OF assms(1,2)] by blast
  have enf: "EnforceSession (hp_d h) (hp_proc h) (to_enforce s) (fst (ag_dm ag2), kernel ag2)
      = (None, fst (?enf (ag_dm ag2)), snd (?enf (ag_dm ag2)))"
    using EnforceSession_accepted [OF assms(5), of "hp_proc h" "to_enforce s" "ag_dm ag2"] by auto
  have dry: "\<not> e_dryRun (fst (ag_dm ag2))" using assms(4) ag2(1) by (simp add: firm_def)
  have "pid = sess_RootPID (to_enforce s) \<or> pid \<in> set (sess_Members (to_enforce s))
      \<or> (sess_RootPID (to_enforce s), pid) \<in> (child_rel (hp_proc h))\<^sup>+"
    using assms(7) s(2) by (auto simp: AgentSession.truncate_def)
  then have "opt_has (ak_session_pids (snd (?enf (ag_dm ag2))) pid) AK_SESS_MONITOR"
    "opt_has (ak_session_pids (snd (?enf (ag_dm ag2))) pid) AK_SESS_ENFORCE" "ak_self (snd (?enf (ag_dm ag2))) = ak_self (kernel ag2)"
    using tree_flags [OF enf dry _ assms(6) _ assms(8)] assms(5) by blast+
  then show ?thesis
    using last ag2(1) assms(9,10) session_flags_enforce(3,4) [OF dry] by (intro flags_enforced) (simp_all add: firm_def)
qed

theorem new_agent_armed_witness:
  "enforced (sample_env\<lparr>k_pid_tgid := 4 * 2 ^ 32 + 4\<rparr>)
     (kernel (handle_syscall quiet_host (proc_event ''exec'' 2 1 ''/bin/codex'') (watched unmanaged New_engine)))"
proof -
  let ?ev = "proc_event ''exec'' 2 1 ''/bin/codex''" and ?ag = "watched unmanaged New_engine"
  have h: "hp_os quiet_host = quiet_os" "hp_fresh quiet_host = chars ''f''" "hp_now quiet_host = 9" "hp_proc quiet_host = small_proc"
    by (simp_all add: quiet_host_def)
  have "fst (OnExec quiet_os (chars ''f'') 9 ?ev unmanaged) = Some (chars ''f'', True)" by code_simp
  then have "OnExec (hp_os quiet_host) (hp_fresh quiet_host) (hp_now quiet_host) ?ev (ag_mgr ?ag)
      = (Some (chars ''f'', True), snd (OnExec quiet_os (chars ''f'') 9 ?ev unmanaged))"
    unfolding h by (simp add: prod_eq_iff)
  moreover have "4 \<in> set (descendantsOf small_proc 2)" by (simp add: small_descendants)
  moreover have "proc_entries small_proc \<noteq> None" by (simp add: small_proc_def)
  ultimately show ?thesis
    using new_agent_armed [of ?ev quiet_host ?ag "chars ''f''" _ 4 "sample_env\<lparr>k_pid_tgid := 4 * 2 ^ 32 + 4\<rparr>"]
      descendants_closure [of small_proc 2]
    by (auto simp: h proc_event_def ev_pid_def member_state_def init_kstate_def ak_tgid_def word_sless_alt)
qed

text \<open>
  An agent that was running before the daemon gets a session without a control group, unless it is moved to a managed one, and no posture is ever
  set for it.
\<close>

lemma scanned_without_posture:
  assumes "OnExec os fresh now (scan_event pid exe) m0 = (Some (sid, True), m)" "mg_store m sid = Some s" "\<not> mg_ManageCgroup m0"
  shows "sess_CgroupID s = 0 \<and> SetNetPosture d (sess_CgroupID s) on dm = dm \<and> SetTaintedCodePosture d (sess_CgroupID s) on dm = dm"
proof -
  have "sess_CgroupID s = 0"
    using assms
    by (auto simp: OnExec_def createSession_def create_check_def create_register_def new_session_def scan_event_def ev_cgroup_def Let_def
        split: option.splits prod.splits if_splits)
  then show ?thesis by (simp add: SetNetPosture_def SetTaintedCodePosture_def setPostureBit_def split_def)
qed

text \<open>Every exec that is attributed to a session is enforced, also that of a stranger in the session's control group.\<close>

lemma attributed_exec_enforced:
  assumes "ev_Category ev = CategoryProcess" "ev_Operation ev = ''exec''" "ev_Session (Enrich (ag_mgr (on_exec h ev ag)) ev) \<noteq> None"
    and "\<not> e_dryRun (fst (ag_dm ag))" "\<forall>mp key. d_put (hp_d h) mp key" "0 <s ev_pid ev"
  shows "opt_has (ak_session_pids (kernel (handle_syscall h ev ag)) (ev_pid ev)) AK_SESS_ENFORCE"
proof -
  let ?ag1 = "on_exec h ev ag" and ?e = "Enrich (ag_mgr (on_exec h ev ag)) ev"
  have e: "ev_Category ?e = CategoryProcess" "ev_Operation ?e = ''exec''" "ev_pid ?e = ev_pid ev" "\<not> isConnect ?e"
    using assms(1,2) by (simp_all add: Enrich_def ev_pid_def isConnect_def split: option.split)
  obtain sid agent where sess: "ev_Session ?e = Some (sid, agent)" using assms(3) by auto
  let ?ag2 = "on_kernel (RegisterPID (hp_d h) (ev_pid ev)) (observe_dns h ?e ?ag1)"
  let ?ag3 = "on_dm (EnforcePID (hp_d h) (ev_pid ev)) ?ag2"
  have "tight ag ?ag2" using firm_trans [OF tight_on_exec firm_trans [OF tight_simple(3) tight_register(1)]] .
  then have dry: "\<not> e_dryRun (fst (ag_dm ?ag2))" using assms(4) by (simp add: firm_def)
  have "opt_has (ak_session_pids (kernel ?ag3) (ev_pid ev)) AK_SESS_ENFORCE"
    using arm_member_arms [of "hp_d h" "ev_pid ev" AK_SESS_ENFORCE "fst (ag_dm ?ag2)"] assms(5,6) session_flags_enforce [OF dry]
    by (simp add: EnforcePID_def split_def word_sle_eq word_sless_alt)
  moreover have "tight ?ag3 (handle_syscall h ev ag)"
  proof -
    have "\<exists>ag4. scope_exec h ?e sid agent (observe_dns h ?e ?ag1) = consider_mcp h (ev_pid ev) ag4 \<and> ag_dm ag4 = ag_dm ?ag3"
      unfolding scope_exec_def Let_def e(3) by (rule exI, rule conjI, rule refl) simp
    then have "tight ?ag3 (scope_exec h ?e sid agent (observe_dns h ?e ?ag1))" using tight_simple(4) by metis
    then have "tight ?ag3 (handle_attributed h ?e sid agent ?ag1)"
      using e firm_trans [OF _ firm_trans [OF tight_simple(5) tight_decide]] by (simp add: handle_attributed_def Let_def)
    then show ?thesis using assms(1,2) sess by (simp add: handle_syscall_def Let_def)
  qed
  ultimately show ?thesis using session_flags_enforce(4) [OF dry] by (simp add: firm_def)
qed

section \<open>A session that ends leaves nothing behind\<close>

lemma quiet_frames:
  "members (kernel (observe_dns h e ag)) = members (kernel ag)" "guard_maps (ag_dm (observe_dns h e ag)) = guard_maps (ag_dm ag)"
  "members (kernel (decide_syscall h e sid ag)) = members (kernel ag)" "guard_maps (ag_dm (decide_syscall h e sid ag)) = guard_maps (ag_dm ag)"
proof -
  have "members (snd (fold (observe_answer d now) as gs)) = members (snd gs)" for d now as gs
    by (induction as arbitrary: gs) (simp_all add: observe_answer_def BlockIP_def state_members Let_def split_def)
  from this [where gs = "(ag_guard ag, kernel ag)"] show "members (kernel (observe_dns h e ag)) = members (kernel ag)"
    by (simp add: observe_dns_def observe_def Let_def split_def split: option.split)
  show "guard_maps (ag_dm (observe_dns h e ag)) = guard_maps (ag_dm ag)"
    by (simp add: observe_dns_def guard_frames Let_def split_def split: option.split)
  show "members (kernel (decide_syscall h e sid ag)) = members (kernel ag)"
    by (simp add: decide_syscall_def act_def apply_decision_def other_members Let_def split_def)
  show "guard_maps (ag_dm (decide_syscall h e sid ag)) = guard_maps (ag_dm ag)"
    by (simp add: decide_syscall_def act_def apply_decision_def guard_Apply Let_def split_def)
qed

text \<open>The handling of the exit of a process.\<close>

lemma handle_exit:
  assumes "ev_Category ev = CategoryProcess" "ev_Operation ev = ''exit''"
  shows "handle_syscall h ev ag = (case ev_Session (Enrich (ag_mgr ag) ev) of None \<Rightarrow> on_exit h (Enrich (ag_mgr ag) ev) ag
    | Some (sid, agent) \<Rightarrow>
        decide_syscall h (Enrich (ag_mgr ag) ev) sid (observe_dns h (Enrich (ag_mgr ag) ev) (on_exit h (Enrich (ag_mgr ag) ev) ag)))"
proof -
  define e where "e = Enrich (ag_mgr ag) ev"
  have "ev_Category e = CategoryProcess" "ev_Operation e = ''exit''" using assms by (simp_all add: e_def Enrich_def split: option.split)
  then show ?thesis using assms unfolding e_def [symmetric] handle_syscall_def Let_def
    by (simp add: e_def [symmetric] handle_attributed_def note_file_def isConnect_def Let_def split: option.split)
qed

lemma handle_exit_frame:
  assumes "ev_Category ev = CategoryProcess" "ev_Operation ev = ''exit''"
  shows "members (kernel (handle_syscall h ev ag)) = members (kernel (on_exit h (Enrich (ag_mgr ag) ev) ag))"
    "guard_maps (ag_dm (handle_syscall h ev ag)) = guard_maps (ag_dm (on_exit h (Enrich (ag_mgr ag) ev) ag))"
  unfolding handle_exit [OF assms] by (simp_all add: quiet_frames split: option.split)

text \<open>Clearing the bits of a posture one after the other.\<close>

lemma clear_bit:
  assumes "\<not> e_dryRun (fst dm)" "cg \<noteq> 0" "d_put d D_posture cg"
  shows "ak_posture (snd (snd (setPostureBit d cg b False dm))) cg = None
     \<and> word_at (ak_posture (snd dm)) cg AND NOT b = 0 \<or>
     word_at (ak_posture (snd (snd (setPostureBit d cg b False dm)))) cg = word_at (ak_posture (snd dm)) cg AND NOT b"
  using assms by (simp add: setPostureBit_def Let_def split_def)

lemma posture_cleared:
  assumes "\<not> e_dryRun (fst dm)" "cg \<noteq> 0" "d_put d D_posture cg"
  defines "dm' \<equiv> SetNetPosture d cg False (SetTaintedCodePosture d cg False dm)"
  shows "\<not> opt_has (ak_posture (snd dm') cg) AK_POSTURE_DENY_EGRESS" "\<not> opt_has (ak_posture (snd dm') cg) AK_POSTURE_DENY_TAINTED_CODE"
proof -
  let ?w = "\<lambda>dm. word_at (ak_posture (snd dm)) cg"
  let ?dm = "SetTaintedCodePosture d cg False dm"
  have fst: "e_dryRun (fst ?dm) = e_dryRun (fst dm)" by (simp add: SetTaintedCodePosture_def setPostureBit_def Let_def split_def)
  have z: "word_at m cg = 0" if "m cg = None" for m using that by (simp add: word_at_def)
  have "?w ?dm = ?w dm AND NOT AK_POSTURE_DENY_TAINTED_CODE"
    using clear_bit [OF assms(1-3)] z unfolding SetTaintedCodePosture_def by metis
  moreover have "?w dm' = ?w ?dm AND NOT AK_POSTURE_DENY_EGRESS"
    using clear_bit [of ?dm, OF _ assms(2,3)] assms(1) fst z unfolding dm'_def SetNetPosture_def by metis
  ultimately have "?w dm' = ?w dm AND NOT AK_POSTURE_DENY_TAINTED_CODE AND NOT AK_POSTURE_DENY_EGRESS"
    by (simp add: and.assoc)
  then have "\<not> has (?w dm') AK_POSTURE_DENY_EGRESS" "\<not> has (?w dm') AK_POSTURE_DENY_TAINTED_CODE"
    by (simp_all add: has_def and.assoc AK_POSTURE_DENY_TAINTED_CODE_def AK_POSTURE_DENY_EGRESS_def)
  then show "\<not> opt_has (ak_posture (snd dm') cg) AK_POSTURE_DENY_EGRESS" "\<not> opt_has (ak_posture (snd dm') cg) AK_POSTURE_DENY_TAINTED_CODE"
    by (auto simp: word_at_def split: option.splits)
qed

lemma release_kernel:
  "ak_session_pids (kernel (release_pid h pid ag)) = (if pid \<le>s 0 then ak_session_pids (kernel ag) else (ak_session_pids (kernel ag))(pid := None))"
  "ak_sessions (kernel (release_pid h pid ag)) = ak_sessions (kernel ag)"
  by (simp_all add: release_pid_def mcp_parts release_fds_def UnregisterMcpFd_def SetMcpArmed_def UnregisterPID_def Let_def split_def)

lemma releases:
  "ak_sessions (kernel (fold (release_pid h) ps ag)) = ak_sessions (kernel ag)"
  "ak_posture (kernel (fold (release_pid h) ps ag)) = ak_posture (kernel ag)"
  "p \<in> set ps \<or> ak_session_pids (kernel ag) p = None \<Longrightarrow> 0 <s p \<Longrightarrow> ak_session_pids (kernel (fold (release_pid h) ps ag)) p = None"
  by (induction ps arbitrary: ag) (auto simp: release_kernel release_posture word_sle_eq word_sless_alt)

text \<open>
  C13. When the exit of a process ends its session and no other active session shares the control group, then once the event has been
  handled the kernel holds nothing of the session: its control group is not registered, carries neither deny-egress nor deny-tainted-code,
  and neither the root nor any member is in the map of processes.
\<close>

theorem ended_session_released:
  assumes "ev_Category ev = CategoryProcess" "ev_Operation ev = ''exit''"
    and "OnExit (hp_os h) (Enrich (ag_mgr ag) ev) (ag_mgr ag) = (OnSessionEnded sid, m)" "mg_store m sid = Some s" "ss_ID s = sid"
    and "\<not> CgroupHasActiveSession m (sess_CgroupID s) sid" "sess_CgroupID s \<noteq> 0"
    and "\<not> e_dryRun (fst (ag_dm ag))" "d_put (hp_d h) D_posture (sess_CgroupID s)"
    and "t = kernel (handle_syscall h ev ag)"
  shows "ak_sessions t (sess_CgroupID s) = None
    \<and> \<not> opt_has (ak_posture t (sess_CgroupID s)) AK_POSTURE_DENY_EGRESS
    \<and> \<not> opt_has (ak_posture t (sess_CgroupID s)) AK_POSTURE_DENY_TAINTED_CODE
    \<and> (\<forall>p \<in> set (sess_RootPID s # sess_Members s). 0 <s p \<longrightarrow> ak_session_pids t p = None)"
proof -
  let ?cg = "sess_CgroupID s" and ?ag = "ag\<lparr>ag_mgr := m\<rparr>"
  let ?ag1 = "on_kernel (UnregisterSession ?cg) ?ag"
  let ?ag2 = "on_dm (SetNetPosture (hp_d h) ?cg False) (on_dm (SetTaintedCodePosture (hp_d h) ?cg False) ?ag1)"
  let ?ag3 = "onSessionEnded h s ?ag"
  have "on_exit h (Enrich (ag_mgr ag) ev) ag = ?ag3" using assms(3,4) by (simp add: on_exit_def)
  then have t: "members t = members (kernel ?ag3)" "ak_posture t = ak_posture (kernel ?ag3)"
    using handle_exit_frame [OF assms(1,2), of h ag] unfolding assms(10) by (simp_all add: guard_maps_def)
  have dm: "ag_dm ?ag3 = ag_dm (fold (release_pid h) (sess_RootPID s # sess_Members s) ?ag2)"
    unfolding onSessionEnded_def Let_def using assms(5,6) by simp
  have "ak_sessions (kernel ?ag2) ?cg = None"
    using assms(7) by (simp add: SetNetPosture_def SetTaintedCodePosture_def setPostureBit_def Let_def split_def) (simp add: UnregisterSession_def)
  moreover have "\<not> opt_has (ak_posture (kernel ?ag2) ?cg) AK_POSTURE_DENY_EGRESS"
    "\<not> opt_has (ak_posture (kernel ?ag2) ?cg) AK_POSTURE_DENY_TAINTED_CODE"
    using posture_cleared [of "ag_dm ?ag1" ?cg "hp_d h"] assms(7-9) by simp_all
  ultimately show ?thesis
    using t releases [where h = h and ps = "sess_RootPID s # sess_Members s" and ag = ?ag2] unfolding dm by (simp add: members_def)
qed

theorem ended_session_released_witness:
  "ak_sessions (kernel (handle_syscall quiet_host (proc_event ''exit'' 10 1 []) (watched (one_agent unmanaged) New_engine))) 7 = None
   \<and> ak_session_pids (kernel (handle_syscall quiet_host (proc_event ''exit'' 10 1 []) (watched (one_agent unmanaged) New_engine))) 10 = None"
proof -
  let ?ev = "proc_event ''exit'' 10 1 []" and ?ag = "watched (one_agent unmanaged) New_engine"
  let ?r = "OnExit quiet_os (Enrich (one_agent unmanaged) ?ev) (one_agent unmanaged)"
  let ?s = "the (mg_store (snd ?r) (chars ''a''))"
  have f: "fst ?r = OnSessionEnded (chars ''a'')" "mg_store (snd ?r) (chars ''a'') \<noteq> None" "ss_ID ?s = chars ''a''"
    "\<not> CgroupHasActiveSession (snd ?r) 7 (chars ''a'')" "sess_CgroupID ?s = 7" "sess_RootPID ?s = 10"
    by code_simp+
  then have "mg_store (snd ?r) (chars ''a'') = Some ?s" by simp
  moreover have "?r = (OnSessionEnded (chars ''a''), snd ?r)" using f(1) by (simp add: prod_eq_iff)
  moreover have "hp_os quiet_host = quiet_os" by (simp add: quiet_host_def)
  ultimately show ?thesis
    using ended_session_released [of ?ev quiet_host ?ag "chars ''a''" "snd ?r" ?s] f
    by (simp add: proc_event_def word_sless_alt)
qed

text \<open>
  The timeline is the exception: it is dropped when the session ends, and the evaluation of the same exit event, which still finds the
  session in the history, starts it again.
\<close>

lemma exit_marks_again:
  assumes "ev_Category ev = CategoryProcess" "ev_Operation ev = ''exit''" "ev_Session (Enrich (ag_mgr ag) ev) = Some (sid, agent)"
    and "mgr_ok (ag_mgr ag)" "LookupByID (snd (OnExit (hp_os h) (Enrich (ag_mgr ag) ev) (ag_mgr ag))) sid = Some s" "sid \<noteq> []"
    and "en_hasTemporal (ag_policy (on_exit h (Enrich (ag_mgr ag) ev) ag))"
  shows "map_of (en_timeline (ag_policy (handle_syscall h ev ag))) sid \<noteq> None"
proof -
  let ?e = "Enrich (ag_mgr ag) ev"
  let ?ag1 = "observe_dns h ?e (on_exit h ?e ag)"
  have ok: "mgr_ok (ag_mgr ?ag1)" "ag_mgr ?ag1 = snd (OnExit (hp_os h) ?e (ag_mgr ag))"
    using OnExit_ok [OF assms(4)] by (simp_all add: on_exit_mgr)
  have "sessionByID (ag_mgr ?ag1) sid = Some s" using sessionByID_lookup [OF ok(1)] assms(5,6) ok(2) by simp
  moreover have "ss_ID s = sid" using assms(5) stored_id [OF ok(1)] ok(2) by (simp add: LookupByID_def split: if_splits)
  moreover have "mapOp ''exit'' = ''exit''" "ev_Operation ?e = ''exit''"
    using assms(2) by (simp_all add: mapOp_def Enrich_def split: option.split)
  moreover have "map_of (en_timeline (recordMarker pick sid (chars ''exit'') t en)) sid \<noteq> None" if "en_hasTemporal en" for pick t en
    using that assms(6) by (simp add: recordMarker_def Let_def chars_def update_conv' split: option.split)
  ultimately show ?thesis
    using handle_exit [OF assms(1,2), of h ag] assms(3,7)
    by (simp add: decide_syscall_def EvaluateSyscall_def mark_session_def SyscallEvent.truncate_def Let_def)
qed

text \<open>The sweep reads the members of a managed control group below the mount point twice.\<close>

lemma rearm_path_doubled:
  "filepath_Join [cgroupRoot, filepath_Join [cgroupRoot, chars ''agentknox.slice'', chars ''session-1'']]
   = chars ''/sys/fs/cgroup/sys/fs/cgroup/agentknox.slice/session-1''"
  by code_simp

section \<open>Scripts an agent wrote\<close>

lemma taint_files_frames:
  "ak_taint_files (kernel (observe_dns h e ag)) = ak_taint_files (kernel ag)"
  "ak_taint_files (kernel (decide_syscall h e sid ag)) = ak_taint_files (kernel ag)"
proof -
  have ip: "ak_taint_files (snd (setIP d ip on s)) = ak_taint_files s" for d ip on s by (simp add: setIP_def Let_def split: option.split)
  have "ak_taint_files (snd (fold (observe_answer d now) as gs)) = ak_taint_files (snd gs)" for d now as gs
    by (induction as arbitrary: gs) (simp_all add: observe_answer_def BlockIP_def ip Let_def split_def)
  from this [where gs = "(ag_guard ag, kernel ag)"] show "ak_taint_files (kernel (observe_dns h e ag)) = ak_taint_files (kernel ag)"
    by (simp add: observe_dns_def observe_def Let_def split_def split: option.split)
  have "ak_taint_files (snd (snd (addFileOp d x opn dm))) = ak_taint_files (snd dm)" for d x opn dm
    by (simp add: addFileOp_def Let_def split_def)
  then have "ak_taint_files (snd (snd (Apply d kill sess eff ev dm))) = ak_taint_files (snd dm)" for d kill sess eff ev dm
    by (simp add: Apply_def applyBlock_def BlockIP_def ip split: effect.split option.split resource.split)
  then show "ak_taint_files (kernel (decide_syscall h e sid ag)) = ak_taint_files (kernel ag)"
    by (simp add: decide_syscall_def act_def apply_decision_def Let_def split_def)
qed

lemma add_taint_has:
  assumes "d_put d D_taint_files x"
  shows "has bits b \<Longrightarrow> opt_has (ak_taint_files (snd (snd (add_taint d x bits dm))) x) b"
    "opt_has (ak_taint_files (snd dm) x) b \<Longrightarrow> opt_has (ak_taint_files (snd (snd (add_taint d x bits dm))) x) b"
proof -
  have z: "\<not> has 0 b" if "has bits b" using that by (auto simp: has_def)
  show "opt_has (ak_taint_files (snd (snd (add_taint d x bits dm))) x) b" if "has bits b"
    using assms that z [OF that] has_or [of "word_at (ak_taint_files (snd dm)) x" bits b]
    by (cases "ak_taint_files (snd dm) x") (auto simp: add_taint_def put_taint_def word_at_def Let_def split_def)
  show "opt_has (ak_taint_files (snd (snd (add_taint d x bits dm))) x) b" if "opt_has (ak_taint_files (snd dm) x) b"
    using assms that by (auto simp: add_taint_def put_taint_def word_at_def has_or Let_def split_def split: option.splits)
qed

lemma note_write_taints:
  assumes "ev_Category e = CategoryFile" "ev_Operation e = ''write''" "isExactPath (ev_resource e)"
    and "WantsTaintedCodeBlock (ag_policy ag) agent" "d_put (hp_d h) D_taint_files (HashString (ev_resource e))"
  shows "IsTaintedWritten (ev_resource e) (kernel (note_file h e agent ag))"
proof -
  let ?p = "ev_resource e" and ?dm = "TaintFile (hp_d h) (ev_resource e) (detectCode h (ev_resource e)) (ag_dm ag)"
  have "has (if c then AK_TAINT_WRITTEN OR AK_TAINT_CODE else AK_TAINT_WRITTEN) AK_TAINT_WRITTEN" for c
    by (simp add: has_def AK_TAINT_WRITTEN_def AK_TAINT_CODE_def)
  then have a: "opt_has (ak_taint_files (snd ?dm) (HashString ?p)) AK_TAINT_WRITTEN"
    using add_taint_has(1) [OF assms(5)] assms(3) unfolding TaintFile_def by simp
  have "snd (TaintPersist (hp_d h) ?p ?dm) = snd (snd (add_taint (hp_d h) (HashString ?p) AK_TAINT_PERSIST ?dm))
      \<or> (\<exists>s. snd (TaintPersist (hp_d h) ?p ?dm) = armFlag (hp_d h) AK_FLAG_PERSIST_ARMED s
           \<and> s = snd (snd (add_taint (hp_d h) (HashString ?p) AK_TAINT_PERSIST ?dm)))"
    using assms(3) by (auto simp: TaintPersist_def split: prod.split option.split)
  moreover have "ak_taint_files (armFlag d w s) = ak_taint_files s" for d w s by (simp add: armFlag_def Let_def)
  ultimately have "opt_has (ak_taint_files (snd (TaintPersist (hp_d h) ?p ?dm)) (HashString ?p)) AK_TAINT_WRITTEN"
    using add_taint_has(2) [OF assms(5) a] by fastforce
  with a show ?thesis using assms(1-4) by (simp add: note_file_def IsTaintedWritten_def Let_def)
qed

text \<open>
  C14. A script that an agent wrote is not run by an interpreter: when a session under a policy
  against agent-written code writes a file, the file is recorded as written once the event has been
  handled; and after any further steps of the daemon and the kernel, a process whose command line
  makes an interpreter run that file, in any session under such a policy, gets every process of its
  session killed exactly when the record is still there (the map of records drops old entries when
  it is full, and a rename can move a record); otherwise nothing is killed. (For names without
  wildcard characters, when the kernel took the record.)
\<close>

theorem written_script_killed:
  assumes "ev_Category wr = CategoryFile" "ev_Operation wr = ''write''" "ev_resource wr = p" "isExactPath p"
    and "ev_Session (Enrich (ag_mgr ag) wr) = Some (sid, agent)" "WantsTaintedCodeBlock (ag_policy ag) agent"
    and "d_put (hp_d h) D_taint_files (HashString p)" "\<not> e_dryRun (fst (ag_dm ag))"
    and "ag1 = handle_syscall h wr ag" "agent_step\<^sup>*\<^sup>* ag1 ag2"
    and "sessionByID (ag_mgr ag2) (ev_sid ex) = Some s" "WantsTaintedCodeBlock (ag_policy ag2) (ss_Agent s)"
    and "resolveScriptArg h' (ev_pid ex) = (True, p)" "kill_targets (to_enforce s) \<noteq> []"
  shows "IsTaintedWritten p (kernel ag1)
    \<and> ag_killed (checkInterpreterScript h' ex ag2) =
        ag_killed ag2 @ (if IsTaintedWritten p (kernel ag2) then kill_targets (to_enforce s) else [])"
proof -
  let ?e = "Enrich (ag_mgr ag) wr"
  have e: "ev_Category ?e = CategoryFile" "ev_Operation ?e = ''write''" "ev_resource ?e = p"
    using assms(1-3) by (simp_all add: Enrich_def split: option.split)
  have "IsTaintedWritten p (kernel (note_file h ?e agent (observe_dns h ?e ag)))"
    using note_write_taints [OF e(1,2), of "observe_dns h ?e ag" agent h] e(3) assms(4,6,7) by simp
  then have tainted: "IsTaintedWritten p (kernel ag1)"
    unfolding assms(9) handle_file [OF assms(1,5), of h] by (simp add: IsTaintedWritten_def taint_files_frames)
  have dry: "\<not> e_dryRun (fst (ag_dm ag2))" using agent_run_dry [OF assms(10)] assms(8,9) by (simp add: syscall_dry)
  have "p \<noteq> []" using assms(4) by (simp add: isExactPath_def)
  then have "checkInterpreterScript h' ex ag2 = (if IsTaintedWritten p (kernel ag2)
      then apply_decision h' (Some s) EffectKill (Some (SyscallEvent.truncate ex)) ag2 else ag2)"
    using assms(11-13) by (simp add: checkInterpreterScript_def)
  then show ?thesis using tainted dry assms(14) by (simp add: apply_decision_def Apply_def applyKill_def Let_def split_def)
qed

text \<open>A script whose name contains a wildcard character is never recognised.\<close>

lemma wildcard_script_runs:
  assumes "resolveScriptArg h (ev_pid ex) = (True, p)" "0x5b \<in> set p \<or> 0x2a \<in> set p \<or> 0x3f \<in> set p"
  shows "checkInterpreterScript h ex ag = ag"
proof -
  have "\<not> IsTaintedWritten p s" for s using assms(2) by (auto simp: IsTaintedWritten_def isExactPath_def)
  with assms(1) show ?thesis by (simp add: checkInterpreterScript_def split: option.split)
qed

definition no_scripts :: engine where
  "no_scripts = loaded (sem_rule (no_sem\<lparr>sm_Provenance := chars ''agent-code''\<rparr>) ''exec'')"

definition script_host :: host where
  "script_host = quiet_host\<lparr>hp_os := quiet_os\<lparr>os_cmdline := (\<lambda>_. Some (chars ''/usr/bin/python3'' @ 0 # chars ''-B'' @ 0 # chars ''data.txt''))\<rparr>,
     hp_cwd := (\<lambda>_. Some (chars ''/home/u''))\<rparr>"

theorem written_script_killed_witness:
  "ag_killed (checkInterpreterScript script_host ((proc_event ''exec'' 11 10 ''/usr/bin/python3'')\<lparr>ev_Session := Some (chars ''a'', AgentCodex)\<rparr>)
     (on_kernel forked (handle_syscall quiet_host (file_event ''write'' ''/home/u/data.txt'') (watched (one_agent unmanaged) no_scripts))))
   = ag_killed (handle_syscall quiet_host (file_event ''write'' ''/home/u/data.txt'') (watched (one_agent unmanaged) no_scripts)) @ [10]"
proof -
  let ?ag = "watched (one_agent unmanaged) no_scripts" and ?wr = "file_event ''write'' ''/home/u/data.txt''"
  let ?ex = "(proc_event ''exec'' 11 10 ''/usr/bin/python3'')\<lparr>ev_Session := Some (chars ''a'', AgentCodex)\<rparr>"
  let ?s = "the (mg_store (one_agent unmanaged) (chars ''a''))" and ?ag1 = "handle_syscall quiet_host ?wr (watched (one_agent unmanaged) no_scripts)"
  let ?ag2 = "on_kernel forked ?ag1"
  have f: "ev_Category ?wr = CategoryFile" "ev_Operation ?wr = ''write''" "ev_resource ?wr = chars ''/home/u/data.txt''"
    "isExactPath (chars ''/home/u/data.txt'')" "ev_Session (Enrich (one_agent unmanaged) ?wr) = Some (chars ''a'', AgentCodex)"
    "WantsTaintedCodeBlock no_scripts AgentCodex" "sessionByID (one_agent unmanaged) (ev_sid ?ex) = Some ?s" "ss_Agent ?s = AgentCodex"
    "kill_targets (to_enforce ?s) = [10]"
    by code_simp+
  have r: "resolveScriptArg script_host (ev_pid ?ex) = (True, chars ''/home/u/data.txt'')" by code_simp
  have run: "?ag1 = decide_syscall quiet_host (Enrich (ag_mgr ?ag) ?wr) (chars ''a'')
      (note_file quiet_host (Enrich (ag_mgr ?ag) ?wr) AgentCodex (observe_dns quiet_host (Enrich (ag_mgr ?ag) ?wr) ?ag))"
    by (rule handle_file) (use f in simp_all)
  then have same: "ag_mgr ?ag1 = one_agent unmanaged" "en_rules (ag_policy ?ag1) = en_rules no_scripts" by (simp_all add: decide_same)
  have "forked = (\<lambda>s. snd (run_bpf sample_env (Proc (C_proc_fork \<lparr>child_pid = 101\<rparr>)) s))" by (simp add: forked_def run_calls_def fun_eq_iff)
  then have "agent_step\<^sup>*\<^sup>* ?ag1 ?ag2" using agent_step.program [of ?ag1 sample_env] by (metis r_into_rtranclp)
  note killed = written_script_killed [of ?wr "chars ''/home/u/data.txt''" ?ag "chars ''a''" AgentCodex quiet_host ?ag1 ?ag2 ?ex ?s script_host,
      OF _ _ _ _ _ _ _ _ _ this]
  have "ak_taint_files (forked s) = ak_taint_files s" for s
    by (auto simp: forked_def run_calls_def ak_proc_fork_def arm_pid_def Let_def split: option.split)
  then have "IsTaintedWritten p (forked s) = IsTaintedWritten p s" for p s by (simp add: IsTaintedWritten_def)
  then show ?thesis using killed f r same by (simp add: WantsTaintedCodeBlock_def)
qed

end
