(* ===== verification/AK_Timeline.thy ===== *)
theory AK_Timeline
  imports AK_PushDown
begin

text \<open>
  The stateful side of the policy engine (\<open>internal/policy/engine.go\<close>): the timeline of markers
  behind \<open>after\<close> and \<open>within\<close>, through any sequence of the engine's operations. The abstract timeline is
  a map from session and marker to the last time; the engine's own table of at most 2048 sessions
  refines it.
\<close>

section \<open>Operations in sequence\<close>

text \<open>\<open>pick\<close> is the choice of a session to evict, which Go leaves to the iteration order of a map.\<close>

datatype engine_op =
  OpLoad "Policy option list"
| OpSyscall nat SyscallEvent int "session option"
| OpSemantic nat SemanticEvent "session option"
| OpAction nat CorrelatedAction "session option"
| OpForget bytes

fun run_op :: "engine_op \<Rightarrow> engine \<Rightarrow> engine" where
  "run_op (OpLoad policies) en = snd (Load policies en)"
| "run_op (OpSyscall pick ev t sess) en = snd (EvaluateSyscall pick ev t sess en)"
| "run_op (OpSemantic pick sev sess) en = snd (EvaluateSemantic pick sev sess en)"
| "run_op (OpAction pick a sess) en = snd (EvaluateAction pick a sess en)"
| "run_op (OpForget sid) en = ForgetSession sid en"

text \<open>The marker an operation leaves: session, marker, time.\<close>

definition session_mark :: "session option \<Rightarrow> bytes \<Rightarrow> int \<Rightarrow> (bytes \<times> bytes \<times> int) option" where
  "session_mark sess m t = (case sess of None \<Rightarrow> None | Some s \<Rightarrow> if ss_ID s = [] \<or> m = [] then None else Some (ss_ID s, m, t))"

fun op_mark :: "engine_op \<Rightarrow> (bytes \<times> bytes \<times> int) option" where
  "op_mark (OpSyscall pick ev t sess) = session_mark sess (chars (mapOp (ev_Operation ev))) t"
| "op_mark (OpSemantic pick sev sess) =
     session_mark sess (case sv_ToolUse sev of None \<Rightarrow> [] | Some u \<Rightarrow> tu_IntentClass u) (sv_Time sev)"
| "op_mark (OpAction pick a sess) = session_mark sess (ca_IntentClass a) (ca_Time a)"
| "op_mark _ = None"

text \<open>The abstract timeline, with the flag that says whether a loaded rule needs it.\<close>

type_synonym marks = "bytes \<times> bytes \<rightharpoonup> int"

fun spec_op :: "engine_op \<Rightarrow> bool \<times> marks \<Rightarrow> bool \<times> marks" where
  "spec_op (OpLoad policies) (on, M) =
     (case compile_policies EffectAllow policies of Inl _ \<Rightarrow> on | Inr (crs, _) \<Rightarrow> list_ex temporal_rule crs, M)"
| "spec_op (OpForget sid) (on, M) = (on, \<lambda>(s, m). if s = sid then None else M (s, m))"
| "spec_op op (on, M) =
     (on, case op_mark op of Some (s, m, t) \<Rightarrow> if on then M((s, m) \<mapsto> t) else M | None \<Rightarrow> M)"

definition runs :: "engine_op list \<Rightarrow> engine" where
  "runs ops = fold run_op ops New_engine"

definition spec_runs :: "engine_op list \<Rightarrow> bool \<times> marks" where
  "spec_runs ops = fold spec_op ops (False, Map.empty)"

definition marked_sessions :: "engine_op list \<Rightarrow> bytes set" where
  "marked_sessions ops = {s. \<exists>op \<in> set ops. \<exists>m t. op_mark op = Some (s, m, t)}"

section \<open>The table\<close>

definition timeline_ok :: "timeline \<Rightarrow> bool" where
  "timeline_ok tm \<longleftrightarrow>
     length tm \<le> maxTimelineSessions \<and> distinct (map fst tm)
     \<and> (\<forall>(s, m) \<in> set tm. s \<noteq> [] \<and> m [] = None)"

lemma evict_one_length: "ts \<noteq> [] \<Longrightarrow> length (evict_one pick ts) = length ts - 1"
proof -
  assume "ts \<noteq> []"
  then have "pick mod length ts < length ts" by simp
  then show ?thesis by (simp add: evict_one_def Let_def)
qed

lemma evict_one_set: "set (evict_one pick ts) \<subseteq> set ts"
  by (auto simp: evict_one_def Let_def dest: in_set_takeD in_set_dropD)

lemma evict_one_distinct:
  assumes "distinct (map fst ts)"
  shows "distinct (map fst (evict_one pick ts))"
proof -
  let ?i = "pick mod length ts"
  have "set (take ?i (map fst ts)) \<inter> set (drop (Suc ?i) (map fst ts)) = {}"
    using assms by (intro set_take_disj_set_drop_if_distinct) simp_all
  then show ?thesis using assms
    by (simp add: evict_one_def Let_def flip: take_map drop_map)
qed

lemma evict_one_map_of:
  assumes "distinct (map fst ts)" "map_of (evict_one pick ts) s = Some m"
  shows "map_of ts s = Some m"
  using assms evict_one_set [of pick ts] by (simp add: subset_eq evict_one_distinct)

definition make_room :: "nat \<Rightarrow> timeline \<Rightarrow> timeline" where
  "make_room pick tm = (if maxTimelineSessions \<le> length tm then evict_one pick tm else tm)"

lemma make_room_set: "set (make_room pick tm) \<subseteq> set tm"
  using evict_one_set by (auto simp: make_room_def)

lemma make_room_length: "length tm \<le> maxTimelineSessions \<Longrightarrow> length (make_room pick tm) < maxTimelineSessions"
  by (cases "tm = []") (auto simp: make_room_def evict_one_length maxTimelineSessions_def)

lemma make_room_ok:
  assumes "timeline_ok tm" "map_of tm sid = None" "sid \<noteq> []" "m \<noteq> []"
  shows "timeline_ok ((sid, [m \<mapsto> t]) # make_room pick tm)"
  using assms make_room_set [of pick tm] make_room_length [of tm pick]
  by (auto simp: timeline_ok_def map_of_eq_None_iff make_room_def evict_one_distinct Suc_le_eq)

lemma recordMarker_timeline:
  "en_timeline (recordMarker pick sid m t en) =
     (if \<not> en_hasTemporal en \<or> sid = [] \<or> m = [] then en_timeline en
      else case map_of (en_timeline en) sid of
        Some M \<Rightarrow> AList.update sid (M(m \<mapsto> t)) (en_timeline en)
      | None \<Rightarrow> (sid, [m \<mapsto> t]) # make_room pick (en_timeline en))"
  by (simp add: recordMarker_def make_room_def Let_def split: option.split)

lemma recordMarker_flag [simp]: "en_hasTemporal (recordMarker pick sid m t en) = en_hasTemporal en"
  by (simp add: recordMarker_def Let_def split: option.split)

lemma recordMarker_off: "\<not> en_hasTemporal en \<Longrightarrow> recordMarker pick sid m t en = en"
  by (simp add: recordMarker_def)

lemma length_AList_update: "map_of al k \<noteq> None \<Longrightarrow> length (AList.update k v al) = length al"
  by (induction al) auto

lemma recordMarker_ok:
  assumes "timeline_ok (en_timeline en)"
  shows "timeline_ok (en_timeline (recordMarker pick sid m t en))"
proof (cases "map_of (en_timeline en) sid")
  case None
  then show ?thesis using assms by (simp add: recordMarker_timeline make_room_ok)
next
  case (Some M)
  then have "M [] = None" using assms map_of_SomeD [OF Some] by (auto simp: timeline_ok_def)
  moreover have "set (AList.update sid X al) \<subseteq> insert (sid, X) (set al)" for X :: "bytes \<rightharpoonup> int" and al
    by (induction al) auto
  ultimately have "\<forall>(s, f) \<in> set (AList.update sid (M(m \<mapsto> t)) (en_timeline en)). s \<noteq> [] \<and> f [] = None"
    if "m \<noteq> []" using that assms map_of_SomeD [OF Some] unfolding timeline_ok_def by fastforce
  then show ?thesis
    using assms Some by (simp add: recordMarker_timeline timeline_ok_def length_AList_update distinct_update)
qed

lemma ForgetSession_ok:
  assumes "timeline_ok (en_timeline en)"
  shows "timeline_ok (en_timeline (ForgetSession sid en))"
proof -
  have "length (AList.delete sid al) \<le> length al" "set (AList.delete sid al) \<subseteq> set al" for al :: timeline
    by (auto simp: AList.delete_eq)
  then show ?thesis using assms unfolding ForgetSession_def timeline_ok_def
    by (fastforce intro: order_trans distinct_delete)
qed

lemmas timeline_steps = recordMarker_ok ForgetSession_ok

text \<open>What every operation does to the timeline: a marker, a forgotten session, or nothing.\<close>

lemma run_op_marks:
  assumes "\<nexists>policies. op = OpLoad policies" "\<nexists>sid. op = OpForget sid"
  shows "(op_mark op = None \<and> run_op op en = en)
    \<or> (\<exists>pick s m t. op_mark op = Some (s, m, t) \<and> s \<noteq> [] \<and> m \<noteq> [] \<and> run_op op en = recordMarker pick s m t en)"
proof (cases op)
  case (OpSyscall pick ev t sess)
  then show ?thesis
    by (cases sess) (auto simp: EvaluateSyscall_def mark_session_def session_mark_def recordMarker_def)
next
  case (OpSemantic pick sev sess)
  then show ?thesis
    by (cases sess; cases "sv_ToolUse sev"; cases "sv_DBQuery sev")
      (auto simp: EvaluateSemantic_def mark_session_def session_mark_def recordMarker_def empty_sem_def Let_def)
next
  case (OpAction pick a sess)
  then show ?thesis
    by (cases sess) (auto simp: EvaluateAction_def mark_session_def session_mark_def recordMarker_def empty_sem_def Let_def
        split: prod.splits)
qed (use assms in auto)

lemma Load_timeline:
  "en_timeline (snd (Load policies en)) = en_timeline en"
  "en_hasTemporal (snd (Load policies en)) =
     (case compile_policies EffectAllow policies of Inl _ \<Rightarrow> en_hasTemporal en | Inr (crs, _) \<Rightarrow> list_ex temporal_rule crs)"
  by (auto simp: Load_def split: sum.splits)

lemma run_op_ok: "timeline_ok (en_timeline en) \<Longrightarrow> timeline_ok (en_timeline (run_op op en))"
  using run_op_marks [of op en]
  by (cases op) (auto simp: Load_timeline timeline_steps)

lemma runs_ok: "timeline_ok (en_timeline (runs ops))"
proof -
  have "timeline_ok (en_timeline (fold run_op ops en))" if "timeline_ok (en_timeline en)" for en
    using that by (induction ops arbitrary: en) (simp_all add: run_op_ok)
  moreover have "timeline_ok (en_timeline New_engine)" by (simp add: New_engine_def timeline_ok_def)
  ultimately show ?thesis by (simp add: runs_def)
qed

section \<open>Refinement of the abstract timeline\<close>

definition abs_timeline :: "engine \<Rightarrow> marks" where
  "abs_timeline en = (\<lambda>(s, m). markerSeen en s m)"

definition tracked :: "engine \<Rightarrow> bytes set" where
  "tracked en = fst ` set (en_timeline en)"

text \<open>Marking a session: every other session keeps its markers, or is the one that makes room.\<close>

lemma markerSeen_recordMarker:
  assumes "en_hasTemporal en" "sid \<noteq> []" "m \<noteq> []"
  shows "markerSeen (recordMarker pick sid m t en) sid m = Some t"
    "m' \<noteq> m \<Longrightarrow> markerSeen (recordMarker pick sid m t en) sid m' = markerSeen en sid m'"
  using assms
  by (cases "map_of (en_timeline en) sid"; simp add: markerSeen_def recordMarker_timeline update_conv')+

lemma markerSeen_others:
  assumes "timeline_ok (en_timeline en)" "s \<noteq> sid"
    "markerSeen (recordMarker pick sid m t en) s m' = Some t'"
  shows "markerSeen en s m' = Some t'"
proof -
  have "map_of (make_room pick (en_timeline en)) s = Some x \<Longrightarrow> map_of (en_timeline en) s = Some x" for x
    using assms(1) evict_one_map_of by (metis make_room_def timeline_ok_def)
  then show ?thesis using assms(2, 3)
    by (cases "map_of (en_timeline en) sid"; cases "map_of (make_room pick (en_timeline en)) s")
      (simp_all add: markerSeen_def recordMarker_timeline update_conv' split: if_splits)
qed

lemma markerSeen_room:
  assumes "s \<noteq> sid" "length (en_timeline en) < maxTimelineSessions"
  shows "markerSeen (recordMarker pick sid m t en) s m' = markerSeen en s m'"
  using assms by (auto simp: markerSeen_def recordMarker_timeline update_conv' make_room_def split: option.splits)

lemma markerSeen_ForgetSession:
  "markerSeen (ForgetSession sid en) s m = (if s = sid then None else markerSeen en s m)"
  by (simp add: markerSeen_def ForgetSession_def delete_conv')

lemma markerSeen_Load: "markerSeen (snd (Load policies en)) s m = markerSeen en s m"
  by (simp add: markerSeen_def Load_timeline)

lemma runs_flag: "en_hasTemporal (run_op op en) = fst (spec_op op (en_hasTemporal en, M))"
  using run_op_marks [of op en] by (cases op) (auto simp: Load_timeline ForgetSession_def)

lemma op_cases:
  obtains (load) policies where "op = OpLoad policies"
  | (forget) sid where "op = OpForget sid"
  | (idle) "op_mark op = None" "run_op op en = en" "\<And>on M. spec_op op (on, M) = (on, M)"
  | (mark) pick s m t where "op_mark op = Some (s, m, t)" "s \<noteq> []" "m \<noteq> []"
      "run_op op en = recordMarker pick s m t en"
      "\<And>on M. spec_op op (on, M) = (on, if on then M((s, m) \<mapsto> t) else M)"
proof (cases "(\<exists>policies. op = OpLoad policies) \<or> (\<exists>sid. op = OpForget sid)")
  case True
  then show ?thesis using load forget by blast
next
  case False
  then have "spec_op op (on, M) =
      (on, case op_mark op of Some (s, m, t) \<Rightarrow> if on then M((s, m) \<mapsto> t) else M | None \<Rightarrow> M)" for on M
    by (cases op) auto
  then show ?thesis using run_op_marks [of op en] False idle mark by force
qed

lemma abs_le: "abs_timeline en \<subseteq>\<^sub>m M \<longleftrightarrow> (\<forall>s m t. markerSeen en s m = Some t \<longrightarrow> M (s, m) = Some t)"
  by (auto simp: abs_timeline_def map_le_def dom_def)

text \<open>The table never knows more than the abstract timeline.\<close>

lemma run_op_sound:
  assumes "timeline_ok (en_timeline en)" "abs_timeline en \<subseteq>\<^sub>m M"
  shows "abs_timeline (run_op op en) \<subseteq>\<^sub>m snd (spec_op op (en_hasTemporal en, M))"
proof (cases rule: op_cases [where op = op and en = en])
  case (mark pick s m t)
  show ?thesis
  proof (cases "en_hasTemporal en")
    case on: True
    have "(M((s, m) \<mapsto> t)) (s', m') = Some t'" if "markerSeen (recordMarker pick s m t en) s' m' = Some t'" for s' m' t'
      using that assms(2) on mark(2, 3) markerSeen_recordMarker [where en = en and sid = s and m = m] markerSeen_others [OF assms(1), of s' s]
      by (cases "s' = s"; cases "m' = m") (auto simp: abs_le)
    then show ?thesis using on mark(4, 5) by (simp add: abs_le)
  qed (use assms(2) mark(4, 5) in \<open>simp add: recordMarker_def\<close>)
qed (use assms(2) in \<open>simp_all add: abs_le markerSeen_ForgetSession markerSeen_Load\<close>)

text \<open>With room for every session that is marked, it knows exactly as much.\<close>

lemma run_op_exact:
  assumes ok: "timeline_ok (en_timeline en)" and S: "finite S" "card S \<le> maxTimelineSessions" "tracked en \<subseteq> S"
    and op: "\<And>s m t. op_mark op = Some (s, m, t) \<Longrightarrow> s \<in> S"
  shows "abs_timeline (run_op op en) = snd (spec_op op (en_hasTemporal en, abs_timeline en)) \<and> tracked (run_op op en) \<subseteq> S"
proof (cases rule: op_cases [where op = op and en = en])
  case (load policies)
  then show ?thesis using S(3) by (simp add: abs_timeline_def fun_eq_iff markerSeen_Load tracked_def Load_timeline)
next
  case (forget sid)
  moreover have "tracked (ForgetSession sid en) \<subseteq> tracked en"
    by (auto simp: tracked_def ForgetSession_def AList.delete_eq)
  ultimately show ?thesis using S(3) by (auto simp: abs_timeline_def fun_eq_iff markerSeen_ForgetSession)
next
  case idle
  then show ?thesis using S(3) by simp
next
  case (mark pick s m t)
  have room: "length (en_timeline en) < maxTimelineSessions" if "map_of (en_timeline en) s = None"
  proof -
    have "tracked en \<subset> S" using that op [OF mark(1)] S(3) by (auto simp: tracked_def map_of_eq_None_iff)
    then have "card (tracked en) < card S" using S(1) by (simp add: psubset_card_mono)
    moreover have "card (tracked en) = length (en_timeline en)"
      using ok distinct_card [of "map fst (en_timeline en)"] by (simp add: tracked_def timeline_ok_def)
    ultimately show ?thesis using S(2) by simp
  qed
  have others: "markerSeen (recordMarker pick s m t en) s' m' = markerSeen en s' m'" if "s' \<noteq> s" for s' m'
    using that room
    by (cases "map_of (en_timeline en) s")
      (simp_all add: markerSeen_room, simp add: markerSeen_def recordMarker_timeline update_conv')
  have "tracked (recordMarker pick s m t en) \<subseteq> insert s (tracked en)"
    using make_room_set [of pick "en_timeline en"]
    by (auto simp: tracked_def recordMarker_timeline dom_update split: option.split)
  moreover have "abs_timeline (recordMarker pick s m t en) =
      (if en_hasTemporal en then (abs_timeline en)((s, m) \<mapsto> t) else abs_timeline en)"
    using mark(2, 3) recordMarker_off [of en pick s m t] markerSeen_recordMarker [where en = en and sid = s and m = m and pick = pick and t = t]
    by (cases "en_hasTemporal en") (auto simp: abs_timeline_def fun_eq_iff dest: others, metis others)
  ultimately show ?thesis using mark op [OF mark(1)] S(3) by auto
qed

lemma runs_flag_fst: "en_hasTemporal (runs ops) = fst (spec_runs ops)"
proof (induction ops rule: rev_induct)
  case (snoc op ops)
  then show ?case using runs_flag [of op "runs ops" "snd (spec_runs ops)"]
    by (simp add: runs_def spec_runs_def)
qed (simp add: runs_def spec_runs_def New_engine_def)

lemma runs_sound: "abs_timeline (runs ops) \<subseteq>\<^sub>m snd (spec_runs ops)"
proof (induction ops rule: rev_induct)
  case (snoc op ops)
  then show ?case using run_op_sound [OF runs_ok snoc, of op] runs_flag_fst [of ops]
    by (simp add: runs_def spec_runs_def)
qed (simp add: runs_def spec_runs_def New_engine_def abs_timeline_def markerSeen_def map_le_def dom_def)

lemma runs_exact:
  assumes S: "finite S" "card S \<le> maxTimelineSessions" and "marked_sessions ops \<subseteq> S"
  shows "abs_timeline (runs ops) = snd (spec_runs ops) \<and> tracked (runs ops) \<subseteq> S"
  using assms(3)
proof (induction ops rule: rev_induct)
  case Nil
  show ?case by (simp add: runs_def spec_runs_def New_engine_def abs_timeline_def markerSeen_def tracked_def fun_eq_iff)
next
  case (snoc op ops)
  have "marked_sessions ops \<subseteq> S" and op: "\<And>s m t. op_mark op = Some (s, m, t) \<Longrightarrow> s \<in> S"
    using snoc.prems by (auto simp: marked_sessions_def)
  then have IH: "abs_timeline (runs ops) = snd (spec_runs ops)" "tracked (runs ops) \<subseteq> S"
    using snoc.IH by simp_all
  show ?case using run_op_exact [OF runs_ok S IH(2) op] IH(1) runs_flag_fst [of ops]
    by (simp add: runs_def spec_runs_def)
qed

lemma finite_marked: "finite (marked_sessions ops)"
proof -
  have "marked_sessions ops \<subseteq> (\<lambda>op. fst (the (op_mark op))) ` set ops" by (force simp: marked_sessions_def)
  then show ?thesis using finite_surj by blast
qed

lemma spec_op_mark:
  assumes "snd (spec_op op (on, M)) (s, m) = Some t"
  shows "op_mark op = Some (s, m, t) \<and> on \<or> M (s, m) = Some t \<and> op \<noteq> OpForget s"
  using assms by (cases op) (auto split: option.splits if_splits)

text \<open>An abstract mark comes from an operation after which its session was not forgotten.\<close>

lemma spec_runs_mark:
  assumes "snd (spec_runs ops) (s, m) = Some t"
  shows "\<exists>pre op post. ops = pre @ op # post \<and> op_mark op = Some (s, m, t) \<and> fst (spec_runs pre)
    \<and> OpForget s \<notin> set post"
  using assms
proof (induction ops rule: rev_induct)
  case (snoc op ops)
  have run: "spec_runs (ops @ [op]) = spec_op op (fst (spec_runs ops), snd (spec_runs ops))" by (simp add: spec_runs_def)
  show ?case
  proof (cases "op_mark op = Some (s, m, t) \<and> fst (spec_runs ops)")
    case True
    then show ?thesis by (intro exI [of _ ops] exI [of _ op] exI [of _ "[]"]) simp
  next
    case False
    then have "snd (spec_runs ops) (s, m) = Some t" "op \<noteq> OpForget s"
      using spec_op_mark snoc.prems unfolding run by blast+
    then obtain pre o' post where "ops = pre @ o' # post" "op_mark o' = Some (s, m, t)" "fst (spec_runs pre)"
      "OpForget s \<notin> set post" using snoc.IH by blast
    then show ?thesis using \<open>op \<noteq> OpForget s\<close>
      by (intro exI [of _ pre] exI [of _ o'] exI [of _ "post @ [op]"]) auto
  qed
qed (simp add: spec_runs_def)

section \<open>Properties\<close>

text \<open>
  C15. Through any sequence of loads, evaluations and forgotten sessions, starting from a new engine, the
  timeline holds at most 2048 sessions and every marker in it is the last time the abstract timeline has for that session
  and marker; as long as at most 2048 sessions ever leave a marker, whatever sessions Go's map order would pick
  for eviction, the two agree on every session and marker.
\<close>

theorem timeline_refined:
  "length (en_timeline (runs ops)) \<le> 2048 \<and> abs_timeline (runs ops) \<subseteq>\<^sub>m snd (spec_runs ops)
   \<and> (card (marked_sessions ops) \<le> 2048 \<longrightarrow> abs_timeline (runs ops) = snd (spec_runs ops))"
  using runs_ok [of ops] runs_sound [of ops] runs_exact [OF finite_marked, of ops ops]
  by (simp add: timeline_ok_def maxTimelineSessions_def)

text \<open>
  A rule on connects within ten seconds of an \<open>exec\<close> intent, a run that loads it and sees such an intent, and the
  condition of the rule.
\<close>

definition after_exec :: ConditionPred where
  "after_exec = \<lparr>cd_After = chars ''exec'', cd_Within = Some (Some 10000000000), cd_SessionState = [], cd_Coverage = [], cd_Tampered = None\<rparr>"

definition quick_connect :: Rule where
  "quick_connect = \<lparr>ru_Name = chars ''q'', ru_When = \<lparr>Semantic = None, System = Some (no_sys\<lparr>sy_Op := ''connect''\<rparr>),
     Condition = Some after_exec\<rparr>, ru_Effect = ''Alert''\<rparr>"

definition exec_action :: "int \<Rightarrow> CorrelatedAction" where
  "exec_action t = \<lparr>ca_SessionID = chars ''s1'', ca_HostPID = 2, ca_Time = t, ca_ToolUseID = [], ca_ToolName = chars ''Bash'',
     ca_IntentClass = chars ''exec'', ca_Effects = [], ca_Taint = [], ca_Mismatch = False, ca_MismatchReason = []\<rparr>"

definition exec_run :: "engine_op list" where
  "exec_run = [OpLoad [Some (policy_of [quick_connect])], OpAction 0 (exec_action 5) (Some running)]"

theorem timeline_refined_witness:
  "markerSeen (runs exec_run) (chars ''s1'') (chars ''exec'') = Some 5"
proof -
  have "marked_sessions exec_run = {chars ''s1''}"
    by (simp add: marked_sessions_def exec_run_def session_mark_def running_def exec_action_def) (simp add: chars_def)
  then have "card (marked_sessions exec_run) \<le> 2048" by simp
  moreover have "snd (spec_runs exec_run) (chars ''s1'', chars ''exec'') = Some 5" by code_simp
  ultimately show ?thesis using timeline_refined [of exec_run] by (simp add: abs_timeline_def fun_eq_iff)
qed

text \<open>
  C35. A condition \<open>after: m, within: d\<close> holds in a session only when an operation of that very session
  left the marker while a temporal rule was loaded, no \<open>ForgetSession\<close> of it followed, and the time since is at most the
  duration.
\<close>

theorem after_within_window:
  assumes "temporalMatch (runs ops) p (Some s) now"
  shows "\<exists>pre op post t. ops = pre @ op # post \<and> op_mark op = Some (ss_ID s, cd_After p, t)
    \<and> en_hasTemporal (runs pre) \<and> OpForget (ss_ID s) \<notin> set post
    \<and> (\<forall>d. cd_Within p = Some (Some d) \<longrightarrow> now - t \<le> d)"
proof -
  obtain t where t: "markerSeen (runs ops) (ss_ID s) (cd_After p) = Some t"
    and d: "\<forall>d. cd_Within p = Some (Some d) \<longrightarrow> now - t \<le> d"
    using assms by (auto simp: temporalMatch_def split: option.splits)
  have "snd (spec_runs ops) (ss_ID s, cd_After p) = Some t"
    using runs_sound [of ops] t by (simp add: abs_le)
  then show ?thesis using spec_runs_mark d by (metis runs_flag_fst)
qed

theorem after_within_window_witness:
  "temporalMatch (runs exec_run) after_exec (Some running) 10000000005
   \<and> (\<exists>pre op post t. exec_run = pre @ op # post \<and> op_mark op = Some (chars ''s1'', chars ''exec'', t)
        \<and> en_hasTemporal (runs pre) \<and> OpForget (chars ''s1'') \<notin> set post \<and> 10000000005 - t \<le> 10000000000)"
proof -
  have "temporalMatch (runs exec_run) after_exec (Some running) 10000000005" by code_simp
  moreover have "ss_ID running = chars ''s1''" "cd_After after_exec = chars ''exec''" "cd_Within after_exec = Some (Some 10000000000)"
    by (simp_all add: running_def after_exec_def)
  ultimately show ?thesis using after_within_window [of exec_run after_exec running 10000000005] by (simp add: algebra_simps)
qed

end
