(* ===== verification/Spec2Isabelle.thy ===== *)
theory Spec2Isabelle
  imports AK_EndToEnd AK_KernelTypes AK_Timeline
begin

text \<open>
  AgentKnox watches and confines AI coding agents with BPF programs. This development models the
  kernel side, all of \<open>bpf/*.bpf.c\<close> and \<open>bpf/*.bpf.h\<close>, and of the Go daemon what decides and what
  meets the kernel: the decoder of ring samples (\<open>internal/bpf2frame\<close>), the policy language and
  engine (\<open>pkg/policyspec\<close>, \<open>internal/policy\<close>), the correlation engine (\<open>internal/correlate\<close>), the
  session manager (\<open>internal/session\<close>), the writers of the maps (\<open>internal/enforce\<close>, the registering
  half of \<open>internal/sensor\<close>), and of \<open>cmd/agentknox\<close> the DNS guard, the detection of MCP servers, the
  routing of database traffic, the application of a policy, the hooks of the session manager and the
  event loops that tie these together.

  \<^bold>\<open>The program.\<close> The daemon installs policy into BPF maps (rules keyed by path hash, address
  prefixes, denied table names, agent signatures, sensitive paths, its own process ids) and reads
  two rings. Tracepoint programs record what session members do and propagate membership across
  exec, fork and clone (\<open>process\<close>, \<open>file_io\<close>, \<open>file_meta\<close>, \<open>creds\<close>, \<open>network\<close>); uprobes lift TLS
  plaintext (\<open>semantic\<close>), and pipe and socket hooks lift MCP and database traffic and mark denied
  queries (\<open>stdio\<close>); the BPF-LSM hooks decide opens, execs, mutations, connects, sends, signals
  and ptrace (\<open>enforcer\<close>). All share the maps. In the daemon a decoded system call is enriched with
  its session (manager), joined with the prompts and tool calls of the agent (correlation engine) and
  answered by the policy engine; the same policies are compiled to the kernel rules the enforcer
  installs.

  \<^bold>\<open>Conventions.\<close> A program is a function of a kernel environment \<open>kenv\<close>, its context and the
  state of all maps \<open>kstate\<close>; an LSM hook also returns its verdict. Machine integers are words of
  their width. The BPF helpers are code of the kernel and not of this repository, so each is a
  field of \<open>kenv\<close> that a theorem quantifies over: probes and path resolution may fail or return
  any bytes, a map update may fail, an LRU update may evict, a ring reservation may be refused and
  returns memory with old contents, an LPM lookup is whatever the kernel answers. Where a theorem
  needs more (a successful read, a longest-prefix match) it is a hypothesis of that theorem, and
  its witness instantiates the environment concretely (\<open>sample_env\<close>). Loops that the source bounds
  for the verifier run over the same bounded range in the model; the unbounded loops of the daemon
  (the two walks over \<open>/proc\<close>, the DNS parsers) are functions with a termination proof. So every
  definition is total and no fuel is needed. An operation of the daemon is a function of an
  environment \<open>denv\<close> (whether the kernel accepts a map write), of the enforcer's bookkeeping and
  of \<open>kstate\<close>; an index out of range in Go is \<open>None\<close>, and the parsers are shown to return \<open>Some\<close>.
  Go pointers to sessions are identifiers into a store. Times are integers in nanoseconds; the
  clock, fresh identifiers, \<open>/proc\<close>, the control-group file system and the order of iteration over a
  Go map are arguments. What the code uses of Go's library (\<open>path.Match\<close>, \<open>strings\<close>, \<open>net.ParseIP\<close>,
  \<open>net.SplitHostPort\<close>, \<open>filepath\<close>) is modelled on bytes.

  \<^bold>\<open>Theories, in order.\<close>
  \<^item> \<open>AK_Prelude\<close>: words, flag tests, buffers (\<open>fit\<close>), C strings (\<open>cstr\<close>), little-endian encoding.
  \<^item> \<open>AK_Wire\<close> (\<open>wire.bpf.h\<close>): constants, \<open>event_t\<close> and its packed layout, ring records.
  \<^item> \<open>AK_Kernel\<close>: kernel structures as far as they are read, tracepoint contexts, the helpers
    (\<open>kenv\<close>) and the two map updates. \<open>AK_Maps\<close> (\<open>maps.bpf.h\<close>): the state record, one field per map.
  \<^item> \<open>AK_Helpers\<close> (\<open>helpers.bpf.h\<close>): hashing, path matching, attribution, header, emission.
    \<open>AK_Frames\<close>: what each helper leaves unchanged. \<open>AK_PathRules\<close>: the matchers against a
    specification of path rules, through the locale \<open>rolling_hash\<close>.
  \<^item> \<open>AK_Process\<close> (\<open>process.bpf.c\<close>): arming and inheritance. \<open>AK_Trace\<close> (\<open>file_io\<close>, \<open>file_meta\<close>,
    \<open>creds\<close>): the recording programs, as interpretations of the locale \<open>observer\<close>.
  \<^item> \<open>AK_Stash\<close>: the locale \<open>stash_pair\<close> of an entry probe that stashes an argument under its
    thread and an exit probe that consumes it; interpreted by \<open>AK_Network\<close> (\<open>network.bpf.c\<close>: connect,
    DNS), \<open>AK_Semantic\<close> (\<open>semantic.bpf.c\<close>: six pairs of uprobes) and \<open>AK_Stdio\<close> (\<open>stdio.bpf.c\<close>:
    pipes, and the matchers of denied queries).
  \<^item> \<open>AK_Enforcer\<close> (\<open>enforcer.bpf.c\<close>): the twelve hooks; the locale \<open>lsm_hook\<close> with the contract
    every hook keeps, and \<open>path_hook\<close>, which extends it, with the contract of the eight that
    mediate a path. \<open>AK_Verdicts\<close>, \<open>AK_Egress\<close> and \<open>AK_DbBlock\<close>: what the hooks decide.
  \<^item> \<open>AK_Userspace\<close> (\<open>internal/bpf2frame/bpf2frame.go\<close>): \<open>HashString\<close>, \<open>Decode\<close>, \<open>decodeSockaddr\<close>
    against the kernel's hash and records. \<open>AK_Dns\<close>: its DNS parsers. \<open>AK_Events\<close>: \<open>classify\<close>,
    \<open>MapSyscall\<close>, \<open>MapSemantic\<close>, from a program's record to the event the daemon works on.
  \<^item> \<open>AK_CLayout\<close>, \<open>AK_KernelTypes\<close> (\<open>vmlinux.h\<close>): placement of structure members, proved sound in
    general, the declarations of the kernel structures the programs read, and that the offsets the
    programs hard-code hit the declared members.
  \<^item> \<open>AK_Evolves\<close>: a preorder on states that every program respects (policy maps unchanged, rings
    extended, taints and postures only gain bits, arrays keep their slots). \<open>AK_System\<close>: the
    programs as one step relation \<open>bpf_step\<close> and its closure \<open>bpf_run\<close>, any program for any task
    in any order.
  \<^item> \<open>AK_Rules\<close> (\<open>internal/enforce/enforce.go\<close>): installing and clearing rules, self-protection; the
    locale \<open>rule_table\<close> is the contract of a table that is written, tracked and cleared, with the
    tables of paths and of trees as its interpretations. \<open>AK_Policy\<close>: a loaded policy against the
    verdicts of the hooks, for paths, prefixes and database tables.
  \<^item> \<open>AK_ProcTree\<close> (\<open>ppidOf\<close>, \<open>descendantsOf\<close>, \<open>sessionPids\<close>): the walk over \<open>/proc\<close>. \<open>AK_Arming\<close>: arming
    sessions, postures, taints, signatures, decisions at run time. \<open>AK_Races\<close>: look-up and update
    as two steps, and what an interleaving loses. \<open>AK_DnsGuard\<close> (\<open>cmd/agentknox/dnsguard.go\<close>,
    \<open>MatchFQDNBlock\<close>): blocking by name.
  \<^item> \<open>AK_GoText\<close>, \<open>AK_AddrText\<close>: Go's \<open>path.Match\<close>, string functions, and addresses as text, printed and
    parsed. \<open>AK_PolicySpec\<close> (\<open>pkg/policyspec\<close>, \<open>pkg/types\<close>): policies and their validation. \<open>AK_Engine\<close>
    (\<open>internal/policy/engine.go\<close>): compilation, first-match evaluation, timeline, derivation of kernel
    rules. \<open>AK_PushDown\<close>: the evaluator against the kernel; \<open>AK_Timeline\<close>: the timeline against a
    map of last times.
  \<^item> \<open>AK_Correlate\<close> (\<open>internal/correlate/engine.go\<close>): intents, indexes, taint, edges, actions.
    \<open>AK_TaintFlow\<close>: what runs of it flag. \<open>AK_Sessions\<close> (\<open>internal/session/manager.go\<close>): classification,
    creation, exit, look-up, control groups. \<open>AK_Lifecycle\<close>: the manager's step relation and invariant.
    \<open>AK_Sensor\<close> (\<open>internal/sensor\<close>, \<open>mcp.go\<close>, \<open>db.go\<close>): registration, MCP candidates, database routing.
  \<^item> \<open>AK_Daemon\<close>: the enforcer's operations as one datatype, \<open>applyPolicies\<close>, and the step relation
    \<open>sys_step\<close> in which programs and operations interleave.
  \<^item> \<open>AK_Onboard\<close>, \<open>AK_Pipeline\<close> (\<open>cmd/agentknox/daemon.go\<close>): the state of the daemon as one record \<open>agentd\<close>, what it
    reads of the \<open>host\<close>, the hooks \<open>onNewSession\<close>, \<open>onSessionEnded\<close> and \<open>onMemberExit\<close>, the periodic sweep, and one turn
    of each loop (\<open>handleSyscalls\<close>, \<open>handleActions\<close>, \<open>handleSemantic\<close>, the transcripts, \<open>scanProc\<close>, the script check);
    \<open>agent_step\<close> interleaves them with reloads, timers and programs. \<open>AK_Containment\<close>: no loop loosens the
    maps that confine a session (the locale \<open>confining\<close>), except the end of a session. \<open>AK_EndToEnd\<close>: from an event of the kernel
    through the daemon back to what the kernel refuses. This theory: the properties of runs of programs, of the enforcer's and of the sensor's operations (\<open>map_step\<close>).

  \<^bold>\<open>What is shown.\<close> The rule matchers decide exactly the path rules; each hook's verdict is
  characterised on every branch, fails closed on unresolved paths and respects earlier modules
  and monitor-only sessions; what a member wrote is not executed under deny-tainted-code and what reads a secret cannot
  connect, over arbitrary runs; denied queries are refused and leave no mark; membership survives
  daemonizing; captures are exact to the byte and to the thread; records decode to what was
  written; no program alters policy or retracts a record. On the daemon's side: a reload puts
  exactly the new rules in force, and what they say is what the hooks refuse; arming reaches the
  whole process tree and no operation of the enforcer releases a member; deny-tainted-code follows
  the policy;
  names that are blocked stay blocked while they are tracked; the parsers return on every input
  and invert the wire format. What the evaluator blocks before the operation the kernel refuses, and
  for plain Block rules the two agree exactly; a condition on an earlier event holds only inside
  its window; a secret read that no prompt asked for marks every later connection of the session,
  also through a staged copy; an effect is attributed to the last recent tool call; the session
  indexes stay consistent; MCP pipes are captured for candidates only. End to end: once the daemon has
  handled the unasked read of a secret, the session's control group stays cut off while the session
  lives, whatever the loops and programs do; a detected agent and its descendants are enforced when its
  exec has been handled; the end of a session leaves nothing of it in the kernel; a script an agent wrote
  is killed under an interpreter while the record of the write is kept. Some theorems state limits of the code: paths beyond 256 bytes,
  rename destinations, opens for reading and writing, the exit of a thread-group leader, a full
  ring at connect, IPv4-mapped addresses, name blocks and self-protection across a reload, lost
  updates of shared words, answers and new candidates between the two parts of a sweep or an
  eviction, operations of file events, Allow rules in the push-down, semantic rules
  that match system calls, nested and neighbouring sessions, second database endpoints, actions
  handled after their session ended, strangers in a shared control group, agents adopted at start-up,
  scripts with wildcard characters in their name.

  \<^bold>\<open>Granularity.\<close> One program or one daemon operation runs to completion per step. Look-up and
  update of one entry as separate steps are modelled in \<open>AK_Races\<close> for the control word and the
  session flags; the parts of an operation under a lock of the daemon and behind it are separate
  definitions for the sweep of the DNS guard and for the operations of the MCP detector, and
  \<open>sweep_race\<close> and \<open>mcp_disarm_race\<close> show what an interleaving of them loses; elsewhere, and in the step
  relations, programs and operations interleave at their boundaries only. Map
  capacities are not counted (an update may fail in any state). Memory is read through the
  environment at each probe and may change between probes. The loops of the daemon interleave at the granularity of one event.

  \<^bold>\<open>Not modelled.\<close> The verifier, the loading and attachment of programs and the ring readers
  (\<open>internal/sensor\<close> beyond registration, \<open>internal/resolver\<close>, which scans ELF files): effects of the
  kernel and of binaries outside the repository. The semantic parser (\<open>internal/semantic\<close>): the
  events it yields are arguments, since it rests on HTTP and JSON libraries. Of the daemon, start-up
  and wiring, the watching of configuration and policy directory, the schedule of retries, archive and
  export, the readers of transcripts (their items are arguments), and the CLI and aggregator: input and
  output. The
  confidence of an action (floating point), log messages, metrics and generated ids are left out.
\<close>

section \<open>The contract of the LSM hooks\<close>

lemmas hook_facts =
  h_file_open.earlier_denial h_bprm.earlier_denial h_chmod.earlier_denial h_chown.earlier_denial
  h_truncate.earlier_denial h_unlink.earlier_denial h_rmdir.earlier_denial h_rename.earlier_denial
  h_connect.earlier_denial h_sendmsg.earlier_denial h_kill.earlier_denial h_ptrace.earlier_denial

lemmas hook_verdicts =
  h_file_open.verdict h_bprm.verdict h_chmod.verdict h_chown.verdict
  h_truncate.verdict h_unlink.verdict h_rmdir.verdict h_rename.verdict
  h_connect.verdict h_sendmsg.verdict h_kill.verdict h_ptrace.verdict

lemmas hook_monitor =
  h_file_open.monitor_allows h_bprm.monitor_allows h_chmod.monitor_allows h_chown.monitor_allows
  h_truncate.monitor_allows h_unlink.monitor_allows h_rmdir.monitor_allows h_rename.monitor_allows
  h_connect.monitor_allows h_sendmsg.monitor_allows h_kill.monitor_allows h_ptrace.monitor_allows

text \<open>
  C23. Every hook respects the modules before it and the session's mode: an earlier refusal is
  returned unchanged and nothing is recorded; otherwise the verdict is 0 or \<open>-EPERM\<close>; and a
  task of a monitor-only session is never refused.
\<close>

theorem hook_contract:
  "(lsm_prior c \<noteq> 0 \<longrightarrow> run_lsm k c s = (lsm_prior c, s))
   \<and> (lsm_prior c = 0 \<longrightarrow> fst (run_lsm k c s) \<in> {0, EPERM})
   \<and> (lsm_prior c = 0 \<longrightarrow> monitor_only k s \<longrightarrow> fst (run_lsm k c s) = 0)"
  by (cases c) (simp_all add: hook_facts hook_verdicts hook_monitor)

theorem hook_contract_witness:
  "run_lsm sample_env (C_lsm_ptrace \<lparr>t_tgid = 5\<rparr> (- 13)) init_kstate = (- 13, init_kstate)"
  using hook_contract [of "C_lsm_ptrace \<lparr>t_tgid = 5\<rparr> (- 13)" sample_env init_kstate] by simp

section \<open>Invariants of every run\<close>

text \<open>
  C9. No program changes the policy: whatever programs run, for whatever tasks, in whatever order,
  the rule tables (file, directory, IPv4 and IPv6 prefixes, denied tables), the agent signatures,
  the sensitive paths, AgentKnox's own process list, the registered cgroups and the registered
  pipe descriptors are those the daemon installed.
\<close>

theorem policy_integrity:
  assumes "bpf_run s t"
  shows "ak_enforce_file t = ak_enforce_file s \<and> ak_enforce_dir t = ak_enforce_dir s
    \<and> ak_enforce_net t = ak_enforce_net s \<and> ak_enforce_net6 t = ak_enforce_net6 s
    \<and> ak_db_deny_tables t = ak_db_deny_tables s \<and> ak_agent_sigs t = ak_agent_sigs s
    \<and> ak_sensitive_files t = ak_sensitive_files s \<and> ak_self t = ak_self s
    \<and> ak_sessions t = ak_sessions s \<and> ak_mcp_fds t = ak_mcp_fds s"
  using bpf_run_evolves [OF assms] by (simp add: evolves_def policy_def)

text \<open>An agent's exec, a write-open and a fork.\<close>

definition sample_calls :: "(kenv \<times> bpf_call) list" where
  "sample_calls = [(sample_env, Proc (C_execve query_ctx)), (sample_env, Lsm (C_lsm_file_open (some_file 2) 0)),
     (sample_env, Proc (C_proc_fork \<lparr>child_pid = 101\<rparr>))]"

theorem policy_integrity_witness:
  "ak_enforce_dir (run_calls sample_calls etc_rules) (fnv1a (chars ''/etc'')) = Some AK_OP_OPEN"
  using policy_integrity [OF run_calls_run, of sample_calls etc_rules] by (simp add: etc_rules_def)

text \<open>
  Everything that writes the maps, in any order: the programs, the enforcer's operations, and what
  the sensor registers and releases for sessions, processes and MCP pipes.
\<close>

inductive map_step :: "daemon \<Rightarrow> daemon \<Rightarrow> bool" where
  system: "sys_step dm dm' \<Longrightarrow> map_step dm dm'"
| session_on: "map_step (e, s) (e, RegisterSession d cg s)"
| session_off: "map_step (e, s) (e, UnregisterSession cg s)"
| pid_on: "map_step (e, s) (e, RegisterPID d pid s)"
| pid_off: "map_step (e, s) (e, UnregisterPID pid s)"
| fd_on: "map_step (e, s) (e, RegisterMcpFd d tgid fd s)"
| fd_off: "map_step (e, s) (e, UnregisterMcpFd tgid fd s)"
| capture: "map_step (e, s) (e, SetMcpArmed d on s)"

abbreviation map_run :: "daemon \<Rightarrow> daemon \<Rightarrow> bool" where
  "map_run \<equiv> map_step\<^sup>*\<^sup>*"

lemmas sensor_ops = RegisterSession_def UnregisterSession_def RegisterPID_def UnregisterPID_def RegisterMcpFd_def
  UnregisterMcpFd_def SetMcpArmed_def

lemma run_calls_map: "map_run (e, s) (e, run_calls cs s)"
proof (induction cs arbitrary: s)
  case (Cons kc cs)
  obtain k c where kc: "kc = (k, c)" by (cases kc)
  have "map_step (e, s) (e, snd (run_bpf k c s))" by (intro map_step.system sys_step.program)
  with Cons.IH [of "snd (run_bpf k c s)"] show ?case by (simp add: kc run_calls_def)
qed (simp add: run_calls_def)

lemma map_step_formed: "map_step dm dm' \<Longrightarrow> formed (snd dm) \<Longrightarrow> formed (snd dm')"
  by (induction rule: map_step.induct) (auto simp: sensor_ops formed_flags Let_def dest: sys_step_formed)

lemma map_run_formed: "map_run dm dm' \<Longrightarrow> formed (snd dm) \<Longrightarrow> formed (snd dm')"
  by (induction rule: rtranclp_induct) (auto intro: map_step_formed)

lemma map_run_inode: "map_run dm dm' \<Longrightarrow> bits_le (ak_taint_inode (snd dm)) (ak_taint_inode (snd dm'))"
proof (induction rule: rtranclp_induct)
  case (step dm' dm'')
  have "bits_le (ak_taint_inode (snd dm')) (ak_taint_inode (snd dm''))"
    using step(2) by (cases rule: map_step.cases) (auto simp: sensor_ops Let_def intro: sys_run_inode)
  with step.IH show ?case by (simp add: bits_le_def)
qed simp

text \<open>
  C31. Every reachable state is well-formed: from the maps as the kernel creates them, through any
  interleaving of the programs, of the enforcer's operations and of the sensor's registrations
  (whatever the kernel accepts of their writes), each CPU's path buffer has 1024 bytes and its query
  buffer 64, every error counter and the control word exist, and the four slots of the denied-table
  array hold 32-byte names, so no look-up of an array slot fails.
\<close>

theorem reachable_wf:
  assumes "map_run (e, init_kstate) (e', t)"
  shows "wf_arrays t \<and> wf_tables t"
proof -
  have "formed init_kstate" by (simp add: formed_def wf_arrays_def wf_tables_def init_kstate_def AK_DB_SCAN_def)
  then show ?thesis using map_run_formed [OF assms] by (simp add: formed_def)
qed

text \<open>The daemon registers and enforces process 100, which then execs, opens a file for writing and forks.\<close>

theorem reachable_wf_witness:
  "ak_session_pids (snd (EnforcePID accepting 100 (fresh_enforcer, RegisterPID accepting 100 init_kstate))) 100 = Some 3
   \<and> wf_arrays (run_calls sample_calls (snd (EnforcePID accepting 100 (fresh_enforcer, RegisterPID accepting 100 init_kstate))))"
proof -
  let ?s = "RegisterPID accepting 100 init_kstate"
  let ?t = "snd (run_daemon accepting (Op_EnforcePID 100) (fresh_enforcer, ?s))"
  have e: "run_daemon accepting (Op_EnforcePID 100) (fresh_enforcer, ?s) = (fresh_enforcer, ?t)"
    by (simp add: EnforcePID_def)
  have "map_run (fresh_enforcer, init_kstate) (fresh_enforcer, ?s)" by (intro r_into_rtranclp map_step.pid_on)
  also have "map_run (fresh_enforcer, ?s) (fresh_enforcer, ?t)"
    using map_step.system [OF sys_step.operation [of "(fresh_enforcer, ?s)" accepting "Op_EnforcePID 100"]] e by auto
  also have "map_run (fresh_enforcer, ?t) (fresh_enforcer, run_calls sample_calls ?t)" by (rule run_calls_map)
  finally have "wf_arrays (run_calls sample_calls ?t)" using reachable_wf by blast
  moreover have "ak_session_pids ?t 100 = Some 3"
    by (simp add: EnforcePID_def arm_member_def armKey_def armKey_next_def put_word_def RegisterPID_def orFlags_def sessionFlags_def
        session_flags_def fresh_enforcer_def accepting_def init_kstate_def word_sle_eq ak_const)
  ultimately show ?thesis by simp
qed

text \<open>
  The audit trail is append-only: a run only extends the event ring and the semantic ring; no
  record that was submitted is changed or removed by a later program.
\<close>

lemma rings_append_only:
  assumes "bpf_run s t"
  shows "\<exists>es cs. ak_events t = ak_events s @ es \<and> ak_semantic t = ak_semantic s @ cs"
  using bpf_run_evolves [OF assms] by (auto simp: evolves_def prefix_def)

lemma rings_append_only_example:
  "\<exists>es. ak_events (run_calls sample_calls (ak_openat sample_env query_ctx (member_state 1)))
     = ak_events (ak_openat sample_env query_ctx (member_state 1)) @ es"
  using rings_append_only [OF run_calls_run, of sample_calls "ak_openat sample_env query_ctx (member_state 1)"] by blast

section \<open>Provenance across runs\<close>

lemma taint_write_inode:
  assumes "ak_deny_code_armed s flags cgid" "f_inode file \<noteq> 0"
    and "k_inode_create k (f_inode file) \<or> ak_taint_inode s (f_inode file) \<noteq> None"
  shows "opt_has (ak_taint_inode (ak_taint_write k buf flags cgid file s) (f_inode file)) AK_TAINT_WRITTEN"
  using assms
  by (auto simp: ak_taint_write_def Let_def inode_storage_get_create_def taint_value_def ak_flag
      split: option.split)

lemma write_open_taints_inode:
  assumes "enforced k s" "ak_deny_code_armed s (ak_session_flags k s) (k_cgroup_id k)"
    and "has (f_mode file) 0x2" "fst (ak_lsm_file_open k file 0 s) = 0" "f_inode file \<noteq> 0"
    and "k_inode_create k (f_inode file) \<or> ak_taint_inode s (f_inode file) \<noteq> None"
  shows "opt_has (ak_taint_inode (snd (ak_lsm_file_open k file 0 s)) (f_inode file)) AK_TAINT_WRITTEN"
proof -
  obtain buf where p: "path_of k (f_path file) s = Some buf" "\<not> open_blocked k file s buf"
    using p_file_open.allowedE [OF assms(1,4)] by blast
  let ?s2 = "ak_emit_kstr k (k_cgroup_id k) AK_PSEUDO_LSM_FILE AK_CAT_FILE 0 (Some buf)
               (snd (ak_path_resolve k (f_path file) s))"
  have "snd (ak_lsm_file_open k file 0 s) = ak_taint_write k buf (ak_session_flags k s) (k_cgroup_id k) file ?s2"
    using assms(1,3) p by (simp add: enforced_def ak_lsm_file_open_def open_blocked_def Let_def resolve_simps)
  then show ?thesis
    using taint_write_inode [of ?s2] assms(2,5,6) by simp
qed

lemma exec_of_tainted_refused:
  assumes "enforced k s" "ak_deny_code_armed s (ak_session_flags k s) (k_cgroup_id k)"
    and "f_inode (bprm_file bprm) \<noteq> 0"
    and "opt_has (ak_taint_inode s (f_inode (bprm_file bprm))) AK_TAINT_WRITTEN"
  shows "fst (ak_lsm_bprm k bprm 0 s) = EPERM"
  using assms
  by (simp add: p_bprm.mediates exec_blocked_def ak_deny_taint_def ak_ino_tainted_def split: option.split)

text \<open>
  C1. What an agent wrote it cannot execute: once an enforced member under deny-tainted-code has
  opened a file for writing, then after any run of programs and of the enforcer's and the sensor's
  operations (renames, hard links, evictions from the path map, other sessions, policy reloads,
  ended sessions, shutdown) an exec of that inode, under any name, by any member that is then
  enforced and under deny-tainted-code is refused. (A reload that drops the rule against
  agent-written code lifts deny-tainted-code, and with it this refusal.) Assumed of the kernel: the
  inode storage could be created, and the inode was not reloaded in between.
\<close>

theorem written_file_never_executes:
  assumes "enforced k s" "ak_deny_code_armed s (ak_session_flags k s) (k_cgroup_id k)"
    and "has (f_mode file) 0x2" "fst (ak_lsm_file_open k file 0 s) = 0" "f_inode file \<noteq> 0"
    and "k_inode_create k (f_inode file) \<or> ak_taint_inode s (f_inode file) \<noteq> None"
    and "map_run (e, snd (ak_lsm_file_open k file 0 s)) (e', t)"
    and "enforced k' t" "ak_deny_code_armed t (ak_session_flags k' t) (k_cgroup_id k')"
    and "f_inode (bprm_file bprm) = f_inode file"
  shows "fst (ak_lsm_bprm k' bprm 0 t) = EPERM"
proof -
  have "opt_has (ak_taint_inode t (f_inode file)) AK_TAINT_WRITTEN"
    using write_open_taints_inode [OF assms(1-6)] map_run_inode [OF assms(7)]
    by (simp add: bits_le_def)
  with assms(5,8-10) show ?thesis by (intro exec_of_tainted_refused) simp_all
qed

theorem written_file_never_executes_witness:
  "fst (ak_lsm_bprm sample_env some_bprm 0
     (snd (ak_lsm_path_rename sample_env some_rename 0
        (snd (ak_lsm_file_open sample_env (some_file 2) 0 (member_state 7)))))) = EPERM"
proof -
  let ?s = "member_state 7"
  let ?s1 = "snd (ak_lsm_file_open sample_env (some_file 2) 0 ?s)"
  let ?t = "snd (ak_lsm_path_rename sample_env some_rename 0 ?s1)"
  have e: "enforced sample_env ?s" and n: "names sample_env any_path ?s (chars ''/a/b'')"
    by (simp_all add: sample_enforced sample_names sample_simps)
  have f: "f_path (some_file 2) = any_path" "f_inode (some_file 2) = 9" "has (f_mode (some_file 2)) 0x2"
    "f_inode (bprm_file some_bprm) = 9" "k_inode_create sample_env i" for i
    by (simp_all add: some_file_def some_bprm_def has_def sample_env_def)
  have "\<not> forbidden_spec ?s q opn" for q opn
    by (simp add: forbidden_spec_def sample_simps)
  then have open0: "fst (ak_lsm_file_open sample_env (some_file 2) 0 ?s) = 0"
    using names_simps [OF n] f(1,3) by (simp add: p_file_open.mediates [OF e] open_blocked_def)
  have pids: "ak_session_flags sample_env ?t = ak_session_flags sample_env ?s"
  proof (rule ak_session_flags_cong)
    have "evolves ?s ?s1" "evolves ?s1 ?t" by (rule hooks_evolve)+
    then show "ak_self ?t = ak_self ?s" "ak_sessions ?t = ak_sessions ?s"
      by (simp_all add: evolves_def policy_def)
  qed (simp add: rename_pids write_open_frame f(3))
  have fl: "ak_session_flags sample_env ?s = 7" by (simp add: member_flags sample_simps)
  have "map_run (fresh_enforcer, ?s1) (fresh_enforcer, ?t)"
    using map_step.system [OF sys_step.program [of fresh_enforcer ?s1 sample_env "Lsm (C_lsm_path_rename some_rename 0)"]] by auto
  then show ?thesis
    using written_file_never_executes [OF e _ f(3) open0, of fresh_enforcer fresh_enforcer ?t sample_env some_bprm] f(2,4,5) pids fl
    by (simp add: ak_deny_code_armed_def enforced_def has_def ak_const)
qed

section \<open>Egress across runs\<close>

text \<open>
  C2. A secret once read stays in: when an enforced member's read-open of a sensitive file was
  allowed and the cgroup's posture could be recorded, then after any run of programs every
  enforced task of that cgroup, forked, reparented or in another process, is refused any IPv4 or
  IPv6 connect other than to port 53. (Only the daemon can lift the posture.)
\<close>

theorem secret_read_bars_cgroup:
  assumes "enforced k s" "names k (f_path file) s q" "\<not> has (f_mode file) 0x2"
    and "ak_sensitive_files s (fnv1a q) = Some v" "v \<noteq> 0"
    and "fst (ak_lsm_file_open k file 0 s) = 0" "k_update k M_posture (k_cgroup_id k) = 0"
    and "bpf_run (snd (ak_lsm_file_open k file 0 s)) t"
    and "enforced k' t" "k_cgroup_id k' = k_cgroup_id k"
    and "sock_family k' address = 2 \<or> sock_family k' address = 10" "sock_port k' address \<noteq> 53"
  shows "fst (ak_lsm_socket_connect k' address 0 t) = EPERM"
proof -
  have "opt_has (ak_posture (snd (ak_lsm_file_open k file 0 s)) (k_cgroup_id k)) AK_POSTURE_DENY_EGRESS"
    by (rule sensitive_open_posture [OF assms(1-7)])
  then have "egress_barred k' t"
    using bpf_run_evolves [OF assms(8)] assms(10) by (simp add: evolves_def bits_le_def egress_barred_def)
  with assms(9,11,12) show ?thesis by (simp add: connect_refused_iff)
qed

theorem secret_read_bars_cgroup_witness:
  "fst (ak_lsm_socket_connect connect_env 0 0
     (run_calls [(sample_env, Proc (C_proc_fork \<lparr>child_pid = 101\<rparr>))]
        (snd (ak_lsm_file_open sample_env (some_file 1) 0 secret_state)))) = EPERM"
proof -
  let ?s1 = "snd (ak_lsm_file_open sample_env (some_file 1) 0 secret_state)"
  let ?t = "run_calls [(sample_env, Proc (C_proc_fork \<lparr>child_pid = 101\<rparr>))] ?s1"
  have "enforced sample_env ?s1"
    using sensitive_open_arms [OF secret_open(1) secret_open(2) _ secret_open(3) _ secret_open(4), of sample_env]
    by (simp add: some_file_def has_def)
  moreover have "ak_session_flags connect_env ?t = ak_session_flags sample_env ?s1"
    by (auto simp: run_calls_def ak_session_flags_def ak_proc_fork_def map_update_def split: option.split)
  ultimately have "enforced connect_env ?t" by (simp add: enforced_def)
  then show ?thesis
    using secret_read_bars_cgroup [OF secret_open(1) secret_open(2) _ secret_open(3) _ secret_open(4) _ run_calls_run]
    by (simp add: some_file_def has_def sample_env_def)
qed

end
